(* ===== verification/Js_Prelude.thy ===== *)
theory Js_Prelude
  imports Main
begin

text \<open>
  The shared vocabulary of the development: JavaScript values as the sources use them,
  errors as values, callbacks and promises, insertion-ordered objects, and the generic
  lemmas on lists and association lists that the component theories share.

  \<^item> A JavaScript value is a \<open>json\<close>. Numbers are integers: every number the modelled
    code computes with is an index, a block number, a gas amount, a token balance or a
    byte. Characters are 8-bit code units.
  \<^item> An operation that can throw or reject returns \<open>js_error + 'a\<close>. Of an error object
    the class and the literal part of its message are kept; values interpolated into a
    message are left out.
  \<^item> A callback-style operation returns the list of the invocations of its callback, in
    order; the promise wrapped around it settles with the first one and never settles
    when the list is empty.
\<close>

section \<open>Collections of facts\<close>

named_theorems js_defs \<open>operators of JavaScript values\<close>
named_theorems inv_intros \<open>operations keep the invariant of their component\<close>

section \<open>Values\<close>

datatype json =
    JUndef
  | JNull
  | JBool bool
  | JNum int
  | JStr string
  | JArr "json list"
  | JObj "(string \<times> json) list"

text \<open>The error classes of \<open>common/errors.js\<close>.\<close>

datatype err_class =
    MissingFieldsErr | InputErr | SyncReceiverErr | TypeErr | InitPipelinesErr | P2PErr
  | EthereumErr | ActionNameErr | TaskFailedErr | TaskValidityErr | TaskVerificationErr
  | WorkerSelectionVerificationErr | TaskTimeoutErr | TaskCancelledErr
  | TaskEthereumFailureErr | EnigmaContractDataError | PlainError

text \<open>
  What the modelled code throws, rejects with or hands to a callback as the error: a
  built-in exception of the language, an instance of an error class, or a plain value.
\<close>

datatype js_error =
    JsTypeError
  | JsReferenceError
  | JsSyntaxError
  | JsRangeError
  | Err err_class string
  | ErrVal json

type_synonym 'a js = "js_error + 'a"

definition bindE :: "('e + 'a) \<Rightarrow> ('a \<Rightarrow> 'e + 'b) \<Rightarrow> 'e + 'b" where
  "bindE m f = (case m of Inl e \<Rightarrow> Inl e | Inr a \<Rightarrow> f a)"

lemma bindE_simps [simp]:
  "bindE (Inl e) f = Inl e"
  "bindE (Inr a) f = f a"
  by (simp_all add: bindE_def)

lemma bindE_eq_Inr: "bindE m f = Inr b \<longleftrightarrow> (\<exists>a. m = Inr a \<and> f a = Inr b)"
  by (cases m) auto

lemma bindE_eq_Inl: "bindE m f = Inl e \<longleftrightarrow> m = Inl e \<or> (\<exists>a. m = Inr a \<and> f a = Inl e)"
  by (cases m) auto

lemma bindE_assoc: "bindE (bindE m f) g = bindE m (\<lambda>x. bindE (f x) g)"
  by (cases m) auto

section \<open>Operators\<close>

text \<open>Truthiness, as \<open>if\<close>, \<open>&&\<close> and \<open>!\<close> use it.\<close>

fun truthy :: "json \<Rightarrow> bool" where
  "truthy JUndef = False"
| "truthy JNull = False"
| "truthy (JBool b) = b"
| "truthy (JNum n) = (n \<noteq> 0)"
| "truthy (JStr s) = (s \<noteq> [])"
| "truthy (JArr xs) = True"
| "truthy (JObj fs) = True"

fun is_str :: "json \<Rightarrow> bool" where
  "is_str (JStr s) = True"
| "is_str _ = False"

fun is_obj :: "json \<Rightarrow> bool" where
  "is_obj (JObj fs) = True"
| "is_obj _ = False"

text \<open>
  Reading a property. Objects answer \<open>undefined\<close> for a missing key; so do the other
  values for the property names the modelled code reads; \<open>undefined\<close> and \<open>null\<close> throw.
\<close>

definition obj_get :: "(string \<times> json) list \<Rightarrow> string \<Rightarrow> json" where
  "obj_get fs k = (case map_of fs k of None \<Rightarrow> JUndef | Some v \<Rightarrow> v)"

fun get_prop :: "json \<Rightarrow> string \<Rightarrow> json js" where
  "get_prop JUndef k = Inl JsTypeError"
| "get_prop JNull k = Inl JsTypeError"
| "get_prop (JObj fs) k = Inr (obj_get fs k)"
| "get_prop _ k = Inr JUndef"

text \<open>The total reading used where the value is known not to be \<open>undefined\<close> or \<open>null\<close>.\<close>

fun fld :: "json \<Rightarrow> string \<Rightarrow> json" where
  "fld (JObj fs) k = obj_get fs k"
| "fld _ k = JUndef"

lemma get_prop_fld: "get_prop v k = Inr x \<Longrightarrow> fld v k = x"
  by (cases v) auto

text \<open>
  The \<open>in\<close> operator for a property name: own keys of an object; the names the modelled
  code asks for are no property of an array; on a primitive it throws.
\<close>

fun has_prop :: "string \<Rightarrow> json \<Rightarrow> bool js" where
  "has_prop k (JObj fs) = Inr (map_of fs k \<noteq> None)"
| "has_prop k (JArr xs) = Inr False"
| "has_prop k _ = Inl JsTypeError"

text \<open>
  \<open>expected.some(attr => !(attr in obj))\<close>: stops at the first missing name.
\<close>

fun some_missing :: "string list \<Rightarrow> json \<Rightarrow> bool js" where
  "some_missing [] v = Inr False"
| "some_missing (k # ks) v =
     bindE (has_prop k v) (\<lambda>b. if \<not> b then Inr True else some_missing ks v)"

lemma some_missing_obj:
  "some_missing ks (JObj fs) = Inr (\<exists>k\<in>set ks. map_of fs k = None)"
  by (induction ks) auto

lemma some_missing_obj_False:
  "some_missing ks (JObj fs) = Inr False \<longleftrightarrow> (\<forall>k\<in>set ks. map_of fs k \<noteq> None)"
  by (simp add: some_missing_obj)

section \<open>Insertion-ordered objects\<close>

text \<open>
  Assigning \<open>obj[k] = v\<close> keeps the place of an existing key and appends a new one;
  \<open>delete obj[k]\<close> removes it; \<open>Object.keys\<close> is the list of keys in order. The keys of the
  modelled objects are task ids, addresses and field names: no array indices (which the
  language would order first) and no names of \<open>Object.prototype\<close>.
\<close>

fun obj_set :: "(string \<times> 'v) list \<Rightarrow> string \<Rightarrow> 'v \<Rightarrow> (string \<times> 'v) list" where
  "obj_set [] k v = [(k, v)]"
| "obj_set ((k', v') # fs) k v =
     (if k' = k then (k, v) # fs else (k', v') # obj_set fs k v)"

definition obj_del :: "(string \<times> 'v) list \<Rightarrow> string \<Rightarrow> (string \<times> 'v) list" where
  "obj_del fs k = filter (\<lambda>p. fst p \<noteq> k) fs"

abbreviation obj_keys :: "(string \<times> 'v) list \<Rightarrow> string list" where
  "obj_keys fs \<equiv> map fst fs"

definition obj_wf :: "(string \<times> 'v) list \<Rightarrow> bool" where
  "obj_wf fs \<longleftrightarrow> distinct (obj_keys fs)"

lemma map_of_obj_set [simp]: "map_of (obj_set fs k v) = (map_of fs)(k \<mapsto> v)"
  by (induction fs) (auto simp: fun_eq_iff)

lemma map_of_obj_del [simp]: "map_of (obj_del fs k) = (map_of fs)(k := None)"
  by (induction fs) (auto simp: obj_del_def fun_eq_iff)

lemma set_keys_obj_set [simp]: "fst ` set (obj_set fs k v) = insert k (fst ` set fs)"
  by (induction fs k v rule: obj_set.induct) (simp_all add: insert_commute)

lemma keys_obj_set:
  "obj_keys (obj_set fs k v) =
     (if k \<in> fst ` set fs then obj_keys fs else obj_keys fs @ [k])"
  by (induction fs k v rule: obj_set.induct) simp_all

lemma set_keys_obj_del [simp]: "fst ` set (obj_del fs k) = fst ` set fs - {k}"
  by (auto simp: obj_del_def)

lemma obj_wf_nil [simp, intro]: "obj_wf []"
  by (simp add: obj_wf_def)

lemma obj_wf_obj_set [intro]: "obj_wf fs \<Longrightarrow> obj_wf (obj_set fs k v)"
  unfolding obj_wf_def by (simp add: keys_obj_set)

lemma obj_wf_obj_del [intro]: "obj_wf fs \<Longrightarrow> obj_wf (obj_del fs k)"
  unfolding obj_wf_def obj_del_def by (induction fs) auto

lemma obj_set_append: "k \<notin> fst ` set fs \<Longrightarrow> obj_set fs k v = fs @ [(k, v)]"
  by (induction fs) auto

lemma obj_set_fresh_prefix:
  "k \<notin> fst ` set fs \<Longrightarrow> obj_set (fs @ gs) k v = fs @ obj_set gs k v"
  by (induction fs) auto

lemma obj_del_absent: "k \<notin> fst ` set fs \<Longrightarrow> obj_del fs k = fs"
  by (induction fs) (auto simp: obj_del_def)

lemma length_obj_del_le: "length (obj_del fs k) \<le> length fs"
  by (simp add: obj_del_def)

lemma map_of_in_keys: "map_of fs k \<noteq> None \<longleftrightarrow> k \<in> fst ` set fs"
  by (simp add: map_of_eq_None_iff)

lemma obj_wf_map_of: "obj_wf fs \<Longrightarrow> (k, v) \<in> set fs \<Longrightarrow> map_of fs k = Some v"
  by (simp add: obj_wf_def)

text \<open>Objects filled in a loop, \<open>for (const x of xs) obj[k(x)] = v(x)\<close>: the last write wins.\<close>

lemma map_of_foldl_obj_set:
  "map_of (foldl (\<lambda>obj x. obj_set obj (k x) (v x)) acc xs) = map_of acc ++ map_of (rev (map (\<lambda>x. (k x, v x)) xs))"
  by (induction xs arbitrary: acc) (simp_all add: map_add_upd_left map_of_append)

lemma obj_wf_foldl_obj_set:
  "obj_wf acc \<Longrightarrow> obj_wf (foldl (\<lambda>obj x. obj_set obj (k x) (v x)) acc xs)"
  by (induction xs arbitrary: acc) auto

lemma foldl_obj_set_distinct:
  assumes "distinct (map k xs)" "\<forall>x\<in>set xs. k x \<notin> fst ` set acc"
  shows "foldl (\<lambda>obj x. obj_set obj (k x) (v x)) acc xs = acc @ map (\<lambda>x. (k x, v x)) xs"
  using assms
proof (induction xs arbitrary: acc)
  case (Cons x xs)
  from Cons.prems have "\<forall>y\<in>set xs. k y \<notin> fst ` set (acc @ [(k x, v x)])" by (force simp: image_iff)
  with Cons show ?case by (simp add: obj_set_append)
qed simp

section \<open>Callbacks and promises\<close>

text \<open>
  A run of a callback-style operation is the list of what it does with its callback: an
  invocation with an error or a value; an exception thrown before the operation returns
  (\<open>SyncThrow\<close>); an exception that escapes later from an event handler, where nobody
  catches it (\<open>Uncaught\<close>). \<open>new Promise((res, rej) => op((err, v) => err ? rej(err) : res(v)))\<close>
  settles with the first invocation or synchronous exception, and never settles when
  there is none or when an exception escaped before.
\<close>

datatype 'a cb = Call "'a js" | SyncThrow js_error | Uncaught js_error

definition promise_settle :: "'a cb list \<Rightarrow> 'a js option" where
  "promise_settle cbs =
     (case cbs of Call c # _ \<Rightarrow> Some c | SyncThrow e # _ \<Rightarrow> Some (Inl e) | _ \<Rightarrow> None)"

lemma promise_settle_simps [simp]:
  "promise_settle [] = None"
  "promise_settle (Call c # cs) = Some c"
  "promise_settle (SyncThrow e # cs) = Some (Inl e)"
  "promise_settle (Uncaught e # cs) = None"
  by (simp_all add: promise_settle_def)

text \<open>
  A callback \<open>f\<close> put between an operation and the caller's callback: every invocation runs
  \<open>f\<close>, and what \<open>f\<close> throws escapes from an event handler; an exception of the operation
  passes. \<open>cb_bind\<close> also threads a state.
\<close>

fun escape :: "'a cb \<Rightarrow> 'a cb" where
  "escape (SyncThrow e) = Uncaught e"
| "escape c = c"

fun cb_then :: "'a cb list \<Rightarrow> ('a js \<Rightarrow> 'b cb list) \<Rightarrow> 'b cb list" where
  "cb_then [] f = []"
| "cb_then (Call c # cs) f = map escape (f c) @ cb_then cs f"
| "cb_then (SyncThrow e # cs) f = SyncThrow e # cb_then cs f"
| "cb_then (Uncaught e # cs) f = Uncaught e # cb_then cs f"

fun cb_bind :: "'a cb list \<Rightarrow> 's \<Rightarrow> ('a js \<Rightarrow> 's \<Rightarrow> 'b cb list \<times> 's) \<Rightarrow> 'b cb list \<times> 's" where
  "cb_bind [] s f = ([], s)"
| "cb_bind (Call c # cs) s f =
     (let (os, s') = f c s; (os', s'') = cb_bind cs s' f in (map escape os @ os', s''))"
| "cb_bind (SyncThrow e # cs) s f = (let (os, s') = cb_bind cs s f in (SyncThrow e # os, s'))"
| "cb_bind (Uncaught e # cs) s f = (let (os, s') = cb_bind cs s f in (Uncaught e # os, s'))"

lemma cb_bind_single [simp]:
  "cb_bind [Call c] s f = (map escape (fst (f c s)), snd (f c s))"
  by (simp add: case_prod_beta)

text \<open>A callback that only passes an error on or continues with the value.\<close>

definition on_ok :: "('a \<Rightarrow> 's \<Rightarrow> 'b cb list \<times> 's) \<Rightarrow> 'a js \<Rightarrow> 's \<Rightarrow> 'b cb list \<times> 's" where
  "on_ok f r s = (case r of Inl e \<Rightarrow> ([Call (Inl e)], s) | Inr a \<Rightarrow> f a s)"

lemma on_ok_simps [simp]:
  "on_ok f (Inl e) s = ([Call (Inl e)], s)"
  "on_ok f (Inr a) s = f a s"
  by (simp_all add: on_ok_def)

text \<open>Mapping a fallible function over a list, stopping at the first error.\<close>

fun mapE :: "('a \<Rightarrow> 'e + 'b) \<Rightarrow> 'a list \<Rightarrow> 'e + 'b list" where
  "mapE f [] = Inr []"
| "mapE f (x # xs) = bindE (f x) (\<lambda>y. bindE (mapE f xs) (\<lambda>ys. Inr (y # ys)))"

lemma mapE_Inr: "(\<And>x. x \<in> set xs \<Longrightarrow> f x = Inr (g x)) \<Longrightarrow> mapE f xs = Inr (map g xs)"
  by (induction xs) auto

section \<open>Lists\<close>

text \<open>Consecutive slices of at most \<open>n\<close> elements; used to state what a batching loop does.\<close>

function chunks :: "nat \<Rightarrow> 'a list \<Rightarrow> 'a list list" where
  "chunks n xs = (if xs = [] \<or> n = 0 then [] else take n xs # chunks n (drop n xs))"
  by pat_completeness auto
termination
  by (relation "measure (\<lambda>(n, xs). length xs)") auto

declare chunks.simps [simp del]

lemma chunks_Nil [simp]: "chunks n [] = []"
  by (simp add: chunks.simps)

lemma chunks_step: "xs \<noteq> [] \<Longrightarrow> 0 < n \<Longrightarrow> chunks n xs = take n xs # chunks n (drop n xs)"
  by (subst chunks.simps) simp

lemma concat_chunks: "0 < n \<Longrightarrow> concat (chunks n xs) = xs"
proof (induction n xs rule: chunks.induct)
  case (1 n xs)
  then show ?case by (cases "xs = []") (simp_all add: chunks_step)
qed

lemma chunks_bound: "ys \<in> set (chunks n xs) \<Longrightarrow> ys \<noteq> [] \<and> length ys \<le> n"
proof (induction n xs rule: chunks.induct)
  case (1 n xs)
  then show ?case by (subst (asm) (2) chunks.simps) (auto split: if_splits)
qed

end
