(* ===== verification/Json_Text.thy ===== *)
theory Json_Text
  imports Js_Prelude
begin

text \<open>
  \<open>JSON.stringify\<close> and \<open>JSON.parse\<close> on the values of the development. The printer drops
  members whose value is \<open>undefined\<close> and prints an \<open>undefined\<close> array element as
  \<open>null\<close>, as the language does; the parser is a recursive descent whose fuel is the
  length of the text, which \<open>JSON_parse_stringify\<close> shows to be enough for every printed
  value. The code never stringifies a bare \<open>undefined\<close>; here it is printed as
  \<open>null\<close>.
\<close>

section \<open>Numbers\<close>

definition digit_char :: "nat \<Rightarrow> char" where
  "digit_char d = char_of (48 + d)"

definition digit_val :: "char \<Rightarrow> nat" where
  "digit_val c = of_char c - 48"

definition is_digit :: "char \<Rightarrow> bool" where
  "is_digit c \<longleftrightarrow> 48 \<le> (of_char c :: nat) \<and> (of_char c :: nat) \<le> 57"

fun nat_str :: "nat \<Rightarrow> string" where
  "nat_str n = (if n < 10 then [digit_char n] else nat_str (n div 10) @ [digit_char (n mod 10)])"

declare nat_str.simps [simp del]

definition int_str :: "int \<Rightarrow> string" where
  "int_str i = (if i < 0 then CHR ''-'' # nat_str (nat (- i)) else nat_str (nat i))"

definition digits_val :: "string \<Rightarrow> nat" where
  "digits_val ds = foldl (\<lambda>n c. 10 * n + digit_val c) 0 ds"

lemma of_char_digit: "d < 10 \<Longrightarrow> of_char (digit_char d) = (48 + d :: nat)"
  by (simp add: digit_char_def)

lemma is_digit_digit_char [simp]: "d < 10 \<Longrightarrow> is_digit (digit_char d)"
  by (simp add: is_digit_def of_char_digit)

lemma digit_val_digit_char [simp]: "d < 10 \<Longrightarrow> digit_val (digit_char d) = d"
  by (simp add: digit_val_def of_char_digit)

lemma nat_str_digits: "\<forall>c\<in>set (nat_str n). is_digit c"
proof (induction n rule: nat_str.induct)
  case (1 n)
  then show ?case by (subst nat_str.simps) auto
qed

lemma nat_str_nonempty [simp]: "nat_str n \<noteq> []"
  by (subst nat_str.simps) simp

lemma digits_val_nat_str [simp]: "digits_val (nat_str n) = n"
proof (induction n rule: nat_str.induct)
  case (1 n)
  show ?case
  proof (cases "n < 10")
    case True
    then show ?thesis by (subst nat_str.simps) (simp add: digits_val_def)
  next
    case False
    with 1 have "digits_val (nat_str (n div 10)) = n div 10" by simp
    with False show ?thesis by (subst nat_str.simps) (simp add: digits_val_def)
  qed
qed

lemma nat_str_no_leading_zero: "length (nat_str n) = 1 \<or> hd (nat_str n) \<noteq> CHR ''0''"
proof (induction n rule: nat_str.induct)
  case (1 n)
  show ?case
  proof (cases "n < 10")
    case True
    then show ?thesis by (subst nat_str.simps) simp
  next
    case False
    then have "hd (nat_str n) = hd (nat_str (n div 10))"
      by (subst nat_str.simps) simp
    moreover have "hd (nat_str (n div 10)) \<noteq> CHR ''0''"
    proof (cases "n div 10 < 10")
      case True
      then have eq: "nat_str (n div 10) = [digit_char (n div 10)]"
        by (subst nat_str.simps) simp
      have "(of_char (digit_char (n div 10)) :: nat) \<noteq> of_char (CHR ''0'')"
        using True False by (simp add: of_char_digit)
      then show ?thesis using eq by auto
    next
      case big: False
      then have "length (nat_str (n div 10)) \<noteq> 1"
        by (subst nat_str.simps) simp
      with 1 False show ?thesis by simp
    qed
    ultimately show ?thesis by simp
  qed
qed

lemma nat_str_inj: "nat_str m = nat_str n \<longleftrightarrow> m = n"
  by (metis digits_val_nat_str)

section \<open>Strings\<close>

definition hex_char :: "nat \<Rightarrow> char" where
  "hex_char d = (if d < 10 then char_of (48 + d) else char_of (87 + d))"

definition hex_val :: "char \<Rightarrow> nat option" where
  "hex_val c = (let n = of_char c :: nat in
     if 48 \<le> n \<and> n \<le> 57 then Some (n - 48)
     else if 97 \<le> n \<and> n \<le> 102 then Some (n - 87)
     else if 65 \<le> n \<and> n \<le> 70 then Some (n - 55)
     else None)"

lemma hex_val_hex_char [simp]: "d < 16 \<Longrightarrow> hex_val (hex_char d) = Some d"
  by (simp add: hex_val_def hex_char_def)

definition esc_char :: "char \<Rightarrow> string" where
  "esc_char c =
     (if c = CHR 0x22 then [CHR 0x5C, CHR 0x22]
      else if c = CHR 0x5C then [CHR 0x5C, CHR 0x5C]
      else if (of_char c :: nat) < 32
        then [CHR 0x5C, CHR ''u'', CHR ''0'', CHR ''0'',
              hex_char (of_char c div 16), hex_char (of_char c mod 16)]
      else [c])"

definition str_lit :: "string \<Rightarrow> string" where
  "str_lit s = CHR 0x22 # concat (map esc_char s) @ [CHR 0x22]"

text \<open>The characters of a literal after the opening quote, up to the closing one.\<close>

fun scan_str :: "string \<Rightarrow> (string \<times> string) option" where
  "scan_str [] = None"
| "scan_str (c # cs) =
     (if c = CHR 0x22 then Some ([], cs)
      else if c = CHR 0x5C then
        (case cs of
           e # rest \<Rightarrow>
             (if e = CHR ''u'' then
                (case rest of
                   h1 # h2 # h3 # h4 # rest' \<Rightarrow>
                     (case (hex_val h1, hex_val h2, hex_val h3, hex_val h4) of
                        (Some a, Some b, Some x, Some y) \<Rightarrow>
                          (if a = 0 \<and> b = 0 then
                             map_option (apfst ((#) (char_of (16 * x + y)))) (scan_str rest')
                           else None)
                      | _ \<Rightarrow> None)
                 | _ \<Rightarrow> None)
              else if e = CHR 0x22 \<or> e = CHR 0x5C \<or> e = CHR ''/'' then
                map_option (apfst ((#) e)) (scan_str rest)
              else if e = CHR ''b'' then map_option (apfst ((#) (CHR 0x08))) (scan_str rest)
              else if e = CHR ''f'' then map_option (apfst ((#) (CHR 0x0C))) (scan_str rest)
              else if e = CHR ''n'' then map_option (apfst ((#) (CHR 0x0A))) (scan_str rest)
              else if e = CHR ''r'' then map_option (apfst ((#) (CHR 0x0D))) (scan_str rest)
              else if e = CHR ''t'' then map_option (apfst ((#) (CHR 0x09))) (scan_str rest)
              else None)
         | [] \<Rightarrow> None)
      else if (of_char c :: nat) < 32 then None
      else map_option (apfst ((#) c)) (scan_str cs))"

declare scan_str.simps [simp del]

lemma scan_str_esc: "scan_str (esc_char c @ rest) = map_option (apfst ((#) c)) (scan_str rest)"
proof -
  consider (q) "c = CHR 0x22" | (b) "c = CHR 0x5C" | (ctl) "(of_char c :: nat) < 32"
    | (other) "c \<noteq> CHR 0x22" "c \<noteq> CHR 0x5C" "\<not> (of_char c :: nat) < 32" by blast
  then show ?thesis
  proof cases
    case q
    then show ?thesis by (simp add: esc_char_def scan_str.simps)
  next
    case b
    then show ?thesis by (simp add: esc_char_def scan_str.simps)
  next
    case ctl
    then have ne: "c \<noteq> CHR 0x22" "c \<noteq> CHR 0x5C" by auto
    have lt: "of_char c div 16 < (16::nat)" using ctl by simp
    have zero: "hex_val CHR ''0'' = Some 0" by (simp add: hex_val_def)
    have "char_of (16 * (of_char c div 16) + of_char c mod 16 :: nat) = c" by simp
    then show ?thesis
      using ctl ne lt by (simp add: esc_char_def scan_str.simps zero)
  next
    case other
    then show ?thesis by (simp add: esc_char_def scan_str.simps)
  qed
qed

lemma scan_str_lit: "scan_str (concat (map esc_char s) @ CHR 0x22 # rest) = Some (s, rest)"
proof (induction s)
  case Nil
  show ?case by (simp add: scan_str.simps)
next
  case (Cons c s)
  then show ?case by (simp add: scan_str_esc)
qed

section \<open>Printer\<close>

fun json_print :: "json \<Rightarrow> string"
  and print_elems :: "json list \<Rightarrow> string"
  and print_members :: "(string \<times> json) list \<Rightarrow> string" where
  "json_print JUndef = ''null''"
| "json_print JNull = ''null''"
| "json_print (JBool b) = (if b then ''true'' else ''false'')"
| "json_print (JNum n) = int_str n"
| "json_print (JStr s) = str_lit s"
| "json_print (JArr xs) = ''['' @ print_elems xs"
| "json_print (JObj fs) = ''{'' @ print_members fs"
| "print_elems [] = '']''"
| "print_elems (x # xs) =
     json_print x @ (if xs = [] then '']'' else '','' @ print_elems xs)"
| "print_members [] = ''}''"
| "print_members ((k, v) # fs) =
     str_lit k @ '':'' @ json_print v @ (if fs = [] then ''}'' else '','' @ print_members fs)"

text \<open>What a value is once it went through text: \<open>undefined\<close> members are gone.\<close>

fun json_norm :: "json \<Rightarrow> json"
  and norm_elems :: "json list \<Rightarrow> json list"
  and norm_members :: "(string \<times> json) list \<Rightarrow> (string \<times> json) list" where
  "json_norm JUndef = JNull"
| "json_norm JNull = JNull"
| "json_norm (JBool b) = JBool b"
| "json_norm (JNum n) = JNum n"
| "json_norm (JStr s) = JStr s"
| "json_norm (JArr xs) = JArr (norm_elems xs)"
| "json_norm (JObj fs) = JObj (norm_members fs)"
| "norm_elems [] = []"
| "norm_elems (x # xs) = json_norm x # norm_elems xs"
| "norm_members [] = []"
| "norm_members ((k, v) # fs) =
     (if v = JUndef then norm_members fs else (k, json_norm v) # norm_members fs)"

definition JSON_stringify :: "json \<Rightarrow> string" where
  "JSON_stringify v = json_print (json_norm v)"

section \<open>Parser\<close>

definition is_ws :: "char \<Rightarrow> bool" where
  "is_ws c \<longleftrightarrow> c = CHR '' '' \<or> c = CHR 0x0A \<or> c = CHR 0x0D \<or> c = CHR 0x09"

definition skip_ws :: "string \<Rightarrow> string" where
  "skip_ws s = dropWhile is_ws s"

definition scan_num :: "string \<Rightarrow> (json \<times> string) option" where
  "scan_num s =
     (let neg = (s \<noteq> [] \<and> hd s = CHR ''-'');
          t = (if neg then tl s else s);
          ds = takeWhile is_digit t;
          n = int (digits_val ds)
      in if ds = [] \<or> (1 < length ds \<and> hd ds = CHR ''0'') then None
         else Some (JNum (if neg then - n else n), dropWhile is_digit t))"

definition scan_word :: "string \<Rightarrow> json \<Rightarrow> string \<Rightarrow> (json \<times> string) option" where
  "scan_word w v s = (if take (length w) s = w then Some (v, drop (length w) s) else None)"

fun parse_value :: "nat \<Rightarrow> string \<Rightarrow> (json \<times> string) option"
  and parse_elems :: "nat \<Rightarrow> string \<Rightarrow> (json list \<times> string) option"
  and parse_members :: "nat \<Rightarrow> string \<Rightarrow> ((string \<times> json) list \<times> string) option" where
  "parse_value 0 s = None"
| "parse_value (Suc n) s =
     (case skip_ws s of
        [] \<Rightarrow> None
      | c # cs \<Rightarrow>
          if c = CHR 0x22 then map_option (apfst JStr) (scan_str cs)
          else if c = CHR ''['' then
            (case skip_ws cs of
               [] \<Rightarrow> None
             | d # ds \<Rightarrow> if d = CHR '']'' then Some (JArr [], ds)
                        else map_option (apfst JArr) (parse_elems n cs))
          else if c = CHR ''{'' then
            (case skip_ws cs of
               [] \<Rightarrow> None
             | d # ds \<Rightarrow> if d = CHR ''}'' then Some (JObj [], ds)
                        else map_option (apfst JObj) (parse_members n cs))
          else if c = CHR ''n'' then scan_word ''null'' JNull (c # cs)
          else if c = CHR ''t'' then scan_word ''true'' (JBool True) (c # cs)
          else if c = CHR ''f'' then scan_word ''false'' (JBool False) (c # cs)
          else scan_num (c # cs))"
| "parse_elems 0 s = None"
| "parse_elems (Suc n) s =
     (case parse_value n s of
        None \<Rightarrow> None
      | Some (v, s') \<Rightarrow>
          (case skip_ws s' of
             [] \<Rightarrow> None
           | d # ds \<Rightarrow>
               if d = CHR '']'' then Some ([v], ds)
               else if d = CHR '','' then map_option (apfst ((#) v)) (parse_elems n ds)
               else None))"
| "parse_members 0 s = None"
| "parse_members (Suc n) s =
     (case skip_ws s of
        [] \<Rightarrow> None
      | c # cs \<Rightarrow>
          if c \<noteq> CHR 0x22 then None else
          (case scan_str cs of
             None \<Rightarrow> None
           | Some (k, s') \<Rightarrow>
               (case skip_ws s' of
                  [] \<Rightarrow> None
                | e # es \<Rightarrow>
                    if e \<noteq> CHR '':'' then None else
                    (case parse_value n es of
                       None \<Rightarrow> None
                     | Some (v, s'') \<Rightarrow>
                         (case skip_ws s'' of
                            [] \<Rightarrow> None
                          | d # ds \<Rightarrow>
                              if d = CHR ''}'' then Some ([(k, v)], ds)
                              else if d = CHR '','' then
                                map_option (apfst ((#) (k, v))) (parse_members n ds)
                              else None)))))"

text \<open>Later members of a key overwrite earlier ones, as assignments to the object.\<close>

fun json_dedup :: "json \<Rightarrow> json"
  and dedup_elems :: "json list \<Rightarrow> json list"
  and dedup_members :: "(string \<times> json) list \<Rightarrow> (string \<times> json) list \<Rightarrow> (string \<times> json) list" where
  "json_dedup (JArr xs) = JArr (dedup_elems xs)"
| "json_dedup (JObj fs) = JObj (dedup_members [] fs)"
| "json_dedup JUndef = JUndef"
| "json_dedup JNull = JNull"
| "json_dedup (JBool b) = JBool b"
| "json_dedup (JNum n) = JNum n"
| "json_dedup (JStr s) = JStr s"
| "dedup_elems [] = []"
| "dedup_elems (x # xs) = json_dedup x # dedup_elems xs"
| "dedup_members acc [] = acc"
| "dedup_members acc ((k, v) # fs) = dedup_members (obj_set acc k (json_dedup v)) fs"

definition JSON_parse :: "string \<Rightarrow> json js" where
  "JSON_parse s =
     (case parse_value (Suc (length s)) s of
        None \<Rightarrow> Inl JsSyntaxError
      | Some (v, rest) \<Rightarrow> if skip_ws rest = [] then Inr (json_dedup v) else Inl JsSyntaxError)"

section \<open>Parsing what was printed\<close>

fun json_normal :: "json \<Rightarrow> bool"
  and normal_elems :: "json list \<Rightarrow> bool"
  and normal_members :: "(string \<times> json) list \<Rightarrow> bool" where
  "json_normal JUndef = False"
| "json_normal JNull = True"
| "json_normal (JBool b) = True"
| "json_normal (JNum n) = True"
| "json_normal (JStr s) = True"
| "json_normal (JArr xs) = normal_elems xs"
| "json_normal (JObj fs) = (obj_wf fs \<and> normal_members fs)"
| "normal_elems [] = True"
| "normal_elems (x # xs) = (json_normal x \<and> normal_elems xs)"
| "normal_members [] = True"
| "normal_members ((k, v) # fs) = (json_normal v \<and> normal_members fs)"

definition num_end :: "string \<Rightarrow> bool" where
  "num_end rest \<longleftrightarrow> rest = [] \<or> \<not> is_digit (hd rest)"

lemma num_end_punct [simp]:
  "num_end (CHR '','' # r)" "num_end (CHR '']'' # r)" "num_end (CHR ''}'' # r)" "num_end []"
  by (simp_all add: num_end_def is_digit_def)

lemma takeWhile_digits:
  assumes "\<forall>c\<in>set ds. is_digit c" and "num_end rest"
  shows "takeWhile is_digit (ds @ rest) = ds" and "dropWhile is_digit (ds @ rest) = rest"
  using assms by (cases rest; simp add: num_end_def)+

lemma hd_nat_str: "is_digit (hd (nat_str n))"
  using nat_str_digits [of n] by simp

lemma scan_num_nat:
  assumes "num_end rest"
  shows "scan_num (nat_str n @ rest) = Some (JNum (int n), rest)"
proof -
  have "hd (nat_str n) \<noteq> CHR ''-''" using hd_nat_str [of n] by (auto simp: is_digit_def)
  then show ?thesis
    using takeWhile_digits [OF nat_str_digits assms, of n] nat_str_no_leading_zero [of n]
    by (auto simp: scan_num_def Let_def)
qed

lemma scan_num_int:
  assumes "num_end rest"
  shows "scan_num (int_str i @ rest) = Some (JNum i, rest)"
proof (cases "i < 0")
  case True
  then show ?thesis
    using takeWhile_digits [OF nat_str_digits assms, of "nat (- i)"]
      nat_str_no_leading_zero [of "nat (- i)"]
    by (auto simp: scan_num_def int_str_def Let_def)
next
  case False
  then show ?thesis using scan_num_nat [OF assms, of "nat i"] by (simp add: int_str_def)
qed

text \<open>How a printed value begins: no white space, no closing bracket.\<close>

definition val_start :: "char \<Rightarrow> bool" where
  "val_start c \<longleftrightarrow> \<not> is_ws c \<and> c \<noteq> CHR '']'' \<and> c \<noteq> CHR ''}''"

lemma int_str_Cons: "\<exists>c cs. int_str i = c # cs \<and> (c = CHR ''-'' \<or> is_digit c)"
  by (cases "nat_str (nat i)"; cases "i < 0")
    (use hd_nat_str [of "nat i"] in \<open>auto simp: int_str_def\<close>)

lemma digit_val_start: "is_digit c \<or> c = CHR ''-'' \<Longrightarrow> val_start c"
  by (auto simp: val_start_def is_digit_def is_ws_def)

lemma json_print_Cons: "json_normal v \<Longrightarrow> \<exists>c cs. json_print v = c # cs \<and> val_start c"
  using int_str_Cons digit_val_start
  by (cases v) (fastforce simp: val_start_def is_ws_def str_lit_def)+

lemma skip_ws_start: "val_start c \<Longrightarrow> skip_ws (c # cs) = c # cs"
  by (simp add: skip_ws_def val_start_def)

lemma skip_ws_punct [simp]:
  "skip_ws (CHR '','' # r) = CHR '','' # r" "skip_ws (CHR '']'' # r) = CHR '']'' # r"
  "skip_ws (CHR ''}'' # r) = CHR ''}'' # r" "skip_ws (CHR '':'' # r) = CHR '':'' # r"
  "skip_ws (CHR 0x22 # r) = CHR 0x22 # r" "skip_ws [] = []"
  by (simp_all add: skip_ws_def is_ws_def)

lemma parse_value_num:
  assumes "num_end rest"
  shows "parse_value (Suc n) (int_str i @ rest) = Some (JNum i, rest)"
proof -
  obtain c cs where c: "int_str i = c # cs" "c = CHR ''-'' \<or> is_digit c"
    using int_str_Cons by blast
  then have "skip_ws (int_str i @ rest) = c # cs @ rest"
    using skip_ws_start [OF digit_val_start] by auto
  moreover have "c \<notin> {CHR 0x22, CHR ''['', CHR ''{'', CHR ''n'', CHR ''t'', CHR ''f''}"
    using c(2) by (auto simp: is_digit_def)
  ultimately show ?thesis using scan_num_int [OF assms, of i] c(1) by simp
qed

lemma print_elems_Cons_start:
  "normal_elems (x # xs) \<Longrightarrow> \<exists>c cs. print_elems (x # xs) = c # cs \<and> val_start c"
  using json_print_Cons [of x] by fastforce

lemma parse_value_arr:
  assumes "normal_elems xs"
    and "xs \<noteq> [] \<Longrightarrow> parse_elems m (print_elems xs @ rest) = Some (xs, rest)"
  shows "parse_value (Suc m) (json_print (JArr xs) @ rest) = Some (JArr xs, rest)"
proof (cases xs)
  case Nil
  then show ?thesis by (simp add: skip_ws_def is_ws_def)
next
  case (Cons x xs')
  obtain c cs where c: "print_elems xs = c # cs" "val_start c"
    using print_elems_Cons_start assms(1) Cons by fastforce
  then have "skip_ws (print_elems xs @ rest) = c # cs @ rest" by (simp add: skip_ws_start)
  moreover have "c \<noteq> CHR '']''" using c(2) by (simp add: val_start_def)
  ultimately show ?thesis using assms(2) Cons by (simp add: skip_ws_def is_ws_def)
qed

lemma parse_value_obj:
  assumes "fs \<noteq> [] \<Longrightarrow> parse_members m (print_members fs @ rest) = Some (fs, rest)"
  shows "parse_value (Suc m) (json_print (JObj fs) @ rest) = Some (JObj fs, rest)"
proof (cases fs)
  case Nil
  then show ?thesis by (simp add: skip_ws_def is_ws_def)
next
  case (Cons f fs')
  obtain cs where "print_members fs = CHR 0x22 # cs"
    using Cons by (cases f) (simp add: str_lit_def)
  then show ?thesis using assms Cons by (simp add: skip_ws_def is_ws_def)
qed

lemma parse_elems_cons:
  assumes "\<And>r. num_end r \<Longrightarrow> parse_value m (json_print x @ r) = Some (x, r)"
    and "xs \<noteq> [] \<Longrightarrow> parse_elems m (print_elems xs @ rest) = Some (xs, rest)"
  shows "parse_elems (Suc m) (print_elems (x # xs) @ rest) = Some (x # xs, rest)"
  using assms by (cases "xs = []") simp_all

lemma parse_members_cons:
  assumes "\<And>r. num_end r \<Longrightarrow> parse_value m (json_print v @ r) = Some (v, r)"
    and "fs \<noteq> [] \<Longrightarrow> parse_members m (print_members fs @ rest) = Some (fs, rest)"
  shows "parse_members (Suc m) (print_members ((k, v) # fs) @ rest) = Some ((k, v) # fs, rest)"
  using assms by (cases "fs = []") (simp_all add: str_lit_def scan_str_lit)

lemma json_print_nonempty [simp]: "json_print v \<noteq> []"
  by (cases v) (simp_all add: str_lit_def int_str_def)

lemma print_elems_nonempty [simp]: "print_elems xs \<noteq> []"
  by (cases xs) simp_all

lemma print_members_nonempty [simp]: "print_members fs \<noteq> []"
  by (cases fs rule: print_members.cases) (simp_all add: str_lit_def)

lemma fuel_Suc: "length s \<le> n \<Longrightarrow> s \<noteq> [] \<Longrightarrow> \<exists>m. n = Suc m"
  by (cases n) auto

lemma parse_print:
  "json_normal v \<Longrightarrow> length (json_print v) \<le> n \<Longrightarrow> num_end rest \<Longrightarrow>
     parse_value n (json_print v @ rest) = Some (v, rest)"
  "normal_elems xs \<Longrightarrow> xs \<noteq> [] \<Longrightarrow> length (print_elems xs) \<le> n \<Longrightarrow>
     parse_elems n (print_elems xs @ rest) = Some (xs, rest)"
  "normal_members fs \<Longrightarrow> fs \<noteq> [] \<Longrightarrow> length (print_members fs) \<le> n \<Longrightarrow>
     parse_members n (print_members fs @ rest) = Some (fs, rest)"
proof (induction v and xs and fs arbitrary: n rest and n rest and n rest
    rule: json_print_print_elems_print_members.induct)
  case 2
  then show ?case by (cases n) (simp_all add: skip_ws_def is_ws_def scan_word_def)
next
  case (3 b)
  then show ?case
    by (cases n) (auto simp: skip_ws_def is_ws_def scan_word_def split: if_splits)
next
  case (4 i)
  then obtain m where "n = Suc m" using fuel_Suc json_print_nonempty by metis
  with 4 show ?case using parse_value_num by simp
next
  case (5 s)
  then show ?case by (cases n) (simp_all add: str_lit_def scan_str_lit)
next
  case (6 xs)
  then obtain m where m: "n = Suc m" using fuel_Suc json_print_nonempty by metis
  then show ?case using 6 parse_value_arr by simp
next
  case (7 fs)
  then obtain m where m: "n = Suc m" using fuel_Suc json_print_nonempty by metis
  then show ?case using 7 parse_value_obj by simp
next
  case (9 x xs)
  then obtain m where m: "n = Suc m" using fuel_Suc print_elems_nonempty by metis
  have "parse_elems (Suc m) (print_elems (x # xs) @ rest) = Some (x # xs, rest)"
    by (rule parse_elems_cons) (use 9 m in \<open>auto split: if_splits\<close>)
  then show ?case using m by simp
next
  case (11 k v fs)
  then obtain m where m: "n = Suc m" using fuel_Suc print_members_nonempty by metis
  have "parse_members (Suc m) (print_members ((k, v) # fs) @ rest) = Some ((k, v) # fs, rest)"
    by (rule parse_members_cons) (use 11 m in \<open>auto split: if_splits\<close>)
  then show ?case using m by simp
qed simp_all

lemma dedup_members_fresh:
  "obj_wf (acc @ fs) \<Longrightarrow> \<forall>(k, v)\<in>set fs. json_dedup v = v \<Longrightarrow>
     dedup_members acc fs = acc @ fs"
proof (induction fs arbitrary: acc)
  case Nil
  then show ?case by simp
next
  case (Cons f fs)
  obtain k v where f: "f = (k, v)" by force
  have "k \<notin> fst ` set acc" using Cons.prems(1) f by (auto simp: obj_wf_def)
  then have "obj_set acc k (json_dedup v) = acc @ [(k, v)]"
    using Cons.prems(2) f by (simp add: obj_set_append)
  then show ?case using Cons.IH [of "acc @ [(k, v)]"] Cons.prems f by simp
qed

lemma json_dedup_normal:
  "json_normal v \<Longrightarrow> json_dedup v = v"
  "normal_elems xs \<Longrightarrow> dedup_elems xs = xs"
  "normal_members fs \<Longrightarrow> (\<forall>(k, v)\<in>set fs. json_dedup v = v)"
  by (induction v and xs and fs rule: json_normal_normal_elems_normal_members.induct)
    (auto simp: dedup_members_fresh)

lemma JSON_parse_print: "json_normal v \<Longrightarrow> JSON_parse (json_print v) = Inr v"
  using parse_print(1) [of v "Suc (length (json_print v))" "[]"]
  by (simp add: JSON_parse_def json_dedup_normal)

text \<open>Values without duplicate keys, \<open>undefined\<close> allowed.\<close>

fun json_wf :: "json \<Rightarrow> bool"
  and wf_elems :: "json list \<Rightarrow> bool"
  and wf_members :: "(string \<times> json) list \<Rightarrow> bool" where
  "json_wf JUndef = True"
| "json_wf JNull = True"
| "json_wf (JBool b) = True"
| "json_wf (JNum n) = True"
| "json_wf (JStr s) = True"
| "json_wf (JArr xs) = wf_elems xs"
| "json_wf (JObj fs) = (obj_wf fs \<and> wf_members fs)"
| "wf_elems [] = True"
| "wf_elems (x # xs) = (json_wf x \<and> wf_elems xs)"
| "wf_members [] = True"
| "wf_members ((k, v) # fs) = (json_wf v \<and> wf_members fs)"

lemma keys_norm_members: "fst ` set (norm_members fs) \<subseteq> fst ` set fs"
proof (induction fs)
  case (Cons f fs)
  then show ?case by (cases f) (auto simp: subset_insertI2)
qed simp

lemma obj_wf_norm_members: "obj_wf fs \<Longrightarrow> obj_wf (norm_members fs)"
proof (induction fs)
  case (Cons f fs)
  then show ?case using keys_norm_members [of fs] by (cases f) (auto simp: obj_wf_def)
qed simp

lemma json_normal_norm:
  "json_wf v \<Longrightarrow> json_normal (json_norm v)"
  "wf_elems xs \<Longrightarrow> normal_elems (norm_elems xs)"
  "wf_members fs \<Longrightarrow> normal_members (norm_members fs)"
  by (induction v and xs and fs rule: json_wf_wf_elems_wf_members.induct)
    (auto simp: obj_wf_norm_members)

lemma JSON_parse_stringify: "json_wf v \<Longrightarrow> JSON_parse (JSON_stringify v) = Inr (json_norm v)"
  by (simp add: JSON_stringify_def JSON_parse_print json_normal_norm)

lemma json_norm_normal:
  "json_normal v \<Longrightarrow> json_norm v = v"
  "normal_elems xs \<Longrightarrow> norm_elems xs = xs"
  "normal_members fs \<Longrightarrow> norm_members fs = fs"
  by (induction v and xs and fs rule: json_normal_normal_elems_normal_members.induct) auto

lemma json_normal_wf:
  "json_normal v \<Longrightarrow> json_wf v"
  "normal_elems xs \<Longrightarrow> wf_elems xs"
  "normal_members fs \<Longrightarrow> wf_members fs"
  by (induction v and xs and fs rule: json_normal_normal_elems_normal_members.induct) auto

end
