(* ===== verification/Common_Utils.thy ===== *)
theory Common_Utils
  imports Json_Text "HOL-Library.Word"
begin

text \<open>
  The helpers of \<open>src/src/common\<close>: hexadecimal strings and byte arrays
  (\<open>DbUtils.js\<close>), the \<open>0x\<close> prefix (\<open>utils.js\<close>), hashing of values and of
  argument lists (\<open>cryptography.js\<close>), hash strings of content identifiers
  (\<open>CIDUtil.js\<close>). A JavaScript array of numbers is an \<open>int list\<close>; the 32-bit
  operators of the language act on \<open>32 word\<close>. The Keccak function of web3 is a
  parameter of the definitions that call it.
\<close>

unbundle bit_operations_syntax

section \<open>Property keys\<close>

text \<open>The string a value becomes when it is used as a property key.\<close>

fun join_with :: "string \<Rightarrow> string list \<Rightarrow> string" where
  "join_with sep [] = []"
| "join_with sep [s] = s"
| "join_with sep (s # ss) = s @ sep @ join_with sep ss"

fun js_key :: "json \<Rightarrow> string" where
  "js_key JUndef = ''undefined''"
| "js_key JNull = ''null''"
| "js_key (JBool b) = (if b then ''true'' else ''false'')"
| "js_key (JNum n) = int_str n"
| "js_key (JStr s) = s"
| "js_key (JArr xs) = join_with '','' (map (\<lambda>x. if x = JUndef \<or> x = JNull then [] else js_key x) xs)"
| "js_key (JObj fs) = ''[object Object]''"

lemma int_str_inj: "int_str i = int_str j \<longleftrightarrow> i = j"
proof
  assume eq: "int_str i = int_str j"
  have "scan_num (int_str i @ []) = scan_num (int_str j @ [])" using eq by simp
  then show "i = j" by (simp add: scan_num_int del: append_Nil2)
qed simp

section \<open>The 0x prefix\<close>

definition strip0x :: "string \<Rightarrow> string" where
  "strip0x s = (if take 2 s = ''0x'' then drop 2 s else s)"

definition remove0x :: "json \<Rightarrow> json" where
  "remove0x v = (case v of JStr s \<Rightarrow> JStr (strip0x s) | _ \<Rightarrow> JNull)"

definition add0x :: "json \<Rightarrow> json" where
  "add0x v = (case v of
     JStr s \<Rightarrow> (if take 2 s = ''0x'' then JStr s else JStr (''0x'' @ s))
   | _ \<Rightarrow> JNull)"

lemma strip0x_no_prefix: "take 2 s \<noteq> ''0x'' \<Longrightarrow> strip0x s = s"
  by (simp add: strip0x_def)

lemma strip0x_prefix [simp]: "strip0x (CHR ''0'' # CHR ''x'' # s) = s"
  by (simp add: strip0x_def)

lemma remove0x_add0x: "is_str v \<Longrightarrow> remove0x (add0x v) = remove0x v"
  by (cases v) (auto simp: remove0x_def add0x_def strip0x_def)

lemma add0x_remove0x:
  "add0x (remove0x (JStr s)) =
     (if take 2 (strip0x s) = ''0x'' then JStr (strip0x s) else JStr (''0x'' @ strip0x s))"
  by (simp add: add0x_def remove0x_def)

section \<open>Hexadecimal strings and bytes\<close>

text \<open>\<open>n.toString(16)\<close> for a natural number.\<close>

fun nat_hex :: "nat \<Rightarrow> string" where
  "nat_hex n = (if n < 16 then [hex_char n] else nat_hex (n div 16) @ [hex_char (n mod 16)])"

declare nat_hex.simps [simp del]

definition slice_last2 :: "string \<Rightarrow> string" where
  "slice_last2 s = drop (length s - 2) s"

text \<open>\<open>("0" + (byte & 0xff).toString(16)).slice(-2)\<close>\<close>

definition byte_hex :: "int \<Rightarrow> string" where
  "byte_hex b = slice_last2 (CHR ''0'' # nat_hex (nat (take_bit 8 b)))"

definition toHexString :: "int list \<Rightarrow> string" where
  "toHexString bs = concat (map byte_hex bs)"

text \<open>
  \<open>Buffer.from(s, "hex")\<close>: pairs of hexadecimal digits up to the first pair that is
  none; a last single character is dropped.
\<close>

fun buffer_from_hex :: "string \<Rightarrow> int list" where
  "buffer_from_hex (a # b # cs) =
     (case (hex_val a, hex_val b) of
        (Some x, Some y) \<Rightarrow> int (16 * x + y) # buffer_from_hex cs
      | _ \<Rightarrow> [])"
| "buffer_from_hex _ = []"

definition hexToBytes :: "string \<Rightarrow> int list" where
  "hexToBytes hex = buffer_from_hex (strip0x hex)"

definition bytes_ok :: "int list \<Rightarrow> bool" where
  "bytes_ok bs \<longleftrightarrow> (\<forall>b\<in>set bs. 0 \<le> b \<and> b < 256)"

lemma bytes_ok_simps [simp]:
  "bytes_ok []"
  "bytes_ok (b # bs) \<longleftrightarrow> 0 \<le> b \<and> b < 256 \<and> bytes_ok bs"
  "bytes_ok (xs @ ys) \<longleftrightarrow> bytes_ok xs \<and> bytes_ok ys"
  by (auto simp: bytes_ok_def)

lemma byte_hex_eq:
  assumes "0 \<le> b" "b < 256"
  shows "byte_hex b = [hex_char (nat b div 16), hex_char (nat b mod 16)]"
proof -
  have tb: "take_bit 8 b = b" using assms by (simp add: take_bit_int_eq_self)
  show ?thesis
  proof (cases "nat b < 16")
    case True
    then have "nat_hex (nat b) = [hex_char (nat b)]" by (simp add: nat_hex.simps)
    moreover have "hex_char 0 = CHR ''0''" by code_simp
    ultimately show ?thesis
      using True by (simp add: byte_hex_def tb slice_last2_def)
  next
    case False
    have "nat b div 16 < 16" using assms by linarith
    then have "nat_hex (nat b) = [hex_char (nat b div 16), hex_char (nat b mod 16)]"
      using False by (simp add: nat_hex.simps [of "nat b"] nat_hex.simps [of "nat b div 16"])
    then show ?thesis by (simp add: byte_hex_def tb slice_last2_def)
  qed
qed

lemma hex_char_not_x: "d < 16 \<Longrightarrow> hex_char d \<noteq> CHR ''x''"
proof
  assume "d < 16" and "hex_char d = CHR ''x''"
  then have "hex_val CHR ''x'' = Some d" using hex_val_hex_char by metis
  then show False by (simp add: hex_val_def)
qed

lemma hex_val_bound: "hex_val c = Some x \<Longrightarrow> x < 16"
  by (auto simp: hex_val_def Let_def split: if_splits)

lemma buffer_from_hex_toHexString:
  "bytes_ok bs \<Longrightarrow> buffer_from_hex (toHexString bs) = bs"
proof (induction bs)
  case (Cons b bs)
  have "nat b div 16 < 16" using Cons.prems by auto
  then show ?case using Cons by (simp add: toHexString_def byte_hex_eq)
qed (simp add: toHexString_def)

lemma toHexString_no_prefix: "bytes_ok bs \<Longrightarrow> take 2 (toHexString bs) \<noteq> ''0x''"
  using hex_char_not_x by (cases bs) (auto simp: toHexString_def byte_hex_eq)

lemma hexToBytes_toHexString: "bytes_ok bs \<Longrightarrow> hexToBytes (toHexString bs) = bs"
  by (simp add: hexToBytes_def strip0x_no_prefix toHexString_no_prefix
      buffer_from_hex_toHexString)

lemma toHexString_inj: "bytes_ok xs \<Longrightarrow> bytes_ok ys \<Longrightarrow> toHexString xs = toHexString ys \<longleftrightarrow> xs = ys"
  by (metis hexToBytes_toHexString)

lemma bytes_ok_buffer: "bytes_ok (buffer_from_hex s)"
proof (induction s rule: buffer_from_hex.induct)
  case (1 a b cs)
  show ?case
  proof (cases "hex_val a = None \<or> hex_val b = None")
    case False
    then obtain x y where xy: "hex_val a = Some x" "hex_val b = Some y" by auto
    then have "16 * x + y < 256" using hex_val_bound [of a x] hex_val_bound [of b y] by linarith
    then have "int (16 * x + y) < 256" by linarith
    then show ?thesis using 1 xy by simp
  qed (auto split: option.splits)
qed simp_all

lemma bytes_ok_hexToBytes [simp]: "bytes_ok (hexToBytes s)"
  by (simp add: hexToBytes_def bytes_ok_buffer)

lemma length_toHexString: "bytes_ok bs \<Longrightarrow> length (toHexString bs) = 2 * length bs"
  by (induction bs) (simp_all add: toHexString_def byte_hex_eq)

section \<open>Integers as four bytes\<close>

text \<open>
  \<open>num & mask\<close> and \<open>>>\<close> convert to a signed 32-bit integer first; storing into the
  \<open>Uint8Array\<close> keeps the low eight bits.
\<close>

definition to_uint8 :: "32 word \<Rightarrow> int" where
  "to_uint8 w = uint (ucast w :: 8 word)"

definition intTo4BytesArr :: "int \<Rightarrow> int list js" where
  "intTo4BytesArr num =
     (if num > 4294967295 then Inl (Err PlainError ''integer overflow'')
      else let w = (word_of_int num :: 32 word) in
        Inr [to_uint8 (signed_drop_bit 24 (w AND 0xff000000)),
             to_uint8 (signed_drop_bit 16 (w AND 0x00ff0000)),
             to_uint8 (signed_drop_bit 8 (w AND 0x0000ff00)),
             to_uint8 (w AND 0x000000ff)])"

text \<open>\<open>Buffer.from(bytesArr).readUInt32BE(0)\<close>: throws when there are fewer than four bytes.\<close>

fun bytesArrToInt :: "int list \<Rightarrow> int js" where
  "bytesArrToInt (a # b # c # d # _) =
     Inr (((take_bit 8 a * 256 + take_bit 8 b) * 256 + take_bit 8 c) * 256 + take_bit 8 d)"
| "bytesArrToInt _ = Inl JsRangeError"

definition deltaKeyBytesToTuple :: "int list \<Rightarrow> (string \<times> int) js" where
  "deltaKeyBytesToTuple byteKey =
     (let addr = toHexString (take (length byteKey - 4) byteKey)
      in bindE (bytesArrToInt (drop (length byteKey - 4) byteKey)) (\<lambda>index. Inr (addr, index)))"

definition toBytesKey :: "int list \<Rightarrow> int \<Rightarrow> int list js" where
  "toBytesKey contractByteAddr index =
     (if index \<ge> 0
      then bindE (intTo4BytesArr index) (\<lambda>indexBytes. Inr (contractByteAddr @ indexBytes))
      else Inr contractByteAddr)"

lemma less8_cases: "n < 8 \<Longrightarrow> n \<in> {0, 1, 2, 3, 4, 5, 6, 7 :: nat}"
  by auto

lemma byte_lane24: "(ucast (signed_drop_bit 24 ((w :: 32 word) AND 0xff000000)) :: 8 word) = ucast (drop_bit 24 w)"
  by (rule bit_word_eqI) (simp, drule less8_cases, auto simp: bit_simps)

lemma byte_lane16: "(ucast (signed_drop_bit 16 ((w :: 32 word) AND 0xff0000)) :: 8 word) = ucast (drop_bit 16 w)"
  by (rule bit_word_eqI) (simp, drule less8_cases, auto simp: bit_simps)

lemma byte_lane8: "(ucast (signed_drop_bit 8 ((w :: 32 word) AND 0xff00)) :: 8 word) = ucast (drop_bit 8 w)"
  by (rule bit_word_eqI) (simp, drule less8_cases, auto simp: bit_simps)

lemma byte_lane0: "(ucast (((w :: 32 word) AND 0xff)) :: 8 word) = ucast (w)"
  by (rule bit_word_eqI) (simp, drule less8_cases, auto simp: bit_simps)

lemma to_uint8_ucast: "uint (ucast (drop_bit k (word_of_int n :: 32 word)) :: 8 word)
   = (take_bit 32 n div 2 ^ k) mod 256"
  by (simp only: unsigned_ucast_eq unsigned_drop_bit_eq uint_word_of_int)
    (simp add: drop_bit_eq_div take_bit_eq_mod)


lemma intTo4BytesArr_eq:
  assumes "0 \<le> n" "n \<le> 4294967295"
  shows "intTo4BytesArr n =
    Inr [n div 16777216 mod 256, n div 65536 mod 256, n div 256 mod 256, n mod 256]"
proof -
  have t: "take_bit 32 n = n" using assms by (simp add: take_bit_int_eq_self)
  have "uint (ucast (word_of_int n :: 32 word) :: 8 word) = n mod 256"
    using to_uint8_ucast [of 0 n] t by simp
  then show ?thesis
    using assms t by (simp add: intTo4BytesArr_def Let_def to_uint8_def byte_lane24
        byte_lane16 byte_lane8 byte_lane0 to_uint8_ucast)
qed

lemma four_bytes:
  fixes n :: int
  assumes "0 \<le> n" "n \<le> 4294967295"
  shows "((n div 16777216 mod 256 * 256 + n div 65536 mod 256) * 256 + n div 256 mod 256) * 256
           + n mod 256 = n"
proof -
  have a: "n div 65536 = n div 256 div 256" by (simp add: div_mult2_eq [symmetric] zdiv_zmult2_eq [symmetric])
  have b: "n div 16777216 = n div 256 div 256 div 256" by (simp add: zdiv_zmult2_eq [symmetric])
  have c: "n div 256 div 256 div 256 < 256" using assms by (simp add: zdiv_zmult2_eq [symmetric])
  have "0 \<le> n div 256 div 256 div 256" using assms by (simp add: pos_imp_zdiv_nonneg_iff)
  with c have d: "n div 256 div 256 div 256 mod 256 = n div 256 div 256 div 256" by simp
  show ?thesis unfolding a b d by (simp only: div_mult_mod_eq)
qed

lemma take_bit8_mod: "take_bit 8 (x mod 256) = (x mod 256 :: int)"
  by (simp add: take_bit_eq_mod)

lemma bytesArrToInt_intTo4BytesArr:
  assumes "0 \<le> n" "n \<le> 4294967295"
  shows "bindE (intTo4BytesArr n) bytesArrToInt = Inr n"
  by (simp only: intTo4BytesArr_eq [OF assms] bindE_simps bytesArrToInt.simps take_bit8_mod
      four_bytes [OF assms])

lemma toBytesKey_eq:
  assumes "0 \<le> n" "n \<le> 4294967295"
  obtains bs where "toBytesKey addr n = Inr (addr @ bs)" "length bs = 4"
    "bytesArrToInt bs = Inr n" "bytes_ok bs"
proof
  let ?bs = "[n div 16777216 mod 256, n div 65536 mod 256, n div 256 mod 256, n mod 256]"
  show "toBytesKey addr n = Inr (addr @ ?bs)"
    using assms by (simp add: toBytesKey_def intTo4BytesArr_eq)
  show "bytesArrToInt ?bs = Inr n"
    using bytesArrToInt_intTo4BytesArr [OF assms] by (simp only: intTo4BytesArr_eq [OF assms] bindE_simps)
qed (simp_all)

lemma deltaKey_round_trip:
  assumes "0 \<le> n" "n \<le> 4294967295"
  shows "bindE (toBytesKey addr n) deltaKeyBytesToTuple = Inr (toHexString addr, n)"
proof -
  obtain bs where bs: "toBytesKey addr n = Inr (addr @ bs)" "length bs = 4"
      "bytesArrToInt bs = Inr n"
    using toBytesKey_eq [OF assms] by blast
  then show ?thesis by (simp add: deltaKeyBytesToTuple_def)
qed

lemma toBytesKey_overflow: "4294967295 < n \<Longrightarrow> toBytesKey addr n = Inl (Err PlainError ''integer overflow'')"
  by (simp add: toBytesKey_def intTo4BytesArr_def)

section \<open>Hashing\<close>

text \<open>
  \<open>Buffer.from(value, "hex")\<close>: a string is read as hexadecimal, an array gives the low
  byte of each number.
\<close>

fun buffer_from :: "json \<Rightarrow> int list js" where
  "buffer_from (JStr s) = Inr (buffer_from_hex s)"
| "buffer_from (JArr xs) = Inr (map (\<lambda>x. case x of JNum n \<Rightarrow> take_bit 8 n | _ \<Rightarrow> 0) xs)"
| "buffer_from _ = Inl JsTypeError"

text \<open>
  \<open>cryptography.hash(value, with0x)\<close>. The parameter \<open>keccak\<close> is \<open>web3Utils.keccak256\<close>;
  web3 answers \<open>null\<close> for some inputs, so its result is a value.
\<close>

definition crypto_hash :: "(int list \<Rightarrow> json) \<Rightarrow> json \<Rightarrow> bool \<Rightarrow> json js" where
  "crypto_hash keccak v with0x =
     bindE (buffer_from v) (\<lambda>b.
       let h = keccak b in
       if with0x then Inr h
       else (case h of
               JStr s \<Rightarrow> Inr (if length s > 2 \<and> take 2 s = ''0x'' then JStr (drop 2 s) else h)
             | _ \<Rightarrow> Inl JsTypeError))"

definition padStart16 :: "string \<Rightarrow> string" where
  "padStart16 s = replicate (16 - length s) (CHR ''0'') @ s"

text \<open>
  \<open>cryptography.hashArray\<close>: each input without its \<open>0x\<close>, preceded by its length in
  bytes as sixteen hexadecimal digits; the parameter \<open>sha3\<close> is \<open>web3Utils.soliditySha3\<close>
  of the resulting bytes. \<open>BigInt(e.length / 2)\<close> throws for an odd length.
\<close>

fun hashArray_input :: "json \<Rightarrow> string js" where
  "hashArray_input v =
     (case remove0x v of
        JStr e \<Rightarrow> (if odd (length e) then Inl JsRangeError
                  else Inr (padStart16 (nat_hex (length e div 2)) @ e))
      | _ \<Rightarrow> Inl JsTypeError)"

fun hashArray_bytes :: "json list \<Rightarrow> string js" where
  "hashArray_bytes [] = Inr []"
| "hashArray_bytes (v # vs) =
     bindE (hashArray_input v) (\<lambda>s. bindE (hashArray_bytes vs) (\<lambda>t. Inr (s @ t)))"

definition hashArray :: "(string \<Rightarrow> json) \<Rightarrow> json list \<Rightarrow> json js" where
  "hashArray sha3 inputsArray = bindE (hashArray_bytes inputsArray) (\<lambda>s. Inr (sha3 s))"

definition hexs_val :: "string \<Rightarrow> nat" where
  "hexs_val s = foldl (\<lambda>n c. 16 * n + (case hex_val c of Some d \<Rightarrow> d | None \<Rightarrow> 0)) 0 s"

lemma hexs_val_append1: "hexs_val (s @ [c]) = 16 * hexs_val s + (case hex_val c of Some d \<Rightarrow> d | None \<Rightarrow> 0)"
  by (simp add: hexs_val_def)

lemma hexs_val_nat_hex [simp]: "hexs_val (nat_hex n) = n"
proof (induction n rule: nat_hex.induct)
  case (1 n)
  show ?case
  proof (cases "n < 16")
    case True
    then show ?thesis by (subst nat_hex.simps) (simp add: hexs_val_def)
  next
    case False
    with 1 have "hexs_val (nat_hex (n div 16)) = n div 16" by simp
    with False show ?thesis by (subst nat_hex.simps) (simp add: hexs_val_append1)
  qed
qed

lemma hexs_val_zeros: "hexs_val (replicate k (CHR ''0'') @ s) = hexs_val s"
proof (induction k)
  case (Suc k)
  have "hex_val CHR ''0'' = Some 0" by (simp add: hex_val_def)
  then have "hexs_val (CHR ''0'' # t) = hexs_val t" for t by (simp add: hexs_val_def)
  with Suc show ?case by simp
qed simp

lemma length_nat_hex: "n < 16 ^ Suc k \<Longrightarrow> length (nat_hex n) \<le> Suc k"
proof (induction k arbitrary: n)
  case 0
  then show ?case by (subst nat_hex.simps) simp
next
  case (Suc k)
  show ?case
  proof (cases "n < 16")
    case False
    have "n div 16 < 16 ^ Suc k" using Suc.prems by (simp add: less_mult_imp_div_less)
    then show ?thesis using Suc.IH False by (subst nat_hex.simps) simp
  qed (subst nat_hex.simps, simp)
qed

lemma length_padStart16: "n < 16 ^ 16 \<Longrightarrow> length (padStart16 (nat_hex n)) = 16"
  using length_nat_hex [of n 15] by (simp add: padStart16_def)

lemma padStart16_inj: "padStart16 (nat_hex m) = padStart16 (nat_hex n) \<Longrightarrow> m = n"
  by (metis hexs_val_nat_hex hexs_val_zeros padStart16_def)

text \<open>An input short enough for its length field.\<close>

definition hash_input_ok :: "json \<Rightarrow> bool" where
  "hash_input_ok v \<longleftrightarrow> (\<exists>s. v = JStr s \<and> length s < 2 * 16 ^ 16)"

lemma hashArray_input_Inr:
  assumes "hashArray_input v = Inr s" "hash_input_ok v"
  obtains e where "remove0x v = JStr e" "s = padStart16 (nat_hex (length e div 2)) @ e"
    "even (length e)" "length e div 2 < 16 ^ 16"
proof -
  obtain t where t: "v = JStr t" "length t < 2 * 16 ^ 16"
    using assms(2) by (auto simp: hash_input_ok_def)
  let ?e = "strip0x t"
  have "length ?e \<le> length t" by (simp add: strip0x_def)
  then have "length ?e div 2 < 16 ^ 16" using t(2) by linarith
  moreover have "remove0x v = JStr ?e" by (simp add: t remove0x_def)
  ultimately show ?thesis using that assms(1) by (auto split: if_splits)
qed

lemma hashArray_input_cancel:
  assumes "hashArray_input v = Inr s" "hash_input_ok v"
    and "hashArray_input w = Inr t" "hash_input_ok w"
    and "s @ s' = t @ t'"
  shows "remove0x v = remove0x w \<and> s' = t'"
proof -
  obtain e where e: "remove0x v = JStr e" "s = padStart16 (nat_hex (length e div 2)) @ e"
      "even (length e)" "length e div 2 < 16 ^ 16"
    using hashArray_input_Inr assms(1,2) by blast
  obtain f where f: "remove0x w = JStr f" "t = padStart16 (nat_hex (length f div 2)) @ f"
      "even (length f)" "length f div 2 < 16 ^ 16"
    using hashArray_input_Inr assms(3,4) by blast
  have eq: "padStart16 (nat_hex (length e div 2)) @ e @ s' = padStart16 (nat_hex (length f div 2)) @ f @ t'"
    using assms(5) e(2) f(2) by simp
  moreover have "length (padStart16 (nat_hex (length e div 2)))
      = length (padStart16 (nat_hex (length f div 2)))"
    using e(4) f(4) by (simp add: length_padStart16)
  ultimately have pads: "padStart16 (nat_hex (length e div 2)) = padStart16 (nat_hex (length f div 2))"
    and rest: "e @ s' = f @ t'" by (metis append_eq_append_conv)+
  then have "length e = length f" using padStart16_inj e(3) f(3) by (metis dvd_div_eq_iff)
  with rest show ?thesis using e(1) f(1) by simp
qed

lemma padStart16_nonempty [simp]: "padStart16 s \<noteq> []"
  by (cases s) (simp_all add: padStart16_def)

lemma hashArray_bytes_Cons_nonempty: "hashArray_bytes (v # vs) \<noteq> Inr []"
  by (auto simp: bindE_eq_Inr split: json.splits if_splits)

lemma hashArray_bytes_Cons_Inr:
  "hashArray_bytes (v # vs) = Inr s \<longleftrightarrow>
     (\<exists>a b. hashArray_input v = Inr a \<and> hashArray_bytes vs = Inr b \<and> s = a @ b)"
  by (auto simp: bindE_eq_Inr simp del: hashArray_input.simps)

lemma hashArray_bytes_inj:
  assumes "hashArray_bytes xs = Inr s" "hashArray_bytes ys = Inr s"
    and "\<forall>v\<in>set xs. hash_input_ok v" "\<forall>v\<in>set ys. hash_input_ok v"
  shows "map remove0x xs = map remove0x ys"
  using assms
proof (induction xs arbitrary: ys s)
  case Nil
  then show ?case using hashArray_bytes_Cons_nonempty by (cases ys) fastforce+
next
  case (Cons v vs)
  obtain w ws where ys: "ys = w # ws"
    using Cons.prems hashArray_bytes_Cons_nonempty by (cases ys) fastforce+
  obtain a b where ab: "hashArray_input v = Inr a" "hashArray_bytes vs = Inr b" "s = a @ b"
    using Cons.prems(1) unfolding hashArray_bytes_Cons_Inr by blast
  obtain c d where cd: "hashArray_input w = Inr c" "hashArray_bytes ws = Inr d" "s = c @ d"
    using Cons.prems(2) unfolding ys hashArray_bytes_Cons_Inr by blast
  have "remove0x v = remove0x w \<and> b = d"
    by (rule hashArray_input_cancel [OF ab(1) _ cd(1)])
      (use Cons.prems ys ab(3) cd(3) in auto)
  then show ?case using Cons.IH [of b ws] Cons.prems ys ab cd by simp
qed


section \<open>Content identifiers\<close>

text \<open>\<open>CIDUtil.parseHashStr\<close>: a hash with or without \<open>0x\<close>, told apart by its length.\<close>

definition parseHashStr :: "string \<Rightarrow> string option" where
  "parseHashStr h =
     (if length h = 64 then Some h else if length h = 66 then Some (drop 2 h) else None)"

text \<open>
  \<open>CIDUtil.createCID\<close>: the hash string as bytes, wrapped by the multihash and CID
  packages (the parameter \<open>mkCID\<close>, which may throw); any exception gives \<open>null\<close>.
\<close>

definition createCID :: "(int list \<Rightarrow> 'cid option) \<Rightarrow> json \<Rightarrow> 'cid option" where
  "createCID mkCID ethHash =
     (case ethHash of
        JStr s \<Rightarrow> (case parseHashStr s of None \<Rightarrow> None | Some h \<Rightarrow> mkCID (buffer_from_hex h))
      | _ \<Rightarrow> None)"

lemma parseHashStr_Some: "parseHashStr h = Some g \<Longrightarrow> length g = 64"
  by (auto simp: parseHashStr_def split: if_splits)

lemma createCID_0x: "length s = 64 \<Longrightarrow> createCID mk (JStr (''0x'' @ s)) = createCID mk (JStr s)"
  by (simp add: createCID_def parseHashStr_def)

section \<open>Lists and maps of states\<close>

text \<open>\<open>transformStatesListToMap\<close>: \<open>statesMap[JSON.stringify(address)][key] = data\<close>.\<close>

record state_entry =
  seAddress :: json
  seKey :: int
  seData :: json

type_synonym states_map = "(string \<times> (string \<times> json) list) list"

definition add_state :: "states_map \<Rightarrow> state_entry \<Rightarrow> states_map" where
  "add_state m e =
     (let address = JSON_stringify (seAddress e);
          m' = (if map_of m address = None then obj_set m address [] else m);
          inner = (case map_of m' address of None \<Rightarrow> [] | Some i \<Rightarrow> i)
      in obj_set m' address (obj_set inner (int_str (seKey e)) (seData e)))"

definition transformStatesListToMap :: "state_entry list \<Rightarrow> states_map" where
  "transformStatesListToMap statesList = foldl add_state [] statesList"

definition state_at :: "states_map \<Rightarrow> string \<Rightarrow> string \<Rightarrow> json option" where
  "state_at m a k = (case map_of m a of None \<Rightarrow> None | Some i \<Rightarrow> map_of i k)"

lemma state_at_add_state:
  "state_at (add_state m e) a k =
     (if a = JSON_stringify (seAddress e) \<and> k = int_str (seKey e) then Some (seData e)
      else state_at m a k)"
  by (auto simp: state_at_def add_state_def Let_def split: option.splits)

lemma state_at_foldl:
  "state_at (foldl add_state m es) a k =
     (case find (\<lambda>e. a = JSON_stringify (seAddress e) \<and> k = int_str (seKey e)) (rev es) of
        Some e \<Rightarrow> Some (seData e) | None \<Rightarrow> state_at m a k)"
proof (induction es rule: rev_induct)
  case (snoc e es)
  then show ?case by (auto simp: state_at_add_state)
qed simp

text \<open>\<open>pickRandomFromList\<close>; the parameter is the \<open>pick-random\<close> package.\<close>

definition pickRandomFromList :: "('a list \<Rightarrow> nat \<Rightarrow> 'a list) \<Rightarrow> 'a list \<Rightarrow> int \<Rightarrow> 'a list" where
  "pickRandomFromList pickRandom xs num =
     (if num \<le> 0 \<or> num \<ge> int (length xs) then xs else pickRandom xs (nat num))"

text \<open>\<open>dictToList\<close>: the values in key order.\<close>

definition dictToList :: "(string \<times> 'v) list \<Rightarrow> 'v list" where
  "dictToList d = map snd d"

section \<open>Defaults\<close>

text \<open>
  \<open>applyDelta\<close>; the parameter is the \<open>defaults-deep\<close> package, whose documented behaviour is
  \<open>defaults_ok\<close>: the fields of the first object, completed by those of the second, where a
  field is missing or undefined, and recursively where both are objects.
\<close>

definition applyDelta :: "(json \<Rightarrow> json \<Rightarrow> json) \<Rightarrow> json \<Rightarrow> json \<Rightarrow> json" where
  "applyDelta defaultsDeep main patch = defaultsDeep patch main"

definition default_field :: "(json \<Rightarrow> json \<Rightarrow> json) \<Rightarrow> json option \<Rightarrow> json option \<Rightarrow> json option" where
  "default_field dd v w =
     (case v of
        None \<Rightarrow> w
      | Some x \<Rightarrow>
          (case w of
             None \<Rightarrow> v
           | Some y \<Rightarrow> if x = JUndef then w else if is_obj x \<and> is_obj y then Some (dd x y) else v))"

definition defaults_ok :: "(json \<Rightarrow> json \<Rightarrow> json) \<Rightarrow> bool" where
  "defaults_ok dd \<longleftrightarrow>
     (\<forall>fs gs. \<exists>hs. dd (JObj fs) (JObj gs) = JObj hs \<and> (\<forall>k. map_of hs k = default_field dd (map_of fs k) (map_of gs k)))"

lemma defaults_obj:
  assumes "defaults_ok dd"
  obtains hs where "dd (JObj fs) (JObj gs) = JObj hs" "\<And>k. map_of hs k = default_field dd (map_of fs k) (map_of gs k)"
proof -
  obtain hs where "dd (JObj fs) (JObj gs) = JObj hs \<and> (\<forall>k. map_of hs k = default_field dd (map_of fs k) (map_of gs k))"
    using assms unfolding defaults_ok_def by blast
  then show ?thesis using that by blast
qed

lemma defaults_fld:
  assumes "defaults_ok dd"
  shows "fld (dd (JObj fs) (JObj gs)) k =
    (case default_field dd (map_of fs k) (map_of gs k) of None \<Rightarrow> JUndef | Some v \<Rightarrow> v)"
  using defaults_obj [OF assms, of fs gs] by (metis fld.simps(1) obj_get_def)

lemma default_field_None [simp]: "default_field dd v w = None \<longleftrightarrow> v = None \<and> w = None"
  by (auto simp: default_field_def split: option.splits)

lemma defaults_keys:
  assumes "\<And>k. map_of hs k = default_field dd (map_of fs k) (map_of gs k)"
  shows "fst ` set hs = fst ` set fs \<union> fst ` set gs"
proof (rule set_eqI)
  fix k
  show "k \<in> fst ` set hs \<longleftrightarrow> k \<in> fst ` set fs \<union> fst ` set gs"
    using assms [of k] map_of_in_keys [of hs k] map_of_in_keys [of fs k] map_of_in_keys [of gs k] by simp
qed

text \<open>A function that does this, for witnesses.\<close>

fun deep_defaults :: "json \<Rightarrow> json \<Rightarrow> json"
  and deep_fields :: "(string \<times> json) list \<Rightarrow> (string \<times> json) list \<Rightarrow> (string \<times> json) list" where
  "deep_defaults (JObj fs) w =
     (case w of JObj gs \<Rightarrow> JObj (deep_fields fs gs @ filter (\<lambda>p. map_of fs (fst p) = None) gs) | _ \<Rightarrow> JObj fs)"
| "deep_defaults v w = v"
| "deep_fields [] gs = []"
| "deep_fields ((k, v) # fs) gs =
     (k, case map_of gs k of
           None \<Rightarrow> v
         | Some w \<Rightarrow> if v = JUndef then w else if is_obj v \<and> is_obj w then deep_defaults v w else v) # deep_fields fs gs"

lemma map_of_deep_fields:
  "map_of (deep_fields fs gs) k =
     (case map_of fs k of None \<Rightarrow> None | Some v \<Rightarrow> default_field deep_defaults (Some v) (map_of gs k))"
proof (induction fs)
  case (Cons p fs)
  then show ?case by (cases p) (auto simp: default_field_def split: option.splits)
qed simp

lemma deep_defaults_ok: "defaults_ok deep_defaults"
proof -
  have rest: "map_of (filter (\<lambda>p. map_of fs (fst p) = None) gs) k = (if map_of fs k = None then map_of gs k else None)" for fs gs k
    by (induction gs) auto
  show ?thesis
    by (auto simp: defaults_ok_def map_add_def map_of_deep_fields rest default_field_def split: option.splits)
qed

end
