(* ===== verification/Db_Key.thy ===== *)
theory Db_Key
  imports Common_Utils
begin

text \<open>
  \<open>src/src/db/DbKey.js\<close>: the keys of bytecode and of state deltas in the local
  database. A contract is keyed by its address, a delta by the address followed by four
  bytes of index.
\<close>

record dbkey =
  kByteKey :: "int list"
  kHexAddr :: string
  kIdx :: "int option"
  kIsContract :: bool

text \<open>The constructor; \<open>if (idx)\<close> takes a missing index and the index 0 for a contract.\<close>

definition DbKey :: "int list \<Rightarrow> string \<Rightarrow> int option \<Rightarrow> dbkey" where
  "DbKey byteKey hexAddr idx =
     \<lparr>kByteKey = byteKey, kHexAddr = strip0x hexAddr, kIdx = idx,
      kIsContract = (case idx of None \<Rightarrow> True | Some i \<Rightarrow> i = 0)\<rparr>"

definition fromContractAddr :: "string \<Rightarrow> dbkey" where
  "fromContractAddr addr = DbKey (hexToBytes addr) addr None"

definition fromContractBytes :: "int list \<Rightarrow> dbkey" where
  "fromContractBytes byteAddr = DbKey byteAddr (toHexString byteAddr) None"

definition fromDeltaTouple :: "string \<Rightarrow> int \<Rightarrow> dbkey js" where
  "fromDeltaTouple addr idx =
     bindE (toBytesKey (hexToBytes addr) idx) (\<lambda>byteKey. Inr (DbKey byteKey addr (Some idx)))"

definition fromDeltaBytes :: "int list \<Rightarrow> dbkey js" where
  "fromDeltaBytes byteKey =
     bindE (deltaKeyBytesToTuple byteKey) (\<lambda>(address, index).
       Inr (DbKey byteKey address (Some index)))"

abbreviation isContract :: "dbkey \<Rightarrow> bool" where
  "isContract k \<equiv> kIsContract k"

abbreviation isDelta :: "dbkey \<Rightarrow> bool" where
  "isDelta k \<equiv> \<not> isContract k"

definition dbkey_equals :: "dbkey \<Rightarrow> dbkey \<Rightarrow> bool" where
  "dbkey_equals k k' =
     (if isContract k \<and> isContract k' then kHexAddr k = kHexAddr k'
      else if isDelta k \<and> isDelta k' then kHexAddr k = kHexAddr k' \<and> kIdx k = kIdx k'
      else False)"

lemma dbkey_equals_refl: "dbkey_equals k k"
  by (simp add: dbkey_equals_def)

lemma dbkey_equals_sym: "dbkey_equals k k' \<Longrightarrow> dbkey_equals k' k"
  by (auto simp: dbkey_equals_def split: if_splits)

lemma dbkey_equals_trans: "dbkey_equals k k' \<Longrightarrow> dbkey_equals k' k'' \<Longrightarrow> dbkey_equals k k''"
  by (auto simp: dbkey_equals_def split: if_splits)

lemma equivp_dbkey_equals: "equivp dbkey_equals"
  by (intro equivpI reflpI sympI transpI)
    (auto intro: dbkey_equals_refl dbkey_equals_sym dbkey_equals_trans)

lemma strip0x_toHexString [simp]: "bytes_ok bs \<Longrightarrow> strip0x (toHexString bs) = toHexString bs"
  by (simp add: strip0x_no_prefix toHexString_no_prefix)

lemma fromDeltaTouple_key:
  assumes "bytes_ok bs" "0 \<le> i" "i \<le> 4294967295"
  obtains t where "fromDeltaTouple (toHexString bs) i = Inr (DbKey (bs @ t) (toHexString bs) (Some i))"
    "length t = 4" "bytesArrToInt t = Inr i"
proof -
  obtain t where "toBytesKey bs i = Inr (bs @ t)" "length t = 4" "bytesArrToInt t = Inr i"
    using toBytesKey_eq [OF assms(2,3)] by blast
  with that show thesis by (simp add: fromDeltaTouple_def hexToBytes_toHexString assms(1))
qed

lemma fromDeltaBytes_of_key:
  assumes "bytes_ok bs" "0 \<le> i" "i \<le> 4294967295"
  shows "bindE (fromDeltaTouple (toHexString bs) i) (\<lambda>k. fromDeltaBytes (kByteKey k))
           = fromDeltaTouple (toHexString bs) i"
proof -
  obtain t where t: "fromDeltaTouple (toHexString bs) i = Inr (DbKey (bs @ t) (toHexString bs) (Some i))"
      "length t = 4" "bytesArrToInt t = Inr i"
    using fromDeltaTouple_key [OF assms] by blast
  then have "fromDeltaBytes (bs @ t) = Inr (DbKey (bs @ t) (toHexString bs) (Some i))"
    by (simp add: fromDeltaBytes_def deltaKeyBytesToTuple_def)
  then show ?thesis using t(1) by (simp add: DbKey_def)
qed

end
