(* ===== verification/Level_Db.thy ===== *)
theory Level_Db
  imports Common_Utils
begin

text \<open>
  \<open>src/src/db/LevelDbApi.js\<close>: the wrapper of the node's local key-value store. The
  \<open>level\<close> package is a parameter: a record of its operations on a state of any type,
  with \<open>level_ok\<close> for what its documentation promises. The locale \<open>kv_store\<close> is the
  contract of the wrapper that the task manager relies on.
\<close>

section \<open>The level package\<close>

datatype stream_event =
    SData string string
  | SError js_error
  | SClose
  | SEnd

text \<open>
  An operation of the store answers \<open>None\<close> (no error) or \<open>Some err\<close> and changes the
  state; keys and values are whatever the caller passes. \<open>lvStream\<close> is the list of the
  events of a read stream, those after \<open>destroy\<close> included; \<open>lvContents\<close> is what the store
  holds and only occurs in specifications.
\<close>

record 's level_ops =
  lvPut :: "json \<Rightarrow> json \<Rightarrow> 's \<Rightarrow> js_error option \<times> 's"
  lvGet :: "json \<Rightarrow> 's \<Rightarrow> string js"
  lvDel :: "json \<Rightarrow> 's \<Rightarrow> js_error option \<times> 's"
  lvBatch :: "(json \<times> json) list \<Rightarrow> 's \<Rightarrow> js_error option \<times> 's"
  lvStream :: "'s \<Rightarrow> stream_event list"
  lvClose :: "'s \<Rightarrow> js_error option \<times> 's"
  lvOpen :: "string \<Rightarrow> 's"
  lvContents :: "'s \<Rightarrow> string \<Rightarrow> string option"

text \<open>The error \<open>level\<close> reports for a missing key: \<open>err.type === "NotFoundError"\<close>.\<close>

definition NotFoundError :: js_error where
  "NotFoundError = Err PlainError ''NotFoundError''"

text \<open>
  Documented behaviour: an operation that reports no error has taken effect, one that
  reports an error has not; \<open>get\<close> answers the value or \<open>NotFoundError\<close>; a read stream emits
  every entry once and then \<open>end\<close>, and \<open>close\<close> after it was destroyed.
\<close>

definition level_ok :: "'s level_ops \<Rightarrow> bool" where
  "level_ok L \<longleftrightarrow>
     (\<forall>k v s e s'. lvPut L (JStr k) (JStr v) s = (e, s') \<longrightarrow>
        lvContents L s' = (if e = None then (lvContents L s)(k \<mapsto> v) else lvContents L s)) \<and>
     (\<forall>k s. lvGet L (JStr k) s =
        (case lvContents L s k of None \<Rightarrow> Inl NotFoundError | Some v \<Rightarrow> Inr v)) \<and>
     (\<forall>k s e s'. lvDel L (JStr k) s = (e, s') \<longrightarrow>
        lvContents L s' = (if e = None then (lvContents L s)(k := None) else lvContents L s)) \<and>
     (\<forall>s. \<exists>kvs. lvStream L s = map (\<lambda>(k, v). SData k v) kvs @ [SEnd, SClose] \<and>
        distinct (map fst kvs) \<and> map_of kvs = lvContents L s)"

section \<open>The wrapper\<close>

record 's leveldb =
  ldName :: string
  ldLevel :: "'s level_ops"
  ldDb :: "'s option"

definition LevelDbApi :: "'s level_ops \<Rightarrow> string \<Rightarrow> 's leveldb" where
  "LevelDbApi L dbName = \<lparr>ldName = dbName, ldLevel = L, ldDb = None\<rparr>"

definition db_open :: "'s leveldb \<Rightarrow> 's leveldb" where
  "db_open db = db\<lparr>ldDb := Some (lvOpen (ldLevel db) (ldName db))\<rparr>"

text \<open>\<open>callback(err)\<close>: the caller sees a success when \<open>err\<close> is falsy.\<close>

definition err_cb :: "js_error option \<Rightarrow> unit cb list" where
  "err_cb e = [Call (case e of None \<Rightarrow> Inr () | Some err \<Rightarrow> Inl err)]"

abbreviation errMsg :: "string \<Rightarrow> js_error" where
  "errMsg s \<equiv> ErrVal (JStr s)"

text \<open>Running an operation of \<open>this._db\<close> and keeping its new state.\<close>

definition on_handle ::
    "('s level_ops \<Rightarrow> 's \<Rightarrow> js_error option \<times> 's) \<Rightarrow> 's leveldb \<Rightarrow> unit cb list \<Rightarrow> unit cb list \<times> 's leveldb" where
  "on_handle f db closed =
     (case ldDb db of
        Some s \<Rightarrow> (let (e, s') = f (ldLevel db) s in (err_cb e, db\<lparr>ldDb := Some s'\<rparr>))
      | None \<Rightarrow> (closed, db))"

text \<open>\<open>close\<close> leaves \<open>this._db\<close> in place: \<open>_isOpen\<close> stays true.\<close>

definition db_close :: "'s leveldb \<Rightarrow> unit cb list \<times> 's leveldb" where
  "db_close db = on_handle lvClose db [SyncThrow JsTypeError]"

definition db_isOpen :: "'s leveldb \<Rightarrow> bool" where
  "db_isOpen db \<longleftrightarrow> ldDb db \<noteq> None"

definition db_delete :: "json \<Rightarrow> 's leveldb \<Rightarrow> unit cb list \<times> 's leveldb" where
  "db_delete key db = on_handle (\<lambda>L. lvDel L key) db [Call (Inl (errMsg ''DB is closed''))]"

definition db_put :: "json \<Rightarrow> json \<Rightarrow> 's leveldb \<Rightarrow> unit cb list \<times> 's leveldb" where
  "db_put key v db = on_handle (\<lambda>L. lvPut L key v) db [Call (Inl (errMsg ''DB is closed''))]"

definition db_get :: "json \<Rightarrow> 's leveldb \<Rightarrow> string cb list" where
  "db_get key db =
     (case ldDb db of
        Some s \<Rightarrow> [Call (lvGet (ldLevel db) key s)]
      | None \<Rightarrow> [Call (Inl (errMsg ''DB is closed''))])"

text \<open>
  \<open>safePut\<close>: the parameter \<open>value\<close> of the inner callback hides the value to write, so that
  \<open>undefined\<close> is passed to \<open>put\<close>.
\<close>

definition db_safePut :: "json \<Rightarrow> json \<Rightarrow> 's leveldb \<Rightarrow> unit cb list \<times> 's leveldb" where
  "db_safePut key v db =
     (if db_isOpen db
      then (case db_get key db of
              [Call (Inl err)] \<Rightarrow> db_put key JUndef db
            | _ \<Rightarrow> ([Call (Inl (errMsg ''value exists''))], db))
      else ([Call (Inl (errMsg ''db closed''))], db))"

definition db_batch :: "(json \<times> json) list \<Rightarrow> 's leveldb \<Rightarrow> unit cb list \<times> 's leveldb" where
  "db_batch operations db =
     on_handle (\<lambda>L. lvBatch L operations) db [Call (Inl (errMsg ''db closed''))]"

definition db_putBatch :: "(json \<times> json) list \<Rightarrow> 's leveldb \<Rightarrow> unit cb list \<times> 's leveldb" where
  "db_putBatch objs db = db_batch objs db"

text \<open>
  \<open>_readFromDB\<close>: the handlers of the read stream, run over the events; \<open>info\<close> grows with
  every \<open>data\<close>.
\<close>

fun read_events :: "(string \<times> string) list \<Rightarrow> stream_event list \<Rightarrow> (string \<times> string) list cb list" where
  "read_events info [] = []"
| "read_events info (SData k v # evs) = read_events (info @ [(k, v)]) evs"
| "read_events info (SError e # evs) = Call (Inl e) # read_events info evs"
| "read_events info (SClose # evs) =
     Call (Inl (errMsg ''the read-stream closed unexpectedly while trying to read from DB''))
       # read_events info evs"
| "read_events info (SEnd # evs) = Call (Inr info) # read_events info evs"

definition readFromDB :: "'s leveldb \<Rightarrow> (string \<times> string) list cb list" where
  "readFromDB db =
     (case ldDb db of
        Some s \<Rightarrow> read_events [] (lvStream (ldLevel db) s)
      | None \<Rightarrow> [SyncThrow JsTypeError])"

definition db_getAllKeys :: "'s leveldb \<Rightarrow> string list cb list" where
  "db_getAllKeys db = cb_then (readFromDB db) (\<lambda>r. [Call (map_sum id (map fst) r)])"

text \<open>
  \<open>getAll\<close>: after \<open>callback(null, res)\<close> there is no \<open>return\<close>, so that \<open>callback(err)\<close> follows
  with a falsy error and no value (\<open>None\<close>).
\<close>

definition db_getAll :: "'s leveldb \<Rightarrow> (string \<times> string) list option cb list" where
  "db_getAll db = cb_then (readFromDB db) (\<lambda>r. case r of
       Inr items \<Rightarrow> [Call (Inr (Some (foldl (\<lambda>res (k, v). obj_set res k v) [] items))),
                   Call (Inr None)]
     | Inl err \<Rightarrow> [Call (Inl err)])"

definition db_contents :: "'s leveldb \<Rightarrow> string \<Rightarrow> string option" where
  "db_contents db =
     (case ldDb db of Some s \<Rightarrow> lvContents (ldLevel db) s | None \<Rightarrow> Map.empty)"

definition db_ok :: "'s leveldb \<Rightarrow> bool" where
  "db_ok db \<longleftrightarrow> level_ok (ldLevel db) \<and> db_isOpen db"

section \<open>The interface: a key-value store with callbacks\<close>

locale kv_store =
  fixes kput :: "json \<Rightarrow> json \<Rightarrow> 'd \<Rightarrow> unit cb list \<times> 'd"
    and kget :: "json \<Rightarrow> 'd \<Rightarrow> string cb list"
    and kdel :: "json \<Rightarrow> 'd \<Rightarrow> unit cb list \<times> 'd"
    and kall :: "'d \<Rightarrow> (string \<times> string) list option cb list"
    and contents :: "'d \<Rightarrow> string \<Rightarrow> string option"
    and ok :: "'d \<Rightarrow> bool"
  assumes kput_law: "ok d \<Longrightarrow>
      (\<exists>d'. kput (JStr k) (JStr v) d = ([Call (Inr ())], d') \<and> ok d' \<and> contents d' = (contents d)(k \<mapsto> v)) \<or>
      (\<exists>e d'. kput (JStr k) (JStr v) d = ([Call (Inl e)], d') \<and> ok d' \<and> contents d' = contents d)"
    and kget_law: "ok d \<Longrightarrow> kget (JStr k) d =
      [Call (case contents d k of None \<Rightarrow> Inl NotFoundError | Some v \<Rightarrow> Inr v)]"
    and kdel_law: "ok d \<Longrightarrow>
      (\<exists>d'. kdel (JStr k) d = ([Call (Inr ())], d') \<and> ok d' \<and> contents d' = (contents d)(k := None)) \<or>
      (\<exists>e d'. kdel (JStr k) d = ([Call (Inl e)], d') \<and> ok d' \<and> contents d' = contents d)"
    and kall_law: "ok d \<Longrightarrow> \<exists>kvs rest. kall d = Call (Inr (Some kvs)) # rest \<and>
      obj_wf kvs \<and> map_of kvs = contents d"
begin

lemma kput_cases:
  assumes "ok d"
  obtains (stored) d' where "kput (JStr k) (JStr v) d = ([Call (Inr ())], d')" "ok d'"
      "contents d' = (contents d)(k \<mapsto> v)"
    | (failed) e d' where "kput (JStr k) (JStr v) d = ([Call (Inl e)], d')" "ok d'"
      "contents d' = contents d"
  using kput_law [OF assms, of k v] by blast

lemma kdel_cases:
  assumes "ok d"
  obtains (deleted) d' where "kdel (JStr k) d = ([Call (Inr ())], d')" "ok d'"
      "contents d' = (contents d)(k := None)"
    | (failed) e d' where "kdel (JStr k) d = ([Call (Inl e)], d')" "ok d'"
      "contents d' = contents d"
  using kdel_law [OF assms, of k] by blast

lemma get_after_put:
  assumes "ok d" "kput (JStr k) (JStr v) d = ([Call (Inr ())], d')"
  shows "kget (JStr k') d' = (if k' = k then [Call (Inr v)] else kget (JStr k') d)"
  using assms(1)
proof (cases rule: kput_cases [of d k v])
  case (stored d'')
  then have "d'' = d'" using assms(2) by simp
  with stored assms(1) show ?thesis by (simp add: kget_law)
next
  case (failed e d'')
  then show ?thesis using assms(2) by simp
qed

lemma get_after_del:
  assumes "ok d" "kdel (JStr k) d = ([Call (Inr ())], d')"
  shows "kget (JStr k') d' = (if k' = k then [Call (Inl NotFoundError)] else kget (JStr k') d)"
  using assms(1)
proof (cases rule: kdel_cases [of d k])
  case (deleted d'')
  then have "d'' = d'" using assms(2) by simp
  with deleted assms(1) show ?thesis by (simp add: kget_law)
next
  case (failed e d'')
  then show ?thesis using assms(2) by simp
qed

end

section \<open>The wrapper implements the interface\<close>

lemma read_events_data:
  "read_events info (map (\<lambda>(k, v). SData k v) kvs @ evs) = read_events (info @ kvs) evs"
  by (induction kvs arbitrary: info) auto

lemma level_okD:
  assumes "level_ok L"
  shows level_ok_put: "lvPut L (JStr k) (JStr v) s = (e, s') \<Longrightarrow>
      lvContents L s' = (if e = None then (lvContents L s)(k \<mapsto> v) else lvContents L s)"
    and level_ok_get:
      "lvGet L (JStr k) s = (case lvContents L s k of None \<Rightarrow> Inl NotFoundError | Some v \<Rightarrow> Inr v)"
    and level_ok_del: "lvDel L (JStr k) s = (e, s') \<Longrightarrow>
      lvContents L s' = (if e = None then (lvContents L s)(k := None) else lvContents L s)"
    and level_ok_stream: "\<exists>kvs. lvStream L s = map (\<lambda>(k, v). SData k v) kvs @ [SEnd, SClose] \<and>
           distinct (map fst kvs) \<and> map_of kvs = lvContents L s"
  using assms unfolding level_ok_def by blast+

lemma db_getAll_eq:
  assumes "db_ok db"
  obtains kvs where "db_getAll db = [Call (Inr (Some kvs)), Call (Inr None),
      Call (Inl (errMsg ''the read-stream closed unexpectedly while trying to read from DB''))]"
    "obj_wf kvs" "map_of kvs = db_contents db"
proof -
  obtain s where s: "ldDb db = Some s" "level_ok (ldLevel db)"
    using assms by (auto simp: db_ok_def db_isOpen_def)
  obtain kvs where kvs: "lvStream (ldLevel db) s = map (\<lambda>(k, v). SData k v) kvs @ [SEnd, SClose]"
      "distinct (map fst kvs)" "map_of kvs = lvContents (ldLevel db) s"
    using level_ok_stream [OF s(2)] by blast
  have "readFromDB db = [Call (Inr kvs),
      Call (Inl (errMsg ''the read-stream closed unexpectedly while trying to read from DB''))]"
    using s kvs(1) by (simp add: readFromDB_def read_events_data)
  moreover have "foldl (\<lambda>res (k, v). obj_set res k v) [] kvs = kvs"
    using foldl_obj_set_distinct [of fst kvs "[]" snd] kvs(2) by (simp add: case_prod_unfold)
  ultimately show thesis
    using that [of kvs] kvs s by (simp add: db_getAll_def obj_wf_def db_contents_def)
qed

interpretation leveldb: kv_store db_put db_get db_delete db_getAll db_contents db_ok
proof
  fix d :: "'a leveldb" and k v :: string
  assume ok: "db_ok d"
  then obtain s where s: "ldDb d = Some s" "level_ok (ldLevel d)"
    by (auto simp: db_ok_def db_isOpen_def)
  show "(\<exists>d'. db_put (JStr k) (JStr v) d = ([Call (Inr ())], d') \<and> db_ok d' \<and>
            db_contents d' = (db_contents d)(k \<mapsto> v)) \<or>
        (\<exists>e d'. db_put (JStr k) (JStr v) d = ([Call (Inl e)], d') \<and> db_ok d' \<and>
            db_contents d' = db_contents d)"
    using s level_ok_put [OF s(2), of k v s]
    by (cases "lvPut (ldLevel d) (JStr k) (JStr v) s"; cases "fst (lvPut (ldLevel d) (JStr k) (JStr v) s)")
      (auto simp: db_put_def on_handle_def err_cb_def db_ok_def db_isOpen_def db_contents_def)
  show "db_get (JStr k) d =
      [Call (case db_contents d k of None \<Rightarrow> Inl NotFoundError | Some v \<Rightarrow> Inr v)]"
    using s level_ok_get [OF s(2)] by (simp add: db_get_def db_contents_def)
  show "(\<exists>d'. db_delete (JStr k) d = ([Call (Inr ())], d') \<and> db_ok d' \<and>
            db_contents d' = (db_contents d)(k := None)) \<or>
        (\<exists>e d'. db_delete (JStr k) d = ([Call (Inl e)], d') \<and> db_ok d' \<and>
            db_contents d' = db_contents d)"
    using s level_ok_del [OF s(2), of k s]
    by (cases "lvDel (ldLevel d) (JStr k) s"; cases "fst (lvDel (ldLevel d) (JStr k) s)")
      (auto simp: db_delete_def on_handle_def err_cb_def db_ok_def db_isOpen_def db_contents_def)
  show "\<exists>kvs rest. db_getAll d = Call (Inr (Some kvs)) # rest \<and> obj_wf kvs \<and>
      map_of kvs = db_contents d"
    by (rule db_getAll_eq [OF ok]) auto
qed

section \<open>A store in memory\<close>

text \<open>
  An instance of the parameter with the documented behaviour: an association list. It
  refuses keys and values that are no strings, and writes when it is read-only.
\<close>

record mem_state =
  msEntries :: "(string \<times> string) list"
  msReadOnly :: bool

definition mem_put :: "json \<Rightarrow> json \<Rightarrow> mem_state \<Rightarrow> js_error option \<times> mem_state" where
  "mem_put k v s =
     (case (k, v) of
        (JStr key, JStr txt) \<Rightarrow>
          (if msReadOnly s then (Some (Err PlainError ''WriteError''), s)
           else (None, s\<lparr>msEntries := obj_set (msEntries s) key txt\<rparr>))
      | _ \<Rightarrow> (Some (Err PlainError ''WriteError''), s))"

fun mem_batch :: "(json \<times> json) list \<Rightarrow> mem_state \<Rightarrow> js_error option \<times> mem_state" where
  "mem_batch [] s = (None, s)"
| "mem_batch ((k, v) # ops) s =
     (case mem_put k v s of (None, s') \<Rightarrow> mem_batch ops s' | (Some e, s') \<Rightarrow> (Some e, s'))"

definition mem_del :: "json \<Rightarrow> mem_state \<Rightarrow> js_error option \<times> mem_state" where
  "mem_del k s =
     (case k of
        JStr key \<Rightarrow>
          (if msReadOnly s then (Some (Err PlainError ''WriteError''), s)
           else (None, s\<lparr>msEntries := obj_del (msEntries s) key\<rparr>))
      | _ \<Rightarrow> (Some (Err PlainError ''WriteError''), s))"

definition mem_level :: "mem_state level_ops" where
  "mem_level = \<lparr>
     lvPut = mem_put,
     lvGet = (\<lambda>k s. case map_of (msEntries s) (js_key k) of None \<Rightarrow> Inl NotFoundError | Some v \<Rightarrow> Inr v),
     lvDel = mem_del,
     lvBatch = mem_batch,
     lvStream = (\<lambda>s. map (\<lambda>(k, v). SData k v)
        (map (\<lambda>k. (k, the (map_of (msEntries s) k))) (remdups (map fst (msEntries s)))) @ [SEnd, SClose]),
     lvClose = (\<lambda>s. (None, s)),
     lvOpen = (\<lambda>name. \<lparr>msEntries = [], msReadOnly = False\<rparr>),
     lvContents = (\<lambda>s. map_of (msEntries s))\<rparr>"

lemma map_of_remdups_keys:
  "map_of (map (\<lambda>k. (k, the (map_of es k))) (remdups (map fst es))) = map_of es"
proof
  fix k
  show "map_of (map (\<lambda>k. (k, the (map_of es k))) (remdups (map fst es))) k = map_of es k"
  proof (cases "map_of es k")
    case None
    then have "k \<notin> set (remdups (map fst es))" by (simp add: map_of_eq_None_iff)
    then show ?thesis using None by (simp add: map_of_map_restrict restrict_map_def)
  next
    case (Some v)
    then have "k \<in> set (remdups (map fst es))" by (auto dest: map_of_SomeD intro: rev_image_eqI)
    then show ?thesis using Some by (simp add: map_of_map_restrict restrict_map_def)
  qed
qed

lemma level_ok_mem: "level_ok mem_level"
proof -
  have fst: "map fst (map (\<lambda>k. (k, f k)) ks) = ks" for f :: "string \<Rightarrow> string" and ks
    by (induction ks) simp_all
  have "\<exists>kvs. map (\<lambda>(k, v). SData k v)
        (map (\<lambda>k. (k, the (map_of es k))) (remdups (map fst es))) @ [SEnd, SClose]
      = map (\<lambda>(k, v). SData k v) kvs @ [SEnd, SClose] \<and>
      distinct (map fst kvs) \<and> map_of kvs = map_of es" for es :: "(string \<times> string) list"
    by (rule exI [of _ "map (\<lambda>k. (k, the (map_of es k))) (remdups (map fst es))"])
      (simp only: map_of_remdups_keys fst distinct_remdups simp_thms)
  then show ?thesis
    by (simp add: level_ok_def mem_level_def mem_put_def mem_del_def)
qed

end
