(* ===== verification/Task_Results.thy ===== *)
theory Task_Results
  imports Common_Utils
begin

text \<open>
  \<open>src/src/worker/tasks/Result.js\<close>: the result classes of deployments, computations and
  failures, built from JSON messages and written to the database as JSON. The locale
  \<open>db_codec\<close> is the contract the task classes and the task manager rely on: what is
  written can be read back.
\<close>

section \<open>The interface: a codec for the database\<close>

locale db_codec =
  fixes enc :: "'a \<Rightarrow> json js"
    and dec :: "json \<Rightarrow> 'a option js"
    and ok :: "'a \<Rightarrow> bool"
  assumes enc_normal: "ok x \<Longrightarrow> \<exists>v. enc x = Inr v \<and> json_normal v"
    and dec_enc: "ok x \<Longrightarrow> enc x = Inr v \<Longrightarrow> dec v = Inr (Some x)"
begin

lemma enc_total: "ok x \<Longrightarrow> \<exists>v. enc x = Inr v"
  using enc_normal by blast

lemma text_round_trip:
  assumes "ok x" "enc x = Inr v"
  shows "bindE (JSON_parse (JSON_stringify v)) dec = Inr (Some x)"
proof -
  have "json_normal v" using enc_normal [OF assms(1)] assms(2) by simp
  then have "JSON_parse (JSON_stringify v) = Inr v"
    by (simp add: JSON_parse_stringify json_normal_wf json_norm_normal)
  then show ?thesis using dec_enc [OF assms] by simp
qed

lemma enc_inj: "ok x \<Longrightarrow> ok y \<Longrightarrow> enc x = enc y \<Longrightarrow> x = y"
  using enc_total dec_enc by (metis old.sum.inject(2) option.inject)

end

section \<open>Constants\<close>

text \<open>\<open>constants.TASK_STATUS\<close> and the task types of \<open>constants.CORE_REQUESTS\<close>.\<close>

abbreviation UNVERIFIED :: json where "UNVERIFIED \<equiv> JStr ''UNVERIFIED''"
abbreviation IN_PROGRESS :: json where "IN_PROGRESS \<equiv> JStr ''INPROGRESS''"
abbreviation SUCCESS :: json where "SUCCESS \<equiv> JStr ''SUCCESS''"
abbreviation FAILED :: json where "FAILED \<equiv> JStr ''FAILED''"
abbreviation FAILED_ETHEREUM_CB :: json where "FAILED_ETHEREUM_CB \<equiv> JStr ''ETHEREUMFAILURE''"

abbreviation T_Deploy :: json where "T_Deploy \<equiv> JStr ''DeploySecretContract''"
abbreviation T_Compute :: json where "T_Compute \<equiv> JStr ''ComputeTask''"
abbreviation T_Failed :: json where "T_Failed \<equiv> JStr ''FailedTask''"

section \<open>Results\<close>

datatype result =
    ComputeResult (rTaskId: json) (rStatus: json) (rOutput: json) (rDelta: json)
      (rUsedGas: json) (rEthPayload: json) (rEthAddr: json) (rSignature: json)
  | DeployResult (rTaskId: json) (rStatus: json) (rOutput: json) (rDelta: json)
      (rUsedGas: json) (rEthPayload: json) (rEthAddr: json) (rSignature: json)
      (rPreCodeHash: json)
  | FailedResult (rTaskId: json) (rStatus: json) (rOutput: json) (rUsedGas: json)
      (rSignature: json)

text \<open>\<open>instanceof\<close>: \<open>DeployResult\<close> extends \<open>ComputeResult\<close>.\<close>

definition is_FailedResult :: "result \<Rightarrow> bool" where
  "is_FailedResult r = (case r of FailedResult _ _ _ _ _ \<Rightarrow> True | _ \<Rightarrow> False)"

definition is_DeployResult :: "result \<Rightarrow> bool" where
  "is_DeployResult r = (case r of DeployResult _ _ _ _ _ _ _ _ _ \<Rightarrow> True | _ \<Rightarrow> False)"

definition instanceof_ComputeResult :: "result \<Rightarrow> bool" where
  "instanceof_ComputeResult r \<longleftrightarrow> \<not> is_FailedResult r"

fun setResultStatus :: "json \<Rightarrow> result \<Rightarrow> result" where
  "setResultStatus st (ComputeResult i _ out d g p a s) = ComputeResult i st out d g p a s"
| "setResultStatus st (DeployResult i _ out d g p a s h) = DeployResult i st out d g p a s h"
| "setResultStatus st (FailedResult i _ out g s) = FailedResult i st out g s"

definition resultIsSuccess :: "result \<Rightarrow> bool" where
  "resultIsSuccess r \<longleftrightarrow> rStatus r = SUCCESS"

definition resultIsFailed :: "result \<Rightarrow> bool" where
  "resultIsFailed r \<longleftrightarrow> \<not> resultIsSuccess r"

text \<open>\<open>return this._delta && this._delta.data\<close>, used as a condition; defined by
  \<open>ComputeResult\<close> and inherited by \<open>DeployResult\<close>.\<close>

definition hasDelta :: "result \<Rightarrow> bool" where
  "hasDelta r \<longleftrightarrow> truthy (rDelta r) \<and> truthy (fld (rDelta r) ''data'')"

section \<open>Building results from messages\<close>

text \<open>\<open>if (nodeUtils.isString(result)) result = JSON.parse(result)\<close>\<close>

definition parse_if_string :: "json \<Rightarrow> json js" where
  "parse_if_string v = (case v of JStr s \<Rightarrow> JSON_parse s | _ \<Rightarrow> Inr v)"

definition compute_result_fields :: "string list" where
  "compute_result_fields = [''taskId'', ''status'', ''output'', ''delta'', ''usedGas'',
     ''ethereumPayload'', ''ethereumAddress'', ''signature'']"

definition deploy_result_fields :: "string list" where
  "deploy_result_fields = compute_result_fields @ [''preCodeHash'']"

definition failed_result_fields :: "string list" where
  "failed_result_fields = [''taskId'', ''output'', ''usedGas'', ''signature'']"

definition buildComputeResult :: "json \<Rightarrow> result option js" where
  "buildComputeResult v =
     bindE (parse_if_string v) (\<lambda>result.
     bindE (some_missing compute_result_fields result) (\<lambda>isMissing.
       if isMissing then Inr None
       else Inr (Some (ComputeResult (fld result ''taskId'') (fld result ''status'')
              (fld result ''output'') (fld result ''delta'') (fld result ''usedGas'')
              (fld result ''ethereumPayload'') (fld result ''ethereumAddress'')
              (fld result ''signature'')))))"

definition buildDeployResult :: "json \<Rightarrow> result option js" where
  "buildDeployResult v =
     bindE (parse_if_string v) (\<lambda>result.
     bindE (some_missing deploy_result_fields result) (\<lambda>isMissing.
       if isMissing then Inr None
       else Inr (Some (DeployResult (fld result ''taskId'') (fld result ''status'')
              (fld result ''output'') (fld result ''delta'') (fld result ''usedGas'')
              (fld result ''ethereumPayload'') (fld result ''ethereumAddress'')
              (fld result ''signature'') (fld result ''preCodeHash'')))))"

definition buildFailedResult :: "json \<Rightarrow> result option js" where
  "buildFailedResult v =
     bindE (parse_if_string v) (\<lambda>errRes.
     bindE (some_missing failed_result_fields errRes) (\<lambda>isMissing.
       if isMissing then Inr None
       else Inr (Some (FailedResult (fld errRes ''taskId'') FAILED (fld errRes ''output'')
              (fld errRes ''usedGas'') (fld errRes ''signature'')))))"

text \<open>
  \<open>Result.buildFromRaw\<close>: the assignment \<open>rawResult.status = ...\<close> comes first. The code of classes is
  strict, so that an assignment to a property of a primitive value throws; a named property of an
  array is no part of its JSON.
\<close>

fun set_prop :: "json \<Rightarrow> string \<Rightarrow> json \<Rightarrow> json js" where
  "set_prop JUndef k v = Inl JsTypeError"
| "set_prop JNull k v = Inl JsTypeError"
| "set_prop (JObj fs) k v = Inr (JObj (obj_set fs k v))"
| "set_prop (JArr xs) k v = Inr (JArr xs)"
| "set_prop w k v = Inl JsTypeError"

definition buildFromRaw :: "json \<Rightarrow> json \<Rightarrow> result option js" where
  "buildFromRaw type rawResult =
     (if type = T_Failed then bindE (set_prop rawResult ''status'' FAILED) buildFailedResult
      else if type = T_Deploy then bindE (set_prop rawResult ''status'' SUCCESS) buildDeployResult
      else if type = T_Compute then bindE (set_prop rawResult ''status'' SUCCESS) buildComputeResult
      else Inr None)"

section \<open>Writing results\<close>

definition computeResult_toDbJson :: "json \<Rightarrow> json \<Rightarrow> json \<Rightarrow> json \<Rightarrow> json \<Rightarrow> json \<Rightarrow> json \<Rightarrow> json \<Rightarrow> json" where
  [simp]: "computeResult_toDbJson i st out d g p a s =
     JObj [(''taskId'', i), (''status'', st), (''output'', out), (''delta'', d),
           (''usedGas'', g), (''ethereumPayload'', p), (''ethereumAddress'', a),
           (''signature'', s)]"

definition deployResult_toDbJson ::
    "json \<Rightarrow> json \<Rightarrow> json \<Rightarrow> json \<Rightarrow> json \<Rightarrow> json \<Rightarrow> json \<Rightarrow> json \<Rightarrow> json \<Rightarrow> json" where
  [simp]: "deployResult_toDbJson i st out d g p a s h =
     JObj [(''taskId'', i), (''status'', st), (''preCodeHash'', h), (''output'', out),
           (''delta'', d), (''usedGas'', g), (''ethereumPayload'', p),
           (''ethereumAddress'', a), (''signature'', s)]"

definition failedResult_toDbJson :: "json \<Rightarrow> json \<Rightarrow> json \<Rightarrow> json \<Rightarrow> json \<Rightarrow> json" where
  [simp]: "failedResult_toDbJson i st out g s =
     JObj [(''taskId'', i), (''status'', st), (''output'', out), (''usedGas'', g),
           (''signature'', s)]"

fun resultToDbJson :: "result \<Rightarrow> json" where
  "resultToDbJson (ComputeResult i st out d g p a s) = computeResult_toDbJson i st out d g p a s"
| "resultToDbJson (DeployResult i st out d g p a s h) = deployResult_toDbJson i st out d g p a s h"
| "resultToDbJson (FailedResult i st out g s) = failedResult_toDbJson i st out g s"

text \<open>A result whose fields came from JSON text; a failed one has the status its builder set.\<close>

fun result_ok :: "result \<Rightarrow> bool" where
  "result_ok (ComputeResult i st out d g p a s) =
     (json_normal i \<and> json_normal st \<and> json_normal out \<and> json_normal d \<and> json_normal g \<and>
      json_normal p \<and> json_normal a \<and> json_normal s)"
| "result_ok (DeployResult i st out d g p a s h) =
     (json_normal i \<and> json_normal st \<and> json_normal out \<and> json_normal d \<and> json_normal g \<and>
      json_normal p \<and> json_normal a \<and> json_normal s \<and> json_normal h)"
| "result_ok (FailedResult i st out g s) =
     (json_normal i \<and> st = FAILED \<and> json_normal out \<and> json_normal g \<and> json_normal s)"

lemmas result_fields_defs =
  compute_result_fields_def deploy_result_fields_def failed_result_fields_def

lemma resultToDbJson_normal: "result_ok r \<Longrightarrow> json_normal (resultToDbJson r)"
  by (cases r) (simp_all add: obj_wf_def)

lemma buildComputeResult_toDbJson:
  "\<not> is_FailedResult r \<Longrightarrow> \<not> is_DeployResult r \<Longrightarrow> buildComputeResult (resultToDbJson r) = Inr (Some r)"
  by (cases r) (simp_all add: buildComputeResult_def parse_if_string_def some_missing_obj
      result_fields_defs obj_get_def is_FailedResult_def is_DeployResult_def)

lemma buildDeployResult_toDbJson:
  "is_DeployResult r \<Longrightarrow> buildDeployResult (resultToDbJson r) = Inr (Some r)"
  by (cases r) (simp_all add: buildDeployResult_def parse_if_string_def some_missing_obj
      result_fields_defs obj_get_def is_DeployResult_def)

lemma buildFailedResult_toDbJson:
  "is_FailedResult r \<Longrightarrow> rStatus r = FAILED \<Longrightarrow> buildFailedResult (resultToDbJson r) = Inr (Some r)"
  by (cases r) (simp_all add: buildFailedResult_def parse_if_string_def some_missing_obj
      result_fields_defs obj_get_def is_FailedResult_def)

lemma is_FailedResult_status: "result_ok r \<Longrightarrow> is_FailedResult r \<Longrightarrow> rStatus r = FAILED"
  by (cases r) (simp_all add: is_FailedResult_def)

lemma not_Failed_and_Deploy: "is_FailedResult r \<Longrightarrow> \<not> is_DeployResult r"
  by (cases r) (simp_all add: is_FailedResult_def is_DeployResult_def)

interpretation compute_result: db_codec
  "\<lambda>r. Inr (resultToDbJson r)" buildComputeResult
  "\<lambda>r. result_ok r \<and> \<not> is_FailedResult r \<and> \<not> is_DeployResult r"
  by unfold_locales (auto simp: resultToDbJson_normal buildComputeResult_toDbJson)

interpretation deploy_result: db_codec
  "\<lambda>r. Inr (resultToDbJson r)" buildDeployResult
  "\<lambda>r. result_ok r \<and> is_DeployResult r"
  by unfold_locales (auto simp: resultToDbJson_normal buildDeployResult_toDbJson)

interpretation failed_result: db_codec
  "\<lambda>r. Inr (resultToDbJson r)" buildFailedResult
  "\<lambda>r. result_ok r \<and> is_FailedResult r"
  by unfold_locales
    (auto simp: resultToDbJson_normal buildFailedResult_toDbJson is_FailedResult_status)

section \<open>What the builders accept\<close>

lemma buildFailedResult_Some:
  assumes "buildFailedResult v = Inr (Some r)"
  shows "is_FailedResult r \<and> rStatus r = FAILED"
  using assms
  by (auto simp: buildFailedResult_def bindE_eq_Inr is_FailedResult_def split: if_splits)

lemma buildComputeResult_Some:
  assumes "buildComputeResult v = Inr (Some r)"
  shows "\<not> is_FailedResult r \<and> \<not> is_DeployResult r"
  using assms
  by (auto simp: buildComputeResult_def bindE_eq_Inr is_FailedResult_def is_DeployResult_def
      split: if_splits)

lemma buildDeployResult_Some: "buildDeployResult v = Inr (Some r) \<Longrightarrow> is_DeployResult r"
  by (auto simp: buildDeployResult_def bindE_eq_Inr is_DeployResult_def split: if_splits)

lemma build_obj_iff:
  "buildComputeResult (JObj fs) = Inr None \<longleftrightarrow> (\<exists>k\<in>set compute_result_fields. map_of fs k = None)"
  "buildDeployResult (JObj fs) = Inr None \<longleftrightarrow> (\<exists>k\<in>set deploy_result_fields. map_of fs k = None)"
  "buildFailedResult (JObj fs) = Inr None \<longleftrightarrow> (\<exists>k\<in>set failed_result_fields. map_of fs k = None)"
  by (auto simp: buildComputeResult_def buildDeployResult_def buildFailedResult_def
      parse_if_string_def some_missing_obj)

lemma buildFromRaw_obj_Some:
  assumes "buildFromRaw type (JObj fs) = Inr (Some r)"
  shows "rTaskId r = obj_get fs ''taskId''"
    and "type = T_Failed \<and> is_FailedResult r \<and> rStatus r = FAILED
         \<or> type = T_Deploy \<and> is_DeployResult r \<and> rStatus r = SUCCESS
         \<or> type = T_Compute \<and> \<not> is_FailedResult r \<and> \<not> is_DeployResult r \<and> rStatus r = SUCCESS"
  using assms
  by (auto simp: buildFromRaw_def buildFailedResult_def buildDeployResult_def
      buildComputeResult_def parse_if_string_def some_missing_obj obj_get_def
      is_FailedResult_def is_DeployResult_def split: if_splits)

end
