(* ===== verification/Tasks.thy ===== *)
theory Tasks
  imports Task_Results
begin

text \<open>
  \<open>src/src/worker/tasks/{Task,DeployTask,ComputeTask,OutsideTask}.js\<close>: the task objects,
  their status, how a result is attached, and how they are written to and read from the
  task database.
\<close>

section \<open>Task objects\<close>

text \<open>
  The fields of the subclasses: \<open>preCode\<close>, \<open>encryptedArgs\<close>, \<open>encryptedFn\<close> and \<open>userDHKey\<close> of a
  deployment; the last three of a computation.
\<close>

datatype task_body =
    DeployBody json json json json
  | ComputeBody json json json
  | OutsideBody

record task =
  tkId :: json
  tkStatus :: json
  tkResult :: "result option"
  tkType :: json
  tkContractAddr :: json
  tkGasLimit :: json
  tkBlockNumber :: json
  tkBody :: task_body

text \<open>The constructor of \<open>Task\<close>.\<close>

definition Task :: "json \<Rightarrow> json \<Rightarrow> json \<Rightarrow> json \<Rightarrow> json \<Rightarrow> task_body \<Rightarrow> task" where
  "Task taskId type contractAddress gasLimit blockNumber body =
     \<lparr>tkId = remove0x taskId, tkStatus = UNVERIFIED, tkResult = None, tkType = type,
      tkContractAddr = remove0x contractAddress, tkGasLimit = gasLimit,
      tkBlockNumber = blockNumber, tkBody = body\<rparr>"

text \<open>Status changes; nobody listens to the \<open>status\<close> event they emit.\<close>

definition setStatus :: "json \<Rightarrow> task \<Rightarrow> task" where
  "setStatus st t = t\<lparr>tkStatus := st\<rparr>"

abbreviation setInProgressStatus :: "task \<Rightarrow> task" where
  "setInProgressStatus \<equiv> setStatus IN_PROGRESS"

abbreviation setSuccessStatus :: "task \<Rightarrow> task" where
  "setSuccessStatus \<equiv> setStatus SUCCESS"

abbreviation setFailedStatus :: "task \<Rightarrow> task" where
  "setFailedStatus \<equiv> setStatus FAILED"

definition setGasLimit :: "json \<Rightarrow> task \<Rightarrow> task" where
  "setGasLimit gasLimit t = t\<lparr>tkGasLimit := gasLimit\<rparr>"

definition setBlockNumber :: "json \<Rightarrow> task \<Rightarrow> task" where
  "setBlockNumber blockNumber t = t\<lparr>tkBlockNumber := blockNumber\<rparr>"

definition isUnverified :: "task \<Rightarrow> bool" where
  "isUnverified t \<longleftrightarrow> tkStatus t = UNVERIFIED"

definition isSuccess :: "task \<Rightarrow> bool" where
  "isSuccess t \<longleftrightarrow> tkStatus t = SUCCESS"

definition isFailed :: "task \<Rightarrow> bool" where
  "isFailed t \<longleftrightarrow> tkStatus t = FAILED"

definition isFinished :: "task \<Rightarrow> bool" where
  "isFinished t \<longleftrightarrow> isSuccess t \<or> isFailed t"

text \<open>
  \<open>setResult\<close>: what is no \<open>Result\<close> (here \<open>None\<close>) or belongs to another task is ignored.
  The task id is a string or \<open>null\<close>, so that \<open>===\<close> is equality.
\<close>

definition setResult :: "result option \<Rightarrow> task \<Rightarrow> task" where
  "setResult ro t =
     (case ro of
        Some r \<Rightarrow>
          (if rTaskId r = tkId t
           then (if resultIsSuccess r then setSuccessStatus (t\<lparr>tkResult := Some r\<rparr>)
                 else setFailedStatus (t\<lparr>tkResult := Some r\<rparr>))
           else t)
      | None \<Rightarrow> t)"

lemmas task_status_defs =
  setStatus_def isUnverified_def isSuccess_def isFailed_def isFinished_def

lemma setResult_id [simp]:
  "tkId (setResult ro t) = tkId t" "tkBody (setResult ro t) = tkBody t"
  "tkType (setResult ro t) = tkType t"
  by (auto simp: setResult_def setStatus_def split: option.splits)

section \<open>Building tasks from messages\<close>

definition deploy_fields :: "string list" where
  "deploy_fields = [''taskId'', ''preCode'', ''encryptedArgs'', ''encryptedFn'', ''userDHKey'',
     ''gasLimit'', ''contractAddress'', ''blockNumber'']"

definition compute_fields :: "string list" where
  "compute_fields = [''taskId'', ''encryptedArgs'', ''encryptedFn'', ''userDHKey'',
     ''gasLimit'', ''contractAddress'', ''blockNumber'']"

definition DeployTask :: "json \<Rightarrow> json \<Rightarrow> json \<Rightarrow> json \<Rightarrow> json \<Rightarrow> json \<Rightarrow> json \<Rightarrow> json \<Rightarrow> task" where
  "DeployTask taskId preCode encryptedArgs encryptedFn userDHKey gasLimit contractAddr blockNumber =
     Task taskId T_Deploy contractAddr gasLimit blockNumber
       (DeployBody preCode encryptedArgs encryptedFn userDHKey)"

definition ComputeTask :: "json \<Rightarrow> json \<Rightarrow> json \<Rightarrow> json \<Rightarrow> json \<Rightarrow> json \<Rightarrow> json \<Rightarrow> task" where
  "ComputeTask taskId encryptedArgs encryptedFn userDHKey gasLimit contractAddr blockNumber =
     Task taskId T_Compute contractAddr gasLimit blockNumber
       (ComputeBody encryptedArgs encryptedFn userDHKey)"

definition OutsideTask :: "json \<Rightarrow> json \<Rightarrow> result \<Rightarrow> task" where
  "OutsideTask taskId type r =
     setResult (Some r) (Task taskId type JUndef JUndef JUndef OutsideBody)"

definition deploy_buildTask :: "json \<Rightarrow> task option js" where
  "deploy_buildTask msg =
     bindE (some_missing deploy_fields msg) (\<lambda>isMissing.
       if isMissing then Inr None
       else Inr (Some (DeployTask (fld msg ''taskId'') (fld msg ''preCode'')
              (fld msg ''encryptedArgs'') (fld msg ''encryptedFn'') (fld msg ''userDHKey'')
              (fld msg ''gasLimit'') (fld msg ''contractAddress'') (fld msg ''blockNumber''))))"

definition compute_buildTask :: "json \<Rightarrow> task option js" where
  "compute_buildTask msg =
     bindE (some_missing compute_fields msg) (\<lambda>isMissing.
       if isMissing then Inr None
       else Inr (Some (ComputeTask (fld msg ''taskId'') (fld msg ''encryptedArgs'')
              (fld msg ''encryptedFn'') (fld msg ''userDHKey'') (fld msg ''gasLimit'')
              (fld msg ''contractAddress'') (fld msg ''blockNumber''))))"

definition outside_buildTask :: "json \<Rightarrow> json \<Rightarrow> task option js" where
  "outside_buildTask type rawResult =
     bindE (buildFromRaw type rawResult) (\<lambda>ro.
       Inr (map_option (\<lambda>r. OutsideTask (rTaskId r) type r) ro))"

section \<open>Writing and reading\<close>

text \<open>\<open>this._result.toDbJson()\<close> throws when there is no result.\<close>

definition task_result_json :: "task \<Rightarrow> json js" where
  "task_result_json t =
     (case tkResult t of None \<Rightarrow> Inl JsTypeError | Some r \<Rightarrow> Inr (resultToDbJson r))"

definition with_result :: "task \<Rightarrow> (string \<times> json) list \<Rightarrow> json js" where
  "with_result t out =
     (if isFinished t
      then bindE (task_result_json t) (\<lambda>r. Inr (JObj (obj_set out ''result'' r)))
      else Inr (JObj out))"

definition deployTask_toDbJson :: "json \<Rightarrow> json \<Rightarrow> json \<Rightarrow> json \<Rightarrow> task \<Rightarrow> json js" where
  [simp]: "deployTask_toDbJson pc args fn key t =
     with_result t
       [(''status'', tkStatus t), (''taskId'', tkId t), (''preCode'', pc),
        (''encryptedArgs'', args), (''encryptedFn'', fn), (''userDHKey'', key),
        (''gasLimit'', tkGasLimit t), (''contractAddress'', tkContractAddr t),
        (''blockNumber'', tkBlockNumber t)]"

definition computeTask_toDbJson :: "json \<Rightarrow> json \<Rightarrow> json \<Rightarrow> task \<Rightarrow> json js" where
  [simp]: "computeTask_toDbJson args fn key t =
     with_result t
       [(''status'', tkStatus t), (''taskId'', tkId t),
        (''encryptedArgs'', args), (''encryptedFn'', fn), (''userDHKey'', key),
        (''gasLimit'', tkGasLimit t), (''contractAddress'', tkContractAddr t),
        (''blockNumber'', tkBlockNumber t)]"

definition outsideTask_toDbJson :: "task \<Rightarrow> json js" where
  [simp]: "outsideTask_toDbJson t =
     (case tkResult t of
        None \<Rightarrow> Inl JsTypeError
      | Some r \<Rightarrow> Inr (JObj
          [(''outsideTask'', JBool True), (''status'', rStatus r), (''type'', tkType t),
           (''taskId'', tkId t), (''result'', resultToDbJson r)]))"

definition toDbJson :: "task \<Rightarrow> json js" where
  "toDbJson t =
     (case tkBody t of
        DeployBody pc args fn key \<Rightarrow> deployTask_toDbJson pc args fn key t
      | ComputeBody args fn key \<Rightarrow> computeTask_toDbJson args fn key t
      | OutsideBody \<Rightarrow> outsideTask_toDbJson t)"

text \<open>Only deployments and computations have \<open>toCoreJson\<close>.\<close>

definition deployTask_toCoreJson :: "json \<Rightarrow> json \<Rightarrow> json \<Rightarrow> json \<Rightarrow> task \<Rightarrow> json" where
  [simp]: "deployTask_toCoreJson pc args fn key t = JObj
     [(''preCode'', pc), (''encryptedArgs'', args), (''encryptedFn'', fn),
      (''userDHKey'', key), (''gasLimit'', tkGasLimit t),
      (''contractAddress'', tkContractAddr t)]"

definition computeTask_toCoreJson :: "json \<Rightarrow> json \<Rightarrow> json \<Rightarrow> task \<Rightarrow> json" where
  [simp]: "computeTask_toCoreJson args fn key t = JObj
     [(''encryptedArgs'', args), (''encryptedFn'', fn),
      (''userDHKey'', key), (''gasLimit'', tkGasLimit t),
      (''contractAddress'', tkContractAddr t)]"

definition toCoreJson :: "task \<Rightarrow> json js" where
  "toCoreJson t =
     (case tkBody t of
        DeployBody pc args fn key \<Rightarrow> Inr (deployTask_toCoreJson pc args fn key t)
      | ComputeBody args fn key \<Rightarrow> Inr (computeTask_toCoreJson args fn key t)
      | OutsideBody \<Rightarrow> Inl JsTypeError)"

text \<open>\<open>task._setStatus(...)\<close> throws when \<open>buildTask\<close> returned \<open>null\<close>.\<close>

definition need_task :: "task option \<Rightarrow> task js" where
  "need_task ot = (case ot of None \<Rightarrow> Inl JsTypeError | Some t \<Rightarrow> Inr t)"

definition deploy_fromDbJson :: "json \<Rightarrow> task option js" where
  "deploy_fromDbJson taskObj =
     bindE (get_prop taskObj ''status'') (\<lambda>status.
     if \<not> truthy status then Inr None
     else
       bindE (deploy_buildTask taskObj) (\<lambda>ot.
       bindE (need_task ot) (\<lambda>t.
       let task = setStatus status t; res = fld taskObj ''result'' in
       if truthy res \<and> fld res ''status'' \<noteq> FAILED
       then bindE (buildDeployResult res) (\<lambda>r. Inr (Some (setResult r task)))
       else if truthy res
       then bindE (buildFailedResult res) (\<lambda>r. Inr (Some (setResult r task)))
       else Inr (Some task))))"

definition compute_fromDbJson :: "json \<Rightarrow> task option js" where
  "compute_fromDbJson taskObj =
     bindE (get_prop taskObj ''status'') (\<lambda>status.
     if \<not> truthy status then Inr None
     else
       bindE (compute_buildTask taskObj) (\<lambda>ot.
       bindE (need_task ot) (\<lambda>t.
       let task = setStatus status t; res = fld taskObj ''result'' in
       if truthy res \<and> fld res ''status'' = SUCCESS
       then bindE (buildComputeResult res) (\<lambda>r. Inr (Some (setResult r task)))
       else if truthy res
       then bindE (buildFailedResult res) (\<lambda>r. Inr (Some (setResult r task)))
       else Inr (Some task))))"

definition outside_fromDbJson :: "json \<Rightarrow> task option js" where
  "outside_fromDbJson taskObj =
     bindE (get_prop taskObj ''status'') (\<lambda>status.
     if \<not> truthy status then Inr None
     else outside_buildTask (fld taskObj ''type'') (fld taskObj ''result''))"

text \<open>\<open>TaskManager._deserializeTask\<close> after \<open>JSON.parse\<close>: the fields choose the class.\<close>

definition task_of_json :: "json \<Rightarrow> task option js" where
  "task_of_json taskJson =
     bindE (get_prop taskJson ''outsideTask'') (\<lambda>outside.
     if truthy outside then outside_fromDbJson taskJson
     else if truthy (fld taskJson ''preCode'') then deploy_fromDbJson taskJson
     else compute_fromDbJson taskJson)"

section \<open>Tasks that survive the database\<close>

text \<open>A string that \<open>remove0x\<close> leaves alone.\<close>

definition bare :: "json \<Rightarrow> bool" where
  "bare v \<longleftrightarrow> is_str v \<and> remove0x v = v"

text \<open>The result that a finished task carries, for each class.\<close>

definition finished_ok :: "task \<Rightarrow> bool" where
  "finished_ok t =
     (case tkResult t of
        None \<Rightarrow> \<not> isFinished t
      | Some r \<Rightarrow> result_ok r \<and> rTaskId r = tkId t \<and>
          (if resultIsSuccess r
           then isSuccess t \<and> (case tkBody t of
                  DeployBody _ _ _ _ \<Rightarrow> is_DeployResult r
                | _ \<Rightarrow> \<not> is_DeployResult r \<and> \<not> is_FailedResult r)
           else isFailed t \<and> is_FailedResult r))"

definition worker_task_ok :: "task \<Rightarrow> bool" where
  "worker_task_ok t \<longleftrightarrow>
     bare (tkId t) \<and> bare (tkContractAddr t) \<and> json_normal (tkGasLimit t) \<and>
     json_normal (tkBlockNumber t) \<and> truthy (tkStatus t) \<and> is_str (tkStatus t) \<and>
     finished_ok t \<and>
     (case tkBody t of
        DeployBody pc args fn key \<Rightarrow> truthy pc \<and> json_normal pc \<and> json_normal args \<and>
          json_normal fn \<and> json_normal key \<and> tkType t = T_Deploy
      | ComputeBody args fn key \<Rightarrow> json_normal args \<and> json_normal fn \<and> json_normal key \<and>
          tkType t = T_Compute
      | OutsideBody \<Rightarrow> False)"

text \<open>An outside task is determined by its result and its type.\<close>

definition outside_task_ok :: "task \<Rightarrow> bool" where
  "outside_task_ok t \<longleftrightarrow>
     (\<exists>r. result_ok r \<and> bare (rTaskId r) \<and> t = OutsideTask (rTaskId r) (tkType t) r \<and>
        (tkType t = T_Failed \<and> is_FailedResult r
         \<or> tkType t = T_Deploy \<and> is_DeployResult r \<and> rStatus r = SUCCESS
         \<or> tkType t = T_Compute \<and> \<not> is_FailedResult r \<and> \<not> is_DeployResult r \<and> rStatus r = SUCCESS))"

definition task_ok :: "task \<Rightarrow> bool" where
  "task_ok t \<longleftrightarrow> worker_task_ok t \<or> outside_task_ok t"

lemma bare_str: "bare v \<longleftrightarrow> (\<exists>s. v = JStr s \<and> strip0x s = s)"
  by (cases v) (auto simp: bare_def remove0x_def)

lemma bare_normal [simp]: "bare v \<Longrightarrow> json_normal v"
  by (auto simp: bare_str)

lemma is_str_normal [simp]: "is_str v \<Longrightarrow> json_normal v"
  by (cases v) auto

lemma fld_resultToDbJson [simp]:
  "fld (resultToDbJson r) ''status'' = rStatus r"
  "truthy (resultToDbJson r)"
  by (cases r; simp add: obj_get_def)+

lemma task_eq_iff:
  "(t :: task) = t' \<longleftrightarrow> tkId t = tkId t' \<and> tkStatus t = tkStatus t' \<and> tkResult t = tkResult t' \<and>
     tkType t = tkType t' \<and> tkContractAddr t = tkContractAddr t' \<and> tkGasLimit t = tkGasLimit t' \<and>
     tkBlockNumber t = tkBlockNumber t' \<and> tkBody t = tkBody t'"
  by (cases t; cases t') auto

lemma with_result_normal:
  assumes "finished_ok t" "obj_wf out" "normal_members out" "''result'' \<notin> fst ` set out"
  shows "\<exists>v. with_result t out = Inr v \<and> json_normal v"
proof (cases "tkResult t")
  case None
  then show ?thesis using assms by (auto simp: with_result_def finished_ok_def)
next
  case (Some r)
  have nm: "normal_members (xs @ ys) \<longleftrightarrow> normal_members xs \<and> normal_members ys" for xs ys
    by (induction xs) auto
  have "result_ok r" using assms(1) Some by (simp add: finished_ok_def)
  then show ?thesis using assms Some
    by (auto simp: with_result_def task_result_json_def obj_set_append nm resultToDbJson_normal
        obj_wf_def)
qed

lemma worker_toDbJson_normal:
  assumes "worker_task_ok t"
  shows "\<exists>v. toDbJson t = Inr v \<and> json_normal v"
proof (cases "tkBody t")
  case (DeployBody pc args fn key)
  with assms show ?thesis
    unfolding toDbJson_def by (auto simp: worker_task_ok_def obj_wf_def intro!: with_result_normal)
next
  case (ComputeBody args fn key)
  with assms show ?thesis
    unfolding toDbJson_def by (auto simp: worker_task_ok_def obj_wf_def intro!: with_result_normal)
qed (use assms in \<open>simp add: worker_task_ok_def\<close>)

lemma buildResult_of_ok:
  assumes "result_ok r"
  shows "is_DeployResult r \<Longrightarrow> buildDeployResult (resultToDbJson r) = Inr (Some r)"
    and "\<not> is_DeployResult r \<Longrightarrow> \<not> is_FailedResult r \<Longrightarrow> buildComputeResult (resultToDbJson r) = Inr (Some r)"
    and "is_FailedResult r \<Longrightarrow> buildFailedResult (resultToDbJson r) = Inr (Some r)"
  using assms by (simp_all add: buildDeployResult_toDbJson buildComputeResult_toDbJson
      buildFailedResult_toDbJson is_FailedResult_status)

lemma setResult_same:
  assumes "tkResult t = Some r" "rTaskId r = tkId t"
    "if resultIsSuccess r then isSuccess t else isFailed t"
  shows "setResult (Some r) (t\<lparr>tkResult := x\<rparr>) = t"
  using assms by (auto simp: setResult_def task_status_defs task_eq_iff split: if_splits)

lemma bare_remove0x: "bare v \<Longrightarrow> remove0x v = v"
  by (simp add: bare_def)

lemmas read_defs = task_of_json_def some_missing_obj obj_get_def need_task_def Let_def
  Task_def setStatus_def

lemma deploy_round_trip:
  assumes ok: "worker_task_ok t" and body: "tkBody t = DeployBody pc args fn key"
    and v: "toDbJson t = Inr v"
  shows "task_of_json v = Inr (Some t)"
proof -
  note [simp] = read_defs deploy_fromDbJson_def deploy_buildTask_def deploy_fields_def DeployTask_def
  have id: "remove0x (tkId t) = tkId t" "remove0x (tkContractAddr t) = tkContractAddr t"
    "truthy (tkStatus t)" "tkType t = T_Deploy" "truthy pc"
    using ok body by (simp_all add: worker_task_ok_def bare_remove0x)
  have fin: "finished_ok t" using ok by (simp add: worker_task_ok_def)
  show ?thesis
  proof (cases "tkResult t")
    case None
    then show ?thesis using fin v id body
      by (auto simp: toDbJson_def with_result_def finished_ok_def task_eq_iff)
  next
    case (Some r)
    then have r: "result_ok r" "rTaskId r = tkId t" "if resultIsSuccess r then isSuccess t else isFailed t"
      "isFinished t" "rStatus r \<noteq> FAILED \<Longrightarrow> is_DeployResult r" "rStatus r = FAILED \<Longrightarrow> is_FailedResult r"
      using fin body is_FailedResult_status [of r]
      by (auto simp: finished_ok_def isFinished_def resultIsSuccess_def split: if_splits)
    let ?t = "t\<lparr>tkResult := None\<rparr>"
    have t: "setResult (Some r) ?t = t" by (rule setResult_same [OF Some r(2,3)])
    have "?t = \<lparr>tkId = tkId t, tkStatus = tkStatus t, tkResult = None, tkType = T_Deploy,
        tkContractAddr = tkContractAddr t, tkGasLimit = tkGasLimit t,
        tkBlockNumber = tkBlockNumber t, tkBody = DeployBody pc args fn key\<rparr>"
      using id body by (simp add: task_eq_iff)
    with t show ?thesis using v id body Some r(4-6) buildResult_of_ok [OF r(1)]
      by (cases "rStatus r = FAILED")
        (auto simp: toDbJson_def with_result_def task_result_json_def)
  qed
qed

lemma compute_round_trip:
  assumes ok: "worker_task_ok t" and body: "tkBody t = ComputeBody args fn key"
    and v: "toDbJson t = Inr v"
  shows "task_of_json v = Inr (Some t)"
proof -
  note [simp] = read_defs compute_fromDbJson_def compute_buildTask_def compute_fields_def ComputeTask_def
  have id: "remove0x (tkId t) = tkId t" "remove0x (tkContractAddr t) = tkContractAddr t"
    "truthy (tkStatus t)" "tkType t = T_Compute"
    using ok body by (simp_all add: worker_task_ok_def bare_remove0x)
  have fin: "finished_ok t" using ok by (simp add: worker_task_ok_def)
  show ?thesis
  proof (cases "tkResult t")
    case None
    then show ?thesis using fin v id body
      by (auto simp: toDbJson_def with_result_def finished_ok_def task_eq_iff)
  next
    case (Some r)
    then have r: "result_ok r" "rTaskId r = tkId t" "if resultIsSuccess r then isSuccess t else isFailed t"
      "isFinished t" "rStatus r = SUCCESS \<Longrightarrow> \<not> is_DeployResult r \<and> \<not> is_FailedResult r"
      "rStatus r \<noteq> SUCCESS \<Longrightarrow> is_FailedResult r"
      using fin body is_FailedResult_status [of r]
      by (auto simp: finished_ok_def isFinished_def resultIsSuccess_def split: if_splits)
    let ?t = "t\<lparr>tkResult := None\<rparr>"
    have t: "setResult (Some r) ?t = t" by (rule setResult_same [OF Some r(2,3)])
    have "?t = \<lparr>tkId = tkId t, tkStatus = tkStatus t, tkResult = None, tkType = T_Compute,
        tkContractAddr = tkContractAddr t, tkGasLimit = tkGasLimit t,
        tkBlockNumber = tkBlockNumber t, tkBody = ComputeBody args fn key\<rparr>"
      using id body by (simp add: task_eq_iff)
    with t show ?thesis using v id body Some r(4-6) buildResult_of_ok [OF r(1)]
      by (cases "rStatus r = SUCCESS")
        (auto simp: toDbJson_def with_result_def task_result_json_def)
  qed
qed

interpretation worker_task: db_codec toDbJson task_of_json worker_task_ok
proof
  fix t v
  assume "worker_task_ok t"
  then show "\<exists>v. toDbJson t = Inr v \<and> json_normal v" by (rule worker_toDbJson_normal)
  assume "toDbJson t = Inr v"
  with \<open>worker_task_ok t\<close> show "task_of_json v = Inr (Some t)"
    by (cases "tkBody t") (auto intro: deploy_round_trip compute_round_trip simp: worker_task_ok_def)
qed

lemma OutsideTask_bare:
  assumes "bare (rTaskId r)"
  shows "OutsideTask (rTaskId r) type r =
    \<lparr>tkId = rTaskId r, tkStatus = (if resultIsSuccess r then SUCCESS else FAILED),
     tkResult = Some r, tkType = type, tkContractAddr = JNull, tkGasLimit = JUndef,
     tkBlockNumber = JUndef, tkBody = OutsideBody\<rparr>"
  using assms
  by (simp add: OutsideTask_def setResult_def Task_def bare_remove0x setStatus_def remove0x_def [of JUndef])

lemma set_prop_status_same:
  "st = rStatus r \<Longrightarrow> set_prop (resultToDbJson r) ''status'' st = Inr (resultToDbJson r)"
  by (cases r) simp_all

lemma buildFromRaw_of_ok:
  assumes "result_ok r"
    and "type = T_Failed \<and> is_FailedResult r
         \<or> type = T_Deploy \<and> is_DeployResult r \<and> rStatus r = SUCCESS
         \<or> type = T_Compute \<and> \<not> is_FailedResult r \<and> \<not> is_DeployResult r \<and> rStatus r = SUCCESS"
  shows "buildFromRaw type (resultToDbJson r) = Inr (Some r)"
proof -
  note b = buildResult_of_ok [OF assms(1)]
  from assms(2) consider "type = T_Failed" "is_FailedResult r"
    | "type = T_Deploy" "is_DeployResult r" "rStatus r = SUCCESS"
    | "type = T_Compute" "\<not> is_FailedResult r" "\<not> is_DeployResult r" "rStatus r = SUCCESS"
    by blast
  then show ?thesis
  proof cases
    case 1
    then show ?thesis
      using b(3) is_FailedResult_status [OF assms(1)] by (simp add: buildFromRaw_def set_prop_status_same)
  next
    case 2
    then show ?thesis using b(1) by (simp add: buildFromRaw_def set_prop_status_same)
  next
    case 3
    then show ?thesis using b(2) by (simp add: buildFromRaw_def set_prop_status_same)
  qed
qed

lemma outside_ok_elim:
  assumes "outside_task_ok t"
  obtains r where "result_ok r" "bare (rTaskId r)" "t = OutsideTask (rTaskId r) (tkType t) r"
    "buildFromRaw (tkType t) (resultToDbJson r) = Inr (Some r)"
    "tkType t \<in> {T_Failed, T_Deploy, T_Compute}" "rStatus r = SUCCESS \<or> rStatus r = FAILED"
proof -
  obtain r where r: "result_ok r" "bare (rTaskId r)" "t = OutsideTask (rTaskId r) (tkType t) r"
    and ty: "tkType t = T_Failed \<and> is_FailedResult r
         \<or> tkType t = T_Deploy \<and> is_DeployResult r \<and> rStatus r = SUCCESS
         \<or> tkType t = T_Compute \<and> \<not> is_FailedResult r \<and> \<not> is_DeployResult r \<and> rStatus r = SUCCESS"
    using assms by (auto simp: outside_task_ok_def)
  then show thesis
    using that [OF r buildFromRaw_of_ok [OF r(1) ty]] is_FailedResult_status [OF r(1)] by auto
qed

lemma outside_toDbJson:
  assumes "outside_task_ok t" "tkResult t = Some r"
  shows "toDbJson t = Inr (JObj [(''outsideTask'', JBool True), (''status'', rStatus r),
    (''type'', tkType t), (''taskId'', tkId t), (''result'', resultToDbJson r)])"
proof -
  obtain r' where "bare (rTaskId r')" "t = OutsideTask (rTaskId r') (tkType t) r'"
    using assms(1) by (rule outside_ok_elim)
  then have "tkBody t = OutsideBody" by (simp add: OutsideTask_bare task_eq_iff)
  then show ?thesis using assms(2) by (simp add: toDbJson_def)
qed

interpretation outside_task: db_codec toDbJson task_of_json outside_task_ok
proof
  fix t v
  assume t: "outside_task_ok t"
  then obtain r where r: "result_ok r" "bare (rTaskId r)" "t = OutsideTask (rTaskId r) (tkType t) r"
    "buildFromRaw (tkType t) (resultToDbJson r) = Inr (Some r)"
    "tkType t \<in> {T_Failed, T_Deploy, T_Compute}" "rStatus r = SUCCESS \<or> rStatus r = FAILED"
    by (rule outside_ok_elim)
  have eq: "tkId t = rTaskId r" "tkResult t = Some r"
    using r(2,3) by (simp_all add: OutsideTask_bare task_eq_iff)
  note js = outside_toDbJson [OF t eq(2)]
  show "\<exists>v. toDbJson t = Inr v \<and> json_normal v"
    using js r eq by (auto simp: resultToDbJson_normal obj_wf_def)
  assume "toDbJson t = Inr v"
  then show "task_of_json v = Inr (Some t)"
    using js r eq(1) by (auto simp: task_of_json_def outside_fromDbJson_def outside_buildTask_def obj_get_def)
qed

interpretation any_task: db_codec toDbJson task_of_json task_ok
  by unfold_locales
    (auto simp: task_ok_def worker_task.enc_normal outside_task.enc_normal
      worker_task.dec_enc outside_task.dec_enc)

section \<open>Operations keep tasks storable\<close>

lemma worker_task_ok_in_progress [inv_intros]:
  assumes "worker_task_ok t" "tkResult t = None"
  shows "worker_task_ok (setInProgressStatus t)"
  using assms
  by (cases "tkBody t") (auto simp: worker_task_ok_def finished_ok_def task_status_defs)

lemma task_ok_id: "task_ok t \<Longrightarrow> bare (tkId t)"
  by (auto simp: task_ok_def worker_task_ok_def outside_task_ok_def OutsideTask_bare task_eq_iff)

lemma setResult_finishes:
  assumes "rTaskId r = tkId t"
  shows "isFinished (setResult (Some r) t)" "tkResult (setResult (Some r) t) = Some r"
    "isSuccess (setResult (Some r) t) \<longleftrightarrow> resultIsSuccess r"
  using assms by (auto simp: setResult_def task_status_defs)

text \<open>A result of the class that the task's computation produces.\<close>

definition result_fits :: "result \<Rightarrow> task \<Rightarrow> bool" where
  "result_fits r t \<longleftrightarrow> result_ok r \<and> rTaskId r = tkId t \<and>
     (if resultIsSuccess r
      then (case tkBody t of
              DeployBody _ _ _ _ \<Rightarrow> is_DeployResult r
            | _ \<Rightarrow> \<not> is_DeployResult r \<and> \<not> is_FailedResult r)
      else is_FailedResult r)"

lemma worker_task_ok_setResult [inv_intros]:
  assumes "worker_task_ok t" "result_fits r t"
  shows "worker_task_ok (setResult (Some r) t)"
  using assms
  by (cases "tkBody t")
    (auto simp: worker_task_ok_def result_fits_def finished_ok_def setResult_def task_status_defs)

lemma normal_members_map_of: "normal_members fs \<Longrightarrow> map_of fs k = Some v \<Longrightarrow> json_normal v"
  by (induction fs) (auto split: if_splits)

lemma obj_get_normal: "json_normal (JObj fs) \<Longrightarrow> map_of fs k \<noteq> None \<Longrightarrow> json_normal (obj_get fs k)"
  by (auto simp: obj_get_def intro: normal_members_map_of)

lemma deploy_buildTask_ok:
  assumes "deploy_buildTask (JObj fs) = Inr (Some t)" "json_normal (JObj fs)"
    "bare (tkId t)" "bare (tkContractAddr t)" "truthy (obj_get fs ''preCode'')"
  shows "worker_task_ok t \<and> isUnverified t \<and> tkResult t = None"
  using assms(1,3,4,5) obj_get_normal [OF assms(2)]
  by (auto simp: deploy_buildTask_def some_missing_obj DeployTask_def Task_def worker_task_ok_def
      finished_ok_def task_status_defs deploy_fields_def split: if_splits)

lemma compute_buildTask_ok:
  assumes "compute_buildTask (JObj fs) = Inr (Some t)" "json_normal (JObj fs)"
    "bare (tkId t)" "bare (tkContractAddr t)"
  shows "worker_task_ok t \<and> isUnverified t \<and> tkResult t = None"
  using assms(1,3,4) obj_get_normal [OF assms(2)]
  by (auto simp: compute_buildTask_def some_missing_obj ComputeTask_def Task_def worker_task_ok_def
      finished_ok_def task_status_defs compute_fields_def split: if_splits)

text \<open>
  A result whose id carries \<open>0x\<close> is dropped by the constructor of \<open>OutsideTask\<close>, and the task
  cannot be written.
\<close>

lemma OutsideTask_prefixed:
  assumes "rTaskId r = JStr s" "take 2 s = ''0x''"
  shows "tkResult (OutsideTask (rTaskId r) type r) = None"
    and "toDbJson (OutsideTask (rTaskId r) type r) = Inl JsTypeError"
proof -
  have "drop 2 s \<noteq> s" using assms(2) by (metis append_self_conv2 append_take_drop_id list.distinct(1))
  then show "tkResult (OutsideTask (rTaskId r) type r) = None"
    using assms by (simp add: OutsideTask_def setResult_def Task_def remove0x_def strip0x_def)
  then show "toDbJson (OutsideTask (rTaskId r) type r) = Inl JsTypeError"
    by (simp add: toDbJson_def OutsideTask_def) (simp add: Task_def)
qed

end
