(* ===== verification/Task_Manager.thy ===== *)
theory Task_Manager
  imports Level_Db Tasks
begin

text \<open>
  \<open>src/src/worker/tasks/TaskManager.js\<close>: the pool of unverified tasks in memory, the
  database of verified and finished tasks, and the notifications to the node controller.
  A database callback runs at once, with the state its operation left; the operations themselves
  are the steps of the traces at the end. \<open>Task_Interleaving\<close> takes the callbacks apart. The abstract specification has two finite maps,
  pending and stored tasks, and every operation refines its specification.
\<close>

section \<open>State\<close>

datatype notification =
    VERIFY_NEW_TASK task
  | TASK_VERIFIED task
  | TASK_FINISHED task

record 's taskmgr =
  tmPool :: "(string \<times> int \<times> task) list"
  tmDb :: "'s leveldb"
  tmEvents :: "notification list"

text \<open>\<open>path.join(__dirname, "/tasks_db")\<close> is the parameter \<open>defaultPath\<close>.\<close>

definition TaskManager :: "'s level_ops \<Rightarrow> string \<Rightarrow> json \<Rightarrow> 's taskmgr" where
  "TaskManager L defaultPath dbPath =
     \<lparr>tmPool = [],
      tmDb = db_open (LevelDbApi L (if truthy dbPath then js_key dbPath else defaultPath)),
      tmEvents = []\<rparr>"

definition notify :: "notification \<Rightarrow> 's taskmgr \<Rightarrow> 's taskmgr" where
  "notify n tm = tm\<lparr>tmEvents := tmEvents tm @ [n]\<rparr>"

text \<open>Running a database operation on \<open>this._db\<close>.\<close>

definition with_db :: "('s leveldb \<Rightarrow> unit cb list \<times> 's leveldb) \<Rightarrow> 's taskmgr \<Rightarrow> unit cb list \<times> 's taskmgr" where
  "with_db f tm = (let (cbs, db) = f (tmDb tm) in (cbs, tm\<lparr>tmDb := db\<rparr>))"

section \<open>Serialisation\<close>

definition serializeTask :: "task \<Rightarrow> string js" where
  "serializeTask t = bindE (toDbJson t) (\<lambda>v. Inr (JSON_stringify v))"

definition deserializeTask :: "string \<Rightarrow> task option js" where
  "deserializeTask s = bindE (JSON_parse s) task_of_json"

section \<open>Operations\<close>

definition isUnverifiedInPool :: "json \<Rightarrow> 's taskmgr \<Rightarrow> bool" where
  "isUnverifiedInPool taskId tm \<longleftrightarrow> map_of (tmPool tm) (js_key taskId) \<noteq> None"

definition isKeepAlive :: "int \<Rightarrow> int \<Rightarrow> json \<Rightarrow> 's taskmgr \<Rightarrow> bool" where
  "isKeepAlive now day taskId tm =
     (case map_of (tmPool tm) (js_key taskId) of
        None \<Rightarrow> False
      | Some (time, _) \<Rightarrow> now - time < day)"

text \<open>The argument is \<open>None\<close> when it is no \<open>Task\<close>.\<close>

definition isOkToAdd :: "task option \<Rightarrow> 's taskmgr \<Rightarrow> bool" where
  "isOkToAdd ot tm = (case ot of None \<Rightarrow> False | Some t \<Rightarrow> \<not> isUnverifiedInPool (tkId t) tm)"

text \<open>
  \<open>addTaskUnverified\<close> at time \<open>now\<close>: the \<open>err\<close> of the failing branch is local to it, so the
  returned value is \<open>null\<close> (here \<open>None\<close>) in every case.
\<close>

definition addTaskUnverified :: "int \<Rightarrow> task option \<Rightarrow> 's taskmgr \<Rightarrow> js_error option \<times> 's taskmgr" where
  "addTaskUnverified now unverifiedTask tm =
     (if isOkToAdd unverifiedTask tm
      then (case unverifiedTask of
              Some t \<Rightarrow> (None, notify (VERIFY_NEW_TASK t)
                 (tm\<lparr>tmPool := obj_set (tmPool tm) (js_key (tkId t)) (now, t)\<rparr>))
            | None \<Rightarrow> (None, tm))
      else (None, tm))"

definition storeTask :: "task \<Rightarrow> 's taskmgr \<Rightarrow> unit cb list \<times> 's taskmgr" where
  "storeTask t tm =
     (case serializeTask t of
        Inl e \<Rightarrow> ([SyncThrow e], tm)
      | Inr s \<Rightarrow> with_db (db_put (tkId t) (JStr s)) tm)"

definition deleteTask :: "json \<Rightarrow> 's taskmgr \<Rightarrow> unit cb list \<times> 's taskmgr" where
  "deleteTask taskId tm = with_db (db_delete taskId) tm"

definition readTask :: "json \<Rightarrow> 's taskmgr \<Rightarrow> task cb list" where
  "readTask taskId tm = cb_then (db_get taskId (tmDb tm)) (\<lambda>r. case r of
       Inl err \<Rightarrow> [Call (Inl err)]
     | Inr res \<Rightarrow>
        (case deserializeTask res of
           Inl e \<Rightarrow> [SyncThrow e]
         | Inr (Some task) \<Rightarrow> [Call (Inr task)]
         | Inr None \<Rightarrow> [Call (Inl (errMsg ''error loading task from db''))]))"

definition addOutsideResult :: "task option \<Rightarrow> 's taskmgr \<Rightarrow> unit js option \<times> 's taskmgr" where
  "addOutsideResult outsideTask tm =
     (case outsideTask of
        Some t \<Rightarrow>
          (if tkBody t = OutsideBody
           then (let (cbs, tm') = storeTask t tm in (promise_settle cbs, tm'))
           else (Some (Inl (Err TypeErr ''result is not instanceof OutsideTask'')), tm))
      | None \<Rightarrow> (Some (Inl (Err TypeErr ''result is not instanceof OutsideTask'')), tm))"

definition removeTask :: "json \<Rightarrow> 's taskmgr \<Rightarrow> unit cb list \<times> 's taskmgr" where
  "removeTask taskId tm =
     deleteTask taskId (tm\<lparr>tmPool := obj_del (tmPool tm) (js_key taskId)\<rparr>)"

definition asyncRemoveTask :: "json \<Rightarrow> 's taskmgr \<Rightarrow> unit js option \<times> 's taskmgr" where
  "asyncRemoveTask taskId tm = (let (cbs, tm') = removeTask taskId tm in (promise_settle cbs, tm'))"

text \<open>
  \<open>getTask\<close>: its returned value (\<open>None\<close> for \<open>undefined\<close>) and the invocations of its
  callback: a task found in the pool is returned and the callback is not invoked.
\<close>

definition getTask :: "json \<Rightarrow> 's taskmgr \<Rightarrow> task option \<times> task cb list" where
  "getTask taskId tm =
     (case map_of (tmPool tm) (js_key taskId) of
        Some (_, t) \<Rightarrow> (Some t, [])
      | None \<Rightarrow> (None, readTask taskId tm))"

definition asyncGetTask :: "json \<Rightarrow> 's taskmgr \<Rightarrow> task js option" where
  "asyncGetTask taskId tm = promise_settle (snd (getTask taskId tm))"

definition getTaskStatus :: "json \<Rightarrow> 's taskmgr \<Rightarrow> json cb list" where
  "getTaskStatus taskId tm = cb_then (snd (getTask taskId tm)) (\<lambda>r. case r of
       Inl err \<Rightarrow> [Call (Inr JNull)]
     | Inr task \<Rightarrow> [Call (Inr (tkStatus task))])"

definition asyncGetTaskStatus :: "json \<Rightarrow> 's taskmgr \<Rightarrow> json js option" where
  "asyncGetTaskStatus taskId tm = map_option (map_sum id tkStatus) (asyncGetTask taskId tm)"

definition getUnverifiedTasks :: "'s taskmgr \<Rightarrow> task list" where
  "getUnverifiedTasks tm = map (\<lambda>(id, time, t). t) (tmPool tm)"

text \<open>The tasks of the database in the order of its keys; \<open>None\<close> is \<open>null\<close>.\<close>

definition getAllDbTasks :: "'s taskmgr \<Rightarrow> task option list cb list" where
  "getAllDbTasks tm = cb_then (db_getAll (tmDb tm)) (\<lambda>r. case r of
       Inl err \<Rightarrow> [Call (Inl err)]
     | Inr taskMap \<Rightarrow>
        (case mapE (\<lambda>(id, s). deserializeTask s) (case taskMap of None \<Rightarrow> [] | Some m \<Rightarrow> m) of
           Inl e \<Rightarrow> [SyncThrow e]
         | Inr taskList \<Rightarrow> [Call (Inr taskList)]))"

definition getAllTasks :: "'s taskmgr \<Rightarrow> task option list cb list" where
  "getAllTasks tm =
     (let allTasks = map Some (getUnverifiedTasks tm) in
      cb_then (getAllDbTasks tm) (\<lambda>r. case r of
         Inl err \<Rightarrow> if err = NotFoundError then [Call (Inr allTasks)] else [Call (Inl err)]
       | Inr tasks \<Rightarrow> [Call (Inr (allTasks @ tasks))]))"

definition asyncGetAllTasks :: "'s taskmgr \<Rightarrow> task option list js option" where
  "asyncGetAllTasks tm = promise_settle (getAllTasks tm)"

definition asyncGetVerifiedTasks :: "'s taskmgr \<Rightarrow> task option list js option" where
  "asyncGetVerifiedTasks tm = promise_settle (getAllDbTasks tm)"

definition asyncGetFinishedTasks :: "'s taskmgr \<Rightarrow> task list js option" where
  "asyncGetFinishedTasks tm = promise_settle (cb_then (getAllDbTasks tm) (\<lambda>r. case r of
       Inl err \<Rightarrow> [Call (Inl err)]
     | Inr verifiedTasks \<Rightarrow>
        (case mapE need_task verifiedTasks of
           Inl e \<Rightarrow> [SyncThrow e]
         | Inr ts \<Rightarrow> [Call (Inr (filter isFinished ts))])))"

definition asyncGetFailedTasks :: "'s taskmgr \<Rightarrow> task list js option" where
  "asyncGetFailedTasks tm = map_option (map_sum id (filter isFailed)) (asyncGetFinishedTasks tm)"

definition asyncGetSuccessfullTasks :: "'s taskmgr \<Rightarrow> task list js option" where
  "asyncGetSuccessfullTasks tm =
     map_option (map_sum id (filter isSuccess)) (asyncGetFinishedTasks tm)"

definition onFinishTask :: "result \<Rightarrow> 's taskmgr \<Rightarrow> unit cb list \<times> 's taskmgr" where
  "onFinishTask taskResult tm =
     (if isUnverifiedInPool (rTaskId taskResult) tm
      then ([Call (Inl (errMsg ''[ON_FINISH_TASK] error task was executed without verification.''))], tm)
      else
        let id = rTaskId taskResult in
        cb_bind (readTask id tm) tm (on_ok (\<lambda>task tm.
          let (cbs, tm) = deleteTask id tm in
          cb_bind cbs tm (on_ok (\<lambda>_ tm.
            let task = setResult (Some taskResult) task;
                (cbs, tm) = storeTask task tm in
            cb_bind cbs tm (on_ok (\<lambda>_ tm.
              ([Call (Inr ())], notify (TASK_FINISHED task) tm))))))))"

definition asyncOnFinishTask :: "result \<Rightarrow> 's taskmgr \<Rightarrow> unit js option \<times> 's taskmgr" where
  "asyncOnFinishTask r tm = (let (cbs, tm') = onFinishTask r tm in (promise_settle cbs, tm'))"

text \<open>
  \<open>onVerifyTask\<close>: the task object is the one in the pool, so that the pool sees its new
  status even when the database write fails.
\<close>

definition onVerifyTask :: "json \<Rightarrow> bool \<Rightarrow> 's taskmgr \<Rightarrow> unit cb list \<times> 's taskmgr" where
  "onVerifyTask taskId isVerified tm =
     (case map_of (tmPool tm) (js_key taskId) of
        None \<Rightarrow> ([Call (Inr ())], tm)
      | Some (time, t) \<Rightarrow>
         (if \<not> isVerified then ([Call (Inr ())], tm)
          else
            let task = setInProgressStatus t;
                tm = tm\<lparr>tmPool := obj_set (tmPool tm) (js_key taskId) (time, task)\<rparr>;
                (cbs, tm) = storeTask task tm in
            cb_bind cbs tm (on_ok (\<lambda>_ tm.
              ([Call (Inr ())],
               notify (TASK_VERIFIED task)
                 (tm\<lparr>tmPool := obj_del (tmPool tm) (js_key (tkId task))\<rparr>))))))"

definition asyncOnVerifyTask :: "json \<Rightarrow> bool \<Rightarrow> 's taskmgr \<Rightarrow> unit js option \<times> 's taskmgr" where
  "asyncOnVerifyTask taskId isVerified tm =
     (let (cbs, tm') = onVerifyTask taskId isVerified tm in (promise_settle cbs, tm'))"

definition stop :: "'s taskmgr \<Rightarrow> unit cb list \<times> 's taskmgr" where
  "stop tm = with_db db_close tm"

definition asyncStop :: "'s taskmgr \<Rightarrow> unit js option \<times> 's taskmgr" where
  "asyncStop tm = (let (cbs, tm') = stop tm in (promise_settle cbs, tm'))"

section \<open>The interface: a store of encoded objects\<close>

text \<open>
  The store of texts \<open>texts\<close> holds exactly the objects of \<open>m\<close>, each encoded as JSON text.
\<close>

definition encodes :: "('a \<Rightarrow> json js) \<Rightarrow> ('a \<Rightarrow> bool) \<Rightarrow> string option \<Rightarrow> 'a option \<Rightarrow> bool" where
  "encodes enc fits text ox =
     (case ox of
        None \<Rightarrow> text = None
      | Some x \<Rightarrow> fits x \<and> (\<exists>v. enc x = Inr v \<and> text = Some (JSON_stringify v)))"

definition represents ::
    "('a \<Rightarrow> json js) \<Rightarrow> ('a \<Rightarrow> bool) \<Rightarrow> (string \<Rightarrow> string option) \<Rightarrow> (string \<Rightarrow> 'a option) \<Rightarrow> bool" where
  "represents enc fits texts m \<longleftrightarrow> (\<forall>k. encodes enc fits (texts k) (m k))"

lemma represents_Some:
  assumes "represents enc fits texts m" "m k = Some x"
  shows "fits x \<and> (\<exists>v. enc x = Inr v \<and> texts k = Some (JSON_stringify v))"
proof -
  have "encodes enc fits (texts k) (m k)" using assms(1) by (simp add: represents_def)
  then show ?thesis using assms(2) by (simp add: encodes_def)
qed

lemma represents_None:
  assumes "represents enc fits texts m" "m k = None"
  shows "texts k = None"
proof -
  have "encodes enc fits (texts k) (m k)" using assms(1) by (simp add: represents_def)
  then show ?thesis using assms(2) by (simp add: encodes_def)
qed

lemma represents_upd:
  "represents enc fits texts m \<Longrightarrow> fits x \<Longrightarrow> enc x = Inr v \<Longrightarrow>
     represents enc fits (texts(k \<mapsto> JSON_stringify v)) (m(k \<mapsto> x))"
  by (simp add: represents_def) (simp add: encodes_def)

lemma represents_del:
  "represents enc fits texts m \<Longrightarrow> represents enc fits (texts(k := None)) (m(k := None))"
  by (simp add: represents_def) (simp add: encodes_def)

locale coded_store =
  kv_store kput kget kdel kall contents ok + db_codec enc dec fits
  for kput :: "json \<Rightarrow> json \<Rightarrow> 'd \<Rightarrow> unit cb list \<times> 'd"
    and kget :: "json \<Rightarrow> 'd \<Rightarrow> string cb list"
    and kdel :: "json \<Rightarrow> 'd \<Rightarrow> unit cb list \<times> 'd"
    and kall :: "'d \<Rightarrow> (string \<times> string) list option cb list"
    and contents :: "'d \<Rightarrow> string \<Rightarrow> string option"
    and ok :: "'d \<Rightarrow> bool"
    and enc :: "'a \<Rightarrow> json js"
    and dec :: "json \<Rightarrow> 'a option js"
    and fits :: "'a \<Rightarrow> bool"
begin

lemma coded_put:
  assumes "ok d" "represents enc fits (contents d) m" "fits x"
  obtains v where "enc x = Inr v"
    and "(\<exists>d'. kput (JStr k) (JStr (JSON_stringify v)) d = ([Call (Inr ())], d') \<and> ok d' \<and>
            represents enc fits (contents d') (m(k \<mapsto> x)))
         \<or> (\<exists>e d'. kput (JStr k) (JStr (JSON_stringify v)) d = ([Call (Inl e)], d') \<and> ok d' \<and>
            represents enc fits (contents d') m)"
proof -
  obtain v where v: "enc x = Inr v" using enc_total [OF assms(3)] by blast
  show thesis
    using kput_law [OF assms(1), of k "JSON_stringify v"] represents_upd [OF assms(2,3) v, of k] assms(2)
    by (intro that [OF v]) (metis (no_types, lifting))
qed

lemma coded_del:
  assumes "ok d" "represents enc fits (contents d) m"
  shows "(\<exists>d'. kdel (JStr k) d = ([Call (Inr ())], d') \<and> ok d' \<and>
            represents enc fits (contents d') (m(k := None)))
         \<or> (\<exists>e d'. kdel (JStr k) d = ([Call (Inl e)], d') \<and> ok d' \<and>
            represents enc fits (contents d') m)"
  using kdel_law [OF assms(1), of k] represents_del [OF assms(2), of k] assms(2)
  by (metis (no_types, lifting))

lemma coded_get:
  assumes "ok d" "represents enc fits (contents d) m"
  shows "m k = None \<Longrightarrow> kget (JStr k) d = [Call (Inl NotFoundError)]"
    and "m k = Some x \<Longrightarrow> \<exists>s. kget (JStr k) d = [Call (Inr s)] \<and>
           bindE (JSON_parse s) dec = Inr (Some x) \<and> fits x"
proof -
  assume "m k = None"
  then show "kget (JStr k) d = [Call (Inl NotFoundError)]"
    using represents_None [OF assms(2)] kget_law [OF assms(1)] by simp
next
  assume "m k = Some x"
  then obtain v where v: "fits x" "enc x = Inr v" "contents d k = Some (JSON_stringify v)"
    using represents_Some [OF assms(2)] by blast
  then show "\<exists>s. kget (JStr k) d = [Call (Inr s)] \<and> bindE (JSON_parse s) dec = Inr (Some x) \<and> fits x"
    using text_round_trip [OF v(1,2)] kget_law [OF assms(1)] by simp
qed

lemma coded_all:
  assumes "ok d" "represents enc fits (contents d) m"
  shows "\<exists>kvs rest xs. kall d = Call (Inr (Some kvs)) # rest \<and> distinct (map fst kvs) \<and>
     fst ` set kvs = dom m \<and>
     mapE (\<lambda>(k, s). bindE (JSON_parse s) dec) kvs = Inr (map Some xs) \<and>
     xs = map (\<lambda>k. the (m k)) (map fst kvs)"
proof -
  obtain kvs rest where k: "kall d = Call (Inr (Some kvs)) # rest" "obj_wf kvs" "map_of kvs = contents d"
    using kall_law [OF assms(1)] by blast
  have dm: "dom (contents d) = dom m"
  proof (intro set_eqI)
    fix k show "k \<in> dom (contents d) \<longleftrightarrow> k \<in> dom m"
      using represents_None [OF assms(2), of k] represents_Some [OF assms(2), of k]
      by (cases "m k") auto
  qed
  have each: "(\<lambda>(k, s). bindE (JSON_parse s) dec) p = Inr (Some (the (m (fst p))))" if "p \<in> set kvs" for p
  proof -
    obtain k s where p: "p = (k, s)" by (cases p)
    then have c: "contents d k = Some s" using that k(2,3) obj_wf_map_of by metis
    then obtain x where x: "m k = Some x" using represents_None [OF assms(2), of k] by (cases "m k") auto
    then obtain v where "fits x" "enc x = Inr v" "s = JSON_stringify v"
      using represents_Some [OF assms(2)] c by fastforce
    then show ?thesis using text_round_trip p x by simp
  qed
  have "mapE (\<lambda>(k, s). bindE (JSON_parse s) dec) kvs
      = Inr (map Some (map (\<lambda>k. the (m k)) (map fst kvs)))"
    using mapE_Inr [of kvs, OF each] by (simp add: comp_def)
  moreover have "fst ` set kvs = dom m"
    using dm k(3) dom_map_of_conv_image_fst [of kvs] by simp
  ultimately show ?thesis using k(1,2) by (auto simp: obj_wf_def)
qed

end

interpretation task_store: coded_store db_put db_get db_delete db_getAll db_contents db_ok
  toDbJson task_of_json task_ok
  by unfold_locales

section \<open>Abstract specification\<close>

text \<open>Two maps by task id and the log of notifications.\<close>

record task_spec =
  spPending :: "string \<Rightarrow> task option"
  spStored :: "string \<Rightarrow> task option"
  spLog :: "notification list"

definition task_key :: "task \<Rightarrow> string" where
  "task_key t = js_key (tkId t)"

definition spec_add :: "task \<Rightarrow> task_spec \<Rightarrow> task_spec" where
  "spec_add t a =
     (if spPending a (task_key t) \<noteq> None then a
      else a\<lparr>spPending := (spPending a)(task_key t \<mapsto> t), spLog := spLog a @ [VERIFY_NEW_TASK t]\<rparr>)"

definition spec_mark :: "string \<Rightarrow> task_spec \<Rightarrow> task_spec" where
  "spec_mark k a = a\<lparr>spPending := (spPending a)(k := map_option setInProgressStatus (spPending a k))\<rparr>"

definition spec_verify :: "string \<Rightarrow> task_spec \<Rightarrow> task_spec" where
  "spec_verify k a =
     (case spPending a k of
        None \<Rightarrow> a
      | Some t \<Rightarrow> a\<lparr>spPending := (spPending a)(k := None),
                   spStored := (spStored a)(k \<mapsto> setInProgressStatus t),
                   spLog := spLog a @ [TASK_VERIFIED (setInProgressStatus t)]\<rparr>)"

definition spec_drop :: "string \<Rightarrow> task_spec \<Rightarrow> task_spec" where
  "spec_drop k a = a\<lparr>spStored := (spStored a)(k := None)\<rparr>"

definition spec_finish :: "string \<Rightarrow> result \<Rightarrow> task_spec \<Rightarrow> task_spec" where
  "spec_finish k r a =
     (case spStored a k of
        None \<Rightarrow> a
      | Some t \<Rightarrow> a\<lparr>spStored := (spStored a)(k \<mapsto> setResult (Some r) t),
                   spLog := spLog a @ [TASK_FINISHED (setResult (Some r) t)]\<rparr>)"

definition spec_forget :: "string \<Rightarrow> task_spec \<Rightarrow> task_spec" where
  "spec_forget k a = a\<lparr>spPending := (spPending a)(k := None)\<rparr>"

definition spec_outside :: "task \<Rightarrow> task_spec \<Rightarrow> task_spec" where
  "spec_outside t a = a\<lparr>spStored := (spStored a)(task_key t \<mapsto> t)\<rparr>"

text \<open>The simulation relation, with the invariant of the manager.\<close>

definition pending_ok :: "task_spec \<Rightarrow> bool" where
  "pending_ok a \<longleftrightarrow> (\<forall>k t. spPending a k = Some t \<longrightarrow>
     tkId t = JStr k \<and> worker_task_ok t \<and> tkResult t = None)"

definition stored_ok :: "task_spec \<Rightarrow> bool" where
  "stored_ok a \<longleftrightarrow> (\<forall>k t. spStored a k = Some t \<longrightarrow> tkId t = JStr k)"

definition tm_rel :: "'s taskmgr \<Rightarrow> task_spec \<Rightarrow> bool" where
  "tm_rel tm a \<longleftrightarrow>
     db_ok (tmDb tm) \<and> obj_wf (tmPool tm) \<and>
     spPending a = (\<lambda>k. map_option snd (map_of (tmPool tm) k)) \<and>
     represents toDbJson task_ok (db_contents (tmDb tm)) (spStored a) \<and>
     pending_ok a \<and> stored_ok a \<and> spLog a = tmEvents tm"

lemma tm_relD:
  assumes "tm_rel tm a"
  shows "db_ok (tmDb tm)" "obj_wf (tmPool tm)"
    "spPending a = (\<lambda>k. map_option snd (map_of (tmPool tm) k))"
    "represents toDbJson task_ok (db_contents (tmDb tm)) (spStored a)"
    "pending_ok a" "stored_ok a" "spLog a = tmEvents tm"
  using assms by (simp_all add: tm_rel_def)

lemma isUnverifiedInPool_rel: "tm_rel tm a \<Longrightarrow> isUnverifiedInPool v tm \<longleftrightarrow> spPending a (js_key v) \<noteq> None"
  by (simp add: isUnverifiedInPool_def tm_relD)

lemma pending_okD:
  "pending_ok a \<Longrightarrow> spPending a k = Some t \<Longrightarrow> tkId t = JStr k \<and> worker_task_ok t \<and> tkResult t = None"
  by (auto simp: pending_ok_def)

lemma spec_ok_intros [inv_intros]:
  "pending_ok a \<Longrightarrow> pending_ok (spec_forget k a)"
  "pending_ok a \<Longrightarrow> pending_ok (spec_drop k a)"
  "pending_ok a \<Longrightarrow> pending_ok (spec_mark k a)"
  "pending_ok a \<Longrightarrow> pending_ok (spec_verify k a)"
  "pending_ok a \<Longrightarrow> pending_ok (spec_finish k r a)"
  "stored_ok a \<Longrightarrow> stored_ok (spec_forget k a)"
  "stored_ok a \<Longrightarrow> stored_ok (spec_drop k a)"
  "stored_ok a \<Longrightarrow> stored_ok (spec_mark k a)"
  "pending_ok a \<Longrightarrow> stored_ok a \<Longrightarrow> stored_ok (spec_verify k a)"
  "stored_ok a \<Longrightarrow> stored_ok (spec_finish k r a)"
  by (auto simp: pending_ok_def stored_ok_def spec_forget_def spec_drop_def spec_mark_def
      spec_verify_def spec_finish_def setStatus_def worker_task_ok_in_progress [unfolded setStatus_def]
      split: option.splits if_splits)

lemma task_ok_key: "task_ok t \<Longrightarrow> tkId t = JStr (task_key t)"
  using task_ok_id [of t] by (auto simp: bare_str task_key_def)

section \<open>Database steps of the manager\<close>

lemma storeTask_cases:
  assumes "db_ok (tmDb tm)" "represents toDbJson task_ok (db_contents (tmDb tm)) m" "task_ok t"
  obtains (stored) db where "storeTask t tm = ([Call (Inr ())], tm\<lparr>tmDb := db\<rparr>)" "db_ok db"
      "represents toDbJson task_ok (db_contents db) (m(task_key t \<mapsto> t))"
    | (failed) e db where "storeTask t tm = ([Call (Inl e)], tm\<lparr>tmDb := db\<rparr>)" "db_ok db"
      "represents toDbJson task_ok (db_contents db) m"
proof -
  obtain v where v: "toDbJson t = Inr v" and
    p: "(\<exists>d'. db_put (JStr (task_key t)) (JStr (JSON_stringify v)) (tmDb tm) = ([Call (Inr ())], d') \<and>
          db_ok d' \<and> represents toDbJson task_ok (db_contents d') (m(task_key t \<mapsto> t)))
       \<or> (\<exists>e d'. db_put (JStr (task_key t)) (JStr (JSON_stringify v)) (tmDb tm) = ([Call (Inl e)], d') \<and>
          db_ok d' \<and> represents toDbJson task_ok (db_contents d') m)"
    by (rule task_store.coded_put [OF assms])
  have st: "storeTask t tm = with_db (db_put (JStr (task_key t)) (JStr (JSON_stringify v))) tm"
    by (simp add: storeTask_def serializeTask_def v flip: task_ok_key [OF assms(3)])
  from p show thesis
    by (elim disjE exE conjE) (rule stored failed; simp add: st with_db_def)+
qed

lemma deleteTask_cases:
  assumes "db_ok (tmDb tm)" "represents toDbJson task_ok (db_contents (tmDb tm)) m"
  obtains (deleted) db where "deleteTask (JStr k) tm = ([Call (Inr ())], tm\<lparr>tmDb := db\<rparr>)" "db_ok db"
      "represents toDbJson task_ok (db_contents db) (m(k := None))"
    | (failed) e db where "deleteTask (JStr k) tm = ([Call (Inl e)], tm\<lparr>tmDb := db\<rparr>)" "db_ok db"
      "represents toDbJson task_ok (db_contents db) m"
  using task_store.coded_del [OF assms, of k]
  by (elim disjE exE conjE) (rule deleted failed; simp add: deleteTask_def with_db_def)+

lemma readTask_eq:
  assumes "tm_rel tm a"
  shows "readTask (JStr k) tm =
    [Call (case spStored a k of None \<Rightarrow> Inl NotFoundError | Some t \<Rightarrow> Inr t)]"
proof (cases "spStored a k")
  case None
  then show ?thesis
    using task_store.coded_get(1) [OF tm_relD(1,4) [OF assms]] by (simp add: readTask_def)
next
  case (Some t)
  then obtain s where "db_get (JStr k) (tmDb tm) = [Call (Inr s)]"
      "bindE (JSON_parse s) task_of_json = Inr (Some t)"
    using task_store.coded_get(2) [OF tm_relD(1,4) [OF assms]] by blast
  then show ?thesis using Some by (simp add: readTask_def deserializeTask_def)
qed

section \<open>Refinement\<close>

lemma add_refines:
  assumes "tm_rel tm a" "worker_task_ok t" "tkResult t = None"
  shows "addTaskUnverified now (Some t) tm = (None, tm') \<Longrightarrow> tm_rel tm' (spec_add t a)"
proof -
  assume tm': "addTaskUnverified now (Some t) tm = (None, tm')"
  have k: "tkId t = JStr (task_key t)" using task_ok_key assms(2) by (simp add: task_ok_def)
  show ?thesis
  proof (cases "spPending a (task_key t) = None")
    case True
    then have "\<not> isUnverifiedInPool (tkId t) tm"
      using isUnverifiedInPool_rel [OF assms(1)] by (simp add: task_key_def)
    then have eq: "tm' = notify (VERIFY_NEW_TASK t) (tm\<lparr>tmPool := obj_set (tmPool tm) (task_key t) (now, t)\<rparr>)"
      using tm' by (simp add: addTaskUnverified_def isOkToAdd_def task_key_def)
    have a: "spec_add t a = a\<lparr>spPending := (spPending a)(task_key t \<mapsto> t),
        spLog := spLog a @ [VERIFY_NEW_TASK t]\<rparr>"
      using True by (simp add: spec_add_def)
    have "(spPending a)(task_key t \<mapsto> t) =
        (\<lambda>k. map_option snd (map_of (obj_set (tmPool tm) (task_key t) (now, t)) k))"
      using tm_relD(3) [OF assms(1)] by (simp add: fun_eq_iff)
    moreover have "pending_ok (spec_add t a)" "stored_ok (spec_add t a)"
      using tm_relD(5,6) [OF assms(1)] assms(2,3) k by (simp_all add: a pending_ok_def stored_ok_def)
    ultimately show ?thesis
      unfolding tm_rel_def eq using tm_relD(1,2,4,7) [OF assms(1)]
      by (simp add: a notify_def obj_wf_obj_set)
  next
    case False
    then have "isUnverifiedInPool (tkId t) tm"
      using isUnverifiedInPool_rel [OF assms(1)] by (simp add: task_key_def)
    then show ?thesis
      using tm' assms(1) False by (auto simp: addTaskUnverified_def isOkToAdd_def spec_add_def)
  qed
qed

lemma verify_refines:
  assumes rel: "tm_rel tm a" and run: "onVerifyTask (JStr k) True tm = (cbs, tm')"
  shows "cbs = [Call (Inr ())] \<and> tm_rel tm' (spec_verify k a)
       \<or> (\<exists>e. cbs = [Call (Inl e)] \<and> tm_rel tm' (spec_mark k a))"
proof (cases "map_of (tmPool tm) k")
  case None
  then show ?thesis
    using rel run tm_relD(3) [OF rel] by (simp add: onVerifyTask_def spec_verify_def)
next
  case (Some p)
  obtain time t where p: "p = (time, t)" by (cases p)
  let ?t = "setInProgressStatus t"
  let ?tm = "tm\<lparr>tmPool := obj_set (tmPool tm) k (time, ?t)\<rparr>"
  have pend: "spPending a k = Some t" using Some p tm_relD(3) [OF rel] by simp
  then have t: "tkId t = JStr k" "worker_task_ok t" "tkResult t = None"
    using pending_okD [OF tm_relD(5) [OF rel]] by auto
  have key: "task_key ?t = k" "tkId ?t = JStr k" using t(1) by (simp_all add: task_key_def setStatus_def)
  have ok: "task_ok ?t" using worker_task_ok_in_progress [OF t(2,3)] by (simp add: task_ok_def)
  have inv: "pending_ok (spec_mark k a)" "stored_ok (spec_mark k a)"
    "pending_ok (spec_verify k a)" "stored_ok (spec_verify k a)"
    using tm_relD(5,6) [OF rel] by (simp_all add: inv_intros)
  have pool: "(\<lambda>k'. map_option snd (map_of (obj_set (tmPool tm) k (time, ?t)) k')) = spPending (spec_mark k a)"
    using tm_relD(3) [OF rel] Some p by (simp add: spec_mark_def fun_eq_iff)
  have "db_ok (tmDb ?tm)" "represents toDbJson task_ok (db_contents (tmDb ?tm)) (spStored a)"
    using tm_relD [OF rel] by simp_all
  then show ?thesis using ok
  proof (cases rule: storeTask_cases)
    case (stored db)
    have "tm' = notify (TASK_VERIFIED ?t)
        (?tm\<lparr>tmDb := db, tmPool := obj_del (tmPool ?tm) k\<rparr>)" and c: "cbs = [Call (Inr ())]"
      using run Some p stored(1) key by (auto simp: onVerifyTask_def Let_def)
    then have "tm_rel tm' (spec_verify k a)"
      unfolding tm_rel_def using stored(2,3) key inv pend tm_relD [OF rel]
      by (auto simp: spec_verify_def notify_def fun_eq_iff)
    with c show ?thesis by simp
  next
    case (failed e db)
    have "tm' = ?tm\<lparr>tmDb := db\<rparr>" and c: "cbs = [Call (Inl e)]"
      using run Some p failed(1) by (auto simp: onVerifyTask_def Let_def)
    then have "tm_rel tm' (spec_mark k a)"
      unfolding tm_rel_def using failed(2,3) inv(1,2) pool tm_relD [OF rel]
      by (auto simp: spec_mark_def)
    with c show ?thesis by simp
  qed
qed

lemma spec_ok_upd [simp]:
  "pending_ok (a\<lparr>spStored := m\<rparr>) = pending_ok a"
  "pending_ok (a\<lparr>spLog := l\<rparr>) = pending_ok a"
  "stored_ok (a\<lparr>spLog := l\<rparr>) = stored_ok a"
  "stored_ok (a\<lparr>spPending := m\<rparr>) = stored_ok a"
  unfolding pending_ok_def stored_ok_def by simp_all

lemma tm_rel_db:
  assumes "tm_rel tm a" "db_ok db" "represents toDbJson task_ok (db_contents db) m" "stored_ok (a\<lparr>spStored := m\<rparr>)"
  shows "tm_rel (tm\<lparr>tmDb := db\<rparr>) (a\<lparr>spStored := m\<rparr>)"
  using assms by (simp add: tm_rel_def)

lemma tm_rel_notify:
  "tm_rel tm a \<Longrightarrow> tm_rel (notify n tm) (a\<lparr>spLog := spLog a @ [n]\<rparr>)"
  by (simp add: tm_rel_def notify_def)

lemma finish_refines:
  assumes rel: "tm_rel tm a" and new: "spPending a k = None" and id: "rTaskId r = JStr k"
    and fits: "\<And>t. spStored a k = Some t \<Longrightarrow> worker_task_ok t \<and> result_fits r t"
    and run: "onFinishTask r tm = (cbs, tm')"
  shows "(\<exists>t. spStored a k = Some t) \<and> cbs = [Call (Inr ())] \<and> tm_rel tm' (spec_finish k r a)
       \<or> (\<exists>e. cbs = [Call (Inl e)] \<and> (tm_rel tm' a \<or> tm_rel tm' (spec_drop k a)))"
proof (cases "spStored a k")
  case None
  then show ?thesis
    using run rel readTask_eq [OF rel, of k] new id isUnverifiedInPool_rel [OF rel, of "JStr k"]
    by (auto simp: onFinishTask_def)
next
  case (Some t)
  let ?t = "setResult (Some r) t"
  have "tkId t = JStr k" using fits [OF Some] id by (simp add: result_fits_def)
  then have t: "task_ok ?t" "task_key ?t = k"
    using fits [OF Some] worker_task_ok_setResult by (simp_all add: task_ok_def task_key_def)
  have step: "onFinishTask r tm = apfst (map escape) (let (cbs, tm) = deleteTask (JStr k) tm in
      cb_bind cbs tm (on_ok (\<lambda>_ tm. let (cbs, tm) = storeTask ?t tm in
        cb_bind cbs tm (on_ok (\<lambda>_ tm. ([Call (Inr ())], notify (TASK_FINISHED ?t) tm))))))"
    using readTask_eq [OF rel, of k] new id isUnverifiedInPool_rel [OF rel, of "JStr k"] Some
    by (simp add: onFinishTask_def Let_def case_prod_beta apfst_def map_prod_def)
  show ?thesis
    using tm_relD(1,4) [OF rel]
  proof (cases rule: deleteTask_cases [of tm "spStored a" k])
    case (failed e db)
    have "stored_ok (a\<lparr>spStored := spStored a\<rparr>)" using tm_relD(6) [OF rel] by simp
    then have "tm_rel (tm\<lparr>tmDb := db\<rparr>) a" using tm_rel_db [OF rel failed(2,3)] by simp
    then show ?thesis using run step failed(1) by auto
  next
    case (deleted db)
    let ?tm = "tm\<lparr>tmDb := db\<rparr>"
    have rel2: "tm_rel ?tm (spec_drop k a)"
      unfolding spec_drop_def using deleted tm_relD(6) [OF rel]
      by (intro tm_rel_db [OF rel]) (auto simp: stored_ok_def)
    show ?thesis using tm_relD(1,4) [OF rel2] t(1)
    proof (cases rule: storeTask_cases)
      case (stored db2)
      have "tm_rel (?tm\<lparr>tmDb := db2\<rparr>) ((spec_drop k a)\<lparr>spStored := (spStored a)(k \<mapsto> ?t)\<rparr>)"
        using stored(2,3) t(2) tm_relD(6) [OF rel] id fits [OF Some]
        by (intro tm_rel_db [OF rel2]) (auto simp: stored_ok_def spec_drop_def result_fits_def)
      then have "tm_rel (notify (TASK_FINISHED ?t) (?tm\<lparr>tmDb := db2\<rparr>)) (spec_finish k r a)"
        by (drule_tac n = "TASK_FINISHED ?t" in tm_rel_notify)
          (simp add: spec_finish_def spec_drop_def Some)
      then show ?thesis using run step deleted(1) stored(1) Some by auto
    next
      case (failed e db2)
      have "stored_ok ((spec_drop k a)\<lparr>spStored := spStored (spec_drop k a)\<rparr>)"
        using tm_relD(6) [OF rel2] by simp
      then have "tm_rel (?tm\<lparr>tmDb := db2\<rparr>) (spec_drop k a)"
        using tm_rel_db [OF rel2 failed(2,3)] by simp
      then show ?thesis using run step deleted(1) failed(1) by auto
    qed
  qed
qed

lemma remove_refines:
  assumes rel: "tm_rel tm a" and run: "removeTask (JStr k) tm = (cbs, tm')"
  shows "cbs = [Call (Inr ())] \<and> tm_rel tm' (spec_drop k (spec_forget k a))
       \<or> (\<exists>e. cbs = [Call (Inl e)] \<and> tm_rel tm' (spec_forget k a))"
proof -
  let ?tm = "tm\<lparr>tmPool := obj_del (tmPool tm) k\<rparr>"
  have inv: "pending_ok (spec_forget k a)" "stored_ok (spec_forget k a)"
    "stored_ok (spec_drop k (spec_forget k a))"
    using tm_relD(5,6) [OF rel] by (simp_all add: inv_intros)
  have "spPending (spec_forget k a) = (\<lambda>k'. map_option snd (map_of (obj_del (tmPool tm) k) k'))"
    using tm_relD(3) [OF rel] by (simp add: spec_forget_def fun_eq_iff)
  then have r: "tm_rel ?tm (spec_forget k a)"
    unfolding tm_rel_def using inv tm_relD(1,2,4,7) [OF rel]
    by (simp add: obj_wf_obj_del) (simp add: spec_forget_def)
  have run': "deleteTask (JStr k) ?tm = (cbs, tm')" using run by (simp add: removeTask_def)
  show ?thesis using tm_relD(1,4) [OF r]
  proof (cases rule: deleteTask_cases [of ?tm "spStored (spec_forget k a)" k])
    case (deleted db)
    have "tm_rel (?tm\<lparr>tmDb := db\<rparr>) (spec_drop k (spec_forget k a))"
      using tm_rel_db [OF r deleted(2,3)] inv(3) by (simp add: spec_drop_def)
    then show ?thesis using run' deleted(1) by auto
  next
    case (failed e db)
    have "tm_rel (?tm\<lparr>tmDb := db\<rparr>) (spec_forget k a)"
      using tm_rel_db [OF r failed(2,3)] inv(2) by simp
    then show ?thesis using run' failed(1) by auto
  qed
qed

lemma outside_refines:
  assumes rel: "tm_rel tm a" and t: "outside_task_ok t" and run: "addOutsideResult (Some t) tm = (p, tm')"
  shows "p = Some (Inr ()) \<and> tm_rel tm' (spec_outside t a) \<or> (\<exists>e. p = Some (Inl e) \<and> tm_rel tm' a)"
proof -
  have ok: "task_ok t" using t by (simp add: task_ok_def)
  obtain r where "bare (rTaskId r)" "t = OutsideTask (rTaskId r) (tkType t) r"
    using t by (rule outside_ok_elim)
  then have "tkBody t = OutsideBody" by (simp add: OutsideTask_bare task_eq_iff)
  then have run': "(p, tm') = (let (cbs, tm') = storeTask t tm in (promise_settle cbs, tm'))"
    using run by (simp add: addOutsideResult_def)
  show ?thesis using tm_relD(1,4) [OF rel] ok
  proof (cases rule: storeTask_cases)
    case (stored db)
    have "stored_ok (spec_outside t a)"
      using tm_relD(6) [OF rel] task_ok_key [OF ok] by (auto simp: stored_ok_def spec_outside_def)
    then have "tm_rel (tm\<lparr>tmDb := db\<rparr>) (spec_outside t a)"
      using tm_rel_db [OF rel stored(2,3)] by (simp add: spec_outside_def)
    then show ?thesis using run' stored(1) by simp
  next
    case (failed e db)
    have "tm_rel (tm\<lparr>tmDb := db\<rparr>) a"
      using tm_rel_db [OF rel failed(2,3)] tm_relD(6) [OF rel] by simp
    then show ?thesis using run' failed(1) by simp
  qed
qed

lemma getTask_pending:
  assumes "tm_rel tm a" "spPending a k = Some t"
  shows "getTask (JStr k) tm = (Some t, [])"
  using assms tm_relD(3) [OF assms(1)] by (auto simp: getTask_def split: option.splits)

lemma getTask_stored:
  assumes "tm_rel tm a" "spPending a k = None"
  shows "getTask (JStr k) tm =
    (None, [Call (case spStored a k of None \<Rightarrow> Inl NotFoundError | Some t \<Rightarrow> Inr t)])"
  using assms(2) tm_relD(3) [OF assms(1)] readTask_eq [OF assms(1)] by (simp add: getTask_def)

lemma getAllDbTasks_eq:
  assumes "tm_rel tm a"
  obtains ks rest where "getAllDbTasks tm = Call (Inr (map (\<lambda>k. spStored a k) ks)) # rest"
    "distinct ks" "set ks = dom (spStored a)"
proof -
  obtain kvs rest where k: "db_getAll (tmDb tm) = Call (Inr (Some kvs)) # rest" "distinct (map fst kvs)"
    "fst ` set kvs = dom (spStored a)"
    "mapE (\<lambda>(k, s). bindE (JSON_parse s) task_of_json) kvs = Inr (map Some (map (\<lambda>k. the (spStored a k)) (map fst kvs)))"
    using task_store.coded_all [OF tm_relD(1,4) [OF assms]] by metis
  have "Some (the (spStored a x)) = spStored a x" if "x \<in> fst ` set kvs" for x
    using that k(3) by (cases "spStored a x") auto
  then have "map Some (map (\<lambda>k. the (spStored a k)) (map fst kvs)) = map (spStored a) (map fst kvs)"
    by (simp add: comp_def)
  with k(4) have "mapE (\<lambda>(id, s). deserializeTask s) kvs = Inr (map (spStored a) (map fst kvs))"
    by (simp add: deserializeTask_def)
  then show thesis
    using that [of "map fst kvs"] k(1-3) by (simp add: getAllDbTasks_def)
qed

lemma asyncGetFinishedTasks_eq:
  assumes "tm_rel tm a"
  obtains ks where "asyncGetFinishedTasks tm = Some (Inr (filter isFinished (map (\<lambda>k. the (spStored a k)) ks)))"
    "distinct ks" "set ks = dom (spStored a)"
proof -
  obtain ks rest where ks: "getAllDbTasks tm = Call (Inr (map (\<lambda>k. spStored a k) ks)) # rest"
    "distinct ks" "set ks = dom (spStored a)"
    using assms by (rule getAllDbTasks_eq)
  have "mapE need_task (map (spStored a) ks) = Inr (map (\<lambda>k. the (spStored a k)) ks)"
  proof -
    have "need_task (spStored a k) = Inr (the (spStored a k))" if "k \<in> set ks" for k
      using that ks(3) by (cases "spStored a k") (auto simp: need_task_def)
    then show ?thesis by (induction ks) auto
  qed
  then show thesis using that [of ks] ks by (simp add: asyncGetFinishedTasks_def)
qed

section \<open>Traces\<close>

datatype tm_op =
    AddTask int task
  | VerifyTask string bool
  | FinishTask result
  | RemoveTask string
  | AddOutside task

fun tm_step :: "tm_op \<Rightarrow> 's taskmgr \<Rightarrow> 's taskmgr" where
  "tm_step (AddTask now t) tm = snd (addTaskUnverified now (Some t) tm)"
| "tm_step (VerifyTask k isVerified) tm = snd (onVerifyTask (JStr k) isVerified tm)"
| "tm_step (FinishTask r) tm = snd (onFinishTask r tm)"
| "tm_step (RemoveTask k) tm = snd (removeTask (JStr k) tm)"
| "tm_step (AddOutside t) tm = snd (addOutsideResult (Some t) tm)"

text \<open>What the callers pass: fresh tasks, and results of the class the stored task expects.\<close>

fun op_allowed :: "tm_op \<Rightarrow> 's taskmgr \<Rightarrow> bool" where
  "op_allowed (AddTask now t) tm \<longleftrightarrow> worker_task_ok t \<and> tkResult t = None"
| "op_allowed (VerifyTask k isVerified) tm \<longleftrightarrow> True"
| "op_allowed (FinishTask r) tm \<longleftrightarrow> is_str (rTaskId r) \<and>
     (case readTask (rTaskId r) tm of
        [Call (Inr t)] \<Rightarrow> worker_task_ok t \<and> result_fits r t
      | _ \<Rightarrow> True)"
| "op_allowed (RemoveTask k) tm \<longleftrightarrow> True"
| "op_allowed (AddOutside t) tm \<longleftrightarrow> outside_task_ok t"

inductive tm_reach :: "'s taskmgr \<Rightarrow> 's taskmgr \<Rightarrow> bool" for tm0 :: "'s taskmgr" where
  start: "tm_reach tm0 tm0"
| step: "tm_reach tm0 tm \<Longrightarrow> op_allowed op tm \<Longrightarrow> tm_reach tm0 (tm_step op tm)"

text \<open>How often a task was announced for verification, and how often it was verified.\<close>

fun news_of :: "string \<Rightarrow> notification \<Rightarrow> nat" where
  "news_of k (VERIFY_NEW_TASK t) = (if tkId t = JStr k then 1 else 0)"
| "news_of k _ = 0"

fun verified_of :: "string \<Rightarrow> notification \<Rightarrow> nat" where
  "verified_of k (TASK_VERIFIED t) = (if tkId t = JStr k then 1 else 0)"
| "verified_of k _ = 0"

definition news :: "string \<Rightarrow> notification list \<Rightarrow> nat" where
  "news k log = sum_list (map (news_of k) log)"

definition verifieds :: "string \<Rightarrow> notification list \<Rightarrow> nat" where
  "verifieds k log = sum_list (map (verified_of k) log)"

definition log_ok :: "string \<Rightarrow> task_spec \<Rightarrow> bool" where
  "log_ok k a \<longleftrightarrow>
     verifieds k (spLog a) + of_bool (spPending a k \<noteq> None) \<le> news k (spLog a)"

lemma counts_append [simp]:
  "news k (xs @ [n]) = news k xs + news_of k n"
  "verifieds k (xs @ [n]) = verifieds k xs + verified_of k n"
  by (simp_all add: news_def verifieds_def)

lemma log_ok_spec [inv_intros]:
  "log_ok k a \<Longrightarrow> tkId t = JStr (task_key t) \<Longrightarrow> log_ok k (spec_add t a)"
  "log_ok k a \<Longrightarrow> log_ok k (spec_mark j a)"
  "log_ok k a \<Longrightarrow> log_ok k (spec_finish j r a)"
  "log_ok k a \<Longrightarrow> log_ok k (spec_forget j a)"
  "log_ok k a \<Longrightarrow> log_ok k (spec_drop j a)"
  "log_ok k a \<Longrightarrow> log_ok k (spec_outside t a)"
  by (auto simp: log_ok_def spec_add_def spec_mark_def spec_finish_def spec_forget_def
      spec_drop_def spec_outside_def of_bool_def split: option.splits if_splits)

lemma log_ok_verify [inv_intros]:
  assumes "log_ok k a" "pending_ok a"
  shows "log_ok k (spec_verify j a)"
proof (cases "spPending a j")
  case (Some t)
  then have "tkId (setInProgressStatus t) = JStr j"
    using pending_okD [OF assms(2)] by (simp add: setStatus_def)
  then show ?thesis using assms(1) Some by (auto simp: log_ok_def spec_verify_def of_bool_def)
qed (simp add: spec_verify_def assms(1))

text \<open>Every allowed operation keeps the simulation relation and the bound.\<close>

lemma tm_step_rel:
  assumes rel: "tm_rel tm a" and ok: "op_allowed op tm" and log: "\<And>k. log_ok k a"
  shows "\<exists>a'. tm_rel (tm_step op tm) a' \<and> (\<forall>k. log_ok k a')"
proof (cases op)
  case (AddTask now t)
  have r: "fst (addTaskUnverified now (Some t) tm) = None"
    by (simp add: addTaskUnverified_def)
  have "tkId t = JStr (task_key t)" using ok AddTask task_ok_key by (simp add: task_ok_def)
  then show ?thesis
    using add_refines [OF rel, of t now "tm_step op tm"] ok AddTask r log
    by (auto simp: prod_eq_iff intro!: exI [of _ "spec_add t a"] inv_intros)
next
  case (VerifyTask k b)
  show ?thesis
  proof (cases b)
    case True
    then show ?thesis
      using verify_refines [OF rel, of k] VerifyTask log tm_relD(5) [OF rel]
      by (auto simp: prod_eq_iff intro: inv_intros)
  next
    case False
    then have "tm_step op tm = tm" using VerifyTask by (auto simp: onVerifyTask_def split: option.splits)
    then show ?thesis using rel log by auto
  qed
next
  case (FinishTask r)
  then obtain k where k: "rTaskId r = JStr k" using ok by (cases "rTaskId r") auto
  show ?thesis
  proof (cases "spPending a k = None")
    case True
    have fits: "worker_task_ok t \<and> result_fits r t" if "spStored a k = Some t" for t
      using ok FinishTask k that readTask_eq [OF rel, of k] by simp
    show ?thesis
      using finish_refines [OF rel True k fits] FinishTask log
      by (auto simp: prod_eq_iff intro: inv_intros)
  next
    case False
    then have "tm_step op tm = tm"
      using FinishTask k isUnverifiedInPool_rel [OF rel, of "JStr k"] by (simp add: onFinishTask_def)
    then show ?thesis using rel log by auto
  qed
next
  case (RemoveTask k)
  then show ?thesis
    using remove_refines [OF rel, of k] log by (auto simp: prod_eq_iff intro: inv_intros)
next
  case (AddOutside t)
  then show ?thesis
    using outside_refines [OF rel, of t] ok log by (auto simp: prod_eq_iff intro: inv_intros)
qed

section \<open>Properties\<close>

definition spec_init :: task_spec where
  "spec_init = \<lparr>spPending = Map.empty, spStored = Map.empty, spLog = []\<rparr>"

lemma represents_empty: "represents enc fits Map.empty Map.empty"
  by (simp add: represents_def encodes_def)

lemma tm_rel_init:
  assumes "level_ok L" "\<And>name. lvContents L (lvOpen L name) = Map.empty"
  shows "tm_rel (TaskManager L path dbPath) spec_init"
  using assms represents_empty
  by (simp add: tm_rel_def TaskManager_def spec_init_def db_open_def LevelDbApi_def db_ok_def
      db_isOpen_def db_contents_def pending_ok_def stored_ok_def)

lemma tm_reach_rel:
  assumes "tm_reach tm0 tm" "tm_rel tm0 spec_init"
  shows "\<exists>a. tm_rel tm a \<and> (\<forall>k. log_ok k a)"
  using assms(1)
proof (induction rule: tm_reach.induct)
  case start
  have "log_ok k spec_init" for k by (simp add: log_ok_def spec_init_def verifieds_def news_def)
  then show ?case using assms(2) by blast
next
  case (step tm op)
  then show ?case using tm_step_rel by blast
qed

text \<open>A task, its result and managers for the concrete instances below.\<close>

definition ex_task :: task where
  "ex_task = ComputeTask (JStr ''0xab12'') (JStr ''3cf8'') (JStr ''5a5b'') (JStr ''04b1'')
     (JNum 100) (JStr ''4409'') (JNum 7)"

definition ex_result :: result where
  "ex_result = ComputeResult (JStr ''ab12'') SUCCESS (JStr ''ff'')
     (JObj [(''key'', JNum 1), (''data'', JArr [JNum 5])]) (JNum 30) (JStr ''00'') (JStr ''01'') (JStr ''0f'')"

definition ex_tm :: "mem_state taskmgr" where
  "ex_tm = TaskManager mem_level ''tasks_db'' JUndef"

lemma ex_task_ok: "worker_task_ok ex_task" "tkResult ex_task = None" "tkId ex_task = JStr ''ab12''"
  "task_key ex_task = ''ab12''"
  by (simp_all add: ex_task_def ComputeTask_def Task_def worker_task_ok_def bare_def remove0x_def
      strip0x_def finished_ok_def task_status_defs task_key_def)

lemma ex_tm_rel: "tm_rel ex_tm spec_init"
  unfolding ex_tm_def by (rule tm_rel_init [OF level_ok_mem]) (simp add: mem_level_def)

definition ex_tm1 :: "mem_state taskmgr" where
  "ex_tm1 = snd (addTaskUnverified 10 (Some ex_task) ex_tm)"

definition ex_tm2 :: "mem_state taskmgr" where
  "ex_tm2 = snd (onVerifyTask (JStr ''ab12'') True ex_tm1)"

lemma ex_tm1_rel: "tm_rel ex_tm1 (spec_add ex_task spec_init)"
proof -
  have "addTaskUnverified 10 (Some ex_task) ex_tm = (None, ex_tm1)"
    by (simp add: ex_tm1_def addTaskUnverified_def)
  then show ?thesis using add_refines [OF ex_tm_rel ex_task_ok(1,2)] by blast
qed

lemma ex_tm2_run: "onVerifyTask (JStr ''ab12'') True ex_tm1 = ([Call (Inr ())], ex_tm2)"
proof -
  have "fst (onVerifyTask (JStr ''ab12'') True ex_tm1) = [Call (Inr ())]" by code_simp
  then show ?thesis by (simp add: ex_tm2_def prod_eq_iff)
qed

lemma ex_tm2_rel: "tm_rel ex_tm2 (spec_verify ''ab12'' (spec_add ex_task spec_init))"
  using verify_refines [OF ex_tm1_rel ex_tm2_run] by simp

lemma ex_stored:
  "spPending (spec_verify ''ab12'' (spec_add ex_task spec_init)) ''ab12'' = None"
  "spStored (spec_verify ''ab12'' (spec_add ex_task spec_init)) ''ab12'' = Some (setInProgressStatus ex_task)"
  by (simp_all add: spec_verify_def spec_add_def spec_init_def ex_task_ok)

lemma ex_fits: "worker_task_ok (setInProgressStatus ex_task)" "result_fits ex_result (setInProgressStatus ex_task)"
proof -
  show "worker_task_ok (setInProgressStatus ex_task)"
    using ex_task_ok by (intro worker_task_ok_in_progress)
  show "result_fits ex_result (setInProgressStatus ex_task)"
    using ex_task_ok(3)
    by (simp add: result_fits_def ex_result_def setStatus_def resultIsSuccess_def obj_wf_def
        is_DeployResult_def is_FailedResult_def)
      (simp add: ex_task_def ComputeTask_def Task_def is_DeployResult_def is_FailedResult_def)
qed

text \<open>
  C4: serialisation round trip. Every well-formed task (deployment, computation or outside
  task, finished or not) that is written as text by \<open>_serializeTask\<close> is read back by
  \<open>_deserializeTask\<close> as the same task, with the class chosen from the fields.
\<close>

theorem serialize_round_trip:
  assumes "task_ok t"
  shows "bindE (serializeTask t) deserializeTask = Inr (Some t)"
proof -
  obtain v where v: "toDbJson t = Inr v" using any_task.enc_total [OF assms] by blast
  then show ?thesis
    using any_task.text_round_trip [OF assms v] by (simp add: serializeTask_def deserializeTask_def)
qed

theorem serialize_round_trip_witness:
  "bindE (serializeTask ex_task) deserializeTask = Inr (Some ex_task)"
  by (rule serialize_round_trip) (simp add: task_ok_def ex_task_ok)

text \<open>
  C2: \<open>onVerifyTask\<close> refines its specification. Either the write succeeds, and the task moves
  from the pool to the database with status in progress and is announced as verified; or
  the callback gets the error, nothing is stored or announced, and the task stays in the
  pool (where it already has the new status).
\<close>

theorem onVerifyTask_refines:
  assumes "tm_rel tm a" "onVerifyTask (JStr k) True tm = (cbs, tm')"
  shows "cbs = [Call (Inr ())] \<and> tm_rel tm' (spec_verify k a)
       \<or> (\<exists>e. cbs = [Call (Inl e)] \<and> tm_rel tm' (spec_mark k a))"
  using assms by (rule verify_refines)

theorem onVerifyTask_refines_witness:
  "\<exists>cbs tm'. onVerifyTask (JStr ''ab12'') True ex_tm1 = (cbs, tm') \<and>
     (cbs = [Call (Inr ())] \<and> tm_rel tm' (spec_verify ''ab12'' (spec_add ex_task spec_init))
      \<or> (\<exists>e. cbs = [Call (Inl e)] \<and> tm_rel tm' (spec_mark ''ab12'' (spec_add ex_task spec_init))))"
  using onVerifyTask_refines [OF ex_tm1_rel, of "''ab12''"] by (metis prod.collapse)

text \<open>
  C3: \<open>onFinishTask\<close> refines its specification. When the task is verified and the result
  belongs to it, either everything succeeds, and the stored task carries the result and
  the notification is sent; or the callback gets an error and the stored task is unchanged
  or, when the second write failed, gone from the database. A task that is not stored gives
  an error and no change.
\<close>

theorem onFinishTask_refines:
  assumes "tm_rel tm a" "spPending a k = None" "rTaskId r = JStr k"
    and "\<forall>t. spStored a k = Some t \<longrightarrow> worker_task_ok t \<and> result_fits r t"
    and "onFinishTask r tm = (cbs, tm')"
  shows "(\<exists>t. spStored a k = Some t) \<and> cbs = [Call (Inr ())] \<and> tm_rel tm' (spec_finish k r a)
       \<or> (\<exists>e. cbs = [Call (Inl e)] \<and> (tm_rel tm' a \<or> tm_rel tm' (spec_drop k a)))"
  using assms by (intro finish_refines) auto

theorem onFinishTask_refines_witness:
  "\<exists>cbs tm'. onFinishTask ex_result ex_tm2 = (cbs, tm') \<and>
    (cbs = [Call (Inr ())] \<and>
       tm_rel tm' (spec_finish ''ab12'' ex_result (spec_verify ''ab12'' (spec_add ex_task spec_init)))
     \<or> (\<exists>e. cbs = [Call (Inl e)]))"
proof -
  obtain cbs tm' where run: "onFinishTask ex_result ex_tm2 = (cbs, tm')" by (rule prod.exhaust)
  have "rTaskId ex_result = JStr ''ab12''" by (simp add: ex_result_def)
  then show ?thesis
    using onFinishTask_refines [OF ex_tm2_rel ex_stored(1) _ _ run] ex_fits ex_stored(2) run by auto
qed

text \<open>
  When every callback runs at once, a verified task was announced, and a task in the pool accounts
  for one more announcement.
\<close>

lemma reach_verified_announced:
  assumes "level_ok L" "\<And>name. lvContents L (lvOpen L name) = Map.empty"
    and "tm_reach (TaskManager L path dbPath) tm"
  shows "verifieds k (tmEvents tm) + of_bool (isUnverifiedInPool (JStr k) tm) \<le> news k (tmEvents tm)"
proof -
  obtain a where a: "tm_rel tm a" "log_ok k a"
    using tm_reach_rel [OF assms(3) tm_rel_init [OF assms(1,2)]] by blast
  then show ?thesis
    using isUnverifiedInPool_rel [OF a(1)] tm_relD(7) [OF a(1)] by (simp add: log_ok_def)
qed

text \<open>
  Queries. The promise of \<open>asyncGetTask\<close> settles with the stored task, or with
  \<open>NotFoundError\<close>, for an id that is not in the pool; for a task that waits in the pool it
  never settles (the value is returned and the callback is not invoked), and neither does
  that of \<open>asyncGetTaskStatus\<close>.
\<close>

lemma asyncGetTask_spec:
  assumes "tm_rel tm a"
  shows "asyncGetTask (JStr k) tm =
      (if spPending a k \<noteq> None then None
       else Some (case spStored a k of None \<Rightarrow> Inl NotFoundError | Some t \<Rightarrow> Inr t)) \<and>
    (spPending a k \<noteq> None \<longrightarrow> asyncGetTaskStatus (JStr k) tm = None)"
  using getTask_pending [OF assms, of k] getTask_stored [OF assms, of k]
  by (auto simp: asyncGetTask_def asyncGetTaskStatus_def)

text \<open>
  \<open>asyncGetFinishedTasks\<close> settles with exactly the finished tasks among the stored ones,
  each once, and the failed and successful ones partition them.
\<close>

lemma asyncGetFinishedTasks_spec:
  assumes "tm_rel tm a"
  shows "\<exists>ts. asyncGetFinishedTasks tm = Some (Inr ts) \<and> distinct ts \<and>
      set ts = {t. (\<exists>k. spStored a k = Some t) \<and> isFinished t} \<and>
      asyncGetFailedTasks tm = Some (Inr (filter isFailed ts)) \<and>
      asyncGetSuccessfullTasks tm = Some (Inr (filter (\<lambda>t. \<not> isFailed t) ts))"
proof -
  obtain ks where ks: "asyncGetFinishedTasks tm = Some (Inr (filter isFinished (map (\<lambda>k. the (spStored a k)) ks)))"
    "distinct ks" "set ks = dom (spStored a)"
    using assms by (rule asyncGetFinishedTasks_eq)
  let ?ts = "filter isFinished (map (\<lambda>k. the (spStored a k)) ks)"
  have inj: "inj_on (\<lambda>k. the (spStored a k)) (set ks)"
  proof (rule inj_onI)
    fix x y assume "x \<in> set ks" "y \<in> set ks" and eq: "the (spStored a x) = the (spStored a y)"
    then obtain t u where "spStored a x = Some t" "spStored a y = Some u" using ks(3) by auto
    moreover from this have "tkId t = JStr x" "tkId u = JStr y"
      using tm_relD(6) [OF assms] unfolding stored_ok_def by blast+
    ultimately show "x = y" using eq by simp
  qed
  have "set ?ts = {t. (\<exists>k. spStored a k = Some t) \<and> isFinished t}" using ks(3) by force
  moreover have "distinct ?ts" using ks(2) inj by (simp add: distinct_map)
  moreover have "filter isSuccess ?ts = filter (\<lambda>t. \<not> isFailed t) ?ts"
    by (rule filter_cong) (auto simp: task_status_defs)
  ultimately show ?thesis
    using ks(1) by (auto simp: asyncGetFailedTasks_def asyncGetSuccessfullTasks_def)
qed

end
