(* ===== verification/State_Machines.thy ===== *)
theory State_Machines
  imports Js_Prelude
begin

text \<open>
  The interface of the state machines of the program. A component that reacts to events keeps a
  state, starts in a fixed one and makes one step per event, in whatever order the events come.
  What holds of a component in every order is proved here once, from what a single step does.
\<close>

section \<open>Invariants of a machine\<close>

text \<open>
  \<open>ok\<close> says which sequences of events are looked at, and is kept by prefixes; \<open>inv\<close> relates the
  events so far to the state.
\<close>

locale machine =
  fixes start :: 's
    and do_step :: "'e \<Rightarrow> 's \<Rightarrow> 's"
    and ok :: "'e list \<Rightarrow> bool"
    and inv :: "'e list \<Rightarrow> 's \<Rightarrow> bool"
  assumes ok_prefix: "ok (es @ [e]) \<Longrightarrow> ok es"
    and start_ok: "inv [] start"
    and step_ok: "ok (es @ [e]) \<Longrightarrow> inv es s \<Longrightarrow> inv (es @ [e]) (do_step e s)"
begin

lemma always: "ok es \<Longrightarrow> inv es (foldl (\<lambda>s e. do_step e s) start es)"
proof (induction es rule: rev_induct)
  case (snoc e es)
  then show ?case using ok_prefix step_ok by simp
qed (simp add: start_ok)

lemma ok_take: "ok (es @ fs) \<Longrightarrow> ok es"
proof (induction fs rule: rev_induct)
  case (snoc f fs)
  then show ?case using ok_prefix [of "es @ fs" f] by simp
qed simp

end

section \<open>What lasts\<close>

text \<open>A condition on the state that every quiet event keeps, once it holds.\<close>

locale lasting = machine start do_step ok inv
  for start :: 's and do_step :: "'e \<Rightarrow> 's \<Rightarrow> 's" and ok :: "'e list \<Rightarrow> bool" and inv :: "'e list \<Rightarrow> 's \<Rightarrow> bool" +
  fixes quiet :: "'e \<Rightarrow> bool"
    and kept :: "'s \<Rightarrow> bool"
  assumes step_kept: "ok (es @ [e]) \<Longrightarrow> inv es s \<Longrightarrow> quiet e \<Longrightarrow> kept s \<Longrightarrow> kept (do_step e s)"
begin

lemma lasts:
  assumes "ok (es @ fs)" "list_all quiet fs" "kept (foldl (\<lambda>s e. do_step e s) start es)"
  shows "kept (foldl (\<lambda>s e. do_step e s) start (es @ fs))"
  using assms
proof (induction fs rule: rev_induct)
  case (snoc f fs)
  have ok: "ok ((es @ fs) @ [f])" "ok (es @ fs)" using snoc.prems(1) ok_prefix [of "es @ fs" f] by simp_all
  have "kept (foldl (\<lambda>s e. do_step e s) start (es @ fs))" using snoc.IH [OF ok(2)] snoc.prems(2,3) by simp
  then show ?case using step_kept [OF ok(1) always [OF ok(2)]] snoc.prems(2) by simp
qed simp

end

end
