(* ===== verification/Task_Interleaving.thy ===== *)
theory Task_Interleaving
  imports Task_Manager State_Machines
begin

text \<open>
  \<open>src/src/worker/tasks/TaskManager.js\<close> with its callbacks apart. In \<open>Task_Manager\<close> the callback of a
  database operation runs before anything else happens; here the parts of
  \<open>onVerifyTask\<close>, \<open>onFinishTask\<close>, \<open>removeTask\<close> and \<open>addOutsideResult\<close> between two database
  operations are steps of their own, and the database answers what it likes when it likes: other
  calls come in between, and answers overtake each other. First the parts, with the lemmas that the
  operations of \<open>Task_Manager\<close> are their composition; then the machine and its invariant.
\<close>

section \<open>The parts of the operations\<close>

text \<open>\<open>onVerifyTask\<close> up to \<open>this._storeTask\<close>: the task to write, if it gets there.\<close>

definition verify_begin :: "json \<Rightarrow> bool \<Rightarrow> 's taskmgr \<Rightarrow> task option \<times> 's taskmgr" where
  "verify_begin taskId isVerified tm =
     (case map_of (tmPool tm) (js_key taskId) of
        None \<Rightarrow> (None, tm)
      | Some (time, t) \<Rightarrow>
         (if \<not> isVerified then (None, tm)
          else
            let task = setInProgressStatus t in
            (Some task, tm\<lparr>tmPool := obj_set (tmPool tm) (js_key taskId) (time, task)\<rparr>)))"

text \<open>The callback of that write.\<close>

definition verify_done :: "task \<Rightarrow> unit js \<Rightarrow> 's taskmgr \<Rightarrow> unit cb list \<times> 's taskmgr" where
  "verify_done task = on_ok (\<lambda>_ tm.
     ([Call (Inr ())],
      notify (TASK_VERIFIED task) (tm\<lparr>tmPool := obj_del (tmPool tm) (js_key (tkId task))\<rparr>)))"

text \<open>The innermost callback of \<open>onFinishTask\<close>.\<close>

definition finish_done :: "task \<Rightarrow> unit js \<Rightarrow> 's taskmgr \<Rightarrow> unit cb list \<times> 's taskmgr" where
  "finish_done task = on_ok (\<lambda>_ tm. ([Call (Inr ())], notify (TASK_FINISHED task) tm))"

text \<open>\<open>removeTask\<close> up to \<open>this._deleteTask\<close>.\<close>

definition remove_begin :: "json \<Rightarrow> 's taskmgr \<Rightarrow> 's taskmgr" where
  "remove_begin taskId tm = tm\<lparr>tmPool := obj_del (tmPool tm) (js_key taskId)\<rparr>"

lemma onVerifyTask_parts:
  "onVerifyTask taskId isVerified tm =
     (case verify_begin taskId isVerified tm of
        (None, tm) \<Rightarrow> ([Call (Inr ())], tm)
      | (Some task, tm) \<Rightarrow> (let (cbs, tm) = storeTask task tm in cb_bind cbs tm (verify_done task)))"
  by (auto simp: onVerifyTask_def verify_begin_def verify_done_def Let_def split: option.splits)

lemma onFinishTask_parts:
  "onFinishTask r tm =
     (if isUnverifiedInPool (rTaskId r) tm
      then ([Call (Inl (errMsg ''[ON_FINISH_TASK] error task was executed without verification.''))], tm)
      else cb_bind (readTask (rTaskId r) tm) tm (on_ok (\<lambda>task tm.
          let (cbs, tm) = deleteTask (rTaskId r) tm in
          cb_bind cbs tm (on_ok (\<lambda>_ tm.
            let (cbs, tm) = storeTask (setResult (Some r) task) tm in
            cb_bind cbs tm (finish_done (setResult (Some r) task)))))))"
  unfolding onFinishTask_def finish_done_def Let_def by (rule refl)

lemma removeTask_parts: "removeTask taskId tm = deleteTask taskId (remove_begin taskId tm)"
  by (simp add: removeTask_def remove_begin_def)

section \<open>The machine\<close>

text \<open>A database operation that was issued and not answered, with what its callback remembers.\<close>

datatype db_wait =
    VerifyWrite task
  | FinishRead result
  | FinishDelete result task
  | FinishWrite task
  | RemoveDelete
  | OutsideWrite

record 's manager =
  mgTasks :: "'s taskmgr"
  mgWaiting :: "db_wait list"

text \<open>
  Calls of the manager, and the callbacks of the database: \<open>ReadAnswer i\<close> and \<open>WriteAnswer i\<close>
  answer the \<open>i\<close>-th operation that waits.
\<close>

datatype tm_event =
    CallAdd int task
  | CallVerify string bool
  | CallFinish result
  | CallRemove string
  | CallOutside task
  | ReadAnswer nat "task js"
  | WriteAnswer nat "unit js"

definition await :: "db_wait \<Rightarrow> 's manager \<Rightarrow> 's manager" where
  "await w s = s\<lparr>mgWaiting := mgWaiting s @ [w]\<rparr>"

definition without_waiting :: "nat \<Rightarrow> 's manager \<Rightarrow> 's manager" where
  "without_waiting i s = s\<lparr>mgWaiting := take i (mgWaiting s) @ drop (Suc i) (mgWaiting s)\<rparr>"

text \<open>\<open>_storeTask\<close>: when the task cannot be serialised the call throws and nothing is issued.\<close>

definition issue_store :: "task \<Rightarrow> db_wait \<Rightarrow> 's manager \<Rightarrow> 's manager" where
  "issue_store t w s = (case serializeTask t of Inl e \<Rightarrow> s | Inr _ \<Rightarrow> await w s)"

definition read_answer :: "db_wait \<Rightarrow> task js \<Rightarrow> 's manager \<Rightarrow> 's manager" where
  "read_answer w a s =
     (case (w, a) of (FinishRead r, Inr task) \<Rightarrow> await (FinishDelete r task) s | _ \<Rightarrow> s)"

definition write_answer :: "db_wait \<Rightarrow> unit js \<Rightarrow> 's manager \<Rightarrow> 's manager" where
  "write_answer w a s =
     (case w of
        VerifyWrite task \<Rightarrow> s\<lparr>mgTasks := snd (verify_done task a (mgTasks s))\<rparr>
      | FinishDelete r task \<Rightarrow>
          (case a of
             Inl e \<Rightarrow> s
           | Inr _ \<Rightarrow> (let task = setResult (Some r) task in issue_store task (FinishWrite task) s))
      | FinishWrite task \<Rightarrow> s\<lparr>mgTasks := snd (finish_done task a (mgTasks s))\<rparr>
      | _ \<Rightarrow> s)"

fun is_read :: "db_wait \<Rightarrow> bool" where
  "is_read (FinishRead r) = True"
| "is_read _ = False"

fun mg_step :: "tm_event \<Rightarrow> 's manager \<Rightarrow> 's manager" where
  "mg_step (CallAdd now t) s = s\<lparr>mgTasks := snd (addTaskUnverified now (Some t) (mgTasks s))\<rparr>"
| "mg_step (CallVerify k isVerified) s =
     (case verify_begin (JStr k) isVerified (mgTasks s) of
        (None, tm) \<Rightarrow> s\<lparr>mgTasks := tm\<rparr>
      | (Some task, tm) \<Rightarrow> issue_store task (VerifyWrite task) (s\<lparr>mgTasks := tm\<rparr>))"
| "mg_step (CallFinish r) s =
     (if isUnverifiedInPool (rTaskId r) (mgTasks s) then s else await (FinishRead r) s)"
| "mg_step (CallRemove k) s = await RemoveDelete (s\<lparr>mgTasks := remove_begin (JStr k) (mgTasks s)\<rparr>)"
| "mg_step (CallOutside t) s = (if tkBody t = OutsideBody then issue_store t OutsideWrite s else s)"
| "mg_step (ReadAnswer i a) s =
     (if i < length (mgWaiting s) \<and> is_read (mgWaiting s ! i)
      then read_answer (mgWaiting s ! i) a (without_waiting i s) else s)"
| "mg_step (WriteAnswer i a) s =
     (if i < length (mgWaiting s) \<and> \<not> is_read (mgWaiting s ! i)
      then write_answer (mgWaiting s ! i) a (without_waiting i s) else s)"

definition mg_start :: "'s taskmgr \<Rightarrow> 's manager" where
  "mg_start tm = \<lparr>mgTasks = tm, mgWaiting = []\<rparr>"

definition mg_run :: "'s taskmgr \<Rightarrow> tm_event list \<Rightarrow> 's manager" where
  "mg_run tm es = foldl (\<lambda>s e. mg_step e s) (mg_start tm) es"

section \<open>The verification writes under way\<close>

fun writes_for :: "string \<Rightarrow> db_wait \<Rightarrow> bool" where
  "writes_for k (VerifyWrite t) \<longleftrightarrow> tkId t = JStr k"
| "writes_for k _ \<longleftrightarrow> False"

definition verifying :: "string \<Rightarrow> 's manager \<Rightarrow> nat" where
  "verifying k s = length (filter (writes_for k) (mgWaiting s))"

text \<open>
  What the callers are asked for: the tasks they add have text ids, and an id is not verified again
  while the write of its last verification is under way.
\<close>

fun call_ok :: "tm_event \<Rightarrow> 's manager \<Rightarrow> bool" where
  "call_ok (CallAdd now t) s \<longleftrightarrow> is_str (tkId t)"
| "call_ok (CallVerify k isVerified) s \<longleftrightarrow> isVerified \<longrightarrow> verifying k s = 0"
| "call_ok _ s \<longleftrightarrow> True"

fun calls_ok :: "'s manager \<Rightarrow> tm_event list \<Rightarrow> bool" where
  "calls_ok s [] \<longleftrightarrow> True"
| "calls_ok s (e # es) \<longleftrightarrow> call_ok e s \<and> calls_ok (mg_step e s) es"

lemma calls_ok_append [simp]:
  "calls_ok s (es @ [e]) \<longleftrightarrow> calls_ok s es \<and> call_ok e (foldl (\<lambda>s e. mg_step e s) s es)"
  by (induction es arbitrary: s) auto

section \<open>The invariant\<close>

definition counted :: "string \<Rightarrow> 's manager \<Rightarrow> bool" where
  "counted k s \<longleftrightarrow>
     verifieds k (tmEvents (mgTasks s)) +
       (if isUnverifiedInPool (JStr k) (mgTasks s) \<or> verifying k s \<noteq> 0 then 1 else 0)
       \<le> news k (tmEvents (mgTasks s)) \<and>
     verifying k s \<le> 1"

definition pool_ids :: "'s taskmgr \<Rightarrow> bool" where
  "pool_ids tm \<longleftrightarrow> (\<forall>k time t. map_of (tmPool tm) k = Some (time, t) \<longrightarrow> tkId t = JStr k)"

definition mg_inv :: "'s manager \<Rightarrow> bool" where
  "mg_inv s \<longleftrightarrow> pool_ids (mgTasks s) \<and> (\<forall>k. counted k s)"

lemma verifying_simps [simp]:
  "verifying k (await w s) = verifying k s + (if writes_for k w then 1 else 0)"
  "verifying k (s\<lparr>mgTasks := tm\<rparr>) = verifying k s"
  "mgTasks (await w s) = mgTasks s"
  "mgTasks (without_waiting i s) = mgTasks s"
  by (simp_all add: verifying_def await_def without_waiting_def)

lemma mgTasks_issue_store [simp]: "mgTasks (issue_store t w s) = mgTasks s"
  by (simp add: issue_store_def split: sum.splits)

lemma verifying_issue_store:
  "verifying k (issue_store t w s) \<le> verifying k s + (if writes_for k w then 1 else 0)"
  by (simp add: issue_store_def split: sum.splits)

lemma verifying_issue_other [simp]:
  "\<not> writes_for k w \<Longrightarrow> verifying k (issue_store t w s) = verifying k s"
  by (simp add: issue_store_def split: sum.splits)

lemma verifying_answered:
  assumes "i < length (mgWaiting s)"
  shows "verifying k s = verifying k (without_waiting i s) + (if writes_for k (mgWaiting s ! i) then 1 else 0)"
proof -
  have "verifying k s =
      length (filter (writes_for k) (take i (mgWaiting s) @ mgWaiting s ! i # drop (Suc i) (mgWaiting s)))"
    unfolding verifying_def using id_take_nth_drop [OF assms] by simp
  then show ?thesis by (simp add: verifying_def without_waiting_def)
qed

lemma counted_mono:
  "counted k s \<Longrightarrow> mgTasks s' = mgTasks s \<Longrightarrow> verifying k s' \<le> verifying k s \<Longrightarrow> counted k s'"
  by (auto simp: counted_def split: if_splits)

lemma mg_inv_add:
  assumes "mg_inv s" "is_str (tkId t)"
  shows "mg_inv (mg_step (CallAdd now t) s)"
proof -
  obtain k where k: "tkId t = JStr k" using assms(2) by (cases "tkId t") auto
  have "counted j (mg_step (CallAdd now t) s)" for j
  proof -
    have "counted j s" using assms(1) by (simp add: mg_inv_def)
    then show ?thesis
      using k by (auto simp: counted_def addTaskUnverified_def isOkToAdd_def isUnverifiedInPool_def
          notify_def split: if_splits)
  qed
  moreover have "pool_ids (mgTasks (mg_step (CallAdd now t) s))"
    using assms(1) k by (auto simp: mg_inv_def pool_ids_def addTaskUnverified_def notify_def)
  ultimately show ?thesis by (simp add: mg_inv_def)
qed

lemma mg_inv_verify:
  assumes "mg_inv s" "call_ok (CallVerify k b) s"
  shows "mg_inv (mg_step (CallVerify k b) s)"
proof (cases "b \<and> isUnverifiedInPool (JStr k) (mgTasks s)")
  case False
  then have "verify_begin (JStr k) b (mgTasks s) = (None, mgTasks s)"
    by (auto simp: verify_begin_def isUnverifiedInPool_def split: option.splits)
  then show ?thesis using assms(1) by simp
next
  case True
  then obtain time t where t: "map_of (tmPool (mgTasks s)) k = Some (time, t)"
    by (auto simp: isUnverifiedInPool_def)
  let ?t = "setInProgressStatus t"
  let ?tm = "(mgTasks s)\<lparr>tmPool := obj_set (tmPool (mgTasks s)) k (time, ?t)\<rparr>"
  have id: "tkId ?t = JStr k" using assms(1) t by (auto simp: mg_inv_def pool_ids_def setStatus_def)
  have step: "mg_step (CallVerify k b) s = issue_store ?t (VerifyWrite ?t) (s\<lparr>mgTasks := ?tm\<rparr>)"
    using True t by (simp add: verify_begin_def Let_def)
  have none: "verifying k s = 0" using assms(2) True by simp
  have "counted j (issue_store ?t (VerifyWrite ?t) (s\<lparr>mgTasks := ?tm\<rparr>))" for j
  proof -
    have "counted j s" using assms(1) by (simp add: mg_inv_def)
    then show ?thesis
      using t none verifying_issue_store [of k ?t "VerifyWrite ?t" "s\<lparr>mgTasks := ?tm\<rparr>"] id
      by (cases "j = k") (auto simp: counted_def isUnverifiedInPool_def)
  qed
  moreover have "pool_ids ?tm" using assms(1) id by (simp add: mg_inv_def pool_ids_def)
  ultimately show ?thesis unfolding step by (simp add: mg_inv_def)
qed

lemma mg_inv_remove:
  assumes "mg_inv s"
  shows "mg_inv (mg_step (CallRemove k) s)"
proof -
  have "counted j (mg_step (CallRemove k) s)" for j
  proof -
    have "counted j s" using assms by (simp add: mg_inv_def)
    then show ?thesis
      by (cases "j = k") (auto simp: counted_def remove_begin_def isUnverifiedInPool_def split: if_splits)
  qed
  then show ?thesis using assms by (auto simp: mg_inv_def pool_ids_def remove_begin_def split: if_splits)
qed

lemma mg_inv_answered:
  assumes "mg_inv s" "i < length (mgWaiting s)"
  shows "mg_inv (without_waiting i s)"
  using assms counted_mono [of _ s "without_waiting i s"] verifying_answered [OF assms(2)]
  by (simp add: mg_inv_def)

lemma mg_inv_await: "mg_inv s \<Longrightarrow> (\<And>k. \<not> writes_for k w) \<Longrightarrow> mg_inv (await w s)"
  by (simp add: mg_inv_def counted_def)

lemma mg_inv_issue: "mg_inv s \<Longrightarrow> (\<And>k. \<not> writes_for k w) \<Longrightarrow> mg_inv (issue_store t w s)"
  by (simp add: mg_inv_def counted_def)

lemma mg_inv_verified:
  assumes "mg_inv s" "i < length (mgWaiting s)" "mgWaiting s ! i = VerifyWrite t"
  shows "mg_inv ((without_waiting i s)\<lparr>mgTasks := snd (verify_done t (Inr ()) (mgTasks s))\<rparr>)"
proof -
  have "counted k ((without_waiting i s)\<lparr>mgTasks := snd (verify_done t (Inr ()) (mgTasks s))\<rparr>)" for k
  proof -
    have "counted k s" using assms(1) by (simp add: mg_inv_def)
    then show ?thesis
      using verifying_answered [OF assms(2), of k] assms(3)
      by (cases "tkId t = JStr k")
        (auto simp: counted_def verify_done_def notify_def isUnverifiedInPool_def split: if_splits)
  qed
  then show ?thesis
    using assms(1) by (auto simp: mg_inv_def pool_ids_def verify_done_def notify_def split: if_splits)
qed

lemma mg_inv_finished:
  assumes "mg_inv s"
  shows "mg_inv (s\<lparr>mgTasks := snd (finish_done t a (mgTasks s))\<rparr>)"
  using assms by (cases a) (simp_all add: mg_inv_def counted_def pool_ids_def finish_done_def notify_def
      isUnverifiedInPool_def)

lemma mg_inv_write:
  assumes "mg_inv s" "i < length (mgWaiting s)"
  shows "mg_inv (write_answer (mgWaiting s ! i) a (without_waiting i s))"
proof (cases "mgWaiting s ! i")
  case (VerifyWrite t)
  show ?thesis
  proof (cases a)
    case (Inl e)
    have "write_answer (mgWaiting s ! i) a (without_waiting i s) = without_waiting i s"
      using Inl VerifyWrite by (simp add: write_answer_def verify_done_def without_waiting_def)
    then show ?thesis using mg_inv_answered [OF assms] by simp
  next
    case (Inr u)
    then show ?thesis using VerifyWrite mg_inv_verified [OF assms] by (simp add: write_answer_def)
  qed
qed (use mg_inv_answered [OF assms] mg_inv_finished [OF mg_inv_answered [OF assms]] in
    \<open>auto simp: write_answer_def Let_def intro: mg_inv_issue split: sum.splits\<close>)

lemma mg_inv_read: "mg_inv s \<Longrightarrow> mg_inv (read_answer w a s)"
  by (auto simp: read_answer_def intro: mg_inv_await split: db_wait.splits sum.splits)

lemma mg_inv_step: "mg_inv s \<Longrightarrow> call_ok e s \<Longrightarrow> mg_inv (mg_step e s)"
proof (cases e)
  case (CallVerify k b)
  then show "mg_inv s \<Longrightarrow> call_ok e s \<Longrightarrow> ?thesis" using mg_inv_verify by blast
qed (auto simp del: mg_step.simps(1,4) simp: mg_inv_answered mg_inv_write mg_inv_read
    intro: mg_inv_add mg_inv_remove mg_inv_await mg_inv_issue)

lemma mg_inv_start: "tmPool tm = [] \<Longrightarrow> tmEvents tm = [] \<Longrightarrow> mg_inv (mg_start tm)"
  by (simp add: mg_inv_def counted_def pool_ids_def mg_start_def isUnverifiedInPool_def verifying_def
      verifieds_def news_def)

text \<open>A fresh manager, with the calls and answers so far.\<close>

lemma mg_run_snoc: "mg_run tm (es @ [e]) = mg_step e (mg_run tm es)"
  by (simp add: mg_run_def)

interpretation fresh_manager: machine "mg_start (TaskManager L path dbPath)" mg_step
    "calls_ok (mg_start (TaskManager L path dbPath))"
    "\<lambda>es s. s = mg_run (TaskManager L path dbPath) es \<and> mg_inv s"
proof unfold_locales
  show "mg_start (TaskManager L path dbPath) = mg_run (TaskManager L path dbPath) [] \<and>
      mg_inv (mg_start (TaskManager L path dbPath))"
    by (auto simp: mg_run_def intro: mg_inv_start) (auto simp: TaskManager_def intro: mg_inv_start)
qed (auto simp: mg_run_snoc mg_run_def intro: mg_inv_step)

section \<open>Properties\<close>

text \<open>
  C1: no task reaches the core unannounced or more often than it was announced. Whatever calls of
  the manager are made and whatever the database answers, in any order and with any of the
  callbacks late, the number of \<open>TASK_VERIFIED\<close> notifications of an id never exceeds
  the number of its \<open>VERIFY_NEW_TASK\<close> notifications, and while the task waits in the pool or is being
  written it is smaller; provided that an id is not verified again while the write of its last
  verification is under way.
\<close>

theorem verified_at_most_announced:
  assumes "calls_ok (mg_start (TaskManager L path dbPath)) es"
  shows "let s = mg_run (TaskManager L path dbPath) es; log = tmEvents (mgTasks s) in
    verifieds k log
      + (if isUnverifiedInPool (JStr k) (mgTasks s) \<or> verifying k s \<noteq> 0 then 1 else 0) \<le> news k log"
proof -
  have "counted k (mg_run (TaskManager L path dbPath) es)"
    using fresh_manager.always [OF assms] by (simp add: mg_inv_def mg_run_def)
  then show ?thesis unfolding counted_def Let_def by (rule conjunct1)
qed

text \<open>Two tasks of one id, one after the other, with the answers to the writes late.\<close>

definition ex_calls :: "tm_event list" where
  "ex_calls =
     [CallAdd 10 ex_task, CallVerify ''ab12'' True, CallRemove ''ab12'', CallAdd 20 ex_task,
      WriteAnswer 1 (Inr ()), WriteAnswer 0 (Inr ()), CallAdd 30 ex_task, CallVerify ''ab12'' True,
      CallVerify ''ab12'' False, WriteAnswer 0 (Inl NotFoundError)]"

theorem verified_at_most_announced_witness:
  "verifieds ''ab12'' (tmEvents (mgTasks (mg_run (TaskManager mem_level ''db'' JUndef) ex_calls))) + 1
     \<le> news ''ab12'' (tmEvents (mgTasks (mg_run (TaskManager mem_level ''db'' JUndef) ex_calls)))"
proof -
  have ok: "calls_ok (mg_start (TaskManager mem_level ''db'' JUndef)) ex_calls"
    by code_simp
  have "isUnverifiedInPool (JStr ''ab12'') (mgTasks (mg_run (TaskManager mem_level ''db'' JUndef) ex_calls))"
    by code_simp
  then show ?thesis using verified_at_most_announced [OF ok, of "''ab12''"] by (simp add: Let_def)
qed

text \<open>
  The proviso is needed: the pool is tested before the write and cleaned in its callback, so that two
  overlapping calls of \<open>onVerifyTask\<close> hand a task to the core twice that was announced once.
\<close>

lemma overlapping_verifications:
  "let log = tmEvents (mgTasks (mg_run (TaskManager mem_level ''db'' JUndef)
     [CallAdd 10 ex_task, CallVerify ''ab12'' True, CallVerify ''ab12'' True,
      WriteAnswer 0 (Inr ()), WriteAnswer 0 (Inr ())]))
   in verifieds ''ab12'' log = 2 \<and> news ''ab12'' log = 1"
  by code_simp

end
