(* ===== verification/P2p_Messages.thy ===== *)
theory P2p_Messages
  imports Task_Results
begin

text \<open>
  \<open>src/src/policy\<close>: the validity policy (\<open>policy.js\<close>), the JSON-RPC messages of heart
  beats and peer discovery (\<open>p2p_messages/messages.js\<close>), the message to the principal node
  (\<open>principal_messages.js\<close>) and the messages of state synchronisation
  (\<open>sync_messages.js\<close>). A message object is its raw JSON with the verdict of the policy;
  msgpack is a parameter.
\<close>

section \<open>Policy\<close>

definition PROTOCOLS :: "string list" where
  "PROTOCOLS = [''peer:discovery'', ''peer:connect'', ''peer:disconnect'', ''/echo'',
     ''/findpeers/0.1'', ''/heartbeat/0.1'', ''/sync/0.1'', ''/localstateexchange/0.1'']"

definition PUBSUB_TOPICS :: "string list" where
  "PUBSUB_TOPICS = [''/broadcast/0.1'', ''/taskresults/0.1'']"

definition isValidProtocol :: "string \<Rightarrow> bool" where
  "isValidProtocol protocolName \<longleftrightarrow> protocolName \<in> set PROTOCOLS"

definition isValidTopic :: "string \<Rightarrow> bool" where
  "isValidTopic topicName \<longleftrightarrow> topicName \<in> set PUBSUB_TOPICS"

text \<open>Short-circuit conjunction and disjunction of conditions that may throw.\<close>

definition andE :: "bool js \<Rightarrow> bool js \<Rightarrow> bool js" where
  "andE a b = bindE a (\<lambda>x. if x then b else Inr False)"

definition orE :: "bool js \<Rightarrow> bool js \<Rightarrow> bool js" where
  "orE a b = bindE a (\<lambda>x. if x then Inr True else b)"

text \<open>
  \<open>validJsonRpc\<close>: the operand \<open>"params"\<close> is a string literal, hence true: the presence of
  parameters is not checked.
\<close>

definition validJsonRpc :: "json \<Rightarrow> bool js" where
  "validJsonRpc msg =
     andE (has_prop ''jsonrpc'' msg)
       (andE (orE (andE (has_prop ''method'' msg) (Inr (truthy (JStr ''params''))))
                  (has_prop ''result'' msg))
             (has_prop ''id'' msg))"

lemma validJsonRpc_obj:
  "validJsonRpc (JObj fs) = Inr (map_of fs ''jsonrpc'' \<noteq> None \<and>
     (map_of fs ''method'' \<noteq> None \<or> map_of fs ''result'' \<noteq> None) \<and> map_of fs ''id'' \<noteq> None)"
  by (simp add: validJsonRpc_def andE_def orE_def)

section \<open>Messages between peers\<close>

record msg =
  rawMsg :: json
  msgValid :: bool

definition Msg :: "json \<Rightarrow> msg js" where
  "Msg raw = bindE (validJsonRpc raw) (\<lambda>b. Inr \<lparr>rawMsg = raw, msgValid = b\<rparr>)"

definition msg_id :: "msg \<Rightarrow> json" where
  "msg_id m = fld (rawMsg m) ''id''"

definition msg_method :: "msg \<Rightarrow> json" where
  "msg_method m = fld (rawMsg m) ''method''"

text \<open>All names are properties of the value.\<close>

fun has_all :: "string list \<Rightarrow> json \<Rightarrow> bool js" where
  "has_all [] v = Inr True"
| "has_all (k # ks) v = andE (has_prop k v) (has_all ks v)"

lemma has_all_obj: "has_all ks (JObj fs) = Inr (\<forall>k\<in>set ks. map_of fs k \<noteq> None)"
  by (induction ks) (auto simp: andE_def)

text \<open>
  The four constructors: a raw message is taken as it is when it has the fields \<open>raw\<close>, built
  by \<open>mk\<close> when it has the fields \<open>need\<close>, and is \<open>undefined\<close> otherwise, which the policy
  check cannot read.
\<close>

definition build_msg :: "string list \<Rightarrow> string list \<Rightarrow> (json \<Rightarrow> json) \<Rightarrow> json \<Rightarrow> msg js" where
  "build_msg raw need mk v =
     bindE (parse_if_string v) (\<lambda>p.
     bindE (has_all raw p) (\<lambda>isRaw.
     if isRaw then Msg p
     else bindE (has_all need p) (\<lambda>ok. Msg (if ok then mk p else JUndef))))"

definition heartBeatReq_of :: "json \<Rightarrow> json \<Rightarrow> json" where
  "heartBeatReq_of randId p = JObj [(''jsonrpc'', JStr ''2.0''), (''method'', JStr ''heartbeat''),
     (''params'', JArr [JObj [(''from'', fld p ''from''), (''to'', fld p ''to'')]]), (''id'', randId)]"

definition heartBeatRes_of :: "json \<Rightarrow> json" where
  "heartBeatRes_of p = JObj [(''jsonrpc'', JStr ''2.0''),
     (''result'', JObj [(''from'', fld p ''from''), (''to'', fld p ''to''), (''type'', JStr ''heartbeat'')]),
     (''id'', fld p ''id'')]"

definition findPeersReq_of :: "json \<Rightarrow> json \<Rightarrow> json" where
  "findPeersReq_of randId p = JObj [(''jsonrpc'', JStr ''2.0''), (''method'', JStr ''findpeers_req''),
     (''params'', JArr [JObj [(''from'', fld p ''from''), (''to'', fld p ''to''),
        (''maxpeers'', fld p ''maxpeers'')]]), (''id'', randId)]"

definition findPeersRes_of :: "json \<Rightarrow> json" where
  "findPeersRes_of p = JObj [(''jsonrpc'', JStr ''2.0''),
     (''result'', JObj [(''from'', fld p ''from''), (''to'', fld p ''to''), (''peers'', fld p ''peers'')]),
     (''id'', fld p ''id'')]"

definition HeartBeatReqMsg :: "json \<Rightarrow> json \<Rightarrow> msg js" where
  "HeartBeatReqMsg randId v = build_msg [''jsonrpc''] [''from'', ''to''] (heartBeatReq_of randId) v"

definition HeartBeatResMsg :: "json \<Rightarrow> msg js" where
  "HeartBeatResMsg v =
     build_msg [''jsonrpc'', ''result''] [''from'', ''to'', ''id''] heartBeatRes_of v"

definition FindPeersReqMsg :: "json \<Rightarrow> json \<Rightarrow> msg js" where
  "FindPeersReqMsg randId v =
     build_msg [''jsonrpc''] [''from'', ''to'', ''maxpeers''] (findPeersReq_of randId) v"

definition FindPeersResMsg :: "json \<Rightarrow> msg js" where
  "FindPeersResMsg v =
     build_msg [''jsonrpc'', ''result''] [''from'', ''to'', ''peers'', ''id''] findPeersRes_of v"

text \<open>\<open>rawMsg["params"][0][k]\<close> and \<open>rawMsg["result"][k]\<close>; a missing level throws.\<close>

definition req_param :: "string \<Rightarrow> msg \<Rightarrow> json js" where
  "req_param k m =
     bindE (get_prop (rawMsg m) ''params'') (\<lambda>ps.
     case ps of
       JArr (p # _) \<Rightarrow> get_prop p k
     | JUndef \<Rightarrow> Inl JsTypeError
     | JNull \<Rightarrow> Inl JsTypeError
     | JStr (c # _) \<Rightarrow> Inr JUndef
     | JObj fs \<Rightarrow> get_prop (obj_get fs ''0'') k
     | _ \<Rightarrow> Inl JsTypeError)"

definition res_field :: "string \<Rightarrow> msg \<Rightarrow> json js" where
  "res_field k m = bindE (get_prop (rawMsg m) ''result'') (\<lambda>r. get_prop r k)"

definition toNetworkStream :: "msg \<Rightarrow> string" where
  "toNetworkStream m = JSON_stringify (rawMsg m)"

text \<open>\<open>isCompatibleWithMsg\<close> of both response classes.\<close>

definition isCompatibleWithMsg :: "msg \<Rightarrow> msg \<Rightarrow> bool js" where
  "isCompatibleWithMsg res req =
     bindE (req_param ''from'' req) (\<lambda>shouldTo.
     bindE (res_field ''to'' res) (\<lambda>currentTo.
     Inr (if msg_id req = msg_id res \<and> shouldTo = currentTo then msgValid res else False)))"

section \<open>The message to the principal node\<close>

record msg_principal =
  mpRequest :: json
  mpSig :: json
  mpAddresses :: json
  mpBlockNumber :: json

definition MsgPrincipal_build :: "json \<Rightarrow> msg_principal option" where
  "MsgPrincipal_build j =
     (if truthy j \<and> truthy (fld j ''request'') \<and> truthy (fld j ''sig'')
      then Some \<lparr>mpRequest = fld j ''request'', mpSig = fld j ''sig'',
             mpAddresses = (if truthy (fld j ''addresses'') then fld j ''addresses'' else JNull),
             mpBlockNumber = (if truthy (fld j ''blockNumber'') then fld j ''blockNumber'' else JNull)\<rparr>
      else None)"

definition MsgPrincipal_toJson :: "msg_principal \<Rightarrow> json" where
  "MsgPrincipal_toJson m = JObj
     ([(''data'', mpRequest m), (''sig'', mpSig m)] @
      (if truthy (mpBlockNumber m) then [(''block_number'', JStr (js_key (mpBlockNumber m)))] else []) @
      (if truthy (mpAddresses m) then [(''addresses'', mpAddresses m)] else []))"

section \<open>Synchronisation messages\<close>

abbreviation SYNC_STATE_REQ :: json where "SYNC_STATE_REQ \<equiv> JStr ''SYNC_STATE_REQ''"
abbreviation SYNC_STATE_RES :: json where "SYNC_STATE_RES \<equiv> JStr ''SYNC_STATE_RES''"
abbreviation SYNC_BCODE_REQ :: json where "SYNC_BCODE_REQ \<equiv> JStr ''SYNC_BCODE_REQ''"
abbreviation SYNC_BCODE_RES :: json where "SYNC_BCODE_RES \<equiv> JStr ''SYNC_BCODE_RES''"

text \<open>msgpack: the encoder, and the decoder which fails on malformed input.\<close>

record codec =
  mpEncode :: "json \<Rightarrow> int list option"
  mpDecode :: "int list \<Rightarrow> json option"

definition codec_ok :: "codec \<Rightarrow> bool" where
  "codec_ok c \<longleftrightarrow> (\<forall>v. json_normal v \<longrightarrow> (\<exists>bs. mpEncode c v = Some bs \<and> mpDecode c bs = Some v))"

text \<open>\<open>EncoderUtil.encode\<close> and \<open>decode\<close> answer \<open>null\<close> on an exception.\<close>

definition encoder_decode :: "codec \<Rightarrow> int list \<Rightarrow> json" where
  "encoder_decode c bs = (case mpDecode c bs of Some v \<Rightarrow> v | None \<Rightarrow> JNull)"

datatype sync_msg =
    SyncStateReqMsg (syncRaw: json)
  | SyncStateResMsg (syncRaw: json)
  | SyncBcodeReqMsg (syncRaw: json)
  | SyncBcodeResMsg (syncRaw: json)

definition sync_type :: "sync_msg \<Rightarrow> json" where
  "sync_type m = fld (syncRaw m) ''msgType''"

definition sync_toNetwork :: "codec \<Rightarrow> sync_msg \<Rightarrow> int list option" where
  "sync_toNetwork c m = mpEncode c (syncRaw m)"

definition set_msgType :: "json \<Rightarrow> json \<Rightarrow> json" where
  "set_msgType t v = (case v of JObj fs \<Rightarrow> JObj (obj_set fs ''msgType'' t) | _ \<Rightarrow> v)"

definition stateRequestMessage :: "json \<Rightarrow> sync_msg" where
  "stateRequestMessage v = SyncStateReqMsg (set_msgType SYNC_STATE_REQ v)"

definition bCodeRequestMessage :: "json \<Rightarrow> sync_msg" where
  "bCodeRequestMessage v = SyncBcodeReqMsg (set_msgType SYNC_BCODE_REQ v)"

definition batchStateRequest :: "json list \<Rightarrow> sync_msg list" where
  "batchStateRequest msgs = map (\<lambda>m. SyncStateReqMsg (set_msgType SYNC_STATE_REQ m)) msgs"

text \<open>\<open>msgObj.hasOwnProperty("msgType")\<close> throws on \<open>null\<close>, the value of a failed decoding.\<close>

definition has_own :: "string \<Rightarrow> json \<Rightarrow> bool js" where
  "has_own k v =
     (case v of JUndef \<Rightarrow> Inl JsTypeError | JNull \<Rightarrow> Inl JsTypeError
      | JObj fs \<Rightarrow> Inr (map_of fs k \<noteq> None) | _ \<Rightarrow> Inr False)"

definition responseMessageFromNetwork :: "codec \<Rightarrow> int list \<Rightarrow> sync_msg option js" where
  "responseMessageFromNetwork c bs =
     (let msgObj = encoder_decode c bs in
      bindE (has_own ''msgType'' msgObj) (\<lambda>has.
      Inr (if \<not> has then None
           else if fld msgObj ''msgType'' = SYNC_STATE_RES then Some (SyncStateResMsg msgObj)
           else if fld msgObj ''msgType'' = SYNC_BCODE_RES then Some (SyncBcodeResMsg msgObj)
           else None)))"

definition requestMessageFromNetwork :: "codec \<Rightarrow> int list \<Rightarrow> sync_msg option js" where
  "requestMessageFromNetwork c bs =
     (let msgObj = encoder_decode c bs in
      bindE (has_own ''msgType'' msgObj) (\<lambda>has.
      Inr (if \<not> has then None
           else if fld msgObj ''msgType'' = SYNC_STATE_REQ then Some (stateRequestMessage msgObj)
           else if fld msgObj ''msgType'' = SYNC_BCODE_REQ then Some (bCodeRequestMessage msgObj)
           else None)))"

text \<open>Accessors of requests.\<close>

definition sync_contractAddress :: "sync_msg \<Rightarrow> json" where
  [simp]: "sync_contractAddress m = fld (syncRaw m) ''contractAddress''"

definition sync_getRange :: "sync_msg \<Rightarrow> json" where
  [simp]: "sync_getRange m =
     JObj [(''fromIndex'', fld (syncRaw m) ''fromIndex''), (''fromHash'', fld (syncRaw m) ''fromHash''),
       (''toIndex'', fld (syncRaw m) ''toIndex''), (''toHash'', fld (syncRaw m) ''toHash'')]"

text \<open>Accessors of responses; \<open>rawMsg.result.deltas\<close> throws when there is no result.\<close>

definition sync_deltas :: "sync_msg \<Rightarrow> json js" where
  "sync_deltas m = get_prop (fld (syncRaw m) ''result'') ''deltas''"

definition sync_bytecode :: "sync_msg \<Rightarrow> json js" where
  "sync_bytecode m = get_prop (fld (syncRaw m) ''result'') ''bytecode''"

definition sync_address :: "sync_msg \<Rightarrow> json js" where
  "sync_address m = get_prop (fld (syncRaw m) ''result'') ''address''"

text \<open>
  The accessors of states. \<open>sortStates\<close> sorts the states of the message in place by their index and
  returns them; \<open>None\<close> when an index is no number, where the order is left to the engine.
\<close>

definition sync_states :: "sync_msg \<Rightarrow> json" where
  "sync_states m = fld (syncRaw m) ''states''"

definition sync_state :: "nat \<Rightarrow> sync_msg \<Rightarrow> json js" where
  "sync_state i m =
     (case sync_states m of
        JArr xs \<Rightarrow> Inr (if i < length xs then xs ! i else JUndef)
      | JStr s \<Rightarrow> Inr (if i < length s then JStr [s ! i] else JUndef)
      | JUndef \<Rightarrow> Inl JsTypeError
      | JNull \<Rightarrow> Inl JsTypeError
      | _ \<Rightarrow> Inr JUndef)"

definition state_index :: "json \<Rightarrow> int option" where
  "state_index d = (case fld d ''index'' of JNum n \<Rightarrow> Some n | _ \<Rightarrow> None)"

definition sync_sortStates :: "sync_msg \<Rightarrow> (json list \<times> sync_msg) option" where
  "sync_sortStates m =
     (case (syncRaw m, sync_states m) of
        (JObj fs, JArr ds) \<Rightarrow>
          (if list_all (\<lambda>d. state_index d \<noteq> None) ds
           then let sorted = sort_key (\<lambda>d. the (state_index d)) ds
                in Some (sorted, SyncStateResMsg (JObj (obj_set fs ''states'' (JArr sorted))))
           else None)
      | _ \<Rightarrow> None)"

lemma sortStates_sorted:
  assumes "sync_sortStates m = Some (ds, m')"
  shows "sync_states m' = JArr ds" "sorted (map (\<lambda>d. the (state_index d)) ds)"
    "\<exists>old. sync_states m = JArr old \<and> set ds = set old \<and> length ds = length old"
  using assms
  by (auto simp: sync_sortStates_def sync_states_def Let_def obj_get_def split: json.splits if_splits)

section \<open>Properties\<close>

lemma Msg_obj: "Msg (JObj fs) = Inr \<lparr>rawMsg = JObj fs, msgValid = (map_of fs ''jsonrpc'' \<noteq> None \<and>
     (map_of fs ''method'' \<noteq> None \<or> map_of fs ''result'' \<noteq> None) \<and> map_of fs ''id'' \<noteq> None)\<rparr>"
  by (simp add: Msg_def validJsonRpc_obj)

lemma parse_network: "json_normal (rawMsg m) \<Longrightarrow> JSON_parse (toNetworkStream m) = Inr (rawMsg m)"
  by (simp add: toNetworkStream_def JSON_parse_stringify json_normal_wf json_norm_normal)

text \<open>A message that was built is read back from its network form by the same constructor.\<close>

lemma build_msg_network:
  assumes "json_normal (rawMsg m)" "has_all raw (rawMsg m) = Inr True" "Msg (rawMsg m) = Inr m"
  shows "build_msg raw need mk (JStr (toNetworkStream m)) = Inr m"
  using assms by (simp add: build_msg_def parse_if_string_def parse_network)

text \<open>
  A heart beat over the network. The request that a node builds from two peer ids is
  valid, the peer reads the same request from the wire, and the response the peer builds
  for it with the roles exchanged and the same id is read back as it was and is accepted as
  compatible with the request.
\<close>

lemma heartbeat_exchange:
  assumes "json_normal randId" "json_normal a" "json_normal b"
  shows "\<exists>req res. HeartBeatReqMsg randId (JObj [(''from'', a), (''to'', b)]) = Inr req \<and>
      HeartBeatReqMsg r' (JStr (toNetworkStream req)) = Inr req \<and> msgValid req \<and>
      HeartBeatResMsg (JObj [(''from'', b), (''to'', a), (''id'', msg_id req)]) = Inr res \<and>
      HeartBeatResMsg (JStr (toNetworkStream res)) = Inr res \<and>
      isCompatibleWithMsg res req = Inr True"
proof -
  define req where "req = \<lparr>rawMsg = heartBeatReq_of randId (JObj [(''from'', a), (''to'', b)]), msgValid = True\<rparr>"
  define res where "res = \<lparr>rawMsg = heartBeatRes_of (JObj [(''from'', b), (''to'', a), (''id'', randId)]), msgValid = True\<rparr>"
  have q: "HeartBeatReqMsg randId (JObj [(''from'', a), (''to'', b)]) = Inr req"
    by (simp add: HeartBeatReqMsg_def build_msg_def parse_if_string_def has_all_obj req_def
        heartBeatReq_of_def Msg_obj obj_get_def andE_def)
  have id: "msg_id req = randId" by (simp add: req_def msg_id_def heartBeatReq_of_def obj_get_def)
  have s: "HeartBeatResMsg (JObj [(''from'', b), (''to'', a), (''id'', msg_id req)]) = Inr res"
    by (simp add: id HeartBeatResMsg_def build_msg_def parse_if_string_def has_all_obj res_def
        heartBeatRes_of_def Msg_obj obj_get_def andE_def)
  have q': "HeartBeatReqMsg r' (JStr (toNetworkStream req)) = Inr req"
    unfolding HeartBeatReqMsg_def
    by (rule build_msg_network)
      (simp_all add: req_def heartBeatReq_of_def has_all_obj andE_def Msg_obj obj_get_def obj_wf_def assms)
  have s': "HeartBeatResMsg (JStr (toNetworkStream res)) = Inr res"
    unfolding HeartBeatResMsg_def
    by (rule build_msg_network)
      (simp_all add: res_def heartBeatRes_of_def has_all_obj andE_def Msg_obj obj_get_def obj_wf_def assms)
  have "isCompatibleWithMsg res req = Inr True"
    by (simp add: isCompatibleWithMsg_def id req_param_def res_field_def)
      (simp add: req_def res_def heartBeatReq_of_def heartBeatRes_of_def msg_id_def obj_get_def)
  then show ?thesis using q q' s s' by (auto simp: req_def)
qed

text \<open>
  The policy accepts calls without parameters. Every object with a version, a method and
  an id is a valid JSON-RPC message, whatever its parameters are.
\<close>

lemma validJsonRpc_ignores_params:
  "validJsonRpc (JObj [(''jsonrpc'', v), (''method'', m), (''id'', i)]) = Inr True \<and>
   validJsonRpc (JObj fs) = validJsonRpc (JObj (obj_del fs ''params''))"
  by (simp add: validJsonRpc_obj)

end
