(* ===== verification/State_Compare.thy ===== *)
theory State_Compare
  imports P2p_Messages
begin

text \<open>
  What the node is missing: \<open>compareLocalStateToRemote\<close> of \<open>src/src/ethereum/StateSync.js\<close>,
  the request messages of \<open>worker/state_sync/receiver/LocalMissingStatesResult.js\<close>, and the
  maps that \<open>ReceiveAllPipelineAction.js\<close> builds from the list of missing states. The
  contract reader is a pair of parameters: the answer with all contract addresses and the
  answer for one contract.
\<close>

section \<open>Comparing local tips with the contract\<close>

text \<open>The address of a tip is a string or an array of bytes.\<close>

datatype addr_repr = AddrStr string | AddrBytes "int list"

record tip =
  tipAddress :: addr_repr
  tipKey :: int

record contract_data =
  cdCodeHash :: string
  cdDeltaHashes :: "string list"

record missing_delta =
  mdHash :: json
  mdIndex :: int

record missing =
  miAddress :: string
  miDeltas :: "missing_delta list"
  miBytecodeHash :: "string option"

record excess =
  exAddress :: string
  exRemoteTip :: int
  exLocalTip :: int

definition tip_address :: "tip \<Rightarrow> string" where
  "tip_address t =
     (case tipAddress t of AddrStr s \<Rightarrow> s | AddrBytes bs \<Rightarrow> toHexString bs)"

definition tipsMap :: "tip list \<Rightarrow> (string \<times> int) list" where
  "tipsMap localTips = foldl (\<lambda>obj item. obj_set obj (tip_address item) (tipKey item)) [] localTips"

text \<open>\<open>deltaHashes[i]\<close> for an integer index.\<close>

definition hash_at :: "string list \<Rightarrow> int \<Rightarrow> json" where
  "hash_at hs i = (if 0 \<le> i \<and> i < int (length hs) then JStr (hs ! nat i) else JUndef)"

definition missingDeltas_from :: "int \<Rightarrow> string list \<Rightarrow> missing_delta list" where
  "missingDeltas_from first hs =
     map (\<lambda>i. \<lparr>mdHash = hash_at hs i, mdIndex = i\<rparr>) [first..int (length hs) - 1]"

type_synonym compare_state = "(string \<times> int) list \<times> missing list \<times> excess list"

text \<open>The body of the loop over the remote contracts.\<close>

definition compare_one :: "string \<Rightarrow> contract_data \<Rightarrow> compare_state \<Rightarrow> compare_state" where
  "compare_one addr contractData st =
     (let (tips, missingList, excessList) = st;
          n = int (length (cdDeltaHashes contractData));
          (firstMissingIndex, missingAddress, tips) =
            (case map_of tips addr of
               Some k \<Rightarrow> (k + 1, False, obj_del tips addr)
             | None \<Rightarrow> (0, True, tips));
          excessList =
            (if firstMissingIndex > n
             then excessList @ [\<lparr>exAddress = addr, exRemoteTip = n - 1, exLocalTip = firstMissingIndex - 1\<rparr>]
             else excessList);
          missingDeltas = missingDeltas_from firstMissingIndex (cdDeltaHashes contractData);
          missingList =
            (if missingDeltas = [] then missingList
             else missingList @ [\<lparr>miAddress = addr, miDeltas = missingDeltas,
                    miBytecodeHash = (if missingAddress then Some (cdCodeHash contractData) else None)\<rparr>])
      in (tips, missingList, excessList))"

fun compare_loop :: "(string \<Rightarrow> contract_data js) \<Rightarrow> string list \<Rightarrow> compare_state \<Rightarrow> compare_state js" where
  "compare_loop getContractParams [] st = Inr st"
| "compare_loop getContractParams (a # as) st =
     bindE (getContractParams a) (\<lambda>cd. compare_loop getContractParams as (compare_one a cd st))"

definition compareLocalStateToRemote ::
    "string list js \<Rightarrow> (string \<Rightarrow> contract_data js) \<Rightarrow> tip list \<Rightarrow> (missing list \<times> excess list) js" where
  "compareLocalStateToRemote addresses getContractParams localTips =
     bindE addresses (\<lambda>remote.
     bindE (compare_loop getContractParams remote (tipsMap localTips, [], [])) (\<lambda>(tips, missingList, excessList).
     Inr (missingList,
          excessList @ map (\<lambda>(a, k). \<lparr>exAddress = a, exRemoteTip = -1, exLocalTip = k\<rparr>) tips)))"

section \<open>What the comparison finds\<close>

text \<open>The finding for one remote contract, from the local tip of its address.\<close>

definition missing_of :: "(string \<Rightarrow> int option) \<Rightarrow> (string \<Rightarrow> contract_data) \<Rightarrow> string \<Rightarrow> missing list" where
  "missing_of loc rem a =
     (let first = (case loc a of None \<Rightarrow> 0 | Some k \<Rightarrow> k + 1);
          ds = missingDeltas_from first (cdDeltaHashes (rem a)) in
      if ds = [] then []
      else [\<lparr>miAddress = a, miDeltas = ds,
             miBytecodeHash = (if loc a = None then Some (cdCodeHash (rem a)) else None)\<rparr>])"

definition excess_of :: "(string \<Rightarrow> int option) \<Rightarrow> (string \<Rightarrow> contract_data) \<Rightarrow> string \<Rightarrow> excess list" where
  "excess_of loc rem a =
     (case loc a of
        None \<Rightarrow> []
      | Some k \<Rightarrow>
          if k + 1 > int (length (cdDeltaHashes (rem a)))
          then [\<lparr>exAddress = a, exRemoteTip = int (length (cdDeltaHashes (rem a))) - 1, exLocalTip = k\<rparr>]
          else [])"

lemma compare_one_eq:
  "compare_one a (rem a) (tips, ms, es) =
     (obj_del tips a, ms @ missing_of (map_of tips) rem a, es @ excess_of (map_of tips) rem a)"
proof (cases "map_of tips a")
  case None
  moreover have "obj_del tips a = tips" using None by (simp add: obj_del_absent map_of_eq_None_iff)
  ultimately show ?thesis by (simp add: compare_one_def missing_of_def excess_of_def Let_def)
next
  case (Some k)
  then show ?thesis by (simp add: compare_one_def missing_of_def excess_of_def Let_def)
qed

lemma obj_del_foldl: "foldl obj_del tips as = filter (\<lambda>p. fst p \<notin> set as) tips"
  by (induction as arbitrary: tips) (auto simp: obj_del_def intro!: filter_cong)

lemma missing_of_cong: "loc a = loc' a \<Longrightarrow> missing_of loc rem a = missing_of loc' rem a"
  by (cases "loc' a") (simp_all add: missing_of_def)

lemma excess_of_cong: "loc a = loc' a \<Longrightarrow> excess_of loc rem a = excess_of loc' rem a"
  by (simp add: excess_of_def)

lemma compare_loop_eq:
  assumes "distinct as" "\<forall>a\<in>set as. getContractParams a = Inr (rem a)"
  shows "compare_loop getContractParams as (tips, ms, es) =
    Inr (foldl obj_del tips as, ms @ concat (map (missing_of (map_of tips) rem) as),
         es @ concat (map (excess_of (map_of tips) rem) as))"
  using assms
proof (induction as arbitrary: tips ms es)
  case (Cons a as)
  have "((map_of tips)(a := None)) b = map_of tips b" if "b \<in> set as" for b
    using Cons.prems(1) that by auto
  then have "concat (map (missing_of ((map_of tips)(a := None)) rem) as) = concat (map (missing_of (map_of tips) rem) as)"
    "concat (map (excess_of ((map_of tips)(a := None)) rem) as) = concat (map (excess_of (map_of tips) rem) as)"
    by (auto intro!: arg_cong [where f = concat] map_cong missing_of_cong excess_of_cong)
  then show ?case using Cons by (simp add: compare_one_eq)
qed simp

lemma compareLocalStateToRemote_eq:
  assumes "addresses = Inr as" "distinct as" "\<forall>a\<in>set as. getContractParams a = Inr (rem a)"
  shows "compareLocalStateToRemote addresses getContractParams localTips =
    Inr (concat (map (missing_of (map_of (tipsMap localTips)) rem) as),
         concat (map (excess_of (map_of (tipsMap localTips)) rem) as) @
         map (\<lambda>(a, k). \<lparr>exAddress = a, exRemoteTip = -1, exLocalTip = k\<rparr>)
           (filter (\<lambda>p. fst p \<notin> set as) (tipsMap localTips)))"
  using assms by (simp add: compareLocalStateToRemote_def compare_loop_eq [where rem = rem] obj_del_foldl)

lemma tipsMap_wf: "obj_wf (tipsMap localTips)"
  by (simp add: tipsMap_def obj_wf_foldl_obj_set)

section \<open>Request messages\<close>

definition RANGE_LIMIT :: nat where
  "RANGE_LIMIT = 10"

text \<open>One request, for a part of the deltas.\<close>

definition range_req :: "string \<Rightarrow> missing_delta list \<Rightarrow> json" where
  "range_req addr part = JObj
     [(''contractAddress'', JStr addr),
      (''fromIndex'', JNum (mdIndex (hd part))), (''fromHash'', mdHash (hd part)),
      (''toIndex'', JNum (mdIndex (last part) + 1)), (''toHash'', mdHash (last part))]"

fun bucket_loop :: "nat \<Rightarrow> nat \<Rightarrow> string \<Rightarrow> missing_delta list \<Rightarrow> json list" where
  "bucket_loop 0 begin addr deltas = []"
| "bucket_loop (Suc i) begin addr deltas =
     (let end' = min (begin + RANGE_LIMIT) (length deltas);
          part = take (end' - begin) (drop begin deltas)
      in range_req addr part # bucket_loop i end' addr deltas)"

definition parseStateReqMsgs :: "missing \<Rightarrow> json list" where
  "parseStateReqMsgs contractData =
     (let totalAmount = length (miDeltas contractData);
          bucketsNum = (totalAmount + RANGE_LIMIT - 1) div RANGE_LIMIT
      in bucket_loop bucketsNum 0 (miAddress contractData) (miDeltas contractData))"

text \<open>\<open>contractData.deltas[0].index === 0\<close> throws without deltas.\<close>

definition isBCodeRequest :: "missing \<Rightarrow> bool js" where
  "isBCodeRequest contractData =
     (case miDeltas contractData of [] \<Rightarrow> Inl JsTypeError | d # _ \<Rightarrow> Inr (mdIndex d = 0))"

record p2p_reqs =
  deltasReq :: "sync_msg list"
  bcodeReq :: "sync_msg option"

definition buildP2ReqPMsgsOneContract :: "missing \<Rightarrow> p2p_reqs js" where
  "buildP2ReqPMsgsOneContract contractData =
     bindE (isBCodeRequest contractData) (\<lambda>isB.
     Inr \<lparr>deltasReq = batchStateRequest (parseStateReqMsgs contractData),
          bcodeReq = (if isB then Some (bCodeRequestMessage
             (JObj [(''contractAddress'', JStr (miAddress contractData))])) else None)\<rparr>)"

fun reqs_loop :: "(string \<times> p2p_reqs) list \<Rightarrow> missing list \<Rightarrow> (string \<times> p2p_reqs) list js" where
  "reqs_loop output [] = Inr output"
| "reqs_loop output (m # ms) =
     bindE (buildP2ReqPMsgsOneContract m) (\<lambda>r. reqs_loop (obj_set output (miAddress m) r) ms)"

definition createP2PReqMsgsMap :: "missing list \<Rightarrow> (string \<times> p2p_reqs) list js" where
  "createP2PReqMsgsMap missingList = reqs_loop [] missingList"

text \<open>\<open>buildMissingStatesResult\<close>: the bytecode request goes after the requests for deltas.\<close>

definition buildMissingStatesResult :: "missing list \<Rightarrow> (string \<times> sync_msg list) list js" where
  "buildMissingStatesResult missingList =
     bindE (createP2PReqMsgsMap missingList) (\<lambda>result.
     Inr (foldl (\<lambda>m (addrKey, obj).
           obj_set m addrKey (deltasReq obj @ (case bcodeReq obj of Some b \<Rightarrow> [b] | None \<Rightarrow> []))) [] result))"

record remote_missing =
  rmDeltas :: "(string \<times> json) list"
  rmBytecodeHash :: "string option"

definition transformMissingStatesListToMap :: "missing list \<Rightarrow> (string \<times> remote_missing) list" where
  "transformMissingStatesListToMap missingStatesList =
     foldl (\<lambda>m s. obj_set m (miAddress s)
        \<lparr>rmDeltas = foldl (\<lambda>ds d. obj_set ds (int_str (mdIndex d)) (mdHash d)) [] (miDeltas s),
         rmBytecodeHash = miBytecodeHash s\<rparr>) [] missingStatesList"

section \<open>Lemmas on the batches\<close>

lemma bucket_loop_chunks:
  assumes "n = (length deltas - b + RANGE_LIMIT - 1) div RANGE_LIMIT" "b \<le> length deltas"
  shows "bucket_loop n b addr deltas = map (range_req addr) (chunks RANGE_LIMIT (drop b deltas))"
  using assms
proof (induction n arbitrary: b)
  case 0
  then show ?case by (simp add: RANGE_LIMIT_def)
next
  case (Suc n)
  let ?e = "min (b + RANGE_LIMIT) (length deltas)"
  have "drop b deltas \<noteq> []" using Suc.prems by (auto simp: RANGE_LIMIT_def)
  moreover have "n = (length deltas - ?e + RANGE_LIMIT - 1) div RANGE_LIMIT" using Suc.prems
    by (auto simp: RANGE_LIMIT_def min_def)
  moreover have "take (?e - b) (drop b deltas) = take RANGE_LIMIT (drop b deltas)"
    by (simp add: min_def)
  moreover have "drop ?e deltas = drop RANGE_LIMIT (drop b deltas)"
    by (simp add: min_def add.commute)
  ultimately show ?case using Suc.IH [of ?e] Suc.prems(2)
    by (simp add: chunks_step Let_def RANGE_LIMIT_def)
qed

lemma parseStateReqMsgs_chunks:
  "parseStateReqMsgs m = map (range_req (miAddress m)) (chunks RANGE_LIMIT (miDeltas m))"
  by (simp add: parseStateReqMsgs_def Let_def bucket_loop_chunks)

text \<open>The deltas of a missing contract carry consecutive indices.\<close>

definition consecutive :: "missing_delta list \<Rightarrow> bool" where
  "consecutive ds \<longleftrightarrow> (\<forall>i < length ds. mdIndex (ds ! i) = mdIndex (hd ds) + int i)"

lemma consecutive_take: "consecutive ds \<Longrightarrow> consecutive (take n ds)"
  by (cases "n = 0") (auto simp: consecutive_def)

lemma consecutive_drop: "consecutive ds \<Longrightarrow> consecutive (drop n ds)"
  by (cases "n < length ds") (auto simp: consecutive_def hd_drop_conv_nth)

lemma consecutive_chunks: "consecutive ds \<Longrightarrow> c \<in> set (chunks n ds) \<Longrightarrow> consecutive c"
proof (induction n ds rule: chunks.induct)
  case (1 n ds)
  then show ?case
    by (cases "ds = [] \<or> n = 0")
      (auto simp: chunks_step chunks.simps [of 0] intro: consecutive_take consecutive_drop)
qed

lemma consecutive_indices:
  assumes "consecutive ds" "ds \<noteq> []"
  shows "map mdIndex ds = [mdIndex (hd ds)..mdIndex (last ds)]"
proof (rule nth_equalityI)
  have l: "mdIndex (last ds) = mdIndex (hd ds) + int (length ds - 1)"
    using assms by (simp add: consecutive_def last_conv_nth)
  then show "length (map mdIndex ds) = length [mdIndex (hd ds)..mdIndex (last ds)]"
    using assms(2) by (cases ds) auto
  show "map mdIndex ds ! i = [mdIndex (hd ds)..mdIndex (last ds)] ! i" if "i < length (map mdIndex ds)" for i
    using that assms l by (simp add: consecutive_def nth_upto)
qed

lemma consecutive_missing: "consecutive (missingDeltas_from k hs)"
  unfolding consecutive_def
proof (intro allI impI)
  fix i assume i: "i < length (missingDeltas_from k hs)"
  then have "k + int i \<le> int (length hs) - 1" by (simp add: missingDeltas_from_def)
  then show "mdIndex (missingDeltas_from k hs ! i) = mdIndex (hd (missingDeltas_from k hs)) + int i"
    using i by (simp add: missingDeltas_from_def nth_upto hd_conv_nth hd_map)
qed

text \<open>The indices that one request asks for: from \<open>fromIndex\<close> up to, not including, \<open>toIndex\<close>.\<close>

definition req_indices :: "json \<Rightarrow> int list" where
  "req_indices r = (case (fld r ''fromIndex'', fld r ''toIndex'') of
     (JNum a, JNum b) \<Rightarrow> [a..b - 1] | _ \<Rightarrow> [])"

lemma req_indices_range: "req_indices (range_req addr c) = [mdIndex (hd c)..mdIndex (last c)]"
  by (simp add: req_indices_def range_req_def obj_get_def)

lemma req_indices_cover:
  assumes "consecutive (miDeltas m)"
  shows "concat (map req_indices (parseStateReqMsgs m)) = map mdIndex (miDeltas m)"
proof -
  have "map (req_indices \<circ> range_req (miAddress m)) (chunks RANGE_LIMIT (miDeltas m)) =
      map (map mdIndex) (chunks RANGE_LIMIT (miDeltas m))"
    using consecutive_chunks [OF assms] chunks_bound [of _ RANGE_LIMIT "miDeltas m"]
    by (auto simp: req_indices_range consecutive_indices)
  then show ?thesis
    by (simp add: parseStateReqMsgs_chunks map_concat [symmetric] concat_chunks RANGE_LIMIT_def del: map_eq_conv)
qed

lemma req_indices_bound:
  assumes "consecutive (miDeltas m)" "r \<in> set (parseStateReqMsgs m)"
  shows "length (req_indices r) \<le> RANGE_LIMIT \<and> req_indices r \<noteq> []"
proof -
  obtain c where c: "c \<in> set (chunks RANGE_LIMIT (miDeltas m))" "r = range_req (miAddress m) c"
    using assms(2) by (auto simp: parseStateReqMsgs_chunks)
  have "req_indices r = map mdIndex c"
    using c chunks_bound [OF c(1)] consecutive_chunks [OF assms(1) c(1)]
    by (simp add: req_indices_range consecutive_indices)
  then show ?thesis using chunks_bound [OF c(1)] by simp
qed

section \<open>Properties\<close>

text \<open>
  The specification: which deltas of a contract the node holds (all up to its tip), which the
  contract on Ethereum lists, and what a plan adds and removes.
\<close>

definition held :: "tip list \<Rightarrow> string \<Rightarrow> int set" where
  "held localTips a = (case map_of (tipsMap localTips) a of None \<Rightarrow> {} | Some k \<Rightarrow> {0..k})"

definition listed :: "string list \<Rightarrow> (string \<Rightarrow> contract_data) \<Rightarrow> string \<Rightarrow> int set" where
  "listed as rem a = (if a \<in> set as then {0..<int (length (cdDeltaHashes (rem a)))} else {})"

definition plan_adds :: "missing list \<Rightarrow> string \<Rightarrow> int set" where
  "plan_adds ms a = (\<Union>m\<in>{m \<in> set ms. miAddress m = a}. mdIndex ` set (miDeltas m))"

definition plan_drops :: "excess list \<Rightarrow> string \<Rightarrow> int set" where
  "plan_drops es a = (\<Union>e\<in>{e \<in> set es. exAddress e = a}. {exRemoteTip e + 1..exLocalTip e})"

lemma plan_adds_append: "plan_adds (xs @ ys) a = plan_adds xs a \<union> plan_adds ys a"
  by (auto simp: plan_adds_def)

lemma plan_drops_append: "plan_drops (xs @ ys) a = plan_drops xs a \<union> plan_drops ys a"
  by (auto simp: plan_drops_def)

lemma plan_adds_one:
  "plan_adds (missing_of loc rem b) a =
     (if a = b then {case loc a of None \<Rightarrow> 0 | Some k \<Rightarrow> k + 1..<int (length (cdDeltaHashes (rem a)))} else {})"
  by (cases "loc b") (auto simp: plan_adds_def missing_of_def missingDeltas_from_def Let_def image_iff)

lemma plan_drops_one:
  "plan_drops (excess_of loc rem b) a =
     (if a = b then (case loc a of None \<Rightarrow> {} | Some k \<Rightarrow> {int (length (cdDeltaHashes (rem a)))..k}) else {})"
  by (auto simp: plan_drops_def excess_of_def split: option.splits)

lemma plan_adds_concat:
  "plan_adds (concat (map (missing_of loc rem) as)) a =
     (if a \<in> set as then {case loc a of None \<Rightarrow> 0 | Some k \<Rightarrow> k + 1..<int (length (cdDeltaHashes (rem a)))} else {})"
  by (induction as) (auto simp: plan_adds_append plan_adds_one plan_adds_def [of "[]"])

lemma plan_drops_concat:
  "plan_drops (concat (map (excess_of loc rem) as)) a =
     (if a \<in> set as then (case loc a of None \<Rightarrow> {} | Some k \<Rightarrow> {int (length (cdDeltaHashes (rem a)))..k}) else {})"
  by (induction as) (auto simp: plan_drops_append plan_drops_one plan_drops_def [of "[]"])

lemma plan_drops_rest:
  assumes "obj_wf tips"
  shows "plan_drops (map (\<lambda>(a, k). \<lparr>exAddress = a, exRemoteTip = -1, exLocalTip = k\<rparr>)
      (filter (\<lambda>p. fst p \<notin> set as) tips)) a =
    (if a \<in> set as then {} else (case map_of tips a of None \<Rightarrow> {} | Some k \<Rightarrow> {0..k}))"
  using obj_wf_map_of [OF assms]
  by (force simp: plan_drops_def split: option.splits dest: map_of_SomeD)

lemma tips_nonneg:
  assumes "\<forall>t\<in>set localTips. 0 \<le> tipKey t" "map_of (tipsMap localTips) a = Some k"
  shows "0 \<le> k"
proof -
  have "map_of (rev (map (\<lambda>t. (tip_address t, tipKey t)) localTips)) a = Some k"
    using assms(2) by (simp add: tipsMap_def map_of_foldl_obj_set)
  then show ?thesis using assms(1) by (auto dest!: map_of_SomeD)
qed

lemma missing_of_address: "m \<in> set (missing_of loc rem a) \<Longrightarrow> miAddress m = a"
  by (auto simp: missing_of_def Let_def split: if_splits)

lemma distinct_missing:
  "distinct as \<Longrightarrow> distinct (map miAddress (concat (map (missing_of loc rem) as)))"
  by (induction as) (auto simp: missing_of_def Let_def split: if_splits)

lemma distinct_excess:
  "distinct as \<Longrightarrow> distinct (map exAddress (concat (map (excess_of loc rem) as)))"
  by (induction as) (auto simp: excess_of_def split: option.splits if_splits)

lemma distinct_plan_excess:
  assumes "distinct as" "obj_wf tips"
  shows "distinct (map exAddress (concat (map (excess_of loc rem) as) @
     map (\<lambda>(a, k). \<lparr>exAddress = a, exRemoteTip = -1, exLocalTip = k\<rparr>) (filter (\<lambda>p. fst p \<notin> set as) tips)))"
proof -
  let ?f = "\<lambda>(a, k). \<lparr>exAddress = a, exRemoteTip = -1, exLocalTip = k\<rparr>"
  let ?rest = "filter (\<lambda>p. fst p \<notin> set as) tips"
  have "exAddress \<circ> ?f = fst" by (auto simp: fun_eq_iff)
  then have rest: "map exAddress (map ?f ?rest) = map fst ?rest" by simp
  have known: "exAddress ` set (concat (map (excess_of loc rem) as)) \<subseteq> set as"
    by (auto simp: excess_of_def split: option.splits if_splits)
  have "distinct (map fst ?rest)" using assms(2) by (simp add: obj_wf_def distinct_map_filter)
  moreover have "set (map exAddress (concat (map (excess_of loc rem) as))) \<inter> set (map fst ?rest) = {}"
    using known by fastforce
  ultimately show ?thesis
    unfolding map_append distinct_append rest using distinct_excess [OF assms(1)] by simp
qed

text \<open>The messages for one missing contract, when it has deltas.\<close>

lemma reqs_loop_eq:
  "distinct (map fst out @ map miAddress ms) \<Longrightarrow> \<forall>m\<in>set ms. miDeltas m \<noteq> [] \<Longrightarrow>
     reqs_loop out ms = Inr (out @ map (\<lambda>m. (miAddress m,
       \<lparr>deltasReq = batchStateRequest (parseStateReqMsgs m),
        bcodeReq = (if mdIndex (hd (miDeltas m)) = 0
          then Some (bCodeRequestMessage (JObj [(''contractAddress'', JStr (miAddress m))])) else None)\<rparr>)) ms)"
proof (induction ms arbitrary: out)
  case (Cons m ms)
  obtain d ds where "miDeltas m = d # ds" using Cons.prems(2) by (cases "miDeltas m") auto
  moreover have "miAddress m \<notin> set (map fst out)" using Cons.prems(1) by auto
  ultimately show ?case
    using Cons by (simp add: buildP2ReqPMsgsOneContract_def isBCodeRequest_def obj_set_append)
qed simp

lemma sorted_range: "sorted_list_of_set {a..<b} = [a..b - 1::int]"
  by (rule sorted_distinct_set_unique) auto

definition missing_indices :: "tip list \<Rightarrow> string list \<Rightarrow> (string \<Rightarrow> contract_data) \<Rightarrow> string \<Rightarrow> int list" where
  "missing_indices localTips as rem a = sorted_list_of_set (listed as rem a - held localTips a)"

lemma missing_indices_eq:
  assumes "\<forall>t\<in>set localTips. 0 \<le> tipKey t" "a \<in> set as"
  shows "missing_indices localTips as rem a =
    [case map_of (tipsMap localTips) a of None \<Rightarrow> 0 | Some k \<Rightarrow> k + 1..int (length (cdDeltaHashes (rem a))) - 1]"
proof -
  have "listed as rem a - held localTips a =
      {case map_of (tipsMap localTips) a of None \<Rightarrow> 0 | Some k \<Rightarrow> k + 1..<int (length (cdDeltaHashes (rem a)))}"
    using tips_nonneg [OF assms(1), of a] assms(2)
    by (cases "map_of (tipsMap localTips) a") (auto simp: listed_def held_def)
  then show ?thesis by (simp add: missing_indices_def sorted_range)
qed

text \<open>One entry of the plan, with the messages that are made for it.\<close>

definition entry_exact :: "tip list \<Rightarrow> string list \<Rightarrow> (string \<Rightarrow> contract_data) \<Rightarrow> missing \<Rightarrow> bool" where
  "entry_exact localTips as rem m \<longleftrightarrow>
     map mdIndex (miDeltas m) = missing_indices localTips as rem (miAddress m) \<and>
     list_all (\<lambda>d. mdHash d = JStr (cdDeltaHashes (rem (miAddress m)) ! nat (mdIndex d))) (miDeltas m) \<and>
     miBytecodeHash m =
       (if held localTips (miAddress m) = {} then Some (cdCodeHash (rem (miAddress m))) else None)"

definition request_exact :: "tip list \<Rightarrow> string list \<Rightarrow> (string \<Rightarrow> contract_data) \<Rightarrow> string \<Rightarrow> p2p_reqs \<Rightarrow> bool" where
  "request_exact localTips as rem a r \<longleftrightarrow>
     concat (map (\<lambda>m. req_indices (syncRaw m)) (deltasReq r)) = missing_indices localTips as rem a \<and>
     list_all (\<lambda>m. sync_contractAddress m = JStr a) (deltasReq r) \<and>
     bcodeReq r =
       (if held localTips a = {} then Some (bCodeRequestMessage (JObj [(''contractAddress'', JStr a)])) else None)"

lemma missing_of_entry:
  assumes "\<forall>t\<in>set localTips. 0 \<le> tipKey t" "a \<in> set as"
    and "m \<in> set (missing_of (map_of (tipsMap localTips)) rem a)"
  shows "entry_exact localTips as rem m" "miDeltas m \<noteq> []" "consecutive (miDeltas m)"
    "missing_indices localTips as rem a \<noteq> []"
    "mdIndex (hd (miDeltas m)) = 0 \<longleftrightarrow> held localTips a = {}"
proof -
  let ?loc = "map_of (tipsMap localTips)"
  let ?ds = "missingDeltas_from (case ?loc a of None \<Rightarrow> 0 | Some k \<Rightarrow> k + 1) (cdDeltaHashes (rem a))"
  have m: "miAddress m = a" "miDeltas m = ?ds" "?ds \<noteq> []"
    "miBytecodeHash m = (if ?loc a = None then Some (cdCodeHash (rem a)) else None)"
    using assms(3) by (auto simp: missing_of_def Let_def split: if_splits)
  have unknown: "held localTips a = {} \<longleftrightarrow> ?loc a = None"
    using tips_nonneg [OF assms(1), of a] by (auto simp: held_def split: option.splits)
  have idx: "map mdIndex ?ds = missing_indices localTips as rem a"
    unfolding missing_indices_eq [OF assms(1,2)] by (simp add: missingDeltas_from_def comp_def)
  have "list_all (\<lambda>d. mdHash d = JStr (cdDeltaHashes (rem a) ! nat (mdIndex d))) ?ds"
    using tips_nonneg [OF assms(1), of a]
    by (cases "?loc a") (auto simp: list_all_iff missingDeltas_from_def hash_at_def)
  then show "entry_exact localTips as rem m" using m idx unknown by (simp add: entry_exact_def)
  show "miDeltas m \<noteq> []" "consecutive (miDeltas m)" using m by (simp_all add: consecutive_missing)
  show "missing_indices localTips as rem a \<noteq> []" using m(3) idx by auto
  have "mdIndex (hd ?ds) = hd (map mdIndex ?ds)" using m(3) by (simp add: hd_map)
  also have "\<dots> = (case ?loc a of None \<Rightarrow> 0 | Some k \<Rightarrow> k + 1)"
    using m(3) by (auto simp: missingDeltas_from_def upto.simps)
  finally show "mdIndex (hd (miDeltas m)) = 0 \<longleftrightarrow> held localTips a = {}"
    using m(2) unknown tips_nonneg [OF assms(1), of a] by (auto split: option.splits)
qed

lemma request_of_entry:
  assumes "\<forall>t\<in>set localTips. 0 \<le> tipKey t" "a \<in> set as"
    and "m \<in> set (missing_of (map_of (tipsMap localTips)) rem a)"
  shows "request_exact localTips as rem a
     \<lparr>deltasReq = batchStateRequest (parseStateReqMsgs m),
      bcodeReq = (if mdIndex (hd (miDeltas m)) = 0
        then Some (bCodeRequestMessage (JObj [(''contractAddress'', JStr (miAddress m))])) else None)\<rparr>"
proof -
  note e = missing_of_entry [OF assms]
  have addr: "miAddress m = a" using missing_of_address [OF assms(3)] .
  have raw: "req_indices (set_msgType t r) = req_indices r \<and> fld (set_msgType t r) ''contractAddress'' = fld r ''contractAddress''"
    if "r \<in> set (parseStateReqMsgs m)" for t r
    using that by (auto simp: parseStateReqMsgs_chunks range_req_def req_indices_def set_msgType_def obj_get_def)
  have "map (\<lambda>m. req_indices (syncRaw m)) (batchStateRequest (parseStateReqMsgs m)) = map req_indices (parseStateReqMsgs m)"
    using raw by (simp add: batchStateRequest_def)
  moreover have "list_all (\<lambda>m. sync_contractAddress m = JStr a) (batchStateRequest (parseStateReqMsgs m))"
    using raw addr by (auto simp: list_all_iff batchStateRequest_def parseStateReqMsgs_chunks range_req_def obj_get_def)
  ultimately show ?thesis
    using req_indices_cover [OF e(3)] e(1,5) addr by (simp add: request_exact_def entry_exact_def)
qed

text \<open>What the comparison finds, as sets.\<close>

definition excess_found :: "(string \<Rightarrow> contract_data) \<Rightarrow> string list \<Rightarrow> (string \<times> int) list \<Rightarrow> excess list" where
  "excess_found rem as tips = concat (map (excess_of (map_of tips) rem) as) @
     map (\<lambda>(a, k). \<lparr>exAddress = a, exRemoteTip = -1, exLocalTip = k\<rparr>) (filter (\<lambda>p. fst p \<notin> set as) tips)"

lemma plan_sets:
  fixes localTips :: "tip list"
  defines "tips \<equiv> tipsMap localTips"
  assumes "\<forall>t\<in>set localTips. 0 \<le> tipKey t" "ms = concat (map (missing_of (map_of tips) rem) as)"
  shows "held localTips a \<union> plan_adds ms a - plan_drops (excess_found rem as tips) a = listed as rem a \<and>
    held localTips a \<inter> plan_adds ms a = {} \<and> plan_adds ms a \<inter> plan_drops (excess_found rem as tips) a = {} \<and>
    plan_drops (excess_found rem as tips) a \<subseteq> held localTips a"
  unfolding assms(3) excess_found_def plan_drops_append tips_def plan_drops_rest [OF tipsMap_wf] plan_adds_concat
    plan_drops_concat
  using tips_nonneg [OF assms(2), of a] by (cases "map_of (tipsMap localTips) a") (auto simp: held_def listed_def)

text \<open>The messages that are made for the missing contracts.\<close>

lemma requests_made:
  assumes "\<forall>t\<in>set localTips. 0 \<le> tipKey t" "distinct as"
    and "ms = concat (map (missing_of (map_of (tipsMap localTips)) rem) as)"
  shows "\<exists>reqs. createP2PReqMsgsMap ms = Inr reqs \<and>
    (\<forall>a. case map_of reqs a of
           None \<Rightarrow> missing_indices localTips as rem a = []
         | Some r \<Rightarrow> missing_indices localTips as rem a \<noteq> [] \<and> request_exact localTips as rem a r)"
proof -
  let ?loc = "map_of (tipsMap localTips)"
  define reqs where "reqs = map (\<lambda>m. (miAddress m, \<lparr>deltasReq = batchStateRequest (parseStateReqMsgs m),
      bcodeReq = (if mdIndex (hd (miDeltas m)) = 0
        then Some (bCodeRequestMessage (JObj [(''contractAddress'', JStr (miAddress m))])) else None)\<rparr>)) ms"
  have src: "miAddress m \<in> set as \<and> m \<in> set (missing_of ?loc rem (miAddress m))" if "m \<in> set ms" for m
    using that missing_of_address by (auto simp: assms(3))
  note entry = missing_of_entry [OF assms(1)] request_of_entry [OF assms(1)]
  have full: "\<forall>m\<in>set ms. miDeltas m \<noteq> []" using src entry(2) by blast
  have made: "createP2PReqMsgsMap ms = Inr reqs"
    unfolding createP2PReqMsgsMap_def reqs_def
    using distinct_missing [OF assms(2)] full by (subst reqs_loop_eq) (simp_all add: assms(3))
  have "case map_of reqs a of None \<Rightarrow> missing_indices localTips as rem a = []
      | Some r \<Rightarrow> missing_indices localTips as rem a \<noteq> [] \<and> request_exact localTips as rem a r" for a
  proof (cases "map_of reqs a")
    case None
    then have "a \<notin> miAddress ` set ms" by (auto simp: reqs_def map_of_eq_None_iff image_iff)
    then have "plan_adds ms a = {}" by (auto simp: plan_adds_def)
    then have "listed as rem a - held localTips a = {}"
      using plan_sets [OF assms(1), of ms rem as a] assms(3) by auto
    then show ?thesis using None by (simp only: missing_indices_def sorted_list_of_set_empty option.case)
  next
    case (Some r)
    then obtain m where m: "m \<in> set ms" "a = miAddress m" "(a, r) = (miAddress m,
        \<lparr>deltasReq = batchStateRequest (parseStateReqMsgs m),
         bcodeReq = (if mdIndex (hd (miDeltas m)) = 0
           then Some (bCodeRequestMessage (JObj [(''contractAddress'', JStr (miAddress m))])) else None)\<rparr>)"
      by (auto simp: reqs_def dest!: map_of_SomeD)
    then have "a \<in> set as" "m \<in> set (missing_of ?loc rem a)" using src [OF m(1)] by simp_all
    from entry(4) [OF this] entry(6) [OF this] show ?thesis using Some m(2,3) by simp
  qed
  with made show ?thesis by blast
qed

text \<open>
  C10: the synchronisation plan and its requests are exact. When the contract reader answers, adding
  the missing deltas that the comparison reports and dropping the excess ones turns, for every
  address, the deltas the node holds into those Ethereum lists; nothing held is fetched again and
  nothing fetched is dropped. No contract occurs twice among the missing ones or the excess ones;
  a missing one has the missing indices in ascending order, each once, with the hashes Ethereum
  lists there, and the hash of the bytecode exactly if the node does not know it. Requests are made
  exactly for the contracts of which a delta is missing: for each missing index one, in order, and
  for the bytecode exactly if the node does not know the contract.
\<close>

theorem sync_plan_exact:
  assumes "addresses = Inr as" "distinct as"
    and "\<forall>a\<in>set as. getContractParams a = Inr (rem a)"
    and "\<forall>t\<in>set localTips. 0 \<le> tipKey t"
  shows "\<exists>ms es reqs. compareLocalStateToRemote addresses getContractParams localTips = Inr (ms, es) \<and>
    createP2PReqMsgsMap ms = Inr reqs \<and>
    (\<forall>a. held localTips a \<union> plan_adds ms a - plan_drops es a = listed as rem a \<and>
         held localTips a \<inter> plan_adds ms a = {} \<and> plan_adds ms a \<inter> plan_drops es a = {} \<and>
         plan_drops es a \<subseteq> held localTips a) \<and>
    distinct (map miAddress ms) \<and> distinct (map exAddress es) \<and>
    list_all (entry_exact localTips as rem) ms \<and>
    (\<forall>a. case map_of reqs a of
           None \<Rightarrow> missing_indices localTips as rem a = []
         | Some r \<Rightarrow> missing_indices localTips as rem a \<noteq> [] \<and> request_exact localTips as rem a r)"
proof -
  let ?tips = "tipsMap localTips"
  define ms where "ms = concat (map (missing_of (map_of ?tips) rem) as)"
  have run: "compareLocalStateToRemote addresses getContractParams localTips = Inr (ms, excess_found rem as ?tips)"
    using compareLocalStateToRemote_eq [OF assms(1-3), of localTips] by (simp add: ms_def excess_found_def)
  have dist: "distinct (map miAddress ms)" "distinct (map exAddress (excess_found rem as ?tips))"
    unfolding ms_def excess_found_def
    by (rule distinct_missing distinct_plan_excess [OF _ tipsMap_wf], rule assms(2))+
  have "list_all (entry_exact localTips as rem) ms"
    using missing_of_entry(1) [OF assms(4)] missing_of_address unfolding list_all_iff ms_def by fastforce
  then show ?thesis
    using run dist plan_sets [OF assms(4) ms_def] requests_made [OF assms(4,2) ms_def] by blast
qed

definition ex_reader :: "string \<Rightarrow> contract_data js" where
  "ex_reader a = Inr \<lparr>cdCodeHash = ''c'' @ a, cdDeltaHashes = [''h0'', ''h1'', ''h2'']\<rparr>"

definition ex_tips :: "tip list" where
  "ex_tips = [\<lparr>tipAddress = AddrStr ''A'', tipKey = 0\<rparr>, \<lparr>tipAddress = AddrBytes [171], tipKey = 1\<rparr>]"

theorem sync_plan_exact_witness:
  "\<exists>ms es reqs. compareLocalStateToRemote (Inr [''A'', ''B'']) ex_reader ex_tips = Inr (ms, es) \<and>
    createP2PReqMsgsMap ms = Inr reqs \<and> distinct (map miAddress ms) \<and>
    held ex_tips ''A'' \<union> plan_adds ms ''A'' - plan_drops es ''A'' = {0..<3}"
  using sync_plan_exact [of "Inr [''A'', ''B'']" "[''A'', ''B'']" ex_reader
      "\<lambda>a. \<lparr>cdCodeHash = ''c'' @ a, cdDeltaHashes = [''h0'', ''h1'', ''h2'']\<rparr>" ex_tips]
  by (fastforce simp: ex_reader_def ex_tips_def listed_def)

text \<open>
  The requests cover the missing deltas. For every missing contract that the comparison
  reports, the requests for its deltas ask for exactly its missing indices, in order, each
  once, with at least one and at most ten indices per request.
\<close>

lemma requests_cover_missing:
  assumes "compareLocalStateToRemote (Inr as) getContractParams localTips = Inr (ms, es)"
    and "distinct as" "\<forall>a\<in>set as. getContractParams a = Inr (rem a)" "m \<in> set ms"
  shows "concat (map req_indices (parseStateReqMsgs m)) = map mdIndex (miDeltas m) \<and>
    (\<forall>r\<in>set (parseStateReqMsgs m). req_indices r \<noteq> [] \<and> length (req_indices r) \<le> 10)"
proof -
  have "ms = concat (map (missing_of (map_of (tipsMap localTips)) rem) as)"
    using compareLocalStateToRemote_eq [OF refl assms(2,3), of localTips] assms(1) by simp
  then have "consecutive (miDeltas m)"
    using assms(4) by (auto simp: missing_of_def Let_def consecutive_missing split: if_splits)
  then show ?thesis
    using req_indices_cover req_indices_bound by (force simp: RANGE_LIMIT_def)
qed

end
