(* ===== verification/Eng_Cid.thy ===== *)
theory Eng_Cid
  imports P2p_Messages
begin

text \<open>
  \<open>src/src/common/EngCID.js\<close> and \<open>EncoderUtil.js\<close>: content identifiers of secret contracts
  and the msgpack encoding of what goes over the network. The packages \<open>cids\<close>,
  \<open>multihashes\<close> and \<open>web3\<close> are a parameter.
\<close>

section \<open>The encoder\<close>

definition encoder_encode :: "codec \<Rightarrow> json \<Rightarrow> int list option" where
  "encoder_encode c v = mpEncode c v"

definition encodeToNetwork :: "codec \<Rightarrow> json \<Rightarrow> int list option" where
  "encodeToNetwork c v =
     (case encoder_encode c v of Some b \<Rightarrow> Some b | None \<Rightarrow> None)"

definition decodeFromNetwork :: "codec \<Rightarrow> int list \<Rightarrow> json" where
  "decodeFromNetwork c bs = encoder_decode c (map (take_bit 8) bs)"

text \<open>
  \<open>hexToAscii\<close>: white space is removed, each pair of characters is read by
  \<open>parseInt(pair, 16)\<close>, and codes that are zero or not a number are skipped. \<open>parseInt\<close>
  reads the longest prefix of digits.
\<close>

definition parse_pair :: "string \<Rightarrow> nat option" where
  "parse_pair p =
     (case map hex_val p of
        [Some a, Some b] \<Rightarrow> Some (16 * a + b)
      | Some a # _ \<Rightarrow> Some a
      | _ \<Rightarrow> None)"

fun ascii_pairs :: "string \<Rightarrow> string" where
  "ascii_pairs [] = []"
| "ascii_pairs [a] =
     (case parse_pair [a] of Some n \<Rightarrow> if n = 0 then [] else [char_of n] | None \<Rightarrow> [])"
| "ascii_pairs (a # b # cs) =
     (case parse_pair [a, b] of Some n \<Rightarrow> if n = 0 then [] else [char_of n] | None \<Rightarrow> []) @ ascii_pairs cs"

definition is_space :: "char \<Rightarrow> bool" where
  "is_space c \<longleftrightarrow> of_char c \<in> {9, 10, 11, 12, 13, 32, 160 :: nat}"

definition hexToAscii :: "json \<Rightarrow> string" where
  "hexToAscii hex =
     (case hex of
        JNum n \<Rightarrow> ascii_pairs (int_str n)
      | JStr s \<Rightarrow> ascii_pairs (filter (\<lambda>c. \<not> is_space c) s)
      | _ \<Rightarrow> [])"

section \<open>Content identifiers\<close>

record 'c cid_lib =
  mkCid :: "int list \<Rightarrow> 'c option"
  cidHex :: "'c \<Rightarrow> string option"
  cidB58 :: "'c \<Rightarrow> string"
  cidFromB58 :: "json \<Rightarrow> 'c option"
  cidEquals :: "'c \<Rightarrow> 'c \<Rightarrow> bool"
  sha3 :: "json \<Rightarrow> json"

text \<open>What the packages document: the base-58 form determines the identifier.\<close>

definition cid_lib_ok :: "'c cid_lib \<Rightarrow> bool" where
  "cid_lib_ok L \<longleftrightarrow> (\<forall>c. cidFromB58 L (JStr (cidB58 L c)) = Some c) \<and>
     (\<forall>c d. cidEquals L c d \<longleftrightarrow> c = d)"

record 'c engcid =
  ecCid :: 'c
  ecAddress :: json

definition createFromKeccack256 :: "'c cid_lib \<Rightarrow> json \<Rightarrow> 'c engcid option" where
  "createFromKeccack256 L h =
     (case createCID (mkCid L) h of
        Some cid \<Rightarrow> Some \<lparr>ecCid = cid, ecAddress = JNull\<rparr>
      | None \<Rightarrow> None)"

definition createFromByteArray :: "'c cid_lib \<Rightarrow> json \<Rightarrow> 'c engcid option" where
  "createFromByteArray L bytes = createFromKeccack256 L (sha3 L bytes)"

definition createFromSCAddress :: "'c cid_lib \<Rightarrow> json \<Rightarrow> 'c engcid option" where
  "createFromSCAddress L scAddr =
     (case createCID (mkCid L) scAddr of
        Some cid \<Rightarrow> Some \<lparr>ecCid = cid, ecAddress = scAddr\<rparr>
      | None \<Rightarrow> None)"

definition createFromNetwork :: "'c cid_lib \<Rightarrow> codec \<Rightarrow> int list \<Rightarrow> 'c engcid option" where
  "createFromNetwork L c bs =
     (case cidFromB58 L (decodeFromNetwork c bs) of
        Some cid \<Rightarrow> Some \<lparr>ecCid = cid, ecAddress = JNull\<rparr>
      | None \<Rightarrow> None)"

text \<open>\<open>getKeccack256\<close>; without a hash the answer is \<open>null\<close>, which \<open>"0x" +\<close> turns into text.\<close>

definition getKeccack256 :: "'c cid_lib \<Rightarrow> bool \<Rightarrow> 'c engcid \<Rightarrow> json" where
  "getKeccack256 L with0x e =
     (let h = (case cidHex L (ecCid e) of Some s \<Rightarrow> JStr s | None \<Rightarrow> JNull) in
      if with0x then JStr (''0x'' @ js_key h) else h)"

definition toB58String :: "'c cid_lib \<Rightarrow> 'c engcid \<Rightarrow> string" where
  "toB58String L e = cidB58 L (ecCid e)"

definition equalCID :: "'c cid_lib \<Rightarrow> 'c engcid \<Rightarrow> 'c \<Rightarrow> bool" where
  "equalCID L e cid = cidEquals L (ecCid e) cid"

definition equalKeccack256 :: "'c cid_lib \<Rightarrow> 'c engcid \<Rightarrow> json \<Rightarrow> bool" where
  "equalKeccack256 L e h =
     (case createCID (mkCid L) h of Some cid \<Rightarrow> equalCID L e cid | None \<Rightarrow> False)"

definition equalEngCID :: "'c cid_lib \<Rightarrow> 'c engcid \<Rightarrow> 'c engcid \<Rightarrow> bool" where
  "equalEngCID L e e' = equalCID L e (ecCid e')"

definition cid_encodeToNetwork :: "'c cid_lib \<Rightarrow> codec \<Rightarrow> 'c engcid \<Rightarrow> int list option" where
  "cid_encodeToNetwork L c e = encodeToNetwork c (JStr (toB58String L e))"

section \<open>Properties\<close>

text \<open>The bytes that the encoder produces are bytes.\<close>

definition codec_bytes :: "codec \<Rightarrow> bool" where
  "codec_bytes c \<longleftrightarrow> (\<forall>v bs. mpEncode c v = Some bs \<longrightarrow> bytes_ok bs)"

lemma map_take_bit_bytes: "bytes_ok bs \<Longrightarrow> map (take_bit 8) bs = bs"
  unfolding bytes_ok_def by (induction bs) (auto simp: take_bit_int_eq_self)

lemma network_roundtrip:
  assumes "codec_ok c" "codec_bytes c" "json_normal v"
  shows "\<exists>bs. encodeToNetwork c v = Some bs \<and> decodeFromNetwork c bs = v"
proof -
  obtain bs where "mpEncode c v = Some bs" "mpDecode c bs = Some v"
    using assms(1,3) by (auto simp: codec_ok_def)
  then show ?thesis using assms(2)
    by (auto simp: encodeToNetwork_def encoder_encode_def decodeFromNetwork_def encoder_decode_def
        codec_bytes_def map_take_bit_bytes)
qed

text \<open>
  A content identifier sent over the network is received as an equal one, and an address
  gives the same identifier with and without its \<open>0x\<close>.
\<close>

lemma engcid_network:
  assumes "cid_lib_ok L" "codec_ok c" "codec_bytes c" "createFromSCAddress L (JStr a) = Some e"
  shows "(\<exists>bs e'. cid_encodeToNetwork L c e = Some bs \<and> createFromNetwork L c bs = Some e' \<and>
      equalEngCID L e e') \<and> equalKeccack256 L e (JStr a) \<and>
    (length a = 64 \<longrightarrow> equalKeccack256 L e (JStr (''0x'' @ a)))"
proof -
  have normal: "json_normal (JStr (toB58String L e))" by simp
  obtain bs where "cid_encodeToNetwork L c e = Some bs" "decodeFromNetwork c bs = JStr (toB58String L e)"
    using network_roundtrip [OF assms(2,3) normal] by (auto simp: cid_encodeToNetwork_def)
  moreover have "createFromNetwork L c bs = Some \<lparr>ecCid = ecCid e, ecAddress = JNull\<rparr>"
    using calculation(2) assms(1) by (simp add: createFromNetwork_def toB58String_def cid_lib_ok_def)
  moreover have "createCID (mkCid L) (JStr a) = Some (ecCid e)"
    using assms(4) by (auto simp: createFromSCAddress_def split: option.splits)
  ultimately show ?thesis using assms(1) createCID_0x [of a "mkCid L"]
    by (simp add: equalEngCID_def equalCID_def equalKeccack256_def cid_lib_ok_def)
qed

text \<open>A codec and a library of identifiers for which the laws hold.\<close>

definition ex_codec :: codec where
  "ex_codec = \<lparr>mpEncode = (\<lambda>v. Some (map of_char (JSON_stringify v))),
     mpDecode = (\<lambda>bs. case JSON_parse (map char_of bs) of Inr v \<Rightarrow> Some v | Inl _ \<Rightarrow> None)\<rparr>"

lemma ex_codec_ok: "codec_ok ex_codec"
proof -
  have "map (char_of \<circ> (of_char :: char \<Rightarrow> int)) s = s" for s
    by (induction s) simp_all
  then show ?thesis
    by (auto simp: codec_ok_def ex_codec_def JSON_parse_stringify json_normal_wf json_norm_normal)
qed

lemma ex_codec_bytes: "codec_bytes ex_codec"
proof -
  have "0 \<le> (of_char ch :: int) \<and> (of_char ch :: int) < 256" for ch
    using nat_of_char_less_256 [of ch] by (metis of_char_def of_nat_0_le_iff of_nat_less_iff of_nat_numeral of_nat_of_char)
  then show ?thesis by (auto simp: codec_bytes_def ex_codec_def bytes_ok_def)
qed

definition ex_cid_lib :: "string cid_lib" where
  "ex_cid_lib = \<lparr>mkCid = (\<lambda>bs. Some (toHexString bs)), cidHex = Some, cidB58 = (\<lambda>s. s),
     cidFromB58 = (\<lambda>v. case v of JStr s \<Rightarrow> Some s | _ \<Rightarrow> None), cidEquals = (=), sha3 = (\<lambda>v. v)\<rparr>"

lemma ex_cid_lib_ok: "cid_lib_ok ex_cid_lib"
  by (simp add: cid_lib_ok_def ex_cid_lib_def)

end
