(* ===== verification/Sync_Verify.thy ===== *)
theory Sync_Verify
  imports State_Compare Eng_Cid
begin

text \<open>
  Receiving state from peers and providing it to them: \<open>StateSyncReqVerifier.js\<close>,
  \<open>FindProviderResult.js\<close>, \<open>Receiver.js\<close> and \<open>Provider.js\<close> under
  \<open>src/src/worker/state_sync\<close>. A pull stream is the list of its items with the way it
  finishes; a stage is a function on streams. The network, the node's database actions and
  Keccak are parameters.
\<close>

section \<open>Verifying a response against the missing states\<close>

text \<open>
  The properties that every object inherits: the operator \<open>in\<close> finds them in the map of
  missing states, whose keys come from the peer here.
\<close>

definition proto_names :: "string list" where
  "proto_names = [''constructor'', ''__defineGetter__'', ''__defineSetter__'', ''hasOwnProperty'',
     ''__lookupGetter__'', ''__lookupSetter__'', ''isPrototypeOf'', ''propertyIsEnumerable'',
     ''toString'', ''valueOf'', ''__proto__'', ''toLocaleString'']"

text \<open>
  \<open>==\<close> between a string, \<open>undefined\<close> or \<open>null\<close> on one side and a hash or \<open>null\<close> on the
  other.
\<close>

definition nullish :: "json \<Rightarrow> bool" where
  "nullish v \<longleftrightarrow> v = JUndef \<or> v = JNull"

definition loose_eq :: "json \<Rightarrow> json \<Rightarrow> bool" where
  "loose_eq a b \<longleftrightarrow> (nullish a \<and> nullish b) \<or> a = b"

text \<open>
  What \<open>for (let i = 0; i < deltas.length; i++) deltas[i]\<close> visits: nothing for a value whose
  \<open>length\<close> is no number.
\<close>

definition indexed :: "json \<Rightarrow> json list js" where
  "indexed v =
     (case v of
        JUndef \<Rightarrow> Inl JsTypeError
      | JNull \<Rightarrow> Inl JsTypeError
      | JArr xs \<Rightarrow> Inr xs
      | JStr s \<Rightarrow> Inr (map (\<lambda>c. JStr [c]) s)
      | JObj fs \<Rightarrow> (case obj_get fs ''length'' of
            JNum n \<Rightarrow> Inr (map (\<lambda>i. obj_get fs (int_str i)) [0..n - 1])
          | _ \<Rightarrow> Inr [])
      | _ \<Rightarrow> Inr [])"

type_synonym missing_map = "(string \<times> remote_missing) list"

text \<open>The body of the loop over the deltas of a response: \<open>None\<close> to go on, or the error.\<close>

definition verify_delta :: "(int list \<Rightarrow> json) \<Rightarrow> missing_map \<Rightarrow> json \<Rightarrow> string option js" where
  "verify_delta keccak states d =
     bindE (get_prop d ''address'') (\<lambda>address.
     let a = js_key address; k = js_key (fld d ''key'') in
     case map_of states a of
       None \<Rightarrow> if a \<in> set proto_names then Inl JsTypeError
               else Inr (Some ''received an unknown address'')
     | Some e \<Rightarrow>
         (case map_of (rmDeltas e) k of
            None \<Rightarrow>
              if k \<in> set proto_names
              then bindE (crypto_hash keccak (fld d ''data'') True) (\<lambda>h.
                   Inr (Some ''delta received does not match remote hash''))
              else Inr (Some ''received an unknown index'')
          | Some h \<Rightarrow>
              bindE (crypto_hash keccak (fld d ''data'') True) (\<lambda>h'.
              Inr (if \<not> loose_eq h h' then Some ''delta received does not match remote hash'' else None))))"

fun verify_deltas :: "(int list \<Rightarrow> json) \<Rightarrow> missing_map \<Rightarrow> json list \<Rightarrow> string option js" where
  "verify_deltas keccak states [] = Inr None"
| "verify_deltas keccak states (d # ds) =
     bindE (verify_delta keccak states d) (\<lambda>r.
     case r of Some err \<Rightarrow> Inr (Some err) | None \<Rightarrow> verify_deltas keccak states ds)"

definition verify_bcode :: "(int list \<Rightarrow> json) \<Rightarrow> missing_map \<Rightarrow> json \<Rightarrow> json \<Rightarrow> string option js" where
  "verify_bcode keccak states address bytecode =
     bindE (crypto_hash keccak bytecode True) (\<lambda>bytecodeHash.
     Inr (case map_of states (js_key address) of
            None \<Rightarrow> if js_key address \<in> set proto_names
                    then Some ''received a bytecodeHash for unknown address''
                    else Some ''received an unknown address''
          | Some e \<Rightarrow>
              (case rmBytecodeHash e of
                 None \<Rightarrow> Some ''received a bytecodeHash for unknown address''
               | Some h \<Rightarrow> if \<not> loose_eq (JStr h) bytecodeHash
                           then Some ''bytecodeHash received does not match remote hash'' else None)))"

text \<open>
  \<open>StateSyncReqVerifier.verify\<close>: the error of a refused message, \<open>None\<close> for an accepted one.
  The receiver has no map before the first synchronisation, and \<open>in null\<close> throws.
\<close>

definition verify :: "(int list \<Rightarrow> json) \<Rightarrow> missing_map option \<Rightarrow> sync_msg \<Rightarrow> string option js" where
  "verify keccak remoteMissingStates m =
     (if sync_type m = SYNC_STATE_RES then
        bindE (sync_deltas m) (\<lambda>v.
        bindE (indexed v) (\<lambda>deltas.
        case remoteMissingStates of
          Some states \<Rightarrow> verify_deltas keccak states deltas
        | None \<Rightarrow> (case deltas of [] \<Rightarrow> Inr None | _ \<Rightarrow> Inl JsTypeError)))
      else if sync_type m = SYNC_BCODE_RES then
        bindE (sync_address m) (\<lambda>address.
        bindE (sync_bytecode m) (\<lambda>bytecode.
        case remoteMissingStates of
          Some states \<Rightarrow> verify_bcode keccak states address bytecode
        | None \<Rightarrow> Inl JsTypeError))
      else Inr (Some ''received an unknown msgType''))"

section \<open>The result of the search for providers\<close>

record ('c, 'p) find_result =
  frMap :: "(string \<times> ('p list \<times> 'c engcid)) list"
  frErrored :: "(string \<times> ('c engcid \<times> js_error)) list"
  frComplete :: bool

definition FindProviderResult :: "('c, 'p) find_result" where
  "FindProviderResult = \<lparr>frMap = [], frErrored = [], frComplete = False\<rparr>"

definition cid_key :: "'c cid_lib \<Rightarrow> 'c engcid \<Rightarrow> string" where
  "cid_key L e = js_key (getKeccack256 L False e)"

definition setCompleteError :: "('c, 'p) find_result \<Rightarrow> ('c, 'p) find_result" where
  "setCompleteError r = r\<lparr>frComplete := True\<rparr>"

definition addProviderResult :: "'c cid_lib \<Rightarrow> 'c engcid \<Rightarrow> 'p list \<Rightarrow> ('c, 'p) find_result \<Rightarrow> ('c, 'p) find_result" where
  "addProviderResult L e ps r = r\<lparr>frMap := obj_set (frMap r) (cid_key L e) (ps, e)\<rparr>"

definition addErroredProviderResult :: "'c cid_lib \<Rightarrow> 'c engcid \<Rightarrow> js_error \<Rightarrow> ('c, 'p) find_result \<Rightarrow> ('c, 'p) find_result" where
  "addErroredProviderResult L e err r = r\<lparr>frErrored := obj_set (frErrored r) (cid_key L e) (e, err)\<rparr>"

definition isErrors :: "('c, 'p) find_result \<Rightarrow> bool" where
  "isErrors r \<longleftrightarrow> length (obj_keys (frErrored r)) > 0"

definition getProvidersFor :: "'c cid_lib \<Rightarrow> 'c engcid \<Rightarrow> ('c, 'p) find_result \<Rightarrow> 'p list option" where
  "getProvidersFor L e r = map_option fst (map_of (frMap r) (cid_key L e))"

definition getKeysList :: "('c, 'p) find_result \<Rightarrow> string list" where
  "getKeysList r = obj_keys (frMap r)"

text \<open>
  \<open>_findProvider\<close>: the routing package answers with an error or with providers;
  \<open>providers.filter\<close> throws without providers, its result is dropped, and the callback gets
  the answer as it came.
\<close>

type_synonym 'p routing_answer = "js_error option \<times> 'p list option"

definition findProvider :: "'p routing_answer \<Rightarrow> 'p routing_answer cb list" where
  "findProvider ans =
     (case snd ans of None \<Rightarrow> [Uncaught JsTypeError] | Some _ \<Rightarrow> [Call (Inr ans)])"

text \<open>
  \<open>async/parallel\<close> over jobs that pass no error: when every job has called back, the results
  in the order of the jobs; otherwise the final callback is not reached.
\<close>

fun parallel_ok :: "'a cb list list \<Rightarrow> 'a list option" where
  "parallel_ok [] = Some []"
| "parallel_ok (j # js) =
     (case j of Call (Inr a) # _ \<Rightarrow> map_option ((#) a) (parallel_ok js) | _ \<Rightarrow> None)"

definition add_find :: "'c cid_lib \<Rightarrow> ('c, 'p) find_result \<Rightarrow> 'c engcid \<times> 'p routing_answer \<Rightarrow> ('c, 'p) find_result" where
  "add_find L r x =
     (case x of
        (e, Some err, ps) \<Rightarrow> addErroredProviderResult L e err r
      | (e, None, ps) \<Rightarrow> addProviderResult L e (case ps of Some l \<Rightarrow> l | None \<Rightarrow> []) r)"

text \<open>
  \<open>findProvidersBatch\<close> on identifiers (\<open>withEngCid\<close>); \<open>routing\<close> is the answer of the content
  routing for each. \<open>None\<close> when the callback is never invoked.
\<close>

definition findProvidersBatch ::
    "'c cid_lib \<Rightarrow> ('c engcid \<Rightarrow> 'p routing_answer) \<Rightarrow> 'c engcid list \<Rightarrow> ('c, 'p) find_result option" where
  "findProvidersBatch L routing engCids =
     map_option (\<lambda>results. foldl (add_find L) FindProviderResult (zip engCids results))
       (parallel_ok (map (\<lambda>e. findProvider (routing e)) engCids))"

section \<open>The receiver\<close>

text \<open>How a pull stream finishes: at its end, with an error, or by an exception in a stage.\<close>

datatype finish = Ended | Errored js_error | Crashed js_error

type_synonym 'a strm = "'a list \<times> finish"

text \<open>
  What the receiver talks to, over a state \<open>'w\<close> of the world: a dialled peer answers an error
  or the stream of its responses to the requests; a write to the database answers an error
  or a status.
\<close>

record ('p, 'w) sync_net =
  startStateSyncRequest :: "'p option \<Rightarrow> int list option list \<Rightarrow> 'w \<Rightarrow> (int list strm) js \<times> 'w"
  netDbWrite :: "sync_msg \<Rightarrow> 'w \<Rightarrow> (js_error option \<times> json) \<times> 'w"

record receiver =
  remoteMissingStatesMap :: "missing_map option"

definition Receiver :: receiver where
  "Receiver = \<lparr>remoteMissingStatesMap = None\<rparr>"

definition setRemoteMissingStatesMap :: "missing_map \<Rightarrow> receiver \<Rightarrow> receiver" where
  "setRemoteMissingStatesMap m r = r\<lparr>remoteMissingStatesMap := Some m\<rparr>"

definition toNetworkSyncReqParser :: "codec \<Rightarrow> sync_msg list \<Rightarrow> int list option list" where
  "toNetworkSyncReqParser c msgs = map (sync_toNetwork c) msgs"

text \<open>\<open>_verificationStream\<close>: a message that is no response ends the stream, a refused one fails it.\<close>

fun verificationStream ::
    "codec \<Rightarrow> (int list \<Rightarrow> json) \<Rightarrow> receiver \<Rightarrow> int list list \<Rightarrow> finish \<Rightarrow> sync_msg strm" where
  "verificationStream c keccak r [] fin = ([], fin)"
| "verificationStream c keccak r (d # ds) fin =
     (case responseMessageFromNetwork c d of
        Inl e \<Rightarrow> ([], Crashed e)
      | Inr None \<Rightarrow> ([], Ended)
      | Inr (Some m) \<Rightarrow>
          (case verify keccak (remoteMissingStatesMap r) m of
             Inl e \<Rightarrow> ([], Crashed e)
           | Inr (Some err) \<Rightarrow> ([], Errored (ErrVal (JStr (''Error in verification with Ethereum: '' @ err))))
           | Inr None \<Rightarrow> (let (ms, f) = verificationStream c keccak r ds fin in (m # ms, f))))"

text \<open>
  \<open>_throughDbStream\<close>: each message is written before the next one is read; a failed write
  throws \<open>end\<close>, which is \<open>null\<close> while there is data.
\<close>

fun throughDbStream ::
    "('p, 'w) sync_net \<Rightarrow> sync_msg list \<Rightarrow> finish \<Rightarrow> 'w \<Rightarrow> (json \<times> sync_msg) strm \<times> 'w" where
  "throughDbStream N [] fin w = (([], fin), w)"
| "throughDbStream N (m # ms) fin w =
     (let ((err, status), w) = netDbWrite N m w in
      if \<not> truthy status \<or> err \<noteq> None then (([], Crashed (ErrVal JNull)), w)
      else let ((rs, f), w) = throughDbStream N ms fin w in (((status, m) # rs, f), w))"

record sync_status =
  ssIpcType :: json
  ssMsgType :: json
  ssSuccess :: json
  ssPayload :: sync_msg

definition sync_status_of :: "json \<times> sync_msg \<Rightarrow> sync_status" where
  "sync_status_of p = \<lparr>ssIpcType = fld (fst p) ''type'', ssMsgType = sync_type (snd p),
     ssSuccess = fld (fst p) ''success'', ssPayload = snd p\<rparr>"

text \<open>
  \<open>trySyncOneContractOneRequest\<close>: what its callback gets, an optional error and the list of
  results (\<open>undefined\<close> when the peer could not be dialled); \<open>None\<close> when an exception keeps
  the callback from being invoked.
\<close>

type_synonym attempt = "js_error option \<times> sync_status list option"

definition trySyncOneContractOneRequest ::
    "codec \<Rightarrow> (int list \<Rightarrow> json) \<Rightarrow> ('p, 'w) sync_net \<Rightarrow> receiver \<Rightarrow> 'p option \<Rightarrow> sync_msg list \<Rightarrow> 'w \<Rightarrow>
     attempt option \<times> 'w" where
  "trySyncOneContractOneRequest c keccak N r peerInfo msgs w =
     (case startStateSyncRequest N peerInfo (toNetworkSyncReqParser c msgs) w of
        (Inl err, w) \<Rightarrow> (Some (Some err, None), w)
      | (Inr (ds, fin), w) \<Rightarrow>
          (let (ms, f) = verificationStream c keccak r ds fin;
               ((rs, f), w) = throughDbStream N ms f w;
               resultList = map sync_status_of rs
           in (case f of
                 Ended \<Rightarrow> Some (None, Some resultList)
               | Errored e \<Rightarrow> Some (Some e, Some resultList)
               | Crashed e \<Rightarrow> None, w)))"

text \<open>
  \<open>trySyncReceive\<close>: the first provider, the ones in between until one attempt succeeds, and
  the last provider, whose error is reported. With a single provider the last is the first.
\<close>

type_synonym ('p, 'w) try_peer = "'p option \<Rightarrow> 'w \<Rightarrow> attempt option \<times> 'w"

fun sync_between ::
    "('p, 'w) try_peer \<Rightarrow> 'p list \<Rightarrow> bool \<times> sync_status list option \<Rightarrow> 'w \<Rightarrow>
     (bool \<times> sync_status list option) option \<times> 'w" where
  "sync_between try_peer [] acc w = (Some acc, w)"
| "sync_between try_peer (p # ps) acc w =
     (if fst acc then sync_between try_peer ps acc w
      else case try_peer (Some p) w of
             (None, w) \<Rightarrow> (None, w)
           | (Some (err, res), w) \<Rightarrow> sync_between try_peer ps (err = None, res) w)"

type_synonym receive_result = "js_error option \<times> bool \<times> sync_status list option"

definition sync_final ::
    "('p, 'w) try_peer \<Rightarrow> 'p option \<Rightarrow> bool \<times> sync_status list option \<Rightarrow> 'w \<Rightarrow> receive_result option \<times> 'w" where
  "sync_final try_peer p acc w =
     (if fst acc then (Some (None, True, snd acc), w)
      else case try_peer p w of
             (None, w) \<Rightarrow> (None, w)
           | (Some (Some err, res), w) \<Rightarrow> (Some (Some err, False, res), w)
           | (Some (None, res), w) \<Rightarrow> (Some (None, True, res), w))"

definition sync_jobs :: "('p, 'w) try_peer \<Rightarrow> 'p list \<Rightarrow> 'w \<Rightarrow> receive_result option \<times> 'w" where
  "sync_jobs try_peer providers w =
     (case try_peer (case providers of [] \<Rightarrow> None | p # _ \<Rightarrow> Some p) w of
        (None, w) \<Rightarrow> (None, w)
      | (Some (err, res), w) \<Rightarrow>
          (case sync_between try_peer (butlast (tl providers)) (err = None, res) w of
             (None, w) \<Rightarrow> (None, w)
           | (Some acc, w) \<Rightarrow>
               sync_final try_peer (if providers = [] then None else Some (last providers)) acc w))"

definition trySyncReceive ::
    "codec \<Rightarrow> (int list \<Rightarrow> json) \<Rightarrow> ('p, 'w) sync_net \<Rightarrow> receiver \<Rightarrow> 'p list \<Rightarrow> sync_msg list \<Rightarrow> 'w \<Rightarrow>
     receive_result option \<times> 'w" where
  "trySyncReceive c keccak N r providers msgs w =
     sync_jobs (\<lambda>p. trySyncOneContractOneRequest c keccak N r p msgs) providers w"

section \<open>The provider\<close>

text \<open>\<open>_requestParserStream\<close>: a message that is no request ends the stream.\<close>

fun requestParserStream :: "codec \<Rightarrow> int list list \<Rightarrow> finish \<Rightarrow> sync_msg strm" where
  "requestParserStream c [] fin = ([], fin)"
| "requestParserStream c (d # ds) fin =
     (case requestMessageFromNetwork c d of
        Inl e \<Rightarrow> ([], Crashed e)
      | Inr None \<Rightarrow> ([], Ended)
      | Inr (Some m) \<Rightarrow> (let (ms, f) = requestParserStream c ds fin in (m # ms, f)))"

abbreviation GetDeltas :: json where "GetDeltas \<equiv> JStr ''GetDeltas''"
abbreviation GetContract :: json where "GetContract \<equiv> JStr ''GetContract''"

text \<open>
  \<open>_fromDbStream\<close>: the database action for the type of the request; its error fails the
  stream. The parser lets no other type through.
\<close>

definition query_type :: "sync_msg \<Rightarrow> json option" where
  "query_type m =
     (if sync_type m = SYNC_BCODE_REQ then Some GetContract
      else if sync_type m = SYNC_STATE_REQ then Some GetDeltas else None)"

fun fromDbStream :: "(json \<Rightarrow> sync_msg \<Rightarrow> json js) \<Rightarrow> sync_msg list \<Rightarrow> finish \<Rightarrow> json strm" where
  "fromDbStream db [] fin = ([], fin)"
| "fromDbStream db (m # ms) fin =
     (case query_type m of
        None \<Rightarrow> ([], Errored (ErrVal (JStr ''wrong message type'')))
      | Some q \<Rightarrow>
          (case db q m of
             Inl e \<Rightarrow> ([], Errored e)
           | Inr res \<Rightarrow> (let (rs, f) = fromDbStream db ms fin in (res # rs, f))))"

definition toNetworkParse :: "codec \<Rightarrow> json \<Rightarrow> int list option" where
  "toNetworkParse c d =
     (if nullish d then None
      else sync_toNetwork c (SyncStateResMsg
       (if fld d ''type'' = GetDeltas then set_msgType SYNC_STATE_RES d
        else if fld d ''type'' = GetContract then set_msgType SYNC_BCODE_RES d else d)))"

text \<open>\<open>startStateSyncResponse\<close>: the responses written back to the connection.\<close>

definition startStateSyncResponse ::
    "codec \<Rightarrow> (json \<Rightarrow> sync_msg \<Rightarrow> json js) \<Rightarrow> int list list \<Rightarrow> finish \<Rightarrow> int list option strm" where
  "startStateSyncResponse c db requests fin =
     (let (ms, f) = requestParserStream c requests fin;
          (rs, f) = fromDbStream db ms f
      in (map (toNetworkParse c) rs, f))"

text \<open>
  \<open>provideContentsBatch\<close>: the identifiers whose announcement failed. \<open>provide\<close> is what
  \<open>EnigmaNode.provideContent\<close> does with its callback for each identifier.
\<close>

definition provideContentsBatch ::
    "('c engcid \<Rightarrow> js_error option cb list) \<Rightarrow> 'c engcid list \<Rightarrow> 'c engcid list option" where
  "provideContentsBatch provide engCIDs =
     map_option (\<lambda>errs. map fst (filter (\<lambda>(e, err). err \<noteq> None) (zip engCIDs errs)))
       (parallel_ok (map provide engCIDs))"

section \<open>What a verified message guarantees\<close>

definition delta_matches :: "(int list \<Rightarrow> json) \<Rightarrow> missing_map \<Rightarrow> json \<Rightarrow> bool" where
  "delta_matches keccak states d \<longleftrightarrow>
     (\<exists>e h h'. map_of states (js_key (fld d ''address'')) = Some e \<and>
        map_of (rmDeltas e) (js_key (fld d ''key'')) = Some h \<and>
        crypto_hash keccak (fld d ''data'') True = Inr h' \<and> loose_eq h h')"

lemma verify_delta_None:
  assumes "verify_delta keccak states d = Inr None"
  shows "delta_matches keccak states d"
proof -
  let ?k = "js_key (fld d ''key'')"
  obtain a where a: "get_prop d ''address'' = Inr a"
    using assms by (auto simp: verify_delta_def bindE_eq_Inr)
  with assms obtain e where e: "map_of states (js_key a) = Some e"
    by (cases "map_of states (js_key a)") (auto simp: verify_delta_def Let_def split: if_splits)
  with assms a obtain h where h: "map_of (rmDeltas e) ?k = Some h"
    by (cases "map_of (rmDeltas e) ?k") (auto simp: verify_delta_def Let_def bindE_eq_Inr split: if_splits)
  with assms a e obtain h' where "crypto_hash keccak (fld d ''data'') True = Inr h'" "loose_eq h h'"
    by (auto simp: verify_delta_def Let_def bindE_eq_Inr split: if_splits)
  with e h show ?thesis using get_prop_fld [OF a] by (auto simp: delta_matches_def)
qed

lemma verify_deltas_None:
  "verify_deltas keccak states ds = Inr None \<Longrightarrow> d \<in> set ds \<Longrightarrow> delta_matches keccak states d"
  by (induction ds) (auto simp: bindE_eq_Inr split: option.splits dest: verify_delta_None)

definition bcode_matches :: "(int list \<Rightarrow> json) \<Rightarrow> missing_map \<Rightarrow> json \<Rightarrow> json \<Rightarrow> bool" where
  "bcode_matches keccak states address bytecode \<longleftrightarrow>
     (\<exists>e h h'. map_of states (js_key address) = Some e \<and> rmBytecodeHash e = Some h \<and>
        crypto_hash keccak bytecode True = Inr h' \<and> loose_eq (JStr h) h')"

lemma verify_bcode_None:
  assumes "verify_bcode keccak states a b = Inr None"
  shows "bcode_matches keccak states a b"
proof -
  obtain e where e: "map_of states (js_key a) = Some e"
    using assms by (cases "map_of states (js_key a)") (auto simp: verify_bcode_def bindE_eq_Inr split: if_splits)
  with assms obtain h where "rmBytecodeHash e = Some h"
    by (cases "rmBytecodeHash e") (auto simp: verify_bcode_def bindE_eq_Inr)
  with assms e show ?thesis by (auto simp: verify_bcode_def bindE_eq_Inr bcode_matches_def split: if_splits)
qed

text \<open>A lookup in the map of missing states leads back to the list of missing states.\<close>

lemma transform_lookup:
  assumes "map_of (transformMissingStatesListToMap ms) a = Some e"
  shows "\<exists>m\<in>set ms. miAddress m = a \<and> rmBytecodeHash e = miBytecodeHash m \<and>
    (\<forall>k h. map_of (rmDeltas e) k = Some h \<longrightarrow> (\<exists>d\<in>set (miDeltas m). k = int_str (mdIndex d) \<and> h = mdHash d))"
proof -
  let ?entry = "\<lambda>s. \<lparr>rmDeltas = foldl (\<lambda>ds d. obj_set ds (int_str (mdIndex d)) (mdHash d)) [] (miDeltas s),
         rmBytecodeHash = miBytecodeHash s\<rparr>"
  obtain m where m: "m \<in> set ms" "miAddress m = a" "e = ?entry m"
    using assms by (auto simp: transformMissingStatesListToMap_def map_of_foldl_obj_set dest!: map_of_SomeD)
  have "\<exists>d\<in>set (miDeltas m). k = int_str (mdIndex d) \<and> h = mdHash d" if "map_of (rmDeltas e) k = Some h" for k h
    using that m(3) by (auto simp: map_of_foldl_obj_set dest!: map_of_SomeD)
  with m show ?thesis by auto
qed

text \<open>An entry of the map of missing states, in terms of what Ethereum lists.\<close>

lemma missing_entry:
  assumes "compareLocalStateToRemote (Inr as) getContractParams localTips = Inr (ms, es)"
    and "distinct as" "\<forall>a\<in>set as. getContractParams a = Inr (rem a)"
    and "\<forall>t\<in>set localTips. 0 \<le> tipKey t"
    and e: "map_of (transformMissingStatesListToMap ms) a = Some e"
  shows "a \<in> set as"
    and "rmBytecodeHash e = Some h \<Longrightarrow> held localTips a = {} \<and> h = cdCodeHash (rem a)"
    and "map_of (rmDeltas e) k = Some v \<Longrightarrow> \<exists>i. k = int_str i \<and> i \<in> listed as rem a - held localTips a \<and>
         v = JStr (cdDeltaHashes (rem a) ! nat i)"
proof -
  let ?loc = "map_of (tipsMap localTips)"
  note pos = tips_nonneg [OF assms(4)]
  have ms: "ms = concat (map (missing_of ?loc rem) as)"
    using compareLocalStateToRemote_eq [OF refl assms(2,3), of localTips] assms(1) by simp
  from transform_lookup [OF e] obtain mi where mi: "mi \<in> set ms" "miAddress mi = a"
      "rmBytecodeHash e = miBytecodeHash mi"
      "\<And>k h. map_of (rmDeltas e) k = Some h \<Longrightarrow> \<exists>d\<in>set (miDeltas mi). k = int_str (mdIndex d) \<and> h = mdHash d"
    by blast
  then have *: "mi \<in> set (missing_of ?loc rem a)" and "a \<in> set as"
    unfolding ms by (auto simp: missing_of_def Let_def split: if_splits)
  show "a \<in> set as" by fact
  show "held localTips a = {} \<and> h = cdCodeHash (rem a)" if "rmBytecodeHash e = Some h"
    using that mi(3) * by (auto simp: missing_of_def Let_def held_def split: if_splits)
  have d: "mdIndex d \<in> listed as rem a - held localTips a \<and> mdHash d = JStr (cdDeltaHashes (rem a) ! nat (mdIndex d))"
    if "d \<in> set (miDeltas mi)" for d
    using that * pos [of a] \<open>a \<in> set as\<close> by (cases "?loc a")
      (auto simp: missing_of_def Let_def missingDeltas_from_def hash_at_def listed_def held_def split: if_splits)
  show "\<exists>i. k = int_str i \<and> i \<in> listed as rem a - held localTips a \<and>
         v = JStr (cdDeltaHashes (rem a) ! nat i)" if "map_of (rmDeltas e) k = Some v"
    using mi(4) [OF that] d by metis
qed

section \<open>Attempts in turn\<close>

text \<open>
  The specification of the retries: attempts are made in turn until one succeeds; the error
  of the last one is reported; an exception stops everything.
\<close>

fun retry :: "('q \<Rightarrow> 'w \<Rightarrow> attempt option \<times> 'w) \<Rightarrow> 'q list \<Rightarrow> 'w \<Rightarrow> receive_result option \<times> 'w" where
  "retry f [] w = (None, w)"
| "retry f (q # qs) w =
     (case f q w of
        (None, w) \<Rightarrow> (None, w)
      | (Some (None, res), w) \<Rightarrow> (Some (None, True, res), w)
      | (Some (Some e, res), w) \<Rightarrow> if qs = [] then (Some (Some e, False, res), w) else retry f qs w)"

definition attempts :: "'p list \<Rightarrow> 'p option list" where
  "attempts ps = (case ps of [] \<Rightarrow> [None, None] | [p] \<Rightarrow> [Some p, Some p] | _ \<Rightarrow> map Some ps)"

lemma sync_between_done [simp]: "sync_between f ps (True, res) w = (Some (True, res), w)"
  by (induction ps) simp_all

lemma sync_between_retry:
  "(case sync_between f ps (False, res) w of
      (None, w) \<Rightarrow> (None, w) | (Some acc, w) \<Rightarrow> sync_final f q acc w) = retry f (map Some ps @ [q]) w"
proof (induction ps arbitrary: res w)
  case Nil
  obtain a w' where "f q w = (a, w')" by fastforce
  then show ?case by (cases a) (auto simp: sync_final_def split: option.splits)
next
  case (Cons p ps)
  obtain a w' where "f (Some p) w = (a, w')" by fastforce
  then show ?case using Cons.IH by (cases a) (auto simp: sync_final_def split: option.splits)
qed

lemma attempts_eq:
  "attempts ps = (case ps of [] \<Rightarrow> None | p # _ \<Rightarrow> Some p) #
      map Some (butlast (tl ps)) @ [if ps = [] then None else Some (last ps)]"
proof -
  have "map Some xs = map Some (butlast xs) @ [Some (last xs)]" if "xs \<noteq> []" for xs :: "'a list"
    using that by (induction xs) auto
  then show ?thesis by (auto simp: attempts_def split: list.split)
qed

lemma sync_jobs_retry: "sync_jobs f ps w = retry f (attempts ps) w"
proof -
  obtain a w' where "f (case ps of [] \<Rightarrow> None | p # _ \<Rightarrow> Some p) w = (a, w')" by fastforce
  then show ?thesis
    using sync_between_retry [where ps = "butlast (tl ps)" and w = w']
    by (cases a) (auto simp: sync_jobs_def attempts_eq sync_final_def split: option.splits)
qed

text \<open>The first attempt that does not end with an error, or the last one, decides.\<close>

lemma retry_first:
  assumes "k < length qs"
    and "\<And>i. i < k \<Longrightarrow> \<exists>e res. f (qs ! i) (ws i) = (Some (Some e, res), ws (Suc i))"
    and "f (qs ! k) (ws k) = (outcome, w')"
    and "k = length qs - 1 \<or> outcome = None \<or> (\<exists>res. outcome = Some (None, res))"
  shows "retry f qs (ws 0) = (map_option (\<lambda>(err, res). (err, err = None, res)) outcome, w')"
  using assms
proof (induction k arbitrary: qs ws)
  case 0
  then obtain q rest where qs: "qs = q # rest" by (cases qs) auto
  show ?case
    using 0 by (cases outcome) (auto simp: qs split: option.splits prod.splits)
next
  case (Suc k)
  then obtain q rest where qs: "qs = q # rest" by (cases qs) auto
  obtain e res where first: "f q (ws 0) = (Some (Some e, res), ws 1)"
    using Suc.prems(2) [of 0] by (auto simp: qs)
  have "retry f rest (ws (Suc 0)) = (map_option (\<lambda>(err, res). (err, err = None, res)) outcome, w')"
    using Suc.prems Suc.prems(2) [of "Suc i" for i]
    by (intro Suc.IH [of rest "\<lambda>i. ws (Suc i)"]) (auto simp: qs)
  then show ?case using first Suc.prems(1) by (auto simp: qs)
qed

text \<open>A property of the world that every attempt keeps is kept by all of them.\<close>

lemma retry_keeps:
  "(\<And>q w. I w \<Longrightarrow> I (snd (f q w))) \<Longrightarrow> I w \<Longrightarrow> I (snd (retry f qs w))"
proof (induction qs arbitrary: w)
  case (Cons q qs)
  obtain a w' where "f q w = (a, w')" by fastforce
  moreover have "I w'" using Cons.prems calculation by (metis snd_conv)
  ultimately show ?case using Cons by (cases a) (auto split: option.splits)
qed simp

lemma retry_results:
  assumes "\<And>q w err res w'. f q w = (Some (err, Some res), w') \<Longrightarrow> P res"
    and "retry f qs w = (Some (err, ok, Some res), w')"
  shows "P res"
  using assms(2)
proof (induction qs arbitrary: w)
  case (Cons q qs)
  obtain a w'' where "f q w = (a, w'')" by fastforce
  then show ?case using Cons assms(1) by (cases a) (auto split: option.splits if_splits)
qed simp

section \<open>Only verified messages are written\<close>

lemma verificationStream_verified:
  "m \<in> set (fst (verificationStream c keccak r ds fin)) \<Longrightarrow> verify keccak (remoteMissingStatesMap r) m = Inr None"
  by (induction c keccak r ds fin rule: verificationStream.induct)
    (auto split: sum.splits option.splits prod.splits)

lemma throughDbStream_Cons:
  "throughDbStream N (m # ms) fin w =
     (let wr = netDbWrite N m w; rest = throughDbStream N ms fin (snd wr) in
      if truthy (snd (fst wr)) \<and> fst (fst wr) = None
      then (((snd (fst wr), m) # fst (fst rest), snd (fst rest)), snd rest)
      else (([], Crashed (ErrVal JNull)), snd wr))"
  by (simp add: Let_def case_prod_beta)

lemma throughDbStream_keeps:
  assumes "\<And>m w. I w \<Longrightarrow> P m \<Longrightarrow> I (snd (netDbWrite N m w))"
  shows "I w \<Longrightarrow> \<forall>m\<in>set ms. P m \<Longrightarrow> I (snd (throughDbStream N ms fin w))"
  by (induction ms arbitrary: w) (auto simp: throughDbStream_Cons Let_def assms simp del: throughDbStream.simps(2))

lemma throughDbStream_payload:
  "p \<in> set (fst (fst (throughDbStream N ms fin w))) \<Longrightarrow> snd p \<in> set ms"
  by (induction ms arbitrary: w)
    (auto simp: throughDbStream_Cons Let_def simp del: throughDbStream.simps(2) split: if_splits)

lemma trySyncOne_keeps:
  assumes "\<And>p reqs w. I w \<Longrightarrow> I (snd (startStateSyncRequest N p reqs w))"
    and "\<And>m w. I w \<Longrightarrow> verify keccak (remoteMissingStatesMap r) m = Inr None \<Longrightarrow> I (snd (netDbWrite N m w))"
    and "I w"
  shows "I (snd (trySyncOneContractOneRequest c keccak N r p msgs w))"
proof -
  obtain a w' where s: "startStateSyncRequest N p (toNetworkSyncReqParser c msgs) w = (a, w')" by fastforce
  then have "I w'" using assms(1) [OF assms(3)] by (metis snd_conv)
  have "I (snd (throughDbStream N (fst (verificationStream c keccak r ds fin)) f w'))" for ds fin f
    by (rule throughDbStream_keeps [where I = I and P = "\<lambda>m. verify keccak (remoteMissingStatesMap r) m = Inr None"])
      (use assms(2) \<open>I w'\<close> verificationStream_verified in blast)+
  then show ?thesis using \<open>I w'\<close>
    by (cases a) (simp_all add: trySyncOneContractOneRequest_def s Let_def case_prod_beta)
qed

lemma trySyncReceive_keeps:
  assumes "\<And>p reqs w. I w \<Longrightarrow> I (snd (startStateSyncRequest N p reqs w))"
    and "\<And>m w. I w \<Longrightarrow> verify keccak (remoteMissingStatesMap r) m = Inr None \<Longrightarrow> I (snd (netDbWrite N m w))"
    and "I w"
  shows "I (snd (trySyncReceive c keccak N r ps msgs w))"
  unfolding trySyncReceive_def sync_jobs_retry
proof (rule retry_keeps [where I = I])
  show "I (snd (trySyncOneContractOneRequest c keccak N r p msgs w))" if "I w" for p w
    by (rule trySyncOne_keeps [where I = I]) (use assms(1,2) that in blast)+
qed (fact assms(3))

lemma trySyncOne_verified:
  assumes "trySyncOneContractOneRequest c keccak N r p msgs w = (Some (err, Some res), w')"
  shows "\<forall>st\<in>set res. verify keccak (remoteMissingStatesMap r) (ssPayload st) = Inr None"
proof -
  obtain a w1 where s: "startStateSyncRequest N p (toNetworkSyncReqParser c msgs) w = (a, w1)" by fastforce
  then show ?thesis
    using assms verificationStream_verified [of _ c keccak r] throughDbStream_payload
    by (cases a) (auto simp: trySyncOneContractOneRequest_def Let_def case_prod_beta sync_status_of_def
        split: finish.splits, fastforce+)
qed


section \<open>Properties\<close>

text \<open>
  C11: a response that the verifier accepts carries only states that Ethereum lists. With the
  map built from the comparison of the local state with the contract, every delta of an
  accepted response belongs to a listed contract and to an index that the node is missing,
  and the hash of its data is the one that Ethereum lists there; an accepted bytecode belongs
  to a listed contract that the node does not know, and has the listed hash.
\<close>

theorem verified_is_listed:
  assumes "compareLocalStateToRemote (Inr as) getContractParams localTips = Inr (ms, es)"
    and "distinct as" "\<forall>a\<in>set as. getContractParams a = Inr (rem a)"
    and "\<forall>t\<in>set localTips. 0 \<le> tipKey t"
    and "verify keccak (Some (transformMissingStatesListToMap ms)) m = Inr None"
  shows "(sync_type m = SYNC_STATE_RES \<longrightarrow>
     (\<forall>v ds d. sync_deltas m = Inr v \<longrightarrow> indexed v = Inr ds \<longrightarrow> d \<in> set ds \<longrightarrow>
       (\<exists>a i. js_key (fld d ''address'') = a \<and> js_key (fld d ''key'') = int_str i \<and>
          i \<in> listed as rem a - held localTips a \<and>
          crypto_hash keccak (fld d ''data'') True = Inr (JStr (cdDeltaHashes (rem a) ! nat i))))) \<and>
    (sync_type m = SYNC_BCODE_RES \<longrightarrow>
     (\<exists>a b. sync_address m = Inr a \<and> sync_bytecode m = Inr b \<and> js_key a \<in> set as \<and>
        held localTips (js_key a) = {} \<and> crypto_hash keccak b True = Inr (JStr (cdCodeHash (rem (js_key a))))))"
proof -
  let ?M = "transformMissingStatesListToMap ms"
  note entry = missing_entry [OF assms(1-4)]
  have deltas: "\<exists>a i. js_key (fld d ''address'') = a \<and> js_key (fld d ''key'') = int_str i \<and>
          i \<in> listed as rem a - held localTips a \<and>
          crypto_hash keccak (fld d ''data'') True = Inr (JStr (cdDeltaHashes (rem a) ! nat i))"
    if "sync_type m = SYNC_STATE_RES" "sync_deltas m = Inr v" "indexed v = Inr ds" "d \<in> set ds" for v ds d
  proof -
    have "delta_matches keccak ?M d"
      using assms(5) that by (auto simp: verify_def dest: verify_deltas_None)
    then obtain e h h' where "map_of ?M (js_key (fld d ''address'')) = Some e"
        "map_of (rmDeltas e) (js_key (fld d ''key'')) = Some h"
        "crypto_hash keccak (fld d ''data'') True = Inr h'" "loose_eq h h'"
      by (auto simp: delta_matches_def)
    then show ?thesis using entry(3) by (fastforce simp: loose_eq_def nullish_def)
  qed
  have "\<exists>a b. sync_address m = Inr a \<and> sync_bytecode m = Inr b \<and> js_key a \<in> set as \<and>
        held localTips (js_key a) = {} \<and> crypto_hash keccak b True = Inr (JStr (cdCodeHash (rem (js_key a))))"
    if t: "sync_type m = SYNC_BCODE_RES"
  proof -
    obtain a b where ab: "sync_address m = Inr a" "sync_bytecode m = Inr b" "verify_bcode keccak ?M a b = Inr None"
      using assms(5) t by (auto simp: verify_def bindE_eq_Inr)
    from verify_bcode_None [OF ab(3)] obtain e h h' where "map_of ?M (js_key a) = Some e"
        "rmBytecodeHash e = Some h" "crypto_hash keccak b True = Inr h'" "loose_eq (JStr h) h'"
      by (auto simp: bcode_matches_def)
    then show ?thesis using entry(1,2) ab by (fastforce simp: loose_eq_def nullish_def)
  qed
  with deltas show ?thesis by blast
qed

definition ex_missing :: "missing list" where
  "ex_missing = [\<lparr>miAddress = ''A'', miDeltas = [\<lparr>mdHash = JStr ''h1'', mdIndex = 1\<rparr>, \<lparr>mdHash = JStr ''h2'', mdIndex = 2\<rparr>],
     miBytecodeHash = None\<rparr>]"

definition ex_response :: sync_msg where
  "ex_response = SyncStateResMsg (JObj [(''type'', GetDeltas), (''result'', JObj [(''deltas'', JArr
     [JObj [(''address'', JStr ''A''), (''key'', JNum 1), (''data'', JArr [JNum 7])]])]),
     (''msgType'', SYNC_STATE_RES)])"

lemma ex_missing_compare:
  "compareLocalStateToRemote (Inr [''A'']) ex_reader (take 1 ex_tips) = Inr (ex_missing, [])"
  by code_simp

lemma ex_response_verified:
  "verify (\<lambda>_. JStr ''h1'') (Some (transformMissingStatesListToMap ex_missing)) ex_response = Inr None"
  by code_simp

theorem verified_is_listed_witness:
  "1 \<in> listed [''A''] (\<lambda>a. \<lparr>cdCodeHash = ''c'' @ a, cdDeltaHashes = [''h0'', ''h1'', ''h2'']\<rparr>) ''A''
      - held (take 1 ex_tips) ''A''"
proof -
  have h: "distinct [''A'']"
    "\<forall>a\<in>set [''A'']. ex_reader a = Inr \<lparr>cdCodeHash = ''c'' @ a, cdDeltaHashes = [''h0'', ''h1'', ''h2'']\<rparr>"
    "\<forall>t\<in>set (take 1 ex_tips). 0 \<le> tipKey t"
    by (simp_all add: ex_reader_def ex_tips_def)
  let ?d = "JObj [(''address'', JStr ''A''), (''key'', JNum 1), (''data'', JArr [JNum 7])]"
  have t: "sync_type ex_response = SYNC_STATE_RES" "sync_deltas ex_response = Inr (JArr [?d])"
    "indexed (JArr [?d]) = Inr [?d]" "?d \<in> set [?d]"
    by (simp_all add: ex_response_def sync_type_def sync_deltas_def indexed_def obj_get_def)
  from verified_is_listed [OF ex_missing_compare h ex_response_verified, THEN conjunct1, rule_format, OF t]
  show ?thesis by (auto simp: obj_get_def int_str_inj)
qed

text \<open>
  C12: only verified messages reach the database. Whatever the peers send, a property of the
  world that dialling a peer keeps and that writing a message accepted by the verifier keeps
  still holds after a contract was received from a list of providers; and every result that
  is reported carries an accepted message.
\<close>

theorem only_verified_written:
  assumes "\<forall>p reqs w. I w \<longrightarrow> I (snd (startStateSyncRequest N p reqs w))"
    and "\<forall>m w. I w \<longrightarrow> verify keccak (remoteMissingStatesMap r) m = Inr None \<longrightarrow> I (snd (netDbWrite N m w))"
    and "I w"
  shows "I (snd (trySyncReceive c keccak N r ps msgs w)) \<and>
    (\<forall>err ok res w'. trySyncReceive c keccak N r ps msgs w = (Some (err, ok, Some res), w') \<longrightarrow>
       (\<forall>st\<in>set res. verify keccak (remoteMissingStatesMap r) (ssPayload st) = Inr None))"
proof (intro conjI allI impI)
  show "I (snd (trySyncReceive c keccak N r ps msgs w))"
    by (rule trySyncReceive_keeps [where I = I]) (use assms in blast)+
next
  fix err ok res w'
  assume "trySyncReceive c keccak N r ps msgs w = (Some (err, ok, Some res), w')"
  then have *: "retry (\<lambda>p. trySyncOneContractOneRequest c keccak N r p msgs) (attempts ps) w = (Some (err, ok, Some res), w')"
    by (simp add: trySyncReceive_def sync_jobs_retry)
  show "\<forall>st\<in>set res. verify keccak (remoteMissingStatesMap r) (ssPayload st) = Inr None"
    by (rule retry_results [where P = "\<lambda>res. \<forall>st\<in>set res. verify keccak (remoteMissingStatesMap r) (ssPayload st) = Inr None",
        OF trySyncOne_verified *])
qed


text \<open>A peer that answers with one response, and a database that records what is written.\<close>

definition ex_net :: "(nat, sync_msg list) sync_net" where
  "ex_net = \<lparr>startStateSyncRequest = (\<lambda>p reqs w. (Inr ([the (sync_toNetwork ex_codec ex_response)], Ended), w)),
     netDbWrite = (\<lambda>m w. ((None, JBool True), w @ [m]))\<rparr>"

definition ex_receiver :: receiver where
  "ex_receiver = setRemoteMissingStatesMap (transformMissingStatesListToMap ex_missing) Receiver"

theorem only_verified_written_witness:
  "list_all (\<lambda>m. verify (\<lambda>_. JStr ''h1'') (remoteMissingStatesMap ex_receiver) m = Inr None)
     (snd (trySyncReceive ex_codec (\<lambda>_. JStr ''h1'') ex_net ex_receiver [7] [] []))"
  by (rule only_verified_written [where I = "list_all (\<lambda>m. verify (\<lambda>_. JStr ''h1'') (remoteMissingStatesMap ex_receiver) m = Inr None)",
        THEN conjunct1]) (auto simp: ex_net_def)

text \<open>
  C14: the retries. When there are at least two providers, a contract is requested from them in
  turn, each attempt in the world the one before left, until one ends without an error; no later
  provider is asked, and the result and the world are those of this attempt. When all
  fail, the error and the result of the last one are reported; and an exception in an
  attempt leaves the callback uninvoked.
\<close>

theorem trySyncReceive_first_success:
  assumes "2 \<le> length ps" "k < length ps"
    and "\<forall>i<k. \<exists>e res. trySyncOneContractOneRequest c keccak N r (Some (ps ! i)) msgs (ws i) = (Some (Some e, res), ws (Suc i))"
    and "trySyncOneContractOneRequest c keccak N r (Some (ps ! k)) msgs (ws k) = (outcome, w')"
    and "k = length ps - 1 \<or> outcome = None \<or> (\<exists>res. outcome = Some (None, res))"
  shows "trySyncReceive c keccak N r ps msgs (ws 0) =
    (map_option (\<lambda>(err, res). (err, err = None, res)) outcome, w')"
proof -
  have att: "attempts ps = map Some ps"
    using assms(1) by (auto simp: attempts_def Suc_le_eq split: list.split)
  have "retry (\<lambda>p. trySyncOneContractOneRequest c keccak N r p msgs) (map Some ps) (ws 0) =
      (map_option (\<lambda>(err, res). (err, err = None, res)) outcome, w')"
    using assms(2-5) by (intro retry_first [where k = k]) auto
  then show ?thesis by (simp add: trySyncReceive_def sync_jobs_retry att)
qed

text \<open>A network in which the first peer cannot be dialled.\<close>

definition ex_net2 :: "(nat, sync_msg list) sync_net" where
  "ex_net2 = ex_net\<lparr>startStateSyncRequest := (\<lambda>p reqs w.
     if p = Some 3 then (Inl JsTypeError, w) else startStateSyncRequest ex_net p reqs w)\<rparr>"

theorem trySyncReceive_first_success_witness:
  "trySyncReceive ex_codec (\<lambda>_. JStr ''h1'') ex_net2 ex_receiver [3, 7, 5] [] [] =
     (Some (None, True, snd (the (fst (trySyncOneContractOneRequest ex_codec (\<lambda>_. JStr ''h1'') ex_net2 ex_receiver (Some 7) [] [])))),
      snd (trySyncOneContractOneRequest ex_codec (\<lambda>_. JStr ''h1'') ex_net2 ex_receiver (Some 7) [] []))"
proof -
  let ?ask = "\<lambda>p w. trySyncOneContractOneRequest ex_codec (\<lambda>_. JStr ''h1'') ex_net2 ex_receiver (Some p) [] w"
  have dial: "?ask 3 w = (Some (Some JsTypeError, None), w)" for w
    by (simp add: trySyncOneContractOneRequest_def ex_net2_def)
  have "(case fst (?ask 7 []) of Some (None, res) \<Rightarrow> True | _ \<Rightarrow> False) = True"
    by code_simp
  then obtain res w' where ok: "?ask 7 [] = (Some (None, res), w')"
    by (cases "?ask 7 []") (auto split: option.splits prod.splits)
  show ?thesis
    using trySyncReceive_first_success [of "[3, 7, 5]" 1 ex_codec "\<lambda>_. JStr ''h1''" ex_net2 ex_receiver "[]"
        "\<lambda>_. []" "Some (None, res)" w'] dial ok
    by simp
qed

text \<open>A single provider is asked twice.\<close>

lemma single_provider_twice:
  "trySyncReceive c keccak N r [p] msgs w =
     retry (\<lambda>p. trySyncOneContractOneRequest c keccak N r p msgs) [Some p, Some p] w"
  by (simp add: trySyncReceive_def sync_jobs_retry attempts_def)

section \<open>A synchronisation with an honest provider\<close>

definition somes :: "'a option list \<Rightarrow> 'a list" where
  "somes xs = map the (filter (\<lambda>x. x \<noteq> None) xs)"

text \<open>The network of a receiver whose peers all run the provider of this development.\<close>

definition provider_net ::
    "codec \<Rightarrow> (json \<Rightarrow> sync_msg \<Rightarrow> json js) \<Rightarrow> (sync_msg \<Rightarrow> 'w \<Rightarrow> (js_error option \<times> json) \<times> 'w) \<Rightarrow> ('p, 'w) sync_net" where
  "provider_net c db write =
     \<lparr>startStateSyncRequest = (\<lambda>p reqs w.
        (Inr (somes (fst (startStateSyncResponse c db (somes reqs) Ended)),
              snd (startStateSyncResponse c db (somes reqs) Ended)), w)),
      netDbWrite = write\<rparr>"

definition is_request :: "sync_msg \<Rightarrow> bool" where
  "is_request m \<longleftrightarrow> json_normal (syncRaw m) \<and>
     (\<exists>fs. m = stateRequestMessage (JObj fs) \<or> m = bCodeRequestMessage (JObj fs))"

text \<open>The response that the receiver decodes for an answer of the provider's database.\<close>

definition response_of :: "json \<Rightarrow> sync_msg" where
  "response_of d =
     (if fld d ''type'' = GetDeltas then SyncStateResMsg (set_msgType SYNC_STATE_RES d)
      else SyncBcodeResMsg (set_msgType SYNC_BCODE_RES d))"

definition good_answer :: "json \<Rightarrow> json \<Rightarrow> bool" where
  "good_answer q d \<longleftrightarrow> is_obj d \<and> json_normal d \<and> fld d ''type'' = q"

lemma obj_set_same [simp]: "obj_set (obj_set fs k v) k v = obj_set fs k v"
  by (induction fs) auto

lemma json_normal_obj_set:
  "json_normal (JObj fs) \<Longrightarrow> json_normal v \<Longrightarrow> json_normal (JObj (obj_set fs k v))"
proof -
  have "normal_members fs \<Longrightarrow> json_normal v \<Longrightarrow> normal_members (obj_set fs k v)"
    by (induction fs k v rule: obj_set.induct) auto
  then show "json_normal (JObj fs) \<Longrightarrow> json_normal v \<Longrightarrow> json_normal (JObj (obj_set fs k v))"
    by (simp add: obj_wf_obj_set)
qed

lemma request_network:
  assumes "codec_ok c" "is_request m"
  shows "\<exists>bs. sync_toNetwork c m = Some bs \<and> requestMessageFromNetwork c bs = Inr (Some m)"
proof -
  obtain bs where bs: "mpEncode c (syncRaw m) = Some bs" "mpDecode c bs = Some (syncRaw m)"
    using assms by (auto simp: codec_ok_def is_request_def)
  obtain fs where "m = stateRequestMessage (JObj fs) \<or> m = bCodeRequestMessage (JObj fs)"
    using assms(2) by (auto simp: is_request_def)
  then show ?thesis using bs
    by (auto simp: sync_toNetwork_def requestMessageFromNetwork_def encoder_decode_def has_own_def
        stateRequestMessage_def bCodeRequestMessage_def set_msgType_def obj_get_def)
qed

lemma response_network:
  assumes "codec_ok c" "good_answer q d" "q = GetDeltas \<or> q = GetContract"
  shows "\<exists>bs. toNetworkParse c d = Some bs \<and> responseMessageFromNetwork c bs = Inr (Some (response_of d))"
proof -
  obtain fs where d: "d = JObj fs" using assms(2) by (cases d) (auto simp: good_answer_def)
  let ?t = "if q = GetDeltas then SYNC_STATE_RES else SYNC_BCODE_RES"
  have "json_normal (JObj (obj_set fs ''msgType'' ?t))"
    using assms(2) d by (intro json_normal_obj_set) (auto simp: good_answer_def)
  then obtain bs where "mpEncode c (JObj (obj_set fs ''msgType'' ?t)) = Some bs"
      "mpDecode c bs = Some (JObj (obj_set fs ''msgType'' ?t))"
    using assms(1) unfolding codec_ok_def by blast
  moreover have "obj_get fs ''type'' = q" using assms(2) d by (simp add: good_answer_def)
  ultimately show ?thesis using assms(3) d
    by (auto simp: toNetworkParse_def nullish_def sync_toNetwork_def set_msgType_def
        responseMessageFromNetwork_def encoder_decode_def has_own_def response_of_def obj_get_def)
qed

text \<open>What the provider sends for a list of requests, and what the receiver makes of it.\<close>

lemma provider_answers:
  assumes "codec_ok c" "\<forall>m\<in>set msgs. is_request m"
    and "\<forall>m\<in>set msgs. db (the (query_type m)) m = Inr (ans m) \<and> good_answer (the (query_type m)) (ans m)"
  shows "startStateSyncResponse c db (somes (toNetworkSyncReqParser c msgs)) Ended =
    (map (\<lambda>m. toNetworkParse c (ans m)) msgs, Ended)"
proof -
  have q: "query_type m \<noteq> None" if "is_request m" for m
    using that by (auto simp: is_request_def query_type_def sync_type_def stateRequestMessage_def
        bCodeRequestMessage_def set_msgType_def obj_get_def)
  have "requestParserStream c (somes (toNetworkSyncReqParser c msgs)) Ended = (msgs, Ended)"
    using assms(2)
  proof (induction msgs)
    case (Cons m ms)
    then obtain bs where "sync_toNetwork c m = Some bs" "requestMessageFromNetwork c bs = Inr (Some m)"
      using request_network [OF assms(1), of m] by auto
    with Cons show ?case by (simp add: toNetworkSyncReqParser_def somes_def)
  qed (simp add: toNetworkSyncReqParser_def somes_def)
  moreover have "fromDbStream db msgs Ended = (map ans msgs, Ended)"
    using assms(2,3) q by (induction msgs) (fastforce split: option.splits)+
  ultimately show ?thesis by (simp add: startStateSyncResponse_def)
qed

lemma query_type_cases: "is_request m \<Longrightarrow> the (query_type m) = GetDeltas \<or> the (query_type m) = GetContract"
  by (auto simp: is_request_def query_type_def sync_type_def stateRequestMessage_def
      bCodeRequestMessage_def set_msgType_def obj_get_def)

lemma receiver_accepts:
  assumes "codec_ok c"
    and "\<forall>m\<in>set msgs. is_request m \<and> good_answer (the (query_type m)) (ans m) \<and>
       verify keccak (remoteMissingStatesMap r) (response_of (ans m)) = Inr None"
  shows "verificationStream c keccak r (somes (map (\<lambda>m. toNetworkParse c (ans m)) msgs)) Ended =
    (map (\<lambda>m. response_of (ans m)) msgs, Ended)"
  using assms(2)
proof (induction msgs)
  case (Cons m ms)
  then obtain bs where "toNetworkParse c (ans m) = Some bs"
      "responseMessageFromNetwork c bs = Inr (Some (response_of (ans m)))"
    using response_network [OF assms(1)] query_type_cases by (metis list.set_intros(1))
  with Cons show ?case by (simp add: somes_def)
qed (simp add: somes_def)

lemma throughDb_all:
  fixes N :: "('p, 'w) sync_net"
  assumes "\<forall>m w. truthy (snd (fst (netDbWrite N m w))) \<and> fst (fst (netDbWrite N m w)) = None"
  shows "\<exists>sts w'. throughDbStream N ms fin w = ((zip sts ms, fin), w') \<and> length sts = length ms"
proof (induction ms arbitrary: w)
  case (Cons m ms)
  obtain sts w' where "throughDbStream N ms fin (snd (netDbWrite N m w)) = ((zip sts ms, fin), w')"
      "length sts = length ms" using Cons by blast
  then show ?case using assms
    by (auto simp: throughDbStream_Cons Let_def simp del: throughDbStream.simps(2)
        intro!: exI [of _ "snd (fst (netDbWrite N m w)) # sts"])
qed simp

text \<open>
  C13: a synchronisation with an honest provider completes. When the peer runs the provider,
  its database answers each request with data that matches Ethereum, and the writes to the
  local database succeed, then the receiver asks one peer only and reports success with one
  result per request, in order, each carrying the answer of the provider's database.
\<close>

theorem honest_sync_completes:
  fixes ps :: "'p list" and w :: 'w
  assumes "codec_ok c" "\<forall>m\<in>set msgs. is_request m"
    and "\<forall>m\<in>set msgs. db (the (query_type m)) m = Inr (ans m) \<and> good_answer (the (query_type m)) (ans m) \<and>
       verify keccak (remoteMissingStatesMap r) (response_of (ans m)) = Inr None"
    and "\<forall>m w. truthy (snd (fst (write m w))) \<and> fst (fst (write m w)) = None"
  shows "\<exists>res w'. trySyncReceive c keccak (provider_net c db write) r ps msgs w = (Some (None, True, Some res), w') \<and>
    map ssPayload res = map (\<lambda>m. response_of (ans m)) msgs"
proof -
  let ?N = "provider_net c db write :: ('p, 'w) sync_net" and ?rs = "map (\<lambda>m. response_of (ans m)) msgs"
  obtain sts w' where db: "throughDbStream ?N ?rs Ended w = ((zip sts ?rs, Ended), w')" "length sts = length ?rs"
    using throughDb_all [of ?N ?rs Ended w] assms(4) by (auto simp: provider_net_def)
  have "startStateSyncResponse c db (somes (toNetworkSyncReqParser c msgs)) Ended =
      (map (\<lambda>m. toNetworkParse c (ans m)) msgs, Ended)"
    using assms(3) by (intro provider_answers [OF assms(1,2)]) auto
  then have s: "startStateSyncRequest ?N p (toNetworkSyncReqParser c msgs) w =
      (Inr (somes (map (\<lambda>m. toNetworkParse c (ans m)) msgs), Ended), w)" for p
    by (simp add: provider_net_def)
  have v: "verificationStream c keccak r (somes (map (\<lambda>m. toNetworkParse c (ans m)) msgs)) Ended = (?rs, Ended)"
    using assms(2,3) by (intro receiver_accepts [OF assms(1)]) auto
  have "trySyncOneContractOneRequest c keccak ?N r p msgs w =
      (Some (None, Some (map sync_status_of (zip sts ?rs))), w')" for p
    by (simp add: trySyncOneContractOneRequest_def s v db(1))
  then have "trySyncReceive c keccak ?N r ps msgs w = (Some (None, True, Some (map sync_status_of (zip sts ?rs))), w')"
    by (simp add: trySyncReceive_def sync_jobs_retry attempts_eq)
  moreover have "map ssPayload (map sync_status_of ps) = map snd ps" for ps
    by (simp add: sync_status_of_def)
  then have "map ssPayload (map sync_status_of (zip sts ?rs)) = ?rs"
    by (simp only: map_snd_zip [OF db(2)])
  ultimately show ?thesis by blast
qed

definition ex_request :: sync_msg where
  "ex_request = stateRequestMessage (JObj [(''contractAddress'', JStr ''A''), (''fromIndex'', JNum 1), (''toIndex'', JNum 2)])"

definition ex_answer :: json where
  "ex_answer = JObj [(''type'', GetDeltas), (''result'', JObj [(''deltas'', JArr
     [JObj [(''address'', JStr ''A''), (''key'', JNum 1), (''data'', JArr [JNum 7])]])])]"

theorem honest_sync_completes_witness:
  "\<exists>res w'. trySyncReceive ex_codec (\<lambda>_. JStr ''h1'')
      (provider_net ex_codec (\<lambda>q m. Inr ex_answer) (\<lambda>m w. ((None, JBool True), w @ [m])))
      ex_receiver [1, 2 :: nat] [ex_request] [] = (Some (None, True, Some res), w') \<and>
    map ssPayload res = [ex_response]"
proof -
  have r: "response_of ex_answer = ex_response"
    by (simp add: response_of_def ex_answer_def ex_response_def set_msgType_def obj_get_def)
  have "is_request ex_request"
    unfolding is_request_def
    by (intro conjI exI disjI1, simp add: ex_request_def stateRequestMessage_def set_msgType_def obj_wf_def)
      (rule ex_request_def)
  moreover have "query_type ex_request = Some GetDeltas"
    by (simp add: query_type_def ex_request_def sync_type_def stateRequestMessage_def set_msgType_def obj_get_def)
  moreover have "good_answer GetDeltas ex_answer"
    by (simp add: good_answer_def ex_answer_def obj_wf_def obj_get_def)
  moreover have "verify (\<lambda>_. JStr ''h1'') (remoteMissingStatesMap ex_receiver) ex_response = Inr None"
    using ex_response_verified by (simp add: ex_receiver_def setRemoteMissingStatesMap_def)
  ultimately show ?thesis
    using honest_sync_completes [of ex_codec "[ex_request]" "\<lambda>q m. Inr ex_answer" "\<lambda>m. ex_answer" "\<lambda>_. JStr ''h1''"
        ex_receiver "\<lambda>m w. ((None, JBool True), w @ [m])" "[1, 2 :: nat]" "[]"] ex_codec_ok by (simp add: r)
qed

end
