(* ===== verification/Core_Channel.thy ===== *)
theory Core_Channel
  imports Sync_Verify State_Machines
begin

text \<open>
  The way of a request from the node to the core process and back:
  \<open>main_controller/channels/Envelop.js\<close>, \<open>main_controller/actions/DbAction.js\<close>, the runtime
  and the actions under \<open>src/src/core\<close>, and the client of \<open>core/ipc.js\<close>, which matches
  responses to callbacks by message id. The JSON schema validator and the core process are
  parameters; the random ids are arguments.
\<close>

section \<open>Envelopes\<close>

record envelop =
  envType :: json
  envId :: json
  envObj :: json
  envValid :: bool

definition attach_id :: "string \<Rightarrow> json \<Rightarrow> json js" where
  "attach_id rid obj =
     bindE (has_prop ''id'' obj) (\<lambda>b. if b then Inr obj else set_prop obj ''id'' (JStr rid))"

definition Envelop :: "string \<Rightarrow> string \<Rightarrow> json \<Rightarrow> json \<Rightarrow> json \<Rightarrow> envelop js" where
  "Envelop rid rid' sequenceOrId obj msgType =
     (let given = truthy sequenceOrId \<and> truthy obj \<and> truthy msgType;
          i = (if truthy sequenceOrId \<and> is_str sequenceOrId then sequenceOrId
               else if sequenceOrId = JBool True then JStr rid else JBool False);
          v = (given \<and> i \<noteq> JBool False) in
      bindE (has_prop ''id'' obj) (\<lambda>b.
      bindE (if \<not> b \<and> i \<noteq> JBool False then set_prop obj ''id'' (JStr rid') else Inr obj) (\<lambda>obj.
      Inr \<lparr>envType = msgType, envId = i, envObj = obj, envValid = v\<rparr>)))"

section \<open>The runtime that talks to core\<close>

text \<open>The input of a request: plain data, or the synchronisation message of a peer.\<close>

datatype core_input = RawInput json | SyncInput sync_msg

record core_req =
  crId :: json
  crType :: json
  crInput :: core_input

datatype core_action = SendToCore | PreParse | GetDb | UpdateDb

text \<open>\<open>CoreRuntime._actions\<close>; a type without an action is dropped.\<close>

definition core_actions :: "(string \<times> core_action) list" where
  "core_actions =
     [(''CORE_DB_ACTION'', SendToCore), (''DeploySecretContract'', PreParse), (''ComputeTask'', PreParse),
      (''GetRegistrationParams'', PreParse), (''NewTaskEncryptionKey'', PreParse), (''GetAllTips'', GetDb),
      (''GetAllAddrs'', GetDb), (''GetDeltas'', GetDb), (''GetContract'', GetDb), (''UpdateDb'', UpdateDb),
      (''GetTips'', GetDb), (''GetPTTRequest'', GetDb), (''PTTResponse'', GetDb)]"

definition raw_input :: "core_input \<Rightarrow> json" where
  "raw_input i = (case i of RawInput v \<Rightarrow> v | SyncInput m \<Rightarrow> syncRaw m)"

text \<open>
  \<open>UpdateDbAction._buildRequest\<close>: a published result is already a request; a message of a
  synchronisation becomes one. The request is \<open>null\<close> for any other message.
\<close>

definition buildUpdateRequest :: "string \<Rightarrow> core_input \<Rightarrow> json js" where
  "buildUpdateRequest rid i =
     (case i of
        RawInput v \<Rightarrow>
          bindE (get_prop v ''type'') (\<lambda>t. if truthy t then Inr v else Inl JsTypeError)
      | SyncInput m \<Rightarrow>
          if sync_type m = SYNC_STATE_RES
          then bindE (sync_deltas m) (\<lambda>ds. Inr (JObj
                 [(''id'', JStr rid), (''type'', JStr ''UpdateDeltas''), (''deltas'', ds)]))
          else if sync_type m = SYNC_BCODE_RES
          then bindE (sync_address m) (\<lambda>a. bindE (sync_bytecode m) (\<lambda>b. Inr (JObj
                 [(''id'', JStr rid), (''type'', JStr ''UpdateNewContract''), (''address'', a), (''bytecode'', b)])))
          else Inr JNull)"

definition getDbRequest :: "core_req \<Rightarrow> json" where
  "getDbRequest r = JObj [(''id'', crId r), (''type'', crType r), (''input'', raw_input (crInput r))]"

text \<open>The message an action hands to \<open>SendToCoreAction\<close>; called with an envelope itself, it throws.\<close>

definition action_message :: "string \<Rightarrow> core_action \<Rightarrow> core_req \<Rightarrow> json js" where
  "action_message rid act r =
     (case act of
        SendToCore \<Rightarrow> Inl JsTypeError
      | PreParse \<Rightarrow> Inr (getDbRequest r)
      | GetDb \<Rightarrow> Inr (getDbRequest r)
      | UpdateDb \<Rightarrow> buildUpdateRequest rid (crInput r))"

text \<open>\<open>SendToCoreAction\<close>: the message gets the id of the envelope when it has none.\<close>

definition sendToCore_id :: "json \<Rightarrow> json \<Rightarrow> json js" where
  "sendToCore_id envelopId m =
     bindE (get_prop m ''id'') (\<lambda>i. if truthy i then Inr m else set_prop m ''id'' envelopId)"

definition core_message :: "string \<Rightarrow> json \<Rightarrow> core_req \<Rightarrow> json js option" where
  "core_message rid envelopId r =
     map_option (\<lambda>act. bindE (action_message rid act r) (sendToCore_id envelopId))
       (map_of core_actions (js_key (crType r)))"

section \<open>The IPC client\<close>

text \<open>
  The client keeps a callback per message id. Callbacks are tokens; \<open>ipSent\<close> is what went to
  the socket and \<open>ipCalls\<close> the invocations of the callbacks, in order.
\<close>

record ipc =
  ipMap :: "(string \<times> nat option) list"
  ipSent :: "json list"
  ipCalls :: "(nat \<times> (js_error option \<times> json)) list"

definition IpcClient :: ipc where
  "IpcClient = \<lparr>ipMap = [], ipSent = [], ipCalls = []\<rparr>"

definition ip_call :: "nat \<Rightarrow> js_error option \<times> json \<Rightarrow> ipc \<Rightarrow> ipc" where
  "ip_call cb r s = s\<lparr>ipCalls := ipCalls s @ [(cb, r)]\<rparr>"

text \<open>
  \<open>_validateAndStrip\<close>: the validator rejects a message of an unknown type or shape, and
  otherwise answers the message with the properties of its scheme only.
\<close>

type_synonym validator = "json \<Rightarrow> json js"

definition sendJson :: "validator \<Rightarrow> json \<Rightarrow> ipc \<Rightarrow> js_error option \<times> ipc" where
  "sendJson validate m s =
     (case bindE (parse_if_string m) validate of
        Inl e \<Rightarrow> (Some e, s)
      | Inr m' \<Rightarrow> (None, s\<lparr>ipSent := ipSent s @ [m']\<rparr>))"

definition sendJsonAndReceive :: "validator \<Rightarrow> json \<Rightarrow> nat \<Rightarrow> ipc \<Rightarrow> ipc" where
  "sendJsonAndReceive validate m cb s =
     (let s = (if truthy (fld m ''id'') then s
               else ip_call cb (Some (Err MissingFieldsErr ''Missing msg ID''), JUndef) s);
          s = s\<lparr>ipMap := obj_set (ipMap s) (js_key (fld m ''id'')) (Some cb)\<rparr>;
          (err, s) = sendJson validate m s
      in case err of None \<Rightarrow> s | Some e \<Rightarrow> ip_call cb (Some e, JUndef) s)"

text \<open>\<open>_initContextListener\<close>: a response invokes the callback of its id and clears it.\<close>

definition ipc_message :: "json \<Rightarrow> ipc \<Rightarrow> ipc" where
  "ipc_message m s =
     (case map_of (ipMap s) (js_key (fld m ''id'')) of
        Some (Some cb) \<Rightarrow>
          (ip_call cb (None, m) s)\<lparr>ipMap := obj_set (ipMap s) (js_key (fld m ''id'')) None\<rparr>
      | _ \<Rightarrow> s)"

section \<open>A request to core and its response\<close>

text \<open>
  What the node's \<open>sendAndReceive\<close> resolves with when nothing else is in flight: the content
  of the response envelope. \<open>None\<close> when the request is dropped, an exception is thrown on the
  way, or core does not answer. The core process is the parameter \<open>server\<close>.
\<close>

type_synonym 'w core_server = "json \<Rightarrow> 'w \<Rightarrow> json option \<times> 'w"

definition response_content :: "string \<Rightarrow> js_error + json \<Rightarrow> json option" where
  "response_content rid r =
     (case attach_id rid (case r of Inl e \<Rightarrow> JObj [(''error'', (case e of ErrVal v \<Rightarrow> v | _ \<Rightarrow> JObj []))] | Inr m \<Rightarrow> m) of
        Inl e \<Rightarrow> None
      | Inr m \<Rightarrow> Some m)"

definition core_exchange ::
    "string \<Rightarrow> validator \<Rightarrow> 'w core_server \<Rightarrow> json \<Rightarrow> core_req \<Rightarrow> 'w \<Rightarrow> json option \<times> 'w" where
  "core_exchange rid validate server envelopId r w =
     (case core_message rid envelopId r of
        Some (Inr m) \<Rightarrow>
          (case validate m of
             Inl e \<Rightarrow> (response_content rid (Inl e), w)
           | Inr m' \<Rightarrow>
               (case server m' w of
                  (None, w) \<Rightarrow> (None, w)
                | (Some resp, w) \<Rightarrow> (response_content rid (Inr resp), w)))
      | _ \<Rightarrow> (None, w))"

section \<open>Properties of the IPC client\<close>

datatype ipc_step = Send json nat | Message json

fun do_ipc :: "validator \<Rightarrow> ipc_step \<Rightarrow> ipc \<Rightarrow> ipc" where
  "do_ipc validate (Send m cb) s = sendJsonAndReceive validate m cb s"
| "do_ipc validate (Message m) s = ipc_message m s"

definition run_ipc :: "validator \<Rightarrow> ipc_step list \<Rightarrow> ipc" where
  "run_ipc validate sts = foldl (\<lambda>s st. do_ipc validate st s) IpcClient sts"

text \<open>The requests of a run: the callback and the id of its message.\<close>

fun sends :: "ipc_step list \<Rightarrow> (nat \<times> json) list" where
  "sends [] = []"
| "sends (Send m cb # sts) = (cb, m) # sends sts"
| "sends (Message m # sts) = sends sts"

definition good_send :: "validator \<Rightarrow> nat \<times> json \<Rightarrow> bool" where
  "good_send validate p \<longleftrightarrow> is_obj (snd p) \<and> truthy (fld (snd p) ''id'') \<and> (\<exists>m'. validate (snd p) = Inr m')"

definition send_key :: "nat \<times> json \<Rightarrow> string" where
  "send_key p = js_key (fld (snd p) ''id'')"

lemma sends_append: "sends (xs @ ys) = sends xs @ sends ys"
  by (induction xs rule: sends.induct) auto

text \<open>The invocations of a callback, in order.\<close>

definition calls_of :: "nat \<Rightarrow> ipc \<Rightarrow> (js_error option \<times> json) list" where
  "calls_of cb s = map snd (filter (\<lambda>c. fst c = cb) (ipCalls s))"

lemma calls_of_call [simp]: "calls_of cb (ip_call c r s) = calls_of cb s @ (if c = cb then [r] else [])"
  by (simp add: calls_of_def ip_call_def)

lemma calls_of_map [simp]:
  "calls_of cb (s\<lparr>ipMap := m\<rparr>) = calls_of cb s" "calls_of cb (s\<lparr>ipSent := l\<rparr>) = calls_of cb s"
  by (simp_all add: calls_of_def)

text \<open>
  The invariant: an id has a callback only if it was sent with it, and, for a well-formed request,
  if it was not answered; a well-formed request was answered at most once, by a message with its
  id; and only the callbacks of requests are invoked.
\<close>

definition registered :: "validator \<Rightarrow> (nat \<times> json) list \<Rightarrow> ipc \<Rightarrow> bool" where
  "registered validate ss s \<longleftrightarrow> (\<forall>k cb. map_of (ipMap s) k = Some (Some cb) \<longrightarrow>
     (\<exists>m. (cb, m) \<in> set ss \<and> send_key (cb, m) = k \<and> (good_send validate (cb, m) \<longrightarrow> calls_of cb s = [])))"

definition answered :: "validator \<Rightarrow> (nat \<times> json) list \<Rightarrow> ipc \<Rightarrow> bool" where
  "answered validate ss s \<longleftrightarrow> (\<forall>cb m. (cb, m) \<in> set ss \<longrightarrow> good_send validate (cb, m) \<longrightarrow>
     calls_of cb s = [] \<or> (\<exists>r. calls_of cb s = [(None, r)] \<and> js_key (fld r ''id'') = send_key (cb, m)))"

definition ipc_inv :: "validator \<Rightarrow> (nat \<times> json) list \<Rightarrow> ipc \<Rightarrow> bool" where
  "ipc_inv validate ss s \<longleftrightarrow> registered validate ss s \<and> answered validate ss s \<and>
     (\<forall>cb. cb \<notin> fst ` set ss \<longrightarrow> calls_of cb s = [])"

lemma registeredD:
  "registered validate ss s \<Longrightarrow> map_of (ipMap s) k = Some (Some cb) \<Longrightarrow>
     \<exists>m. (cb, m) \<in> set ss \<and> send_key (cb, m) = k \<and> (good_send validate (cb, m) \<longrightarrow> calls_of cb s = [])"
  by (simp add: registered_def)

lemma sendJsonAndReceive_good:
  assumes "good_send validate (cb, m)"
  shows "sendJsonAndReceive validate m cb s =
    s\<lparr>ipMap := obj_set (ipMap s) (send_key (cb, m)) (Some cb), ipSent := ipSent s @ [projr (validate m)]\<rparr>"
proof -
  obtain m' fs where "validate m = Inr m'" "m = JObj fs" "truthy (fld m ''id'')"
    using assms by (cases m) (auto simp: good_send_def)
  then show ?thesis
    by (simp add: sendJsonAndReceive_def Let_def sendJson_def parse_if_string_def send_key_def)
qed

text \<open>Whatever is sent, only its own callback is registered and, at once, invoked.\<close>

lemma sendJsonAndReceive_parts:
  "ipMap (sendJsonAndReceive validate m cb s) = obj_set (ipMap s) (send_key (cb, m)) (Some cb)"
  "c \<noteq> cb \<Longrightarrow> calls_of c (sendJsonAndReceive validate m cb s) = calls_of c s"
  by (simp_all add: sendJsonAndReceive_def Let_def sendJson_def send_key_def ip_call_def calls_of_def split: sum.split)

lemma ipc_inv_send:
  assumes "ipc_inv validate ss s" "cb \<notin> fst ` set ss"
  shows "ipc_inv validate (ss @ [(cb, m)]) (sendJsonAndReceive validate m cb s)"
proof -
  let ?s' = "sendJsonAndReceive validate m cb s"
  have inv: "registered validate ss s" "answered validate ss s" "\<And>c. c \<notin> fst ` set ss \<Longrightarrow> calls_of c s = []"
    using assms(1) by (simp_all add: ipc_inv_def)
  have own: "good_send validate (cb, m) \<Longrightarrow> calls_of cb ?s' = []"
    using inv(3) [OF assms(2)] by (simp add: sendJsonAndReceive_good)
  have old: "calls_of c ?s' = calls_of c s" if "(c, x) \<in> set ss" for c x
    using that assms(2) by (intro sendJsonAndReceive_parts(2)) force
  have "\<exists>x. (c, x) \<in> set (ss @ [(cb, m)]) \<and> send_key (c, x) = k \<and> (good_send validate (c, x) \<longrightarrow> calls_of c ?s' = [])"
    if "map_of (ipMap ?s') k = Some (Some c)" for k c
  proof (cases "k = send_key (cb, m)")
    case True
    then have "c = cb" using that by (simp add: sendJsonAndReceive_parts)
    then show ?thesis using own True by auto
  next
    case False
    then have "map_of (ipMap s) k = Some (Some c)" using that by (simp add: sendJsonAndReceive_parts)
    then obtain x where "(c, x) \<in> set ss" "send_key (c, x) = k" "good_send validate (c, x) \<longrightarrow> calls_of c s = []"
      using registeredD [OF inv(1)] by blast
    then show ?thesis using old by (metis Un_iff set_append)
  qed
  moreover have "answered validate (ss @ [(cb, m)]) ?s'"
    using inv(2) own old unfolding answered_def by (metis Un_iff empty_iff empty_set insert_iff list.simps(15) prod.inject set_append)
  moreover have "calls_of c ?s' = []" if "c \<notin> fst ` set (ss @ [(cb, m)])" for c
    using that inv(3) [of c] sendJsonAndReceive_parts(2) [of c cb] by auto
  ultimately show ?thesis by (simp add: ipc_inv_def registered_def)
qed

lemma ipc_inv_message:
  assumes "ipc_inv validate ss s" "distinct (map fst ss)"
  shows "ipc_inv validate ss (ipc_message m s)"
proof (cases "\<exists>cb. map_of (ipMap s) (js_key (fld m ''id'')) = Some (Some cb)")
  case True
  let ?k = "js_key (fld m ''id'')"
  obtain cb where reg: "map_of (ipMap s) ?k = Some (Some cb)" using True by blast
  have inv: "registered validate ss s" "answered validate ss s" "\<And>c. c \<notin> fst ` set ss \<Longrightarrow> calls_of c s = []"
    using assms(1) by (simp_all add: ipc_inv_def)
  obtain mm where mm: "(cb, mm) \<in> set ss" "send_key (cb, mm) = ?k" "good_send validate (cb, mm) \<longrightarrow> calls_of cb s = []"
    using registeredD [OF inv(1) reg] by blast
  have only: "x = mm" if "(cb, x) \<in> set ss" for x
    using that mm(1) assms(2) by (metis eq_key_imp_eq_value)
  let ?s' = "ipc_message m s"
  have map: "ipMap ?s' = obj_set (ipMap s) ?k None" by (simp add: ipc_message_def reg)
  have calls: "calls_of c ?s' = calls_of c s @ (if c = cb then [(None, m)] else [])" for c
    by (simp add: ipc_message_def reg)
  have "registered validate ss ?s'"
    unfolding registered_def
  proof (intro allI impI)
    fix k c
    assume k: "map_of (ipMap ?s') k = Some (Some c)"
    then have k': "k \<noteq> ?k" "map_of (ipMap s) k = Some (Some c)" by (auto simp: map split: if_splits)
    obtain x where x: "(c, x) \<in> set ss" "send_key (c, x) = k" "good_send validate (c, x) \<longrightarrow> calls_of c s = []"
      using registeredD [OF inv(1) k'(2)] by blast
    then have "c \<noteq> cb" using only mm(2) k'(1) by auto
    then show "\<exists>x. (c, x) \<in> set ss \<and> send_key (c, x) = k \<and> (good_send validate (c, x) \<longrightarrow> calls_of c ?s' = [])"
      using x calls by auto
  qed
  moreover have "answered validate ss ?s'"
    unfolding answered_def
  proof (intro allI impI)
    fix c x
    assume x: "(c, x) \<in> set ss" "good_send validate (c, x)"
    show "calls_of c ?s' = [] \<or> (\<exists>r. calls_of c ?s' = [(None, r)] \<and> js_key (fld r ''id'') = send_key (c, x))"
    proof (cases "c = cb")
      case True
      then show ?thesis using only x mm(2,3) calls by auto
    next
      case False
      then show ?thesis using inv(2) x calls by (simp add: answered_def)
    qed
  qed
  moreover have "calls_of c ?s' = []" if "c \<notin> fst ` set ss" for c
    using that inv(3) mm(1) calls by force
  ultimately show ?thesis by (simp add: ipc_inv_def)
next
  case False
  then have "ipc_message m s = s" by (auto simp: ipc_message_def split: option.splits)
  with assms(1) show ?thesis by simp
qed

text \<open>The client is a machine; every request of a run has a callback of its own.\<close>

interpretation ipc_run: machine IpcClient "do_ipc validate" "\<lambda>sts. distinct (map fst (sends sts))"
  "\<lambda>sts. ipc_inv validate (sends sts)" for validate
proof unfold_locales
  show "ipc_inv validate (sends []) IpcClient"
    by (simp add: IpcClient_def ipc_inv_def registered_def answered_def calls_of_def)
next
  fix sts st s
  assume "distinct (map fst (sends (sts @ [st])))" "ipc_inv validate (sends sts) s"
  then show "ipc_inv validate (sends (sts @ [st])) (do_ipc validate st s)"
    using ipc_inv_send [of validate "sends sts" s] ipc_inv_message [of validate "sends sts" s]
    by (cases st) (simp_all add: sends_append)
qed (simp add: sends_append)

text \<open>From its request to its response a callback is registered under its id or was invoked.\<close>

definition pending_or_called :: "nat \<Rightarrow> string \<Rightarrow> ipc \<Rightarrow> bool" where
  "pending_or_called cb k s \<longleftrightarrow> map_of (ipMap s) k = Some (Some cb) \<or> cb \<in> fst ` set (ipCalls s)"

lemma pending_step:
  assumes "pending_or_called cb k s" "\<forall>p\<in>set (sends [st]). good_send validate p \<and> send_key p \<noteq> k"
  shows "pending_or_called cb k (do_ipc validate st s)"
proof (cases st)
  case (Send m c)
  then have "good_send validate (c, m)" "send_key (c, m) \<noteq> k" using assms(2) by auto
  then show ?thesis using assms(1) Send
    by (simp add: pending_or_called_def sendJsonAndReceive_good)
next
  case (Message m)
  then show ?thesis using assms(1)
    by (auto simp: pending_or_called_def ipc_message_def ip_call_def split: option.splits)
qed

definition quiet_for :: "validator \<Rightarrow> string \<Rightarrow> ipc_step \<Rightarrow> bool" where
  "quiet_for validate k st \<longleftrightarrow> (\<forall>p\<in>set (sends [st]). good_send validate p \<and> send_key p \<noteq> k)"

lemma quiet_for_all:
  "list_all (quiet_for validate k) sts \<longleftrightarrow> (\<forall>p\<in>set (sends sts). good_send validate p \<and> send_key p \<noteq> k)"
  by (induction sts rule: sends.induct) (auto simp: quiet_for_def)

interpretation ipc_pending:
  lasting IpcClient "do_ipc validate" "\<lambda>_. True" "\<lambda>_ _. True" "quiet_for validate k" "pending_or_called cb k"
  for validate k cb
  by unfold_locales (auto simp: quiet_for_def intro: pending_step)

lemma pending_message:
  assumes "pending_or_called cb k s" "js_key (fld r ''id'') = k"
  shows "cb \<in> fst ` set (ipCalls (ipc_message r s))"
  using assms by (auto simp: pending_or_called_def ipc_message_def ip_call_def split: option.splits)

text \<open>
  C19: responses of core reach the right callbacks. However requests, well-formed or not, and incoming
  messages interleave: the callback of a request that is an object with an id and passes the
  validator is invoked at most once, without an error, and with a message that carries the id of this
  request.
\<close>

theorem ipc_correlates:
  assumes "distinct (map fst (sends sts))" "(cb, m) \<in> set (sends sts)" "good_send validate (cb, m)"
  shows "calls_of cb (run_ipc validate sts) = [] \<or>
    (\<exists>r. calls_of cb (run_ipc validate sts) = [(None, r)] \<and> js_key (fld r ''id'') = js_key (fld m ''id''))"
  using ipc_run.always [OF assms(1), of validate] assms(2,3)
  by (auto simp: ipc_inv_def answered_def send_key_def run_ipc_def)

text \<open>
  A request without an id goes on after its error: when the validator rejects it too, its callback is
  invoked with both errors.
\<close>

lemma missing_id_called_twice:
  assumes "\<not> truthy (fld m ''id'')" "is_obj m" "validate m = Inl e"
  shows "calls_of cb (run_ipc validate [Send m cb]) = [(Some (Err MissingFieldsErr ''Missing msg ID''), JUndef), (Some e, JUndef)]"
  using assms by (cases m) (simp_all add: run_ipc_def IpcClient_def sendJsonAndReceive_def sendJson_def
      parse_if_string_def calls_of_def ip_call_def)

text \<open>
  A response is delivered. When no other request uses the id of a request, its callback
  has been invoked once a message with that id arrived after the request.
\<close>

lemma ipc_delivers:
  assumes "\<forall>p\<in>set (sends (sts @ Send m cb # sts')). good_send validate p"
    and "\<forall>p\<in>set (sends sts'). js_key (fld (snd p) ''id'') \<noteq> js_key (fld m ''id'')"
    and "js_key (fld r ''id'') = js_key (fld m ''id'')"
  shows "cb \<in> fst ` set (ipCalls (run_ipc validate (sts @ Send m cb # sts' @ [Message r])))"
proof -
  let ?k = "js_key (fld m ''id'')"
  have g: "good_send validate (cb, m)" "list_all (quiet_for validate ?k) sts'"
    using assms(1,2) by (auto simp: sends_append send_key_def quiet_for_all)
  have "pending_or_called cb ?k (foldl (\<lambda>s st. do_ipc validate st s) IpcClient (sts @ [Send m cb]))"
    by (simp add: pending_or_called_def sendJsonAndReceive_good [OF g(1)] send_key_def)
  from ipc_pending.lasts [OF TrueI g(2) this] show ?thesis
    using pending_message [OF _ assms(3)] by (simp add: run_ipc_def)
qed

definition ex_msg :: "string \<Rightarrow> json" where
  "ex_msg i = JObj [(''id'', JStr i), (''type'', JStr ''GetAllTips'')]"

theorem ipc_correlates_witness:
  "calls_of 1 (run_ipc Inr [Send (ex_msg ''a'') 1, Send (ex_msg ''b'') 2, Send (JObj []) 3,
      Message (ex_msg ''b''), Message (ex_msg ''a''), Message (ex_msg ''a'')]) = [(None, ex_msg ''a'')]"
proof -
  let ?sts = "[Send (ex_msg ''a'') 1, Send (ex_msg ''b'') 2, Send (JObj []) 3,
      Message (ex_msg ''b''), Message (ex_msg ''a''), Message (ex_msg ''a'')]"
  have "calls_of 1 (run_ipc Inr ?sts) = [] \<or> (\<exists>r. calls_of 1 (run_ipc Inr ?sts) = [(None, r)] \<and>
      js_key (fld r ''id'') = js_key (fld (ex_msg ''a'') ''id''))"
    by (rule ipc_correlates) (simp_all add: ex_msg_def good_send_def obj_get_def)
  moreover have "map snd (calls_of 1 (run_ipc Inr ?sts)) = [ex_msg ''a'']" by code_simp
  ultimately show ?thesis by auto
qed

end
