(* ===== verification/Db_Actions.thy ===== *)
theory Db_Actions
  imports Core_Channel
begin

text \<open>
  The actions under \<open>worker/controller/actions/db\<close> that read and write core's database
  through the main controller. Each gets what \<open>communicator().sendAndReceive\<close> resolves with
  from the parameter \<open>exchange\<close>, which \<open>Core_Channel.core_exchange\<close> instantiates.
\<close>

type_synonym 'w exchange = "core_req \<Rightarrow> 'w \<Rightarrow> json option \<times> 'w"

text \<open>
  The invocation of a callback \<open>(err, result)\<close>: a falsy error counts as none. \<open>None\<close> stands for
  a callback that is never invoked.
\<close>

type_synonym reply = "(js_error option \<times> json) option"

definition err_of :: "json \<Rightarrow> js_error option" where
  "err_of v = (if truthy v then Some (ErrVal v) else None)"

text \<open>\<open>new Promise((res, rej) => action((err, v) => err ? rej(err) : res(v)))\<close>.\<close>

definition settle_reply :: "reply \<Rightarrow> json js option" where
  "settle_reply r = map_option (\<lambda>(err, v). case err of Some e \<Rightarrow> Inl e | None \<Rightarrow> Inr v) r"

section \<open>Requests\<close>

definition CORE_REQUESTS :: "string list" where
  "CORE_REQUESTS = [''CORE_DB_ACTION'', ''GetRegistrationParams'', ''GetTip'', ''GetTips'', ''GetAllTips'',
     ''GetAllAddrs'', ''GetDelta'', ''GetDeltas'', ''GetContract'', ''UpdateNewContract'',
     ''UpdateNewContractOnDeployment'', ''RemoveContract'', ''UpdateDeltas'', ''RemoveDeltas'', ''UpdateDb'',
     ''NewTaskEncryptionKey'', ''DeploySecretContract'', ''ComputeTask'', ''FailedTask'', ''GetPTTRequest'',
     ''PTTResponse'']"

definition validateRequest :: "json \<Rightarrow> bool" where
  "validateRequest reqType \<longleftrightarrow> js_key reqType \<in> set CORE_REQUESTS \<or> js_key reqType \<in> set proto_names"

text \<open>\<open>DbRequestAction\<close>; the envelope gives the request its random id, which the exchange leaves out.\<close>

definition dbRequest :: "'w exchange \<Rightarrow> json \<Rightarrow> core_input \<Rightarrow> 'w \<Rightarrow> reply \<times> 'w" where
  "dbRequest exchange queryType input w =
     (if \<not> validateRequest queryType
      then (Some (Some (Err TypeErr ''invalid queryType''), JUndef), w)
      else case exchange \<lparr>crId = JUndef, crType = queryType, crInput = input\<rparr> w of
             (None, w) \<Rightarrow> (None, w)
           | (Some parsed, w) \<Rightarrow>
               if nullish parsed then (None, w)
               else (Some (err_of (fld parsed ''error''), parsed), w))"

section \<open>Reading\<close>

text \<open>\<open>GetDeltasAction\<close> and \<open>GetContractCodeAction\<close>, for the message of a peer.\<close>

definition getDeltasInput :: "sync_msg \<Rightarrow> json" where
  "getDeltasInput m =
     (let range = sync_getRange m in
      JArr [JObj [(''address'', sync_contractAddress m), (''from'', fld range ''fromIndex''), (''to'', fld range ''toIndex'')]])"

definition getDeltas :: "'w exchange \<Rightarrow> sync_msg \<Rightarrow> 'w \<Rightarrow> reply \<times> 'w" where
  "getDeltas exchange m w = dbRequest exchange GetDeltas (RawInput (getDeltasInput m)) w"

definition getContractCode :: "'w exchange \<Rightarrow> sync_msg \<Rightarrow> 'w \<Rightarrow> reply \<times> 'w" where
  "getContractCode exchange m w =
     dbRequest exchange GetContract (RawInput (sync_contractAddress m)) w"

text \<open>\<open>result && result.result && result.result.tips\<close>, or the empty list.\<close>

definition tips_of :: "json \<Rightarrow> json" where
  "tips_of result =
     (let tips = fld (fld result ''result'') ''tips'' in if truthy tips then tips else JArr [])"

definition map_reply :: "(json \<Rightarrow> json) \<Rightarrow> reply \<Rightarrow> reply" where
  "map_reply f r = map_option (\<lambda>(err, v). (err, f v)) r"

definition getAllTips :: "'w exchange \<Rightarrow> 'w \<Rightarrow> reply \<times> 'w" where
  "getAllTips exchange w =
     (let (r, w) = dbRequest exchange (JStr ''GetAllTips'') (RawInput JUndef) w in (map_reply tips_of r, w))"

definition getTips :: "'w exchange \<Rightarrow> json \<Rightarrow> 'w \<Rightarrow> reply \<times> 'w" where
  "getTips exchange contractAddresses w =
     (let (r, w) = dbRequest exchange (JStr ''GetTips'') (RawInput (JArr [contractAddresses])) w
      in (map_reply tips_of r, w))"

definition getAllAddrs :: "'w exchange \<Rightarrow> 'w \<Rightarrow> reply \<times> 'w" where
  "getAllAddrs exchange w = dbRequest exchange (JStr ''GetAllAddrs'') (RawInput JUndef) w"

text \<open>\<open>Provider.dbRequest\<close>: which action answers a query of the provider.\<close>

definition provider_dbRequest :: "'w exchange \<Rightarrow> json \<Rightarrow> sync_msg \<Rightarrow> 'w \<Rightarrow> reply \<times> 'w" where
  "provider_dbRequest exchange dbQueryType m w =
     (if dbQueryType = GetDeltas then getDeltas exchange m w
      else if dbQueryType = GetContract then getContractCode exchange m w
      else (None, w))"

section \<open>Writing\<close>

text \<open>\<open>UpdateDbAction\<close>: the status is read from the response itself.\<close>

definition update_error :: "js_error option \<Rightarrow> json \<Rightarrow> js_error option" where
  "update_error err result =
     (case err of
        Some e \<Rightarrow> Some e
      | None \<Rightarrow>
          if fld result ''status'' \<noteq> JNum 0
          then err_of (if truthy (fld result ''errors'') then fld result ''errors'' else fld result ''status'')
          else None)"

definition updateDb :: "'w exchange \<Rightarrow> core_input \<Rightarrow> 'w \<Rightarrow> reply \<times> 'w" where
  "updateDb exchange msgRes w =
     (let (r, w) = dbRequest exchange (JStr ''UpdateDb'') msgRes w
      in (map_option (\<lambda>(err, result). (update_error err result, result)) r, w))"

definition asyncUpdateDb :: "'w exchange \<Rightarrow> core_input \<Rightarrow> 'w \<Rightarrow> json js option \<times> 'w" where
  "asyncUpdateDb exchange msgRes w = (let (r, w) = updateDb exchange msgRes w in (settle_reply r, w))"

section \<open>Properties\<close>

lemma validate_known: "q \<in> set CORE_REQUESTS \<Longrightarrow> validateRequest (JStr q)"
  by (simp add: validateRequest_def)

lemma updateDb_answer:
  assumes "exchange \<lparr>crId = JUndef, crType = JStr ''UpdateDb'', crInput = i\<rparr> w = (Some r, w')" "\<not> nullish r"
  shows "updateDb exchange i w = (Some (update_error (err_of (fld r ''error'')) r, r), w')"
  using assms validate_known [of "''UpdateDb''"] by (simp add: updateDb_def dbRequest_def CORE_REQUESTS_def)

text \<open>
  A response to a write in the documented form, \<open>{id, type, result: {status, errors}}\<close>, is
  taken as a success whatever its status and errors are: the promise of the write resolves
  with it.
\<close>

lemma documented_failure_accepted:
  assumes "exchange \<lparr>crId = JUndef, crType = JStr ''UpdateDb'', crInput = i\<rparr> w =
      (Some (JObj [(''id'', rid), (''type'', t), (''result'', JObj [(''status'', st), (''errors'', errs)])]), w')"
  shows "asyncUpdateDb exchange i w =
    (Some (Inr (JObj [(''id'', rid), (''type'', t), (''result'', JObj [(''status'', st), (''errors'', errs)])])), w')"
  using updateDb_answer [of exchange i w] assms
  by (simp add: asyncUpdateDb_def nullish_def settle_reply_def update_error_def err_of_def obj_get_def)

text \<open>
  What a write reports for a response of core at the top level: an error of the channel
  first, then the errors, then a status that is not zero; the write succeeds exactly when
  there is no error of the channel, and the status is zero or missing with no errors.
\<close>

lemma updateDb_outcome:
  assumes "exchange \<lparr>crId = JUndef, crType = JStr ''UpdateDb'', crInput = i\<rparr> w = (Some (JObj fs), w')"
  shows "(\<exists>v. asyncUpdateDb exchange i w = (Some (Inr v), w')) \<longleftrightarrow>
    \<not> truthy (obj_get fs ''error'') \<and>
    (obj_get fs ''status'' = JNum 0 \<or> \<not> truthy (obj_get fs ''errors'') \<and> \<not> truthy (obj_get fs ''status''))"
  using updateDb_answer [of exchange i w] assms
  by (auto simp: asyncUpdateDb_def nullish_def settle_reply_def update_error_def err_of_def)

text \<open>
  A request of an unknown type is refused before anything is sent: the callback gets a
  type error and the world is unchanged.
\<close>

lemma dbRequest_refused:
  assumes "q \<notin> set CORE_REQUESTS" "q \<notin> set proto_names"
  shows "dbRequest exchange (JStr q) i w = (Some (Some (Err TypeErr ''invalid queryType''), JUndef), w)"
  using assms by (simp add: dbRequest_def validateRequest_def)

end
