(* ===== verification/Ptt.thy ===== *)
theory Ptt
  imports Db_Actions Tasks
begin

text \<open>
  The transfer of state keys from the principal node (PTT): \<open>worker/handlers/PrincipalNode.js\<close>,
  \<open>GetStateKeysAction.js\<close> and \<open>HandleVerifiedTaskAction.js\<close>. The action is split at its
  awaited calls, so that tasks that are verified meanwhile interleave with it.
\<close>

section \<open>Requests to the principal node\<close>

definition EPOCH_STATE_TRANSITION_ERROR_CODE :: int where
  "EPOCH_STATE_TRANSITION_ERROR_CODE = -32002"

definition PRINCIPAL_RETRIES :: nat where
  "PRINCIPAL_RETRIES = 10"

text \<open>
  One answer of the JSON-RPC client: an error, or a response. The response of a client
  without an error is an object, as JSON-RPC prescribes.
\<close>

type_synonym km_answer = "js_error + (string \<times> json) list"

definition retryable :: "km_answer \<Rightarrow> bool" where
  "retryable a =
     (case a of
        Inl err \<Rightarrow> True
      | Inr response \<Rightarrow>
          truthy (obj_get response ''error'') \<and> truthy (fld (obj_get response ''error'') ''code'') \<and>
          fld (obj_get response ''error'') ''code'' = JNum EPOCH_STATE_TRANSITION_ERROR_CODE)"

definition km_result :: "km_answer \<Rightarrow> json js" where
  "km_result a =
     (case a of
        Inl err \<Rightarrow> Inl err
      | Inr response \<Rightarrow>
          if truthy (obj_get response ''error'') then Inl (ErrVal (obj_get response ''error''))
          else Inr (obj_get response ''result''))"

text \<open>
  \<open>operation.attempt\<close> with the retries that are left, on the answers in the order they come;
  \<open>operation.retry\<close> starts another attempt while there is one left. The result, and how many
  answers were used; \<open>None\<close> while an answer is awaited.
\<close>

fun km_attempts :: "nat \<Rightarrow> km_answer list \<Rightarrow> (json js \<times> nat) option" where
  "km_attempts retries [] = None"
| "km_attempts retries (a # as) =
     (if retryable a \<and> retries > 0
      then map_option (\<lambda>(r, n). (r, Suc n)) (km_attempts (retries - 1) as)
      else Some (km_result a, 1))"

definition principal_getStateKeys :: "msg_principal option \<Rightarrow> km_answer list \<Rightarrow> json js option" where
  "principal_getStateKeys m answers =
     (case m of
        None \<Rightarrow> Some (Inl (Err PlainError ''getStateKeys accepts only object of type MsgPrincipal''))
      | Some _ \<Rightarrow> map_option fst (km_attempts PRINCIPAL_RETRIES answers))"

section \<open>The state of a transfer\<close>

text \<open>
  \<open>ptWaiting\<close> are the tasks whose execution is scheduled with \<open>once(PTT_END_EVENT, ...)\<close>, \<open>ptExecuted\<close> the
  tasks for which \<open>EXEC_TASK\<close> was issued, \<open>ptReplies\<close> the invocations of \<open>onResponse\<close> by the number of the
  call. \<open>ptPhase\<close> is the point at which a transfer waits.
\<close>

record ptt_params =
  ppAddresses :: json
  ppBlockNumber :: json

datatype ptt_phase =
    AwaitCore nat ptt_params
  | AwaitPrincipal nat json
  | AwaitResponse nat json
  | Stuck nat

record ptt =
  ptInProgress :: bool
  ptPhase :: "ptt_phase option"
  ptWaiting :: "task list"
  ptExecuted :: "task list"
  ptReplies :: "(nat \<times> js_error option) list"

definition PrincipalNode :: ptt where
  "PrincipalNode = \<lparr>ptInProgress = False, ptPhase = None, ptWaiting = [], ptExecuted = [], ptReplies = []\<rparr>"

definition startPTT :: "ptt \<Rightarrow> bool \<times> ptt" where
  "startPTT s = (if ptInProgress s then (False, s) else (True, s\<lparr>ptInProgress := True\<rparr>))"

text \<open>\<open>onPTTEnd\<close>: the listeners of the event run in the order they were added and are removed.\<close>

definition onPTTEnd :: "ptt \<Rightarrow> ptt" where
  "onPTTEnd s = s\<lparr>ptInProgress := False, ptPhase := None, ptExecuted := ptExecuted s @ ptWaiting s, ptWaiting := []\<rparr>"

abbreviation isInPTT :: "ptt \<Rightarrow> bool" where
  "isInPTT \<equiv> ptInProgress"

definition handleVerifiedTask :: "task \<Rightarrow> ptt \<Rightarrow> ptt" where
  "handleVerifiedTask t s =
     (if isInPTT s then s\<lparr>ptWaiting := ptWaiting s @ [t]\<rparr>
      else s\<lparr>ptExecuted := ptExecuted s @ [t]\<rparr>)"

definition reply_to :: "nat \<Rightarrow> js_error option \<Rightarrow> ptt \<Rightarrow> ptt" where
  "reply_to cb r s = s\<lparr>ptReplies := ptReplies s @ [(cb, r)]\<rparr>"

definition handleError :: "nat \<Rightarrow> js_error option \<Rightarrow> ptt \<Rightarrow> ptt" where
  "handleError cb err s = reply_to cb err (onPTTEnd s)"

section \<open>The action\<close>

definition getStateKeys_start :: "nat \<Rightarrow> ptt_params \<Rightarrow> ptt \<Rightarrow> ptt" where
  "getStateKeys_start cb params s =
     (let (ok, s') = startPTT s in
      if \<not> ok then reply_to cb (Some (ErrVal (JStr ''PTT in progress.. aborting GetStateKeysAction''))) s'
      else s'\<lparr>ptPhase := Some (AwaitCore cb params)\<rparr>)"

definition buildRequestMsg :: "json \<Rightarrow> ptt_params \<Rightarrow> msg_principal option js" where
  "buildRequestMsg coreResponse params =
     bindE (get_prop (fld coreResponse ''result'') ''request'') (\<lambda>request.
     bindE (get_prop (fld coreResponse ''result'') ''workerSig'') (\<lambda>sig.
     Inr (MsgPrincipal_build (JObj
       ([(''request'', request), (''sig'', sig)] @
        (if truthy (ppAddresses params) then [(''addresses'', ppAddresses params)] else []) @
        (if truthy (ppBlockNumber params) then [(''blockNumber'', ppBlockNumber params)] else []))))))"

text \<open>
  Core's answer to \<open>GetPTTRequest\<close>. A message that cannot be built is refused by the principal
  node's handler at once; otherwise its answer is awaited.
\<close>

definition getStateKeys_core :: "js_error option \<times> json \<Rightarrow> ptt \<Rightarrow> ptt" where
  "getStateKeys_core reply s =
     (case ptPhase s of
        Some (AwaitCore cb params) \<Rightarrow>
          (let (err, coreResponse) = reply in
           if err \<noteq> None \<or> fld coreResponse ''type'' = JStr ''Error''
           then handleError cb (if fld coreResponse ''type'' = JStr ''Error''
                                then err_of (fld coreResponse ''msg'') else err) s
           else case buildRequestMsg coreResponse params of
                  Inl e \<Rightarrow> handleError cb (Some e) s
                | Inr None \<Rightarrow> handleError cb
                    (Some (Err PlainError ''getStateKeys accepts only object of type MsgPrincipal'')) s
                | Inr (Some m) \<Rightarrow> s\<lparr>ptPhase := Some (AwaitPrincipal cb (MsgPrincipal_toJson m))\<rparr>)
      | _ \<Rightarrow> s)"

text \<open>
  The settled \<open>getStateKeys\<close> of the principal node. Reading \<open>data\<close> of a missing result throws
  outside the \<open>try\<close> block: the transfer never ends.
\<close>

definition getStateKeys_principal :: "json js \<Rightarrow> ptt \<Rightarrow> ptt" where
  "getStateKeys_principal r s =
     (case ptPhase s of
        Some (AwaitPrincipal cb _) \<Rightarrow>
          (case r of
             Inl e \<Rightarrow> handleError cb (Some e) s
           | Inr principalResponse \<Rightarrow>
               if nullish principalResponse then s\<lparr>ptPhase := Some (Stuck cb)\<rparr>
               else s\<lparr>ptPhase := Some (AwaitResponse cb (JObj [(''response'', fld principalResponse ''data''),
                       (''sig'', fld principalResponse ''sig'')]))\<rparr>)
      | _ \<Rightarrow> s)"

text \<open>\<open>response.result.errors.length > 0\<close>; a missing level throws.\<close>

definition has_errors :: "json \<Rightarrow> bool js" where
  "has_errors response =
     bindE (get_prop (fld response ''result'') ''errors'') (\<lambda>errs.
     case errs of
       JArr xs \<Rightarrow> Inr (xs \<noteq> [])
     | JStr cs \<Rightarrow> Inr (cs \<noteq> [])
     | JUndef \<Rightarrow> Inl JsTypeError
     | JNull \<Rightarrow> Inl JsTypeError
     | _ \<Rightarrow> Inr False)"

text \<open>
  Core's answer to \<open>PTTResponse\<close>. The handler of an error asks for the type of the first
  response of core, which is no error here, instead of this one.
\<close>

definition getStateKeys_response :: "js_error option \<times> json \<Rightarrow> ptt \<Rightarrow> ptt" where
  "getStateKeys_response reply s =
     (case ptPhase s of
        Some (AwaitResponse cb _) \<Rightarrow>
          (let (err, response) = reply;
               failed = (if err \<noteq> None \<or> fld response ''type'' = JStr ''Error'' then Inr True else has_errors response) in
           case failed of
             Inl e \<Rightarrow> s\<lparr>ptPhase := Some (Stuck cb)\<rparr>
           | Inr True \<Rightarrow>
               (if truthy response \<and> truthy (fld response ''result'')
                then case has_errors response of
                       Inl e \<Rightarrow> s\<lparr>ptPhase := Some (Stuck cb)\<rparr>
                     | Inr hasErrs \<Rightarrow> handleError cb (if hasErrs then Some (ErrVal (fld response ''result'')) else err) s
                else handleError cb err s)
           | Inr False \<Rightarrow> reply_to cb None (onPTTEnd s))
      | _ \<Rightarrow> s)"

section \<open>Steps\<close>

datatype ptt_step =
    StartKeys nat ptt_params
  | CoreAnswers "js_error option \<times> json"
  | PrincipalAnswers "json js"
  | CoreConfirms "js_error option \<times> json"
  | TaskVerified task

fun do_ptt :: "ptt_step \<Rightarrow> ptt \<Rightarrow> ptt" where
  "do_ptt (StartKeys cb params) s = getStateKeys_start cb params s"
| "do_ptt (CoreAnswers r) s = getStateKeys_core r s"
| "do_ptt (PrincipalAnswers r) s = getStateKeys_principal r s"
| "do_ptt (CoreConfirms r) s = getStateKeys_response r s"
| "do_ptt (TaskVerified t) s = handleVerifiedTask t s"

definition run_ptt :: "ptt_step list \<Rightarrow> ptt" where
  "run_ptt sts = foldl (\<lambda>s st. do_ptt st s) PrincipalNode sts"

fun verified_tasks :: "ptt_step list \<Rightarrow> task list" where
  "verified_tasks [] = []"
| "verified_tasks (TaskVerified t # sts) = t # verified_tasks sts"
| "verified_tasks (_ # sts) = verified_tasks sts"

fun started :: "ptt_step list \<Rightarrow> nat list" where
  "started [] = []"
| "started (StartKeys cb _ # sts) = cb # started sts"
| "started (_ # sts) = started sts"

lemma verified_tasks_append: "verified_tasks (xs @ ys) = verified_tasks xs @ verified_tasks ys"
  by (induction xs rule: verified_tasks.induct) auto

lemma started_append: "started (xs @ ys) = started xs @ started ys"
  by (induction xs rule: started.induct) auto

fun phase_cb :: "ptt_phase \<Rightarrow> nat" where
  "phase_cb (AwaitCore cb _) = cb"
| "phase_cb (AwaitPrincipal cb _) = cb"
| "phase_cb (AwaitResponse cb _) = cb"
| "phase_cb (Stuck cb) = cb"

text \<open>
  The invariant: the flag is set exactly while a transfer waits somewhere, and tasks wait
  only then.
\<close>

definition ptt_inv :: "ptt \<Rightarrow> bool" where
  "ptt_inv s \<longleftrightarrow> (ptInProgress s \<longleftrightarrow> ptPhase s \<noteq> None) \<and> (ptWaiting s \<noteq> [] \<longrightarrow> ptInProgress s)"

text \<open>
  Every step of the action either moves on within the same call, or ends the transfer and
  answers its call, or answers a refused call.
\<close>

definition moves :: "ptt \<Rightarrow> ptt \<Rightarrow> bool" where
  "moves s s' \<longleftrightarrow> (\<exists>p p'. ptPhase s = Some p \<and> phase_cb p' = phase_cb p \<and> s' = s\<lparr>ptPhase := Some p'\<rparr>)"

definition ends :: "ptt \<Rightarrow> ptt \<Rightarrow> bool" where
  "ends s s' \<longleftrightarrow> (\<exists>p r. ptPhase s = Some p \<and> s' = reply_to (phase_cb p) r (onPTTEnd s))"

lemma moves_phase [simp]:
  "moves s (s\<lparr>ptPhase := Some p'\<rparr>) \<longleftrightarrow> (\<exists>p. ptPhase s = Some p \<and> phase_cb p' = phase_cb p)"
proof -
  have "s\<lparr>ptPhase := Some p'\<rparr> = s\<lparr>ptPhase := Some q\<rparr> \<Longrightarrow> p' = q" for q
    by (metis option.inject ptt.select_convs(2) ptt.surjective ptt.update_convs(2))
  then show ?thesis by (auto simp: moves_def)
qed

lemma ends_reply [simp]: "ptPhase s = Some p \<Longrightarrow> ends s (reply_to (phase_cb p) r (onPTTEnd s))"
  by (auto simp: ends_def)

lemma ends_answers:
  assumes "ptPhase s = Some p" "phase_cb p = cb"
  shows "ends s (reply_to cb r (onPTTEnd s))" "ends s (handleError cb r s)"
  using assms by (auto simp: handleError_def)

lemma core_step: "getStateKeys_core r s = s \<or> moves s (getStateKeys_core r s) \<or> ends s (getStateKeys_core r s)"
proof (cases "\<exists>cb v. ptPhase s = Some (AwaitCore cb v)")
  case True
  then obtain cb v where p: "ptPhase s = Some (AwaitCore cb v)" by blast
  show ?thesis
    by (simp add: getStateKeys_core_def p ends_answers [OF p phase_cb.simps(1)] Let_def split: prod.split sum.split option.split)
next
  case False
  then have "getStateKeys_core r s = s" by (auto simp: getStateKeys_core_def split: option.splits ptt_phase.splits)
  then show ?thesis by simp
qed

lemma principal_step: "getStateKeys_principal r s = s \<or> moves s (getStateKeys_principal r s) \<or> ends s (getStateKeys_principal r s)"
proof (cases "\<exists>cb v. ptPhase s = Some (AwaitPrincipal cb v)")
  case True
  then obtain cb v where p: "ptPhase s = Some (AwaitPrincipal cb v)" by blast
  show ?thesis
    by (simp add: getStateKeys_principal_def p ends_answers [OF p phase_cb.simps(2)] Let_def split: sum.split)
next
  case False
  then have "getStateKeys_principal r s = s" by (auto simp: getStateKeys_principal_def split: option.splits ptt_phase.splits)
  then show ?thesis by simp
qed

lemma response_step: "getStateKeys_response r s = s \<or> moves s (getStateKeys_response r s) \<or> ends s (getStateKeys_response r s)"
proof (cases "\<exists>cb v. ptPhase s = Some (AwaitResponse cb v)")
  case True
  then obtain cb v where p: "ptPhase s = Some (AwaitResponse cb v)" by blast
  show ?thesis
    by (simp add: getStateKeys_response_def p ends_answers [OF p phase_cb.simps(3)] Let_def split: prod.split sum.split bool.split)
next
  case False
  then have "getStateKeys_response r s = s" by (auto simp: getStateKeys_response_def split: option.splits ptt_phase.splits)
  then show ?thesis by simp
qed

lemma ptt_inv_moves: "ptt_inv s \<Longrightarrow> moves s s' \<Longrightarrow> ptt_inv s'"
  by (auto simp: ptt_inv_def moves_def)

lemma ptt_inv_ends: "ptt_inv s \<Longrightarrow> ends s s' \<Longrightarrow> ptt_inv s'"
  by (auto simp: ptt_inv_def ends_def reply_to_def onPTTEnd_def)

lemma ptt_inv_start: "ptt_inv s \<Longrightarrow> ptt_inv (getStateKeys_start cb params s)"
  by (auto simp: ptt_inv_def getStateKeys_start_def startPTT_def reply_to_def Let_def)

lemma ptt_inv_handle: "ptt_inv s \<Longrightarrow> ptt_inv (handleVerifiedTask t s)"
  by (auto simp: ptt_inv_def handleVerifiedTask_def)

lemma ptt_inv_step: "ptt_inv s \<Longrightarrow> ptt_inv (do_ptt st s)"
  using core_step principal_step response_step ptt_inv_moves ptt_inv_ends
  by (cases st) (metis do_ptt.simps ptt_inv_start ptt_inv_handle)+

text \<open>The tasks handed over so far, in order: those executed, then those waiting.\<close>

definition handled :: "ptt \<Rightarrow> task list" where
  "handled s = ptExecuted s @ ptWaiting s"

lemma handled_moves: "moves s s' \<Longrightarrow> handled s' = handled s"
  by (auto simp: moves_def handled_def)

lemma handled_ends: "ends s s' \<Longrightarrow> handled s' = handled s"
  by (auto simp: ends_def handled_def reply_to_def onPTTEnd_def)

lemma handled_action:
  "handled (getStateKeys_core r s) = handled s"
  "handled (getStateKeys_principal p s) = handled s"
  "handled (getStateKeys_response r s) = handled s"
  "handled (getStateKeys_start cb params s) = handled s"
  using core_step principal_step response_step handled_moves handled_ends
  by (metis, metis, metis) (simp add: handled_def getStateKeys_start_def startPTT_def reply_to_def Let_def)

lemma handled_task: "ptt_inv s \<Longrightarrow> handled (handleVerifiedTask t s) = handled s @ [t]"
  by (auto simp: handled_def handleVerifiedTask_def ptt_inv_def)

text \<open>A step that leaves a transfer in progress executes no task.\<close>

lemma executed_step:
  assumes "ptInProgress (do_ptt st s)"
  shows "ptExecuted (do_ptt st s) = ptExecuted s"
proof -
  have moved: "s' = s \<or> moves s s' \<or> ends s s' \<Longrightarrow> ptInProgress s' \<Longrightarrow> ptExecuted s' = ptExecuted s" for s'
    by (auto simp: moves_def ends_def reply_to_def onPTTEnd_def)
  show ?thesis
  proof (cases st)
    case (StartKeys cb params)
    then show ?thesis by (simp add: getStateKeys_start_def startPTT_def reply_to_def Let_def)
  next
    case (TaskVerified t)
    then show ?thesis using assms by (simp add: handleVerifiedTask_def split: if_splits)
  qed (use assms moved [OF core_step] moved [OF principal_step] moved [OF response_step] in simp_all)
qed

lemma handled_step:
  "ptt_inv s \<Longrightarrow> handled (do_ptt st s) = handled s @ verified_tasks [st]"
  by (cases st) (simp_all add: handled_action handled_task)

interpretation ptt_run: machine PrincipalNode do_ptt "\<lambda>_. True" "\<lambda>sts s. ptt_inv s \<and> handled s = verified_tasks sts"
  by unfold_locales
    (simp_all add: ptt_inv_step handled_step verified_tasks_append, simp_all add: PrincipalNode_def ptt_inv_def handled_def)

lemmas run_ptt_inv = ptt_run.always [OF TrueI, folded run_ptt_def]


text \<open>Answers go to started calls, each at most once, and not to the call in flight.\<close>

definition replies_ok :: "nat list \<Rightarrow> ptt \<Rightarrow> bool" where
  "replies_ok cs s \<longleftrightarrow> distinct (map fst (ptReplies s)) \<and> fst ` set (ptReplies s) \<subseteq> set cs \<and>
     (\<forall>p. ptPhase s = Some p \<longrightarrow> phase_cb p \<in> set cs \<and> phase_cb p \<notin> fst ` set (ptReplies s))"

lemma replies_moves: "replies_ok cs s \<Longrightarrow> moves s s' \<Longrightarrow> replies_ok cs s'"
  unfolding moves_def by (elim exE conjE) (simp add: replies_ok_def)

lemma replies_ends: "replies_ok cs s \<Longrightarrow> ends s s' \<Longrightarrow> replies_ok cs s'"
  unfolding ends_def by (elim exE conjE) (simp add: replies_ok_def reply_to_def onPTTEnd_def)

lemma replies_action: "s' = s \<or> moves s s' \<or> ends s s' \<Longrightarrow> replies_ok cs s \<Longrightarrow> replies_ok cs s'"
  using replies_moves replies_ends by blast

lemma replies_start:
  assumes "replies_ok cs s" "ptt_inv s" "cb \<notin> set cs"
  shows "replies_ok (cs @ [cb]) (getStateKeys_start cb params s)"
proof -
  have "cb \<notin> fst ` set (ptReplies s)" using assms(1,3) by (auto simp: replies_ok_def)
  then show ?thesis using assms
    by (auto simp: replies_ok_def ptt_inv_def getStateKeys_start_def startPTT_def reply_to_def Let_def)
qed

lemma replies_step:
  assumes "replies_ok cs s" "ptt_inv s" "distinct (cs @ started [st])"
  shows "replies_ok (cs @ started [st]) (do_ptt st s)"
proof (cases st)
  case (StartKeys cb params)
  then show ?thesis using assms replies_start by simp
next
  case (TaskVerified t)
  then show ?thesis using assms(1) by (simp add: replies_ok_def handleVerifiedTask_def)
qed (use assms(1) replies_action [OF core_step] replies_action [OF principal_step] replies_action [OF response_step] in simp_all)

interpretation ptt_answers:
  machine PrincipalNode do_ptt "\<lambda>sts. distinct (started sts)" "\<lambda>sts s. ptt_inv s \<and> replies_ok (started sts) s"
proof unfold_locales
  show "ptt_inv PrincipalNode \<and> replies_ok (started []) PrincipalNode"
    by (simp add: PrincipalNode_def ptt_inv_def replies_ok_def)
qed (auto simp: started_append ptt_inv_step intro: replies_step)

lemmas run_ptt_replies = ptt_answers.always [folded run_ptt_def]

section \<open>Properties\<close>

text \<open>
  C20: no task is executed during a transfer, and none is lost. However transfers of keys and
  verified tasks interleave, the tasks executed so far followed by the tasks that wait are the
  verified tasks in their order; a step that leaves a transfer in progress executes nothing, and
  after every other step all tasks verified so far have been executed.
\<close>

theorem verified_tasks_in_order:
  "ptExecuted (run_ptt sts) @ ptWaiting (run_ptt sts) = verified_tasks sts \<and>
   ptExecuted (run_ptt (sts @ [st])) =
     (if ptInProgress (run_ptt (sts @ [st])) then ptExecuted (run_ptt sts) else verified_tasks (sts @ [st])) \<and>
   (ptInProgress (run_ptt sts) \<longleftrightarrow> ptPhase (run_ptt sts) \<noteq> None)"
proof -
  have "ptExecuted (run_ptt (sts @ [st])) = ptExecuted (run_ptt sts)" if "ptInProgress (run_ptt (sts @ [st]))"
    using that executed_step [of st "run_ptt sts"] by (simp add: run_ptt_def)
  then show ?thesis using run_ptt_inv [of sts] run_ptt_inv [of "sts @ [st]"] by (auto simp: handled_def ptt_inv_def)
qed

text \<open>
  A call for state keys is answered at most once, and not while its transfer is still in
  progress.
\<close>

lemma state_keys_answered_once:
  assumes "distinct (started sts)"
  shows "distinct (map fst (ptReplies (run_ptt sts))) \<and> fst ` set (ptReplies (run_ptt sts)) \<subseteq> set (started sts) \<and>
    (\<forall>p. ptPhase (run_ptt sts) = Some p \<longrightarrow> phase_cb p \<notin> fst ` set (ptReplies (run_ptt sts)))"
  using run_ptt_replies [OF assms] by (auto simp: replies_ok_def)

text \<open>
  An error of core in the last step of a transfer is reported as a success: the call is
  answered without an error when core answers \<open>PTTResponse\<close> with its error message.
\<close>

lemma ptt_error_reported_as_success:
  assumes "ptPhase s = Some (AwaitResponse cb v)"
  shows "getStateKeys_response (None, JObj [(''id'', i), (''type'', JStr ''Error''), (''msg'', m)]) s =
    reply_to cb None (onPTTEnd s)"
  using assms by (simp add: getStateKeys_response_def obj_get_def handleError_def)

lemma km_attempts_eq:
  "km_attempts n as =
     (let m = length (takeWhile retryable as) in
      if m = length as \<and> m \<le> n then None else Some (km_result (as ! min m n), Suc (min m n)))"
proof (induction n as rule: km_attempts.induct)
  case (2 n a as)
  then show ?case by (cases n) (auto simp: Let_def min_def)
qed simp

text \<open>
  C21: the requests to the principal node. The loop is the following: with \<open>m\<close> answers before the first
  that cannot be retried, the first \<open>m\<close> of them are retried, at most ten; the result is that of the
  next answer, which is the eleventh at the latest; and only while all answers so far, at most ten,
  could be retried, there is no result yet.
\<close>

theorem principal_retries:
  "km_attempts PRINCIPAL_RETRIES answers =
     (let m = length (takeWhile retryable answers) in
      if m = length answers \<and> m \<le> 10 then None
      else Some (km_result (answers ! min m 10), Suc (min m 10)))"
  by (simp add: km_attempts_eq PRINCIPAL_RETRIES_def)

section \<open>Witnesses\<close>

end
