(* ===== verification/Worker_Selection.thy ===== *)
theory Worker_Selection
  imports Common_Utils
begin

text \<open>
  The epoch parameters and the weighted choice of a worker in
  \<open>src/src/ethereum/EthereumVerifier.js\<close>: \<open>selectWorkerGroup\<close>, \<open>_verifySelectedWorker\<close>,
  \<open>_findWorkerParamForTask\<close>, \<open>_sortWorkerParams\<close>. The JSBI integers are \<open>int\<close>; the hash of
  the epoch seed, the contract address and the nonce is computed by the parameters
  \<open>rawEncode\<close> (ethereumjs-abi) and \<open>keccak\<close> (web3).
\<close>

section \<open>Epoch parameters\<close>

record epoch =
  epFirstBlock :: "int option"
  epSeed :: int
  epWorkers :: "string list"
  epBalances :: "int list"

definition validateWorkerParams :: "epoch \<Rightarrow> bool" where
  "validateWorkerParams params \<longleftrightarrow> epFirstBlock params \<noteq> None"

text \<open>A comparison with \<open>undefined\<close> is false.\<close>

definition js_less :: "int option \<Rightarrow> int option \<Rightarrow> bool" where
  "js_less x y = (case (x, y) of (Some a, Some b) \<Rightarrow> a < b | _ \<Rightarrow> False)"

definition js_ge :: "int option \<Rightarrow> int \<Rightarrow> bool" where
  "js_ge x n = (case x of Some a \<Rightarrow> a \<ge> n | None \<Rightarrow> False)"

text \<open>The scan of \<open>_findWorkerParamForTask\<close> from the last index down, over the reversed array.\<close>

fun find_down :: "int \<Rightarrow> epoch list \<Rightarrow> epoch option" where
  "find_down blockNumber [] = None"
| "find_down blockNumber (p # ps) =
     (if js_less (epFirstBlock p) (Some blockNumber) then Some p else find_down blockNumber ps)"

definition findWorkerParamForTask :: "epoch list \<Rightarrow> int option \<Rightarrow> epoch option" where
  "findWorkerParamForTask workerParamArray blockNumber =
     (case blockNumber of
        None \<Rightarrow> None
      | Some b \<Rightarrow> if workerParamArray = [] \<or> b = 0 then None else find_down b (rev workerParamArray))"

text \<open>The index of the first element that is smaller than the one before it, or 0.\<close>

fun first_drop :: "nat \<Rightarrow> epoch list \<Rightarrow> nat" where
  "first_drop i (p # q # ps) =
     (if js_less (epFirstBlock q) (epFirstBlock p) then Suc i else first_drop (Suc i) (q # ps))"
| "first_drop i _ = 0"

fun shift_push :: "nat \<Rightarrow> 'a list \<Rightarrow> 'a list" where
  "shift_push 0 xs = xs"
| "shift_push (Suc n) xs = shift_push n (case xs of [] \<Rightarrow> [] | x # ys \<Rightarrow> ys @ [x])"

definition sortWorkerParams :: "epoch list \<Rightarrow> epoch list" where
  "sortWorkerParams workerParamArray =
     (if length workerParamArray \<le> 1 then workerParamArray
      else let smallestBlockIndex = first_drop 0 workerParamArray in
        if smallestBlockIndex = 0 then workerParamArray
        else shift_push smallestBlockIndex workerParamArray)"

section \<open>Choosing workers\<close>

text \<open>\<open>JSBI.BigInt\<close> of a hexadecimal string; other strings are no hash.\<close>

definition toBN :: "json \<Rightarrow> int js" where
  "toBN v = (case v of
     JStr s \<Rightarrow> if take 2 s = ''0x'' then Inr (int (hexs_val (drop 2 s))) else Inl JsSyntaxError
   | _ \<Rightarrow> Inl JsSyntaxError)"

text \<open>
  The loop over the workers: subtract each balance, stop when the rest is not positive.
  \<open>None\<close>: no worker stopped it, the preset last worker stays. A missing balance throws.
\<close>

fun pick_worker :: "int \<Rightarrow> string list \<Rightarrow> int list \<Rightarrow> string option js" where
  "pick_worker randVal [] bs = Inr None"
| "pick_worker randVal (w # ws) [] = Inl JsTypeError"
| "pick_worker randVal (w # ws) (b # bs) =
     (let r = randVal - b in if r \<le> 0 then Inr (Some w) else pick_worker r ws bs)"

text \<open>One round: \<open>None\<close> is \<open>undefined\<close>, for an empty list of workers.\<close>

definition round_worker ::
    "(int \<Rightarrow> json \<Rightarrow> nat \<Rightarrow> int list) \<Rightarrow> (int list \<Rightarrow> json) \<Rightarrow> json \<Rightarrow> epoch \<Rightarrow> nat \<Rightarrow> string option js" where
  "round_worker rawEncode keccak secretContractAddress params nonce =
     (let tokenCpt = foldl (+) 0 (epBalances params);
          buf = rawEncode (epSeed params) (add0x secretContractAddress) nonce in
      bindE (crypto_hash keccak (JArr (map JNum buf)) True) (\<lambda>hash.
      bindE (toBN hash) (\<lambda>n.
      if tokenCpt = 0 then Inl JsRangeError
      else bindE (pick_worker (n mod \<bar>tokenCpt\<bar>) (epWorkers params) (epBalances params)) (\<lambda>found.
        Inr (case found of
               Some w \<Rightarrow> Some w
             | None \<Rightarrow> if epWorkers params = [] then None else Some (last (epWorkers params)))))))"

text \<open>The \<open>do ... while\<close> loop may run forever: \<open>None\<close>.\<close>

partial_function (option) select_loop ::
    "(nat \<Rightarrow> string option js) \<Rightarrow> nat \<Rightarrow> nat \<Rightarrow> string option list \<Rightarrow> string option list js option" where
  "select_loop round workerGroupSize nonce selectedWorkers =
     (case round nonce of
        Inl e \<Rightarrow> Some (Inl e)
      | Inr w \<Rightarrow>
         let sel = (if w \<in> set selectedWorkers then selectedWorkers else selectedWorkers @ [w]) in
         if length sel < workerGroupSize then select_loop round workerGroupSize (Suc nonce) sel
         else Some (Inr sel))"

declare select_loop.simps [code]

definition selectWorkerGroup ::
    "(int \<Rightarrow> json \<Rightarrow> nat \<Rightarrow> int list) \<Rightarrow> (int list \<Rightarrow> json) \<Rightarrow> json \<Rightarrow> epoch \<Rightarrow> nat \<Rightarrow> string option list js option" where
  "selectWorkerGroup rawEncode keccak secretContractAddress params workerGroupSize =
     select_loop (round_worker rawEncode keccak secretContractAddress params) workerGroupSize 0 []"

definition lower :: "char \<Rightarrow> char" where
  "lower c = (let n = of_char c :: nat in if 65 \<le> n \<and> n \<le> 90 then char_of (n + 32) else c)"

definition toLowerCase :: "string \<Rightarrow> string" where
  "toLowerCase s = map lower s"

text \<open>
  \<open>_verifySelectedWorker\<close>: the verdict of one worker. The call asks for a group of one, which
  takes one round.
\<close>

definition verifySelectedWorker_params ::
    "(int \<Rightarrow> json \<Rightarrow> nat \<Rightarrow> int list) \<Rightarrow> (int list \<Rightarrow> json) \<Rightarrow> json \<Rightarrow> string \<Rightarrow> epoch \<Rightarrow> js_error option js option" where
  "verifySelectedWorker_params rawEncode keccak secretContractAddress workerAddress params =
     map_option (\<lambda>r. bindE r (\<lambda>sel.
       case hd sel of
         None \<Rightarrow> Inl JsTypeError
       | Some w \<Rightarrow>
          Inr (if strip0x (toLowerCase w) \<noteq> workerAddress
               then Some (Err WorkerSelectionVerificationErr ''Not the selected worker for the task'')
               else None)))
     (selectWorkerGroup rawEncode keccak secretContractAddress params 1)"

section \<open>Which worker is chosen\<close>

lemma pick_worker_index:
  assumes "length ws = length bs" "\<forall>b\<in>set bs. 0 \<le> b" "i < length ws"
    "i = 0 \<or> sum_list (take i bs) < r" "r \<le> sum_list (take (Suc i) bs)"
  shows "pick_worker r ws bs = Inr (Some (ws ! i))"
  using assms
proof (induction ws arbitrary: bs r i)
  case (Cons w ws)
  then obtain b cs where bs: "bs = b # cs" by (cases bs) auto
  show ?case
  proof (cases i)
    case 0
    then show ?thesis using Cons.prems bs by simp
  next
    case (Suc j)
    have nn: "0 \<le> sum_list (take j cs)"
      using Cons.prems(2) bs by (intro sum_list_nonneg) (auto dest: in_set_takeD)
    have lt: "b + sum_list (take j cs) < r" using Cons.prems(4) Suc bs by simp
    have "pick_worker (r - b) ws cs = Inr (Some (ws ! j))"
    proof (rule Cons.IH)
      show "j = 0 \<or> sum_list (take j cs) < r - b" using lt by simp
      show "r - b \<le> sum_list (take (Suc j) cs)" using Cons.prems(5) Suc bs by simp
    qed (use Cons.prems Suc bs in auto)
    moreover have "\<not> r - b \<le> 0" using lt nn by simp
    ultimately show ?thesis using bs Suc by simp
  qed
qed simp

lemma prefix_index_exists:
  fixes bs :: "int list"
  assumes "0 \<le> r" "r \<le> sum_list bs" "bs \<noteq> []"
  shows "\<exists>i<length bs. (i = 0 \<or> sum_list (take i bs) < r) \<and> r \<le> sum_list (take (Suc i) bs)"
proof -
  let ?P = "\<lambda>i. r \<le> sum_list (take (Suc i) bs)"
  have "?P (length bs - 1)" using assms by simp
  then have ex: "?P (LEAST i. ?P i)" "(LEAST i. ?P i) \<le> length bs - 1"
    by (rule LeastI, rule Least_le)
  have "sum_list (take i bs) < r" if "i = (LEAST i. ?P i)" "i \<noteq> 0" for i
    using not_less_Least [of "i - 1" ?P] that by simp
  moreover have "(LEAST i. ?P i) < length bs" using ex(2) assms(3) by (cases bs) auto
  ultimately show ?thesis using ex(1) by blast
qed

lemma prefix_sum_mono:
  fixes bs :: "int list"
  assumes "\<forall>b\<in>set bs. 0 \<le> b" "i \<le> j"
  shows "sum_list (take i bs) \<le> sum_list (take j bs)"
proof -
  have "take j bs = take i bs @ take (j - i) (drop i bs)"
    using assms(2) by (metis le_add_diff_inverse take_add)
  moreover have "0 \<le> sum_list (take (j - i) (drop i bs))"
    using assms(1) by (intro sum_list_nonneg) (auto dest: in_set_takeD in_set_dropD)
  ultimately show ?thesis by simp
qed

lemma pick_worker_iff:
  assumes "length ws = length bs" "\<forall>b\<in>set bs. 0 \<le> b" "distinct ws" "i < length ws"
    "0 \<le> r" "r \<le> sum_list bs"
  shows "pick_worker r ws bs = Inr (Some (ws ! i)) \<longleftrightarrow>
    (i = 0 \<or> sum_list (take i bs) < r) \<and> r \<le> sum_list (take (Suc i) bs)"
proof
  assume "(i = 0 \<or> sum_list (take i bs) < r) \<and> r \<le> sum_list (take (Suc i) bs)"
  then show "pick_worker r ws bs = Inr (Some (ws ! i))" using pick_worker_index assms by blast
next
  assume pick: "pick_worker r ws bs = Inr (Some (ws ! i))"
  obtain j where j: "j < length bs" "j = 0 \<or> sum_list (take j bs) < r" "r \<le> sum_list (take (Suc j) bs)"
    using prefix_index_exists [OF assms(5,6)] assms(1,4) by fastforce
  then have "ws ! j = ws ! i" using pick_worker_index [of ws bs j r] assms(1,2) pick by simp
  then have "j = i" using assms(1,3,4) j(1) nth_eq_iff_index_eq by metis
  then show "(i = 0 \<or> sum_list (take i bs) < r) \<and> r \<le> sum_list (take (Suc i) bs)" using j by simp
qed

lemma pick_worker_total:
  assumes "length ws = length bs" "\<forall>b\<in>set bs. 0 \<le> b" "ws \<noteq> []" "0 \<le> r" "r < sum_list bs"
  shows "\<exists>w\<in>set ws. pick_worker r ws bs = Inr (Some w)"
proof -
  obtain i where "i < length bs" "i = 0 \<or> sum_list (take i bs) < r" "r \<le> sum_list (take (Suc i) bs)"
    using prefix_index_exists [of r bs] assms by fastforce
  then show ?thesis using pick_worker_index [OF assms(1,2), of i r] assms(1) by (metis nth_mem)
qed

lemma foldl_plus_sum_list: "foldl (+) (a :: int) bs = a + sum_list bs"
  by (induction bs arbitrary: a) auto

lemma round_worker_member:
  assumes "round_worker rawEncode keccak addr p n = Inr w" "epWorkers p \<noteq> []"
  shows "\<exists>v\<in>set (epWorkers p). w = Some v"
proof -
  have mem: "pick_worker r ws bs = Inr (Some v) \<Longrightarrow> v \<in> set ws" for r ws bs v
    by (induction r ws bs rule: pick_worker.induct) (auto simp: Let_def split: if_splits)
  show ?thesis
    using assms mem
    by (auto simp: round_worker_def Let_def bindE_eq_Inr split: if_splits option.splits)
qed

section \<open>Groups of workers\<close>

lemma select_loop_one:
  "select_loop round 1 n [] = Some (map_sum id (\<lambda>w. [w]) (round n))"
  by (subst select_loop.simps) (auto simp: Let_def split: sum.splits)

lemma selectWorkerGroup_one:
  "selectWorkerGroup rawEncode keccak addr p 1 =
     Some (map_sum id (\<lambda>w. [w]) (round_worker rawEncode keccak addr p 0))"
  by (simp add: selectWorkerGroup_def select_loop_one del: One_nat_def)

text \<open>What the loop returns: distinct workers of some rounds, as many as asked for.\<close>

definition group_ok ::
    "(nat \<Rightarrow> string option js) \<Rightarrow> nat \<Rightarrow> nat \<Rightarrow> string option list \<Rightarrow> string option list js \<Rightarrow> bool" where
  "group_ok round k n acc y \<longleftrightarrow>
     (\<forall>sel. y = Inr sel \<longrightarrow> distinct acc \<longrightarrow> length acc < k \<or> acc = [] \<longrightarrow>
        distinct sel \<and> length sel = max 1 k \<and> set sel \<subseteq> set acc \<union> {w. \<exists>m. round m = Inr w})"

lemma select_loop_group: "select_loop round k n acc = Some y \<Longrightarrow> group_ok round k n acc y"
proof (induction rule: select_loop.raw_induct [rotated, consumes 1])
  case (1 loop round k n acc y)
  show ?case
  proof (cases "round n")
    case (Inr w)
    let ?sel = "if w \<in> set acc then acc else acc @ [w]"
    show ?thesis
    proof (cases "length ?sel < k")
      case True
      then have "loop round k (Suc n) ?sel = Some y" using 1(2) Inr by (simp add: Let_def)
      then have "group_ok round k (Suc n) ?sel y" by (rule 1(1))
      then have "distinct sel \<and> length sel = max 1 k \<and> set sel \<subseteq> set ?sel \<union> {w. \<exists>m. round m = Inr w}"
        if "y = Inr sel" "distinct acc" for sel
        using that True by (auto simp: group_ok_def)
      moreover have "set ?sel \<union> {w. \<exists>m. round m = Inr w} \<subseteq> set acc \<union> {w. \<exists>m. round m = Inr w}"
        using Inr by auto
      ultimately show ?thesis unfolding group_ok_def by blast
    next
      case False
      then have "y = Inr ?sel" using 1(2) Inr by (simp add: Let_def)
      then show ?thesis using False Inr by (auto simp: group_ok_def split: if_splits)
    qed
  qed (use 1(2) in \<open>auto simp: group_ok_def\<close>)
qed

text \<open>The loop ends as soon as the rounds have produced enough different workers.\<close>

lemma select_loop_ends:
  assumes "\<And>m. m < n + d \<Longrightarrow> round m = Inr (f m)" "k \<le> card (set acc \<union> f ` {n..<n + d})" "0 < d"
  shows "\<exists>sel. select_loop round k n acc = Some (Inr sel)"
  using assms
proof (induction d arbitrary: n acc)
  case (Suc d)
  let ?sel = "if f n \<in> set acc then acc else acc @ [f n]"
  have r: "round n = Inr (f n)" using Suc.prems(1) by simp
  show ?case
  proof (cases "length ?sel < k")
    case True
    have set: "set ?sel = insert (f n) (set acc)" by auto
    have "card (set ?sel) < k" using True card_length [of ?sel] by linarith
    have "{n..<n + Suc d} = insert n {Suc n..<Suc n + d}" by auto
    then have k: "k \<le> card (set ?sel \<union> f ` {Suc n..<Suc n + d})"
      using Suc.prems(2) set by simp
    have "0 < d" using k \<open>card (set ?sel) < k\<close> by (cases d) auto
    then have "\<exists>sel. select_loop round k (Suc n) ?sel = Some (Inr sel)"
      using Suc.IH [of "Suc n" ?sel] Suc.prems(1) k by simp
    then show ?thesis using True r by (subst select_loop.simps) (simp add: Let_def)
  next
    case False
    then show ?thesis using r by (subst select_loop.simps) (simp add: Let_def)
  qed
qed simp

section \<open>Finding and ordering epochs\<close>

definition epochs_sorted :: "epoch list \<Rightarrow> bool" where
  "epochs_sorted ps \<longleftrightarrow>
     (\<forall>p\<in>set ps. validateWorkerParams p) \<and>
     sorted_wrt (\<lambda>p q. js_less (epFirstBlock p) (epFirstBlock q)) ps"

lemma epochs_sorted_simps [simp]:
  "epochs_sorted []"
  "epochs_sorted (p # ps) \<longleftrightarrow> validateWorkerParams p \<and>
     (\<forall>q\<in>set ps. js_less (epFirstBlock p) (epFirstBlock q)) \<and> epochs_sorted ps"
  "epochs_sorted (ps @ qs) \<longleftrightarrow> epochs_sorted ps \<and> epochs_sorted qs \<and>
     (\<forall>p\<in>set ps. \<forall>q\<in>set qs. js_less (epFirstBlock p) (epFirstBlock q))"
  by (auto simp: epochs_sorted_def sorted_wrt_append)

lemma find_down_sorted:
  assumes "epochs_sorted ps"
  shows "find_down b (rev ps) = Some p \<Longrightarrow> p \<in> set ps \<and> js_less (epFirstBlock p) (Some b) \<and>
      (\<forall>q\<in>set ps. js_less (epFirstBlock q) (Some b) \<longrightarrow> q = p \<or> js_less (epFirstBlock q) (epFirstBlock p))"
    and "find_down b (rev ps) = None \<Longrightarrow> \<forall>q\<in>set ps. \<not> js_less (epFirstBlock q) (Some b)"
  using assms by (induction ps rule: rev_induct) (auto split: if_splits)

lemma shift_push_append: "shift_push (length xs) (xs @ ys) = ys @ xs"
  by (induction xs arbitrary: ys) simp_all

lemma first_drop_sorted: "epochs_sorted ps \<Longrightarrow> first_drop i ps = 0"
proof (induction i ps rule: first_drop.induct)
  case (1 i p q ps)
  then show ?case by (auto simp: js_less_def split: option.splits)
qed simp_all

lemma first_drop_rotated:
  assumes "epochs_sorted (qs @ ps)" "ps \<noteq> []" "qs \<noteq> []"
  shows "first_drop i (ps @ qs) = i + length ps"
  using assms
proof (induction ps arbitrary: i)
  case (Cons p ps)
  obtain q qs' where qs: "qs = q # qs'" using Cons.prems(3) by (cases qs) auto
  show ?case
  proof (cases ps)
    case Nil
    then show ?thesis using Cons.prems qs by simp
  next
    case (Cons p' ps')
    have "\<not> js_less (epFirstBlock p') (epFirstBlock p)"
      using Cons.prems(1) Cons by (auto simp: js_less_def split: option.splits)
    then show ?thesis using Cons.IH [of "Suc i"] Cons.prems Cons by simp
  qed
qed simp

lemma sortWorkerParams_rotated:
  assumes "epochs_sorted (qs @ ps)"
  shows "sortWorkerParams (ps @ qs) = qs @ ps"
proof (cases "ps = [] \<or> qs = []")
  case True
  then show ?thesis using first_drop_sorted [OF assms] by (auto simp: sortWorkerParams_def)
next
  case False
  then have "first_drop 0 (ps @ qs) = length ps" using first_drop_rotated [OF assms] by simp
  moreover have "\<not> length (ps @ qs) \<le> 1" using False by (cases ps; cases qs) auto
  ultimately show ?thesis using False by (simp add: sortWorkerParams_def shift_push_append)
qed

section \<open>Properties\<close>

text \<open>
  C8: the weights of the selection. For distinct workers with positive stakes and a random
  value drawn uniformly from all residues of the total stake, the number of values that
  select a worker is its stake, one more for the first worker and one less for the last
  one: the loop stops at a rest of zero, not only at a negative one.
\<close>

theorem selection_weights:
  assumes "distinct ws" "length ws = length bs" "\<forall>b\<in>set bs. 0 < b" "i < length ws"
  shows "int (card {r. 0 \<le> r \<and> r < sum_list bs \<and> pick_worker r ws bs = Inr (Some (ws ! i))})
    = bs ! i + of_bool (i = 0) - of_bool (Suc i = length ws)"
proof -
  let ?S = "\<lambda>j. sum_list (take j bs)"
  have nn: "\<forall>b\<in>set bs. 0 \<le> b" using assms(3) by auto
  have step: "?S (Suc i) = ?S i + bs ! i" using assms(2,4) by (simp add: take_Suc_conv_app_nth)
  have lo: "0 \<le> ?S i" using prefix_sum_mono [OF nn, of 0 i] by simp
  have hi: "?S (Suc i) \<le> sum_list bs" using prefix_sum_mono [OF nn, of "Suc i" "length bs"] assms(2,4) by simp
  have pos: "0 < bs ! i" using assms(2,3,4) by simp
  have "{r. 0 \<le> r \<and> r < sum_list bs \<and> pick_worker r ws bs = Inr (Some (ws ! i))}
      = {r. 0 \<le> r \<and> r < sum_list bs \<and> (i = 0 \<or> ?S i < r) \<and> r \<le> ?S (Suc i)}"
    using pick_worker_iff [OF assms(2) nn assms(1,4)] by auto
  also have "\<dots> = {(if i = 0 then 0 else ?S i + 1) ..< (if Suc i = length ws then sum_list bs else ?S (Suc i) + 1)}"
  proof (cases "Suc i = length ws")
    case True
    then have "?S (Suc i) = sum_list bs" using assms(2) by simp
    then show ?thesis using True lo by auto
  next
    case False
    then have "Suc i < length bs" using assms(2,4) by simp
    then have "?S (Suc (Suc i)) = ?S (Suc i) + bs ! Suc i" "0 < bs ! Suc i"
      using assms(3) by (auto simp: take_Suc_conv_app_nth)
    moreover have "?S (Suc (Suc i)) \<le> sum_list bs"
      using prefix_sum_mono [OF nn, of "Suc (Suc i)" "length bs"] \<open>Suc i < length bs\<close> by simp
    ultimately show ?thesis using False lo by auto
  qed
  finally show ?thesis
    using step lo pos hi assms(2) by (cases "i = 0"; cases "Suc i = length ws") auto
qed

theorem selection_weights_witness:
  "int (card {r. 0 \<le> r \<and> r < sum_list [5, 3, 2] \<and>
      pick_worker r [''a'', ''b'', ''c''] [5, 3, 2] = Inr (Some ([''a'', ''b'', ''c''] ! 0))}) = 6"
  using selection_weights [of "[''a'', ''b'', ''c'']" "[5, 3, 2]" 0] by simp

text \<open>
  C9: groups of workers. Whatever the hash functions are, a group that \<open>selectWorkerGroup\<close>
  returns consists of different registered workers and has the requested size (one for a
  request of none); it does return when the rounds produce that many different workers
  without an error, and for a group of one after a single round.
\<close>

theorem selectWorkerGroup_spec:
  assumes "epWorkers p \<noteq> []"
  shows "(\<forall>sel. selectWorkerGroup rawEncode keccak addr p k = Some (Inr sel) \<longrightarrow>
            distinct sel \<and> length sel = max 1 k \<and> set sel \<subseteq> Some ` set (epWorkers p)) \<and>
         (\<forall>N f. 0 < N \<and> (\<forall>m<N. round_worker rawEncode keccak addr p m = Inr (f m)) \<and> k \<le> card (f ` {0..<N}) \<longrightarrow>
            (\<exists>sel. selectWorkerGroup rawEncode keccak addr p k = Some (Inr sel))) \<and>
         selectWorkerGroup rawEncode keccak addr p 1 =
            Some (map_sum id (\<lambda>w. [w]) (round_worker rawEncode keccak addr p 0))"
proof (intro conjI allI impI)
  fix sel assume "selectWorkerGroup rawEncode keccak addr p k = Some (Inr sel)"
  then have "group_ok (round_worker rawEncode keccak addr p) k 0 [] (Inr sel)"
    unfolding selectWorkerGroup_def by (rule select_loop_group)
  then have g: "distinct sel" "length sel = max 1 k"
      "set sel \<subseteq> {w. \<exists>m. round_worker rawEncode keccak addr p m = Inr w}"
    by (auto simp: group_ok_def)
  then show "distinct sel" "length sel = max 1 k" by simp_all
  show "set sel \<subseteq> Some ` set (epWorkers p)"
    using g(3) round_worker_member [OF _ assms] by fastforce
next
  fix N f
  assume "0 < N \<and> (\<forall>m<N. round_worker rawEncode keccak addr p m = Inr (f m)) \<and> k \<le> card (f ` {0..<N})"
  then show "\<exists>sel. selectWorkerGroup rawEncode keccak addr p k = Some (Inr sel)"
    unfolding selectWorkerGroup_def using select_loop_ends [of 0 N _ f k "[]"] by simp
qed (rule selectWorkerGroup_one)

definition ex_epoch :: epoch where
  "ex_epoch = \<lparr>epFirstBlock = Some 100, epSeed = 7, epWorkers = [''0xAA'', ''0xBB''], epBalances = [3, 4]\<rparr>"

text \<open>Encoding and hashing functions of the examples: the nonce as a byte, printed in hexadecimal.\<close>

definition ex_encode :: "int \<Rightarrow> json \<Rightarrow> nat \<Rightarrow> int list" where
  "ex_encode seed addr nonce = [seed + int nonce]"

definition ex_keccak :: "int list \<Rightarrow> json" where
  "ex_keccak bs = JStr (''0x'' @ toHexString bs)"

theorem selectWorkerGroup_spec_witness:
  "\<exists>sel. selectWorkerGroup ex_encode ex_keccak (JStr ''ab'') ex_epoch 2 = Some (Inr sel) \<and>
     distinct sel \<and> length sel = 2"
proof -
  define f where "f = (\<lambda>m :: nat. if m < 4 then Some ''0xAA'' else Some ''0xBB'')"
  have rounds: "\<forall>m<5. round_worker ex_encode ex_keccak (JStr ''ab'') ex_epoch m = Inr (f m)"
  proof (intro allI impI)
    fix m :: nat assume "m < 5"
    then consider "m = 0" | "m = 1" | "m = 2" | "m = 3" | "m = 4" by linarith
    then show "round_worker ex_encode ex_keccak (JStr ''ab'') ex_epoch m = Inr (f m)"
      by cases (simp_all add: f_def, code_simp+)
  qed
  have "{0..<5} = {0, 1, 2, 3, 4 :: nat}" by auto
  then have "f ` {0..<5} = {Some ''0xAA'', Some ''0xBB''}" by (simp add: f_def insert_commute)
  then have card: "2 \<le> card (f ` {0..<5})" by simp
  have ne: "epWorkers ex_epoch \<noteq> []" by (simp add: ex_epoch_def)
  have "\<exists>sel. selectWorkerGroup ex_encode ex_keccak (JStr ''ab'') ex_epoch 2 = Some (Inr sel)"
    using selectWorkerGroup_spec [OF ne, of ex_encode ex_keccak "JStr ''ab''" 2] rounds card
    by (meson zero_less_numeral)
  then show ?thesis
    using selectWorkerGroup_spec [OF ne, of ex_encode ex_keccak "JStr ''ab''" 2] by auto
qed

text \<open>
  The epoch of a task. On an array of epochs ordered by their first block,
  \<open>_findWorkerParamForTask\<close> finds the latest epoch that started before the given block, and
  nothing exactly when no epoch started before it.
\<close>

lemma findWorkerParamForTask_spec:
  assumes "epochs_sorted ps" "b \<noteq> 0"
  shows "(case findWorkerParamForTask ps (Some b) of
      Some p \<Rightarrow> p \<in> set ps \<and> js_less (epFirstBlock p) (Some b) \<and>
        (\<forall>q\<in>set ps. js_less (epFirstBlock q) (Some b) \<longrightarrow> q = p \<or> js_less (epFirstBlock q) (epFirstBlock p))
    | None \<Rightarrow> \<forall>q\<in>set ps. \<not> js_less (epFirstBlock q) (Some b))"
proof (cases "ps = []")
  case False
  then have "findWorkerParamForTask ps (Some b) = find_down b (rev ps)"
    using assms(2) by (simp add: findWorkerParamForTask_def)
  then show ?thesis
    using find_down_sorted [OF assms(1), of b] by (cases "find_down b (rev ps)") auto
qed (simp add: findWorkerParamForTask_def)

text \<open>
  C12: \<open>_sortWorkerParams\<close> restores the order of the cyclic array kept by the contract: the
  epochs of a rotated ordered array come out ordered.
\<close>

lemma sortWorkerParams_spec:
  assumes "epochs_sorted (qs @ ps)"
  shows "sortWorkerParams (ps @ qs) = qs @ ps"
  using assms by (rule sortWorkerParams_rotated)

end
