(* ===== verification/Eth_Verifier.thy ===== *)
theory Eth_Verifier
  imports Tasks Worker_Selection
begin

text \<open>
  \<open>src/src/ethereum/EthereumVerifier.js\<close>: verification of tasks and results against the
  Enigma contract, at once when the contract already has the record, or later by listeners
  that wait for events and expire with a new epoch. A listener is kept as the data its
  closure captures; \<open>resolve\<close> of the promise number \<open>p\<close> appends to the log of resolutions;
  an exception inside a handler leaves the promise to nobody and is logged as lost. The
  asynchronous functions are split where they wait for the contract: the start and the
  reply are separate steps, and everything else may happen in between.
\<close>

section \<open>Parameters, verdicts, state\<close>

text \<open>Code outside the repository: ABI encoding, hashes, the address check of web3.\<close>

record eth_env =
  envEncode :: "int \<Rightarrow> json \<Rightarrow> nat \<Rightarrow> int list"
  envKeccak :: "int list \<Rightarrow> json"
  envSha3 :: "string \<Rightarrow> json"
  envIsAddress :: "string \<Rightarrow> bool"

text \<open>What a check finds: \<open>{isVerified, error}\<close>.\<close>

record check =
  ckVerified :: bool
  ckError :: "js_error option"

abbreviation passed :: check where
  "passed \<equiv> \<lparr>ckVerified = True, ckError = None\<rparr>"

abbreviation refused :: "js_error \<Rightarrow> check" where
  "refused e \<equiv> \<lparr>ckVerified = False, ckError = Some e\<rparr>"

text \<open>What a verification promise resolves with; the last two are unused for submissions.\<close>

record verdict =
  vdCheck :: check
  vdGasLimit :: json
  vdBlockNumber :: json

record create_listener =
  clBlock :: "int option"
  clTask :: task
  clWorker :: string
  clPromise :: nat

record submit_listener =
  slBlock :: "int option"
  slResult :: result
  slPromise :: nat

record verifier =
  vfParams :: "epoch list"
  vfCreate :: "(string \<times> create_listener) list"
  vfSubmit :: "(string \<times> submit_listener) list"
  vfTimeout :: int
  vfResolved :: "(nat \<times> verdict) list"
  vfLost :: "nat list"

definition workerParamArrayMaxSize :: nat where
  "workerParamArrayMaxSize = 5"

definition EthereumVerifier :: verifier where
  "EthereumVerifier = \<lparr>vfParams = [], vfCreate = [], vfSubmit = [], vfTimeout = 0,
     vfResolved = [], vfLost = []\<rparr>"

definition resolve :: "nat \<Rightarrow> verdict \<Rightarrow> verifier \<Rightarrow> verifier" where
  "resolve p v vf = vf\<lparr>vfResolved := vfResolved vf @ [(p, v)]\<rparr>"

text \<open>The outcome of a handler: it resolves, or an exception ends it.\<close>

definition settle :: "nat \<Rightarrow> verdict js option \<Rightarrow> verifier \<Rightarrow> verifier" where
  "settle p r vf =
     (case r of Some (Inr v) \<Rightarrow> resolve p v vf | _ \<Rightarrow> vf\<lparr>vfLost := vfLost vf @ [p]\<rparr>)"

text \<open>The block number of an event or a record; \<open>None\<close> when it is no number.\<close>

fun block_of :: "json \<Rightarrow> int option" where
  "block_of (JNum b) = Some b"
| "block_of _ = None"

section \<open>Checks\<close>

abbreviation verificationErr :: "string \<Rightarrow> js_error" where
  "verificationErr s \<equiv> Err TaskVerificationErr s"

definition verifyHash :: "eth_env \<Rightarrow> json \<Rightarrow> json \<Rightarrow> bool js" where
  "verifyHash env hash data =
     bindE (crypto_hash (envKeccak env) data True) (\<lambda>h. Inr (h = hash))"

definition createParams :: "eth_env \<Rightarrow> task \<Rightarrow> json list js" where
  "createParams env t =
     (case tkBody t of
        DeployBody pc args fn key \<Rightarrow>
          bindE (crypto_hash (envKeccak env) pc True) (\<lambda>h. Inr [fn, args, h, key])
      | ComputeBody args fn key \<Rightarrow> Inr [fn, args, tkContractAddr t, key]
      | OutsideBody \<Rightarrow> Inl JsTypeError)"

definition verifyTaskCreateParams :: "eth_env \<Rightarrow> json \<Rightarrow> task \<Rightarrow> check js" where
  "verifyTaskCreateParams env inputsHash t =
     bindE (createParams env t) (\<lambda>paramsArray.
     bindE (hashArray (envSha3 env) paramsArray) (\<lambda>h.
       Inr (if h = inputsHash then passed
            else refused (verificationErr ''Mismatch in inputs hash in task record ''))))"

text \<open>\<open>verifySelectedWorker\<close>: the epoch of the block, then the worker of that epoch.\<close>

definition verifySelectedWorker :: "eth_env \<Rightarrow> epoch list \<Rightarrow> task \<Rightarrow> json \<Rightarrow> string \<Rightarrow> check js option" where
  "verifySelectedWorker env ps t blockNumber workerAddress =
     (case findWorkerParamForTask ps (block_of blockNumber) of
        None \<Rightarrow> Some (Inr (refused (Err TaskValidityErr ''Epoch params are missing for the task '')))
      | Some params \<Rightarrow>
          map_option (map_sum id (\<lambda>e. \<lparr>ckVerified = (e = None), ckError = e\<rparr>))
            (verifySelectedWorker_params (envEncode env) (envKeccak env) (tkContractAddr t)
               workerAddress params))"

definition checkDeployResult :: "eth_env \<Rightarrow> result \<Rightarrow> json \<Rightarrow> json \<Rightarrow> check js" where
  "checkDeployResult env r deltaHash codeHash =
     (if \<not> hasDelta r then Inr (refused (verificationErr ''No delta in task result ''))
      else if fld (rDelta r) ''key'' \<noteq> JNum 0
      then Inr (refused (verificationErr ''Mismatch in delta index in task result ''))
      else
        bindE (verifyHash env deltaHash (fld (rDelta r) ''data'')) (\<lambda>ok.
        if \<not> ok then Inr (refused (verificationErr ''Mismatch in delta hash in task result ''))
        else bindE (verifyHash env codeHash (rOutput r)) (\<lambda>ok'.
        if \<not> ok' then Inr (refused (verificationErr ''Mismatch in output hash in task result ''))
        else Inr passed)))"

text \<open>Reading an element of an array by a property key.\<close>

fun arr_elems :: "json \<Rightarrow> json list" where
  "arr_elems (JArr xs) = xs"
| "arr_elems _ = []"

definition arr_at :: "json list \<Rightarrow> json \<Rightarrow> json" where
  "arr_at xs k =
     (case filter (\<lambda>i. int_str (int i) = js_key k) [0..<length xs] of
        [] \<Rightarrow> JUndef
      | i # _ \<Rightarrow> xs ! i)"

text \<open>
  The error so far after the delta part of \<open>_checkComputeResult\<close>. A key beyond the array
  sets an error which the hash check below replaces: the hash is never \<open>undefined\<close>.
\<close>

definition key_beyond :: "json \<Rightarrow> nat \<Rightarrow> bool" where
  "key_beyond k n = (case k of JNum i \<Rightarrow> i \<ge> int n | _ \<Rightarrow> False)"

definition finishComputeCheck :: "eth_env \<Rightarrow> js_error option \<Rightarrow> json \<Rightarrow> result \<Rightarrow> check js" where
  "finishComputeCheck env error outputHash r =
     (case error of
        Some e \<Rightarrow> Inr (refused e)
      | None \<Rightarrow>
          bindE (verifyHash env outputHash (rOutput r)) (\<lambda>ok.
          Inr (if \<not> ok then refused (verificationErr ''Mismatch in output hash in task result '')
               else passed)))"

definition checkComputeResult :: "eth_env \<Rightarrow> json \<Rightarrow> json \<Rightarrow> result \<Rightarrow> json \<Rightarrow> check js" where
  "checkComputeResult env taskParams contractParams r localTip =
     (let deltaHashes = arr_elems (fld contractParams ''deltaHashes'') in
      bindE
        (if hasDelta r then
           let deltaKey = fld (rDelta r) ''key'';
               error = (if key_beyond deltaKey (length deltaHashes)
                        then Some (verificationErr ''Wrong delta index in task result '') else None) in
           bindE (verifyHash env (arr_at deltaHashes deltaKey) (fld (rDelta r) ''data'')) (\<lambda>ok.
           Inr (if \<not> ok then Some (verificationErr ''Mismatch in delta hash in task result '') else error))
         else
           let lastDeltaIndex = JNum (int (length deltaHashes) - 1) in
           bindE (get_prop localTip ''key'') (\<lambda>key.
           if lastDeltaIndex \<noteq> key
           then Inr (Some (verificationErr ''Mismatch in last local tip index (no state change) for task ''))
           else bindE (verifyHash env (arr_at deltaHashes lastDeltaIndex) (fld localTip ''data'')) (\<lambda>ok.
           Inr (if \<not> ok
                then Some (verificationErr ''Mismatch in last local tip hash (no state change) for task '')
                else None))))
        (\<lambda>error. finishComputeCheck env error (fld taskParams ''outputHash'') r))"

definition ETHEREUM_EMPTY_HASH :: json where
  "ETHEREUM_EMPTY_HASH = JStr (''0x'' @ replicate 64 (CHR ''0''))"

definition checkComputeResultEvent :: "eth_env \<Rightarrow> result \<Rightarrow> json \<Rightarrow> json \<Rightarrow> json \<Rightarrow> check js" where
  "checkComputeResultEvent env r outputHash deltaHash deltaIndex =
     bindE
       (if hasDelta r then
          let error = (if fld (rDelta r) ''key'' \<noteq> deltaIndex
                       then Some (verificationErr ''Wrong delta index in task result '') else None) in
          bindE (verifyHash env deltaHash (fld (rDelta r) ''data'')) (\<lambda>ok.
          Inr (if \<not> ok then Some (verificationErr ''Mismatch in delta hash in task result '') else error))
        else
          Inr (if deltaHash \<noteq> ETHEREUM_EMPTY_HASH
               then Some (verificationErr ''Mismatch in delta - task does not contain a delta'') else None))
       (\<lambda>error. finishComputeCheck env error outputHash r)"

section \<open>Verification at once\<close>

text \<open>\<open>{canBeVerified, isVerified, error}\<close>; \<open>null\<close> and \<open>undefined\<close> count as not verified.\<close>

record now_result =
  nwCan :: bool
  nwCheck :: check

abbreviation notYet :: now_result where
  "notYet \<equiv> \<lparr>nwCan = False, nwCheck = \<lparr>ckVerified = False, ckError = None\<rparr>\<rparr>"

abbreviation atOnce :: "check \<Rightarrow> now_result" where
  "atOnce c \<equiv> \<lparr>nwCan = True, nwCheck = c\<rparr>"

abbreviation RECORD_UNDEFINED :: json where "RECORD_UNDEFINED \<equiv> JNum 0"
abbreviation RECORD_CREATED :: json where "RECORD_CREATED \<equiv> JNum 1"
abbreviation RECEIPT_VERIFIED :: json where "RECEIPT_VERIFIED \<equiv> JNum 2"
abbreviation RECEIPT_FAILED :: json where "RECEIPT_FAILED \<equiv> JNum 3"
abbreviation RECEIPT_FAILED_ETH :: json where "RECEIPT_FAILED_ETH \<equiv> JNum 4"
abbreviation RECEIPT_FAILED_CANCELLED :: json where "RECEIPT_FAILED_CANCELLED \<equiv> JNum 5"

text \<open>
  \<open>_verifyTaskCreationNow\<close>, after \<open>getTaskParams\<close> answered \<open>reply\<close>; an exception outside its
  \<open>try\<close> leaves its promise pending.
\<close>

definition verifyTaskCreationNow :: "eth_env \<Rightarrow> task \<Rightarrow> json js \<Rightarrow> now_result js" where
  "verifyTaskCreationNow env t reply =
     (case reply of
        Inl e \<Rightarrow> Inr (atOnce (refused e))
      | Inr taskParams \<Rightarrow>
          bindE (get_prop taskParams ''status'') (\<lambda>status.
          if status = RECORD_CREATED
          then bindE (verifyTaskCreateParams env (fld taskParams ''inputsHash'') t) (\<lambda>c. Inr (atOnce c))
          else if status = RECORD_UNDEFINED then Inr notYet
          else Inr (atOnce (refused (Err TaskValidityErr ''Task remote status is not expected'')))))"

text \<open>
  \<open>taskId in this._getAllTaskSubmissionIds()\<close>: the right side is an array, so that this asks
  whether the id is one of its indices.
\<close>

definition in_array_indices :: "string \<Rightarrow> 'a list \<Rightarrow> bool" where
  "in_array_indices k xs \<longleftrightarrow> (\<exists>i\<in>set [0..<length xs]. int_str (int i) = k)"

definition submitted_check :: "eth_env \<Rightarrow> result \<Rightarrow> json \<Rightarrow> json js \<Rightarrow> json \<Rightarrow> check js" where
  "submitted_check env r taskParams contractReply localTip =
     (if is_FailedResult r then Inr (refused (Err TaskValidityErr ''Task did not fail''))
      else
        (case bindE contractReply (\<lambda>cp. bindE (get_prop cp ''deltaHashes'') (\<lambda>d. Inr (cp, d))) of
           Inl e \<Rightarrow> Inr (refused (Err TaskValidityErr ''Failure in verification of task''))
         | Inr (contractParams, deltaHashes) \<Rightarrow>
             if \<not> truthy deltaHashes
             then Inr (refused (Err TaskValidityErr ''Failure in verification of task: no delta hashes for contract''))
             else if is_DeployResult r
             then checkDeployResult env r (arr_at (arr_elems deltaHashes) (JNum 0)) (fld contractParams ''codeHash'')
             else checkComputeResult env taskParams contractParams r localTip))"

definition failed_check :: "eth_env \<Rightarrow> result \<Rightarrow> json \<Rightarrow> check js" where
  "failed_check env r taskParams =
     (if is_FailedResult r
      then bindE (verifyHash env (fld taskParams ''outputHash'') (rOutput r)) (\<lambda>ok.
        Inr (if \<not> ok then refused (verificationErr ''Mismatch in output hash in task result '') else passed))
      else Inr (refused (Err TaskFailedErr ''Task has failed'')))"

text \<open>
  \<open>_verifyTaskSubmissionNow\<close>: what it finds, and the block number that it gives to the
  listener of the task when the record is already on the chain.
\<close>

definition submission_finding ::
    "eth_env \<Rightarrow> result \<Rightarrow> json js \<Rightarrow> json js \<Rightarrow> json \<Rightarrow> (now_result \<times> json option) js" where
  "submission_finding env r taskReply contractReply localTip =
     bindE taskReply (\<lambda>taskParams.
     bindE (get_prop taskParams ''status'') (\<lambda>status.
     let once = (\<lambda>c. bindE c (\<lambda>ck. Inr (atOnce ck, None))) in
     if status = RECEIPT_VERIFIED then once (submitted_check env r taskParams contractReply localTip)
     else if status = RECEIPT_FAILED then once (failed_check env r taskParams)
     else if status = RECEIPT_FAILED_ETH
     then once (Inr (refused (Err TaskEthereumFailureErr ''Task was failed due to Ethereum'')))
     else if status = RECEIPT_FAILED_CANCELLED
     then once (Inr (refused (Err TaskValidityErr ''Failure in verification of task: task was cancelled by the user'')))
     else if status = RECORD_CREATED then Inr (notYet, Some (fld taskParams ''blockNumber''))
     else Inr (notYet, None)))"

definition verifyTaskSubmissionNow ::
    "eth_env \<Rightarrow> result \<Rightarrow> json js \<Rightarrow> json js \<Rightarrow> json \<Rightarrow> verifier \<Rightarrow> now_result \<times> verifier" where
  "verifyTaskSubmissionNow env r taskReply contractReply localTip vf =
     (case submission_finding env r taskReply contractReply localTip of
        Inl e \<Rightarrow> (atOnce (refused e), vf)
      | Inr (res, None) \<Rightarrow> (res, vf)
      | Inr (res, Some blockNumber) \<Rightarrow>
          let k = js_key (rTaskId r) in
          (res, if in_array_indices k (vfSubmit vf)
                then (case map_of (vfSubmit vf) k of
                        Some l \<Rightarrow> vf\<lparr>vfSubmit := obj_set (vfSubmit vf) k (l\<lparr>slBlock := block_of blockNumber\<rparr>)\<rparr>
                      | None \<Rightarrow> vf)
                else vf))"

section \<open>Listeners\<close>

definition noDetails :: "check \<Rightarrow> verdict" where
  "noDetails c = \<lparr>vdCheck = c, vdGasLimit = JNull, vdBlockNumber = JNull\<rparr>"

abbreviation ev_type :: "json \<Rightarrow> json" where
  "ev_type ev \<equiv> fld ev ''type''"

text \<open>The listener of \<open>_createTaskCreationListener\<close>.\<close>

definition creationListener :: "eth_env \<Rightarrow> epoch list \<Rightarrow> create_listener \<Rightarrow> json \<Rightarrow> verdict js option" where
  "creationListener env ps l event =
     (if ev_type event = JStr ''NewEpoch''
      then Some (Inr (noDetails (refused (Err TaskTimeoutErr ''Task timed out''))))
      else if ev_type event = JStr ''TaskCancelled''
      then Some (Inr (noDetails (refused (Err TaskCancelledErr ''Task was cancelled''))))
      else
        (case verifyTaskCreateParams env (fld event ''inputsHash'') (clTask l) of
           Inl e \<Rightarrow> Some (Inl e)
         | Inr res \<Rightarrow>
            (if ckVerified res
             then map_option (map_sum id (\<lambda>res2. \<lparr>vdCheck = res2, vdGasLimit = fld event ''gasLimit'',
                       vdBlockNumber = fld event ''blockNumber''\<rparr>))
                    (verifySelectedWorker env ps (clTask l) (fld event ''blockNumber'') (clWorker l))
             else Some (Inr (noDetails res)))))"

text \<open>The listener of \<open>_createTaskSubmissionListener\<close>.\<close>

definition submissionListener :: "eth_env \<Rightarrow> submit_listener \<Rightarrow> json \<Rightarrow> verdict js option" where
  "submissionListener env l event =
     (let r = slResult l; type = ev_type event in
      Some (map_sum id noDetails
       (if type = JStr ''NewEpoch'' then Inr (refused (Err TaskTimeoutErr ''Task timed out''))
        else if type = JStr ''TaskFailureDueToEthereumCB''
        then Inr (refused (Err TaskEthereumFailureErr ''Task was failed due to Ethereum''))
        else if is_FailedResult r
        then (if type = JStr ''TaskFailureSubmission''
              then bindE (verifyHash env (fld event ''outputHash'') (rOutput r)) (\<lambda>ok.
                Inr (if \<not> ok then refused (verificationErr ''Mismatch in output hash in task result '')
                     else passed))
              else Inr (refused (Err TaskValidityErr ''Task did not fail'')))
        else if type = JStr ''TaskFailureSubmission''
        then Inr (refused (Err TaskFailedErr ''Task has failed''))
        else if is_DeployResult r
        then (if type \<noteq> JStr ''SecretContractDeployment''
              then Inr (refused (Err TaskValidityErr ''Wrong event received for task''))
              else checkDeployResult env r (fld event ''stateDeltaHash'') (fld event ''codeHash''))
        else (if type \<noteq> JStr ''TaskSuccessSubmission''
              then Inr (refused (Err TaskValidityErr ''Wrong event received for task''))
              else checkComputeResultEvent env r (fld event ''outputHash'') (fld event ''stateDeltaHash'')
                (fld event ''stateDeltaHashIndex'')))))"

definition setTaskCreationListener :: "string \<Rightarrow> create_listener \<Rightarrow> verifier \<Rightarrow> verifier" where
  "setTaskCreationListener taskId l vf = vf\<lparr>vfCreate := obj_set (vfCreate vf) taskId l\<rparr>"

definition deleteTaskCreationListener :: "string \<Rightarrow> verifier \<Rightarrow> verifier" where
  "deleteTaskCreationListener taskId vf = vf\<lparr>vfCreate := obj_del (vfCreate vf) taskId\<rparr>"

definition setTaskSubmissionListener :: "string \<Rightarrow> submit_listener \<Rightarrow> verifier \<Rightarrow> verifier" where
  "setTaskSubmissionListener taskId l vf = vf\<lparr>vfSubmit := obj_set (vfSubmit vf) taskId l\<rparr>"

definition deleteTaskSubmissionListener :: "string \<Rightarrow> verifier \<Rightarrow> verifier" where
  "deleteTaskSubmissionListener taskId vf = vf\<lparr>vfSubmit := obj_del (vfSubmit vf) taskId\<rparr>"

definition runCreation :: "eth_env \<Rightarrow> json \<Rightarrow> create_listener \<Rightarrow> verifier \<Rightarrow> verifier" where
  "runCreation env event l vf = settle (clPromise l) (creationListener env (vfParams vf) l event) vf"

definition runSubmission :: "eth_env \<Rightarrow> json \<Rightarrow> submit_listener \<Rightarrow> verifier \<Rightarrow> verifier" where
  "runSubmission env event l vf = settle (slPromise l) (submissionListener env l event) vf"

section \<open>Starting a verification, and the reply of the contract\<close>

text \<open>\<open>verifyTaskCreation\<close> up to the call of the contract; \<open>None\<close> is no \<open>Task\<close>.\<close>

definition verifyTaskCreation_start ::
    "eth_env \<Rightarrow> nat \<Rightarrow> task option \<Rightarrow> int option \<Rightarrow> string \<Rightarrow> verifier \<Rightarrow> verifier" where
  "verifyTaskCreation_start env p ot blockNumber workerAddress vf =
     (case ot of
        None \<Rightarrow> resolve p (noDetails (refused (Err TypeErr ''Wrong task type''))) vf
      | Some t \<Rightarrow>
         (if \<not> envIsAddress env workerAddress
          then resolve p (noDetails (refused (Err TypeErr ''Worker address is not a valid Ethereum address''))) vf
          else setTaskCreationListener (js_key (tkId t))
                 \<lparr>clBlock = blockNumber, clTask = t, clWorker = workerAddress, clPromise = p\<rparr> vf))"

text \<open>The rest of \<open>verifyTaskCreation\<close>, when \<open>getTaskParams\<close> has answered.\<close>

definition verifyTaskCreation_reply ::
    "eth_env \<Rightarrow> nat \<Rightarrow> task \<Rightarrow> string \<Rightarrow> json js \<Rightarrow> verifier \<Rightarrow> verifier" where
  "verifyTaskCreation_reply env p t workerAddress reply vf =
     (case verifyTaskCreationNow env t reply of
        Inl e \<Rightarrow> vf
      | Inr res \<Rightarrow>
         (if \<not> nwCan res then vf
          else
            let vf = deleteTaskCreationListener (js_key (tkId t)) vf in
            if ckVerified (nwCheck res)
            then (let taskParams = (case reply of Inr v \<Rightarrow> v | Inl e \<Rightarrow> JUndef) in
              settle p (map_option (map_sum id (\<lambda>res2. \<lparr>vdCheck = res2,
                     vdGasLimit = fld taskParams ''gasLimit'', vdBlockNumber = fld taskParams ''blockNumber''\<rparr>))
                  (verifySelectedWorker env (vfParams vf) t (fld taskParams ''blockNumber'') workerAddress)) vf)
            else resolve p (noDetails \<lparr>ckVerified = False, ckError = ckError (nwCheck res)\<rparr>) vf))"

definition verifyTaskSubmission_start :: "nat \<Rightarrow> result option \<Rightarrow> int option \<Rightarrow> verifier \<Rightarrow> verifier" where
  "verifyTaskSubmission_start p ro blockNumber vf =
     (case ro of
        None \<Rightarrow> resolve p (noDetails (refused (Err TypeErr ''Wrong task result type''))) vf
      | Some r \<Rightarrow> setTaskSubmissionListener (js_key (rTaskId r))
                  \<lparr>slBlock = blockNumber, slResult = r, slPromise = p\<rparr> vf)"

definition verifyTaskSubmission_reply ::
    "eth_env \<Rightarrow> nat \<Rightarrow> result \<Rightarrow> json js \<Rightarrow> json js \<Rightarrow> json \<Rightarrow> verifier \<Rightarrow> verifier" where
  "verifyTaskSubmission_reply env p r taskReply contractReply localTip vf =
     (let (res, vf) = verifyTaskSubmissionNow env r taskReply contractReply localTip vf in
      if nwCan res
      then resolve p (noDetails (nwCheck res)) (deleteTaskSubmissionListener (js_key (rTaskId r)) vf)
      else vf)"

section \<open>Events\<close>

text \<open>
  The loop of the event callbacks: the first registered id for which the event is meant
  (\<open>sel\<close> gives the event its listener receives) loses its listener, which then runs.
\<close>

fun fire_first ::
    "(string \<Rightarrow> json option) \<Rightarrow> ('v \<Rightarrow> (string \<times> 'l) list) \<Rightarrow> (string \<Rightarrow> 'v \<Rightarrow> 'v) \<Rightarrow>
       (json \<Rightarrow> 'l \<Rightarrow> 'v \<Rightarrow> 'v) \<Rightarrow> string list \<Rightarrow> 'v \<Rightarrow> 'v" where
  "fire_first sel tab del run [] v = v"
| "fire_first sel tab del run (k # ks) v =
     (case (sel k, map_of (tab v) k) of
        (Some ev, Some l) \<Rightarrow> run ev l (del k v)
      | _ \<Rightarrow> fire_first sel tab del run ks v)"

text \<open>The loops of \<open>_checkTimeouts\<close>.\<close>

fun fire_expired ::
    "('l \<Rightarrow> bool) \<Rightarrow> ('v \<Rightarrow> (string \<times> 'l) list) \<Rightarrow> (string \<Rightarrow> 'v \<Rightarrow> 'v) \<Rightarrow>
       ('l \<Rightarrow> 'v \<Rightarrow> 'v) \<Rightarrow> string list \<Rightarrow> 'v \<Rightarrow> 'v" where
  "fire_expired old tab del run [] v = v"
| "fire_expired old tab del run (k # ks) v =
     (case map_of (tab v) k of
        Some l \<Rightarrow> if old l then fire_expired old tab del run ks (run l (del k v))
                  else fire_expired old tab del run ks v
      | None \<Rightarrow> fire_expired old tab del run ks v)"

definition creation_target :: "json \<Rightarrow> string \<Rightarrow> json option" where
  "creation_target event taskId =
     (if fld event ''taskId'' = JStr taskId then Some event
      else (case fld event ''tasks'' of
              JObj tasks \<Rightarrow> map_of tasks taskId
            | _ \<Rightarrow> None))"

definition taskCreationEventCallback :: "eth_env \<Rightarrow> json js \<Rightarrow> verifier \<Rightarrow> verifier" where
  "taskCreationEventCallback env ev vf =
     (case ev of
        Inl err \<Rightarrow> vf
      | Inr event \<Rightarrow>
          fire_first (creation_target event) vfCreate deleteTaskCreationListener (runCreation env)
            (obj_keys (vfCreate vf)) vf)"

definition taskSubmissionEventCallback :: "eth_env \<Rightarrow> json js \<Rightarrow> verifier \<Rightarrow> verifier" where
  "taskSubmissionEventCallback env ev vf =
     (case ev of
        Inl err \<Rightarrow> vf
      | Inr event \<Rightarrow>
          fire_first (\<lambda>taskId. if fld event ''taskId'' = JStr taskId then Some event else None)
            vfSubmit deleteTaskSubmissionListener (runSubmission env) (obj_keys (vfSubmit vf)) vf)"

definition taskDeployedContractEventCallback :: "eth_env \<Rightarrow> json js \<Rightarrow> verifier \<Rightarrow> verifier" where
  "taskDeployedContractEventCallback env ev vf =
     (case ev of
        Inl err \<Rightarrow> vf
      | Inr event \<Rightarrow>
          fire_first (\<lambda>taskId. if fld event ''secretContractAddress'' = JStr taskId then Some event else None)
            vfSubmit deleteTaskSubmissionListener (runSubmission env) (obj_keys (vfSubmit vf)) vf)"

text \<open>\<open>newEpochEvent.firstBlockNumber - blockNumber >= this._taskTimeoutInBlocks\<close>\<close>

definition expired :: "epoch \<Rightarrow> int option \<Rightarrow> int \<Rightarrow> bool" where
  "expired e block timeout =
     (case (epFirstBlock e, block) of
        (Some f, Some b) \<Rightarrow> f - b \<ge> timeout
      | _ \<Rightarrow> False)"

text \<open>The listeners only read the type of the new epoch event, which the services set.\<close>

definition newEpochEvent :: json where
  "newEpochEvent = JObj [(''type'', JStr ''NewEpoch'')]"

definition checkTimeouts :: "eth_env \<Rightarrow> epoch \<Rightarrow> verifier \<Rightarrow> verifier" where
  "checkTimeouts env e vf =
     (let vf = fire_expired (\<lambda>l. expired e (clBlock l) (vfTimeout vf)) vfCreate
                 deleteTaskCreationListener (runCreation env newEpochEvent) (obj_keys (vfCreate vf)) vf in
      fire_expired (\<lambda>l. expired e (slBlock l) (vfTimeout vf)) vfSubmit
        deleteTaskSubmissionListener (runSubmission env newEpochEvent) (obj_keys (vfSubmit vf)) vf)"

definition push_epoch :: "epoch \<Rightarrow> epoch list \<Rightarrow> epoch list" where
  "push_epoch e ps =
     (let ps = ps @ [e] in if length ps > workerParamArrayMaxSize then tl ps else ps)"

definition newEpochEventCallback :: "eth_env \<Rightarrow> epoch js \<Rightarrow> verifier \<Rightarrow> verifier" where
  "newEpochEventCallback env ev vf =
     (case ev of
        Inl err \<Rightarrow> vf
      | Inr event \<Rightarrow>
         (if \<not> validateWorkerParams event then vf
          else checkTimeouts env event (vf\<lparr>vfParams := push_epoch event (vfParams vf)\<rparr>)))"

text \<open>
  \<open>_updateWorkerParamNow\<close>: the first element is not validated, and the error message of an
  invalid one refers to an undeclared variable.
\<close>

definition updateWorkerParamNow :: "epoch list js \<Rightarrow> verifier \<Rightarrow> verifier js" where
  "updateWorkerParamNow reply vf =
     bindE reply (\<lambda>workerParamArray.
       if \<exists>p\<in>set (tl workerParamArray). \<not> validateWorkerParams p then Inl JsReferenceError
       else Inr (vf\<lparr>vfParams := sortWorkerParams workerParamArray\<rparr>))"

text \<open>\<open>init\<close>, as far as the state is concerned: the epochs, then the timeout.\<close>

definition verifier_init :: "epoch list js \<Rightarrow> int js \<Rightarrow> verifier \<Rightarrow> verifier js" where
  "verifier_init epochs timeout vf =
     bindE (updateWorkerParamNow epochs vf) (\<lambda>vf.
     bindE timeout (\<lambda>t. Inr (vf\<lparr>vfTimeout := t\<rparr>)))"

section \<open>The interface: a table of listeners\<close>

locale listener_table =
  fixes tab :: "'v \<Rightarrow> (string \<times> 'l) list"
    and del :: "string \<Rightarrow> 'v \<Rightarrow> 'v"
    and run :: "json \<Rightarrow> 'l \<Rightarrow> 'v \<Rightarrow> 'v"
  assumes tab_del: "tab (del k v) = obj_del (tab v) k"
    and tab_run: "tab (run ev l v) = tab v"
begin

lemma fire_first_none:
  "\<forall>k\<in>set ks. sel k = None \<or> map_of (tab v) k = None \<Longrightarrow>
     fire_first sel tab del run ks v = v"
  by (induction ks) (auto split: option.splits)

lemma fire_first_hit:
  assumes "k \<in> set ks" "sel k = Some ev" "map_of (tab v) k = Some l"
    and "\<forall>j\<in>set ks. j \<noteq> k \<longrightarrow> sel j = None"
  shows "fire_first sel tab del run ks v = run ev l (del k v)"
  using assms
proof (induction ks)
  case (Cons j ks)
  then show ?case by (cases "j = k") auto
qed simp

lemma fire_first_cases:
  "fire_first sel tab del run ks v = v \<or>
     (\<exists>k ev l. k \<in> set ks \<and> sel k = Some ev \<and> map_of (tab v) k = Some l \<and>
        fire_first sel tab del run ks v = run ev l (del k v))"
  by (induction ks) (auto split: option.splits)

lemma fire_first_tab:
  "tab (fire_first sel tab del run ks v) = tab v \<or>
     (\<exists>k\<in>set ks. sel k \<noteq> None \<and> tab (fire_first sel tab del run ks v) = obj_del (tab v) k)"
  by (induction ks) (auto simp: tab_del tab_run split: option.splits)

text \<open>After the timeout loop exactly the listeners that are not old are left.\<close>

lemma fire_expired_tab:
  "obj_wf (tab v) \<Longrightarrow> distinct ks \<Longrightarrow>
     tab (fire_expired old tab del (run ev) ks v) = filter (\<lambda>(k, l). \<not> (k \<in> set ks \<and> old l)) (tab v)"
proof (induction ks arbitrary: v)
  case (Cons k ks)
  show ?case
  proof (cases "map_of (tab v) k")
    case None
    then have "(k', l) \<in> set (tab v) \<Longrightarrow> k' \<noteq> k" for k' l by (auto simp: map_of_eq_None_iff image_iff)
    then show ?thesis
      using Cons None by (auto intro!: filter_cong)
  next
    case (Some l)
    have uniq: "(k, l') \<in> set (tab v) \<Longrightarrow> l' = l" for l'
      using Some obj_wf_map_of [OF Cons.prems(1)] by fastforce
    show ?thesis
    proof (cases "old l")
      case True
      have "tab (run ev l (del k v)) = obj_del (tab v) k" by (simp add: tab_del tab_run)
      then show ?thesis
        using Cons True Some obj_wf_obj_del [OF Cons.prems(1), of k] uniq
        by (auto simp: obj_del_def intro!: filter_cong)
    next
      case False
      then show ?thesis using Cons Some uniq by (auto intro!: filter_cong)
    qed
  qed
qed (simp add: case_prod_beta)

end

text \<open>A table whose listeners, run with the new epoch event, resolve their promise as timed out.\<close>

definition timedOut :: verdict where
  "timedOut = noDetails (refused (Err TaskTimeoutErr ''Task timed out''))"

locale timed_table = listener_table tab del run
  for tab :: "'v \<Rightarrow> (string \<times> 'l) list"
    and del :: "string \<Rightarrow> 'v \<Rightarrow> 'v"
    and run :: "json \<Rightarrow> 'l \<Rightarrow> 'v \<Rightarrow> 'v" +
  fixes log :: "'v \<Rightarrow> (nat \<times> verdict) list"
    and promise :: "'l \<Rightarrow> nat"
  assumes log_del: "log (del k v) = log v"
    and log_run: "log (run newEpochEvent l v) = log v @ [(promise l, timedOut)]"
begin

lemma expired_entries_log:
  "distinct (map fst es) \<Longrightarrow> \<forall>(k, l)\<in>set es. map_of (tab v) k = Some l \<Longrightarrow>
     log (fire_expired old tab del (run newEpochEvent) (map fst es) v)
       = log v @ map (\<lambda>(k, l). (promise l, timedOut)) (filter (\<lambda>(k, l). old l) es)"
proof (induction es arbitrary: v)
  case (Cons e es)
  obtain k l where e: "e = (k, l)" by (cases e)
  have hit: "map_of (tab v) k = Some l" using Cons.prems(2) e by simp
  show ?case
  proof (cases "old l")
    case True
    let ?v = "run newEpochEvent l (del k v)"
    have "\<forall>(k', l')\<in>set es. map_of (tab ?v) k' = Some l'"
      using Cons.prems e by (auto simp: tab_run tab_del image_iff split: prod.splits)
    then show ?thesis using Cons.IH [of ?v] Cons.prems(1) e hit True by (simp add: log_run log_del)
  next
    case False
    then show ?thesis using Cons.IH [of v] Cons.prems e hit by simp
  qed
qed simp

lemma expired_log:
  assumes "obj_wf (tab v)"
  shows "log (fire_expired old tab del (run newEpochEvent) (obj_keys (tab v)) v)
    = log v @ map (\<lambda>(k, l). (promise l, timedOut)) (filter (\<lambda>(k, l). old l) (tab v))"
  using assms obj_wf_map_of [OF assms]
  by (intro expired_entries_log) (auto simp: obj_wf_def)

lemma expired_tab:
  assumes "obj_wf (tab v)"
  shows "tab (fire_expired old tab del (run newEpochEvent) (obj_keys (tab v)) v)
    = filter (\<lambda>(k, l). \<not> old l) (tab v)"
  using fire_expired_tab [OF assms, of "obj_keys (tab v)"] assms
  by (auto simp: obj_wf_def image_iff intro!: filter_cong)

end

lemma settle_tab [simp]:
  "vfCreate (settle p r vf) = vfCreate vf" "vfSubmit (settle p r vf) = vfSubmit vf"
  "vfParams (settle p r vf) = vfParams vf" "vfTimeout (settle p r vf) = vfTimeout vf"
  by (auto simp: settle_def resolve_def split: option.splits sum.splits)

interpretation creations: listener_table vfCreate deleteTaskCreationListener "runCreation env" for env
  by unfold_locales (simp_all add: deleteTaskCreationListener_def runCreation_def)

interpretation submissions: listener_table vfSubmit deleteTaskSubmissionListener "runSubmission env" for env
  by unfold_locales (simp_all add: deleteTaskSubmissionListener_def runSubmission_def)

lemma newEpoch_listeners:
  "creationListener env ps cl newEpochEvent = Some (Inr timedOut)"
  "submissionListener env sl newEpochEvent = Some (Inr timedOut)"
  by (simp_all add: creationListener_def submissionListener_def newEpochEvent_def timedOut_def
      obj_get_def Let_def)

interpretation timed_creations:
  timed_table vfCreate deleteTaskCreationListener "runCreation env" vfResolved clPromise for env
  by unfold_locales
    (simp_all add: deleteTaskCreationListener_def runCreation_def settle_def resolve_def newEpoch_listeners)

interpretation timed_submissions:
  timed_table vfSubmit deleteTaskSubmissionListener "runSubmission env" vfResolved slPromise for env
  by unfold_locales
    (simp_all add: deleteTaskSubmissionListener_def runSubmission_def settle_def resolve_def newEpoch_listeners)

section \<open>What a positive verdict means\<close>

definition hash_is :: "eth_env \<Rightarrow> json \<Rightarrow> json \<Rightarrow> bool" where
  "hash_is env hash data \<longleftrightarrow> crypto_hash (envKeccak env) data True = Inr hash"

lemma verifyHash_Inr: "verifyHash env hash data = Inr b \<Longrightarrow> b = hash_is env hash data"
  by (auto simp: verifyHash_def hash_is_def bindE_eq_Inr)

lemma verifyHash_True: "verifyHash env hash data = Inr True \<longleftrightarrow> hash_is env hash data"
  by (auto simp: verifyHash_def hash_is_def bindE_eq_Inr)

definition inputs_hash_is :: "eth_env \<Rightarrow> json \<Rightarrow> task \<Rightarrow> bool" where
  "inputs_hash_is env h t \<longleftrightarrow>
     (\<exists>ps. createParams env t = Inr ps \<and> hashArray (envSha3 env) ps = Inr h)"

text \<open>The worker is the one the contract's lottery selects in the epoch of the block.\<close>

definition worker_selected :: "eth_env \<Rightarrow> epoch list \<Rightarrow> json \<Rightarrow> json \<Rightarrow> string \<Rightarrow> bool" where
  "worker_selected env ps contractAddr blockNumber workerAddress \<longleftrightarrow>
     (\<exists>e w. findWorkerParamForTask ps (block_of blockNumber) = Some e \<and>
        round_worker (envEncode env) (envKeccak env) contractAddr e 0 = Inr (Some w) \<and>
        strip0x (toLowerCase w) = workerAddress)"

lemma verifyTaskCreateParams_verified:
  assumes "verifyTaskCreateParams env h t = Inr c"
  shows "ckVerified c \<longleftrightarrow> inputs_hash_is env h t"
  using assms
  by (auto simp: verifyTaskCreateParams_def inputs_hash_is_def bindE_eq_Inr split: if_splits)

lemma verifySelectedWorker_verified:
  assumes "verifySelectedWorker env ps t b w = Some (Inr c)"
  shows "ckVerified c \<longleftrightarrow> worker_selected env ps (tkContractAddr t) b w"
proof (cases "findWorkerParamForTask ps (block_of b)")
  case None
  then show ?thesis using assms by (auto simp: verifySelectedWorker_def worker_selected_def)
next
  case (Some e)
  show ?thesis
  proof (cases "round_worker (envEncode env) (envKeccak env) (tkContractAddr t) e 0")
    case (Inl x)
    then show ?thesis
      using assms Some by (simp add: verifySelectedWorker_def verifySelectedWorker_params_def
          selectWorkerGroup_one del: One_nat_def)
  next
    case (Inr ow)
    then show ?thesis
      using assms Some
      by (cases ow) (auto simp: verifySelectedWorker_def verifySelectedWorker_params_def
          selectWorkerGroup_one worker_selected_def simp del: One_nat_def split: if_splits)
  qed
qed

lemma verifySelectedWorker_returns: "verifySelectedWorker env ps t b w \<noteq> None"
  by (cases "findWorkerParamForTask ps (block_of b)")
    (simp_all add: verifySelectedWorker_def verifySelectedWorker_params_def selectWorkerGroup_one
      del: One_nat_def)

lemma creationListener_verified:
  assumes "creationListener env ps l ev = Some (Inr v)"
  shows "ckVerified (vdCheck v) \<longleftrightarrow>
    ev_type ev \<noteq> JStr ''NewEpoch'' \<and> ev_type ev \<noteq> JStr ''TaskCancelled'' \<and>
    inputs_hash_is env (fld ev ''inputsHash'') (clTask l) \<and>
    worker_selected env ps (tkContractAddr (clTask l)) (fld ev ''blockNumber'') (clWorker l)"
proof (cases "ev_type ev = JStr ''NewEpoch'' \<or> ev_type ev = JStr ''TaskCancelled''")
  case True
  then show ?thesis using assms by (auto simp: creationListener_def noDetails_def)
next
  case False
  then obtain res where res: "verifyTaskCreateParams env (fld ev ''inputsHash'') (clTask l) = Inr res"
    using assms by (auto simp: creationListener_def split: sum.splits)
  show ?thesis
  proof (cases "ckVerified res")
    case True
    then obtain c where "verifySelectedWorker env ps (clTask l) (fld ev ''blockNumber'') (clWorker l) = Some (Inr c)"
        "vdCheck v = c"
      using assms False res
      by (cases "verifySelectedWorker env ps (clTask l) (fld ev ''blockNumber'') (clWorker l)")
        (auto simp: creationListener_def map_sum_def split: sum.splits)
    then show ?thesis
      using True False verifyTaskCreateParams_verified [OF res] verifySelectedWorker_verified by simp
  next
    case nv: False
    then show ?thesis
      using assms False res verifyTaskCreateParams_verified [OF res]
      by (auto simp: creationListener_def noDetails_def)
  qed
qed

definition deploy_matches :: "eth_env \<Rightarrow> result \<Rightarrow> json \<Rightarrow> json \<Rightarrow> bool" where
  "deploy_matches env r deltaHash codeHash \<longleftrightarrow>
     hasDelta r \<and> fld (rDelta r) ''key'' = JNum 0 \<and>
     hash_is env deltaHash (fld (rDelta r) ''data'') \<and> hash_is env codeHash (rOutput r)"

lemma checkDeployResult_verified:
  "checkDeployResult env r dh ch = Inr c \<Longrightarrow> ckVerified c \<longleftrightarrow> deploy_matches env r dh ch"
  by (auto simp: checkDeployResult_def deploy_matches_def bindE_eq_Inr split: if_splits
      dest!: verifyHash_Inr)

lemma finishComputeCheck_verified:
  "finishComputeCheck env error oh r = Inr c \<Longrightarrow>
     ckVerified c \<longleftrightarrow> error = None \<and> hash_is env oh (rOutput r)"
  by (auto simp: finishComputeCheck_def bindE_eq_Inr split: option.splits if_splits dest!: verifyHash_Inr)

definition compute_event_matches :: "eth_env \<Rightarrow> result \<Rightarrow> json \<Rightarrow> json \<Rightarrow> json \<Rightarrow> bool" where
  "compute_event_matches env r outputHash deltaHash deltaIndex \<longleftrightarrow>
     hash_is env outputHash (rOutput r) \<and>
     (if hasDelta r
      then fld (rDelta r) ''key'' = deltaIndex \<and> hash_is env deltaHash (fld (rDelta r) ''data'')
      else deltaHash = ETHEREUM_EMPTY_HASH)"

lemma checkComputeResultEvent_verified:
  "checkComputeResultEvent env r oh dh di = Inr c \<Longrightarrow>
     ckVerified c \<longleftrightarrow> compute_event_matches env r oh dh di"
  by (auto simp: checkComputeResultEvent_def compute_event_matches_def bindE_eq_Inr Let_def
      split: if_splits dest!: verifyHash_Inr finishComputeCheck_verified)

definition compute_matches :: "eth_env \<Rightarrow> json \<Rightarrow> json \<Rightarrow> result \<Rightarrow> json \<Rightarrow> bool" where
  "compute_matches env taskParams contractParams r localTip \<longleftrightarrow>
     hash_is env (fld taskParams ''outputHash'') (rOutput r) \<and>
     (let hs = arr_elems (fld contractParams ''deltaHashes'') in
      if hasDelta r
      then \<not> key_beyond (fld (rDelta r) ''key'') (length hs) \<and>
           hash_is env (arr_at hs (fld (rDelta r) ''key'')) (fld (rDelta r) ''data'')
      else fld localTip ''key'' = JNum (int (length hs) - 1) \<and>
           hash_is env (arr_at hs (JNum (int (length hs) - 1))) (fld localTip ''data''))"

lemma checkComputeResult_verified:
  "checkComputeResult env tp cp r lt = Inr c \<Longrightarrow> ckVerified c \<longleftrightarrow> compute_matches env tp cp r lt"
  by (auto simp: checkComputeResult_def compute_matches_def bindE_eq_Inr Let_def
      split: if_splits dest!: verifyHash_Inr finishComputeCheck_verified get_prop_fld)

text \<open>When a submission event confirms a result.\<close>

definition event_confirms :: "eth_env \<Rightarrow> result \<Rightarrow> json \<Rightarrow> bool" where
  "event_confirms env r ev \<longleftrightarrow>
     (if is_FailedResult r
      then ev_type ev = JStr ''TaskFailureSubmission'' \<and> hash_is env (fld ev ''outputHash'') (rOutput r)
      else if is_DeployResult r
      then ev_type ev = JStr ''SecretContractDeployment'' \<and>
           deploy_matches env r (fld ev ''stateDeltaHash'') (fld ev ''codeHash'')
      else ev_type ev = JStr ''TaskSuccessSubmission'' \<and>
           compute_event_matches env r (fld ev ''outputHash'') (fld ev ''stateDeltaHash'')
             (fld ev ''stateDeltaHashIndex''))"

lemma submissionListener_verified:
  assumes "submissionListener env l ev = Some (Inr v)"
  shows "ckVerified (vdCheck v) \<longleftrightarrow> event_confirms env (slResult l) ev"
proof -
  define b where "b =
    (if ev_type ev = JStr ''NewEpoch'' then Inr (refused (Err TaskTimeoutErr ''Task timed out''))
        else if ev_type ev = JStr ''TaskFailureDueToEthereumCB''
        then Inr (refused (Err TaskEthereumFailureErr ''Task was failed due to Ethereum''))
        else if is_FailedResult (slResult l)
        then (if ev_type ev = JStr ''TaskFailureSubmission''
              then bindE (verifyHash env (fld ev ''outputHash'') (rOutput (slResult l))) (\<lambda>ok.
                Inr (if \<not> ok then refused (verificationErr ''Mismatch in output hash in task result '')
                     else passed))
              else Inr (refused (Err TaskValidityErr ''Task did not fail'')))
        else if ev_type ev = JStr ''TaskFailureSubmission''
        then Inr (refused (Err TaskFailedErr ''Task has failed''))
        else if is_DeployResult (slResult l)
        then (if ev_type ev \<noteq> JStr ''SecretContractDeployment''
              then Inr (refused (Err TaskValidityErr ''Wrong event received for task''))
              else checkDeployResult env (slResult l) (fld ev ''stateDeltaHash'') (fld ev ''codeHash''))
        else (if ev_type ev \<noteq> JStr ''TaskSuccessSubmission''
              then Inr (refused (Err TaskValidityErr ''Wrong event received for task''))
              else checkComputeResultEvent env (slResult l) (fld ev ''outputHash'') (fld ev ''stateDeltaHash'')
                (fld ev ''stateDeltaHashIndex'')))"
  have "submissionListener env l ev = Some (map_sum id noDetails b)"
    by (simp add: submissionListener_def b_def Let_def)
  then obtain c where c: "b = Inr c" "v = noDetails c" using assms by (cases b) auto
  have "ckVerified c \<longleftrightarrow> event_confirms env (slResult l) ev"
    using c(1) unfolding b_def event_confirms_def
    by (auto simp: bindE_eq_Inr split: if_splits
        dest!: verifyHash_Inr checkDeployResult_verified checkComputeResultEvent_verified)
  then show ?thesis using c(2) by (simp add: noDetails_def)
qed

text \<open>When the contract's record of the task confirms a result.\<close>

definition record_confirms :: "eth_env \<Rightarrow> result \<Rightarrow> json \<Rightarrow> json js \<Rightarrow> json \<Rightarrow> bool" where
  "record_confirms env r taskParams contractReply localTip \<longleftrightarrow>
     (if is_FailedResult r
      then fld taskParams ''status'' = RECEIPT_FAILED \<and>
           hash_is env (fld taskParams ''outputHash'') (rOutput r)
      else fld taskParams ''status'' = RECEIPT_VERIFIED \<and>
           (\<exists>cp. contractReply = Inr cp \<and> truthy (fld cp ''deltaHashes'') \<and>
              (if is_DeployResult r
               then deploy_matches env r (arr_at (arr_elems (fld cp ''deltaHashes'')) (JNum 0)) (fld cp ''codeHash'')
               else compute_matches env taskParams cp r localTip)))"

lemma submitted_check_verified:
  assumes "submitted_check env r tp cr lt = Inr c" "\<not> is_FailedResult r"
  shows "ckVerified c \<longleftrightarrow> (\<exists>cp. cr = Inr cp \<and> truthy (fld cp ''deltaHashes'') \<and>
    (if is_DeployResult r
     then deploy_matches env r (arr_at (arr_elems (fld cp ''deltaHashes'')) (JNum 0)) (fld cp ''codeHash'')
     else compute_matches env tp cp r lt))"
proof (cases "bindE cr (\<lambda>cp. bindE (get_prop cp ''deltaHashes'') (\<lambda>d. Inr (cp, d)))")
  case (Inl e)
  then have "\<not> truthy (fld cp ''deltaHashes'')" if "cr = Inr cp" for cp
    using that by (cases cp) auto
  then show ?thesis using assms Inl by (auto simp: submitted_check_def)
next
  case (Inr q)
  then obtain cp where cp: "cr = Inr cp" "q = (cp, fld cp ''deltaHashes'')"
    by (auto simp: bindE_eq_Inr dest: get_prop_fld)
  show ?thesis
    using assms Inr cp
    by (auto simp: submitted_check_def split: if_splits
        dest!: checkDeployResult_verified checkComputeResult_verified)
qed

lemma submission_finding_verified:
  assumes "submission_finding env r taskReply contractReply localTip = Inr (res, b)"
  shows "nwCan res \<and> ckVerified (nwCheck res) \<longleftrightarrow>
    (\<exists>tp. taskReply = Inr tp \<and> record_confirms env r tp contractReply localTip)"
proof -
  obtain tp where tp: "taskReply = Inr tp" "get_prop tp ''status'' = Inr (fld tp ''status'')"
    using assms by (auto simp: submission_finding_def bindE_eq_Inr dest: get_prop_fld)
  consider "fld tp ''status'' = RECEIPT_VERIFIED" | "fld tp ''status'' = RECEIPT_FAILED"
    | "fld tp ''status'' \<noteq> RECEIPT_VERIFIED" "fld tp ''status'' \<noteq> RECEIPT_FAILED" by blast
  then show ?thesis
  proof cases
    case 1
    then obtain c where c: "submitted_check env r tp contractReply localTip = Inr c" "res = atOnce c"
      using assms tp by (auto simp: submission_finding_def Let_def bindE_eq_Inr)
    show ?thesis
    proof (cases "is_FailedResult r")
      case True
      then show ?thesis using 1 c tp by (auto simp: submitted_check_def record_confirms_def)
    next
      case False
      then show ?thesis
        using 1 c tp submitted_check_verified [OF c(1) False] by (auto simp: record_confirms_def)
    qed
  next
    case 2
    then obtain c where c: "failed_check env r tp = Inr c" "res = atOnce c"
      using assms tp by (auto simp: submission_finding_def Let_def bindE_eq_Inr)
    then show ?thesis
      using 2 tp by (auto simp: failed_check_def record_confirms_def bindE_eq_Inr split: if_splits
          dest!: verifyHash_Inr)
  next
    case 3
    then have "\<not> ckVerified (nwCheck res)"
      using assms tp by (auto simp: submission_finding_def Let_def split: if_splits)
    then show ?thesis using 3 tp by (simp add: record_confirms_def)
  qed
qed

section \<open>Timeouts\<close>

lemma fire_expired_frame:
  assumes "\<And>k v. g (del k v) = g v" "\<And>l v. g (run l v) = g v"
  shows "g (fire_expired old tab del run ks v) = g v"
  by (induction ks arbitrary: v) (auto simp: assms split: option.splits)

lemma creation_expiry_frame:
  "vfSubmit (fire_expired old vfCreate deleteTaskCreationListener (runCreation env ev) ks vf) = vfSubmit vf"
  "vfParams (fire_expired old vfCreate deleteTaskCreationListener (runCreation env ev) ks vf) = vfParams vf"
  "vfTimeout (fire_expired old vfCreate deleteTaskCreationListener (runCreation env ev) ks vf) = vfTimeout vf"
  by (rule fire_expired_frame; simp add: deleteTaskCreationListener_def runCreation_def)+

lemma submission_expiry_frame:
  "vfCreate (fire_expired old vfSubmit deleteTaskSubmissionListener (runSubmission env ev) ks vf) = vfCreate vf"
  "vfParams (fire_expired old vfSubmit deleteTaskSubmissionListener (runSubmission env ev) ks vf) = vfParams vf"
  "vfTimeout (fire_expired old vfSubmit deleteTaskSubmissionListener (runSubmission env ev) ks vf) = vfTimeout vf"
  by (rule fire_expired_frame; simp add: deleteTaskSubmissionListener_def runSubmission_def)+

lemma expiry_lost:
  "vfLost (fire_expired old vfCreate deleteTaskCreationListener (runCreation env newEpochEvent) ks vf) = vfLost vf"
  "vfLost (fire_expired old' vfSubmit deleteTaskSubmissionListener (runSubmission env newEpochEvent) ks vf) = vfLost vf"
  by (rule fire_expired_frame; simp add: deleteTaskCreationListener_def runCreation_def
      deleteTaskSubmissionListener_def runSubmission_def settle_def resolve_def newEpoch_listeners)+

definition verifier_wf :: "verifier \<Rightarrow> bool" where
  "verifier_wf vf \<longleftrightarrow> obj_wf (vfCreate vf) \<and> obj_wf (vfSubmit vf)"

lemma checkTimeouts_eq:
  assumes "verifier_wf vf"
  shows "vfCreate (checkTimeouts env e vf) = filter (\<lambda>(k, l). \<not> expired e (clBlock l) (vfTimeout vf)) (vfCreate vf)"
    "vfSubmit (checkTimeouts env e vf) = filter (\<lambda>(k, l). \<not> expired e (slBlock l) (vfTimeout vf)) (vfSubmit vf)"
    "vfResolved (checkTimeouts env e vf) = vfResolved vf
      @ map (\<lambda>(k, l). (clPromise l, timedOut)) (filter (\<lambda>(k, l). expired e (clBlock l) (vfTimeout vf)) (vfCreate vf))
      @ map (\<lambda>(k, l). (slPromise l, timedOut)) (filter (\<lambda>(k, l). expired e (slBlock l) (vfTimeout vf)) (vfSubmit vf))"
    "vfParams (checkTimeouts env e vf) = vfParams vf" "vfTimeout (checkTimeouts env e vf) = vfTimeout vf"
    "vfLost (checkTimeouts env e vf) = vfLost vf"
proof -
  define v1 where "v1 = fire_expired (\<lambda>l. expired e (clBlock l) (vfTimeout vf)) vfCreate
    deleteTaskCreationListener (runCreation env newEpochEvent) (obj_keys (vfCreate vf)) vf"
  have wf: "obj_wf (vfCreate vf)" "obj_wf (vfSubmit vf)" using assms by (simp_all add: verifier_wf_def)
  have fr: "vfSubmit v1 = vfSubmit vf" "vfParams v1 = vfParams vf" "vfTimeout v1 = vfTimeout vf"
    "vfLost v1 = vfLost vf"
    by (simp_all add: v1_def creation_expiry_frame expiry_lost)
  have eq: "checkTimeouts env e vf = fire_expired (\<lambda>l. expired e (slBlock l) (vfTimeout v1)) vfSubmit
      deleteTaskSubmissionListener (runSubmission env newEpochEvent) (obj_keys (vfSubmit v1)) v1"
    by (simp add: checkTimeouts_def v1_def Let_def)
  note c = timed_creations.expired_tab [OF wf(1), where env = env and old = "\<lambda>l. expired e (clBlock l) (vfTimeout vf)",
      folded v1_def]
    timed_creations.expired_log [OF wf(1), where env = env and old = "\<lambda>l. expired e (clBlock l) (vfTimeout vf)",
      folded v1_def]
  note sb = timed_submissions.expired_tab [of v1 "\<lambda>l. expired e (slBlock l) (vfTimeout v1)" env, folded eq]
    timed_submissions.expired_log [of v1 "\<lambda>l. expired e (slBlock l) (vfTimeout v1)" env, folded eq]
  show "vfCreate (checkTimeouts env e vf) = filter (\<lambda>(k, l). \<not> expired e (clBlock l) (vfTimeout vf)) (vfCreate vf)"
    using c(1) by (simp add: eq submission_expiry_frame)
  show "vfSubmit (checkTimeouts env e vf) = filter (\<lambda>(k, l). \<not> expired e (slBlock l) (vfTimeout vf)) (vfSubmit vf)"
    using sb(1) wf fr by simp
  show "vfResolved (checkTimeouts env e vf) = vfResolved vf
      @ map (\<lambda>(k, l). (clPromise l, timedOut)) (filter (\<lambda>(k, l). expired e (clBlock l) (vfTimeout vf)) (vfCreate vf))
      @ map (\<lambda>(k, l). (slPromise l, timedOut)) (filter (\<lambda>(k, l). expired e (slBlock l) (vfTimeout vf)) (vfSubmit vf))"
    using sb(2) c(2) wf fr by simp
  show "vfParams (checkTimeouts env e vf) = vfParams vf" "vfTimeout (checkTimeouts env e vf) = vfTimeout vf"
    "vfLost (checkTimeouts env e vf) = vfLost vf"
    using fr by (simp_all add: eq submission_expiry_frame expiry_lost)
qed

section \<open>Steps\<close>

datatype vstep =
    StartCreation nat "task option" "int option" string
  | ReplyCreation nat task string "json js"
  | StartSubmission nat "result option" "int option"
  | ReplySubmission nat result "json js" "json js" json
  | CreationEvent "json js"
  | SubmissionEvent "json js"
  | DeployedEvent "json js"
  | NewEpoch "epoch js"

fun do_vstep :: "eth_env \<Rightarrow> vstep \<Rightarrow> verifier \<Rightarrow> verifier" where
  "do_vstep env (StartCreation p t b w) vf = verifyTaskCreation_start env p t b w vf"
| "do_vstep env (ReplyCreation p t w reply) vf = verifyTaskCreation_reply env p t w reply vf"
| "do_vstep env (StartSubmission p r b) vf = verifyTaskSubmission_start p r b vf"
| "do_vstep env (ReplySubmission p r tr cr lt) vf = verifyTaskSubmission_reply env p r tr cr lt vf"
| "do_vstep env (CreationEvent ev) vf = taskCreationEventCallback env ev vf"
| "do_vstep env (SubmissionEvent ev) vf = taskSubmissionEventCallback env ev vf"
| "do_vstep env (DeployedEvent ev) vf = taskDeployedContractEventCallback env ev vf"
| "do_vstep env (NewEpoch ev) vf = newEpochEventCallback env ev vf"

text \<open>The contract record or event that justifies a positive verdict for the promise \<open>p\<close>.\<close>

definition creation_justified :: "eth_env \<Rightarrow> epoch list \<Rightarrow> task \<Rightarrow> string \<Rightarrow> json \<Rightarrow> bool" where
  "creation_justified env ps t w info \<longleftrightarrow>
     inputs_hash_is env (fld info ''inputsHash'') t \<and>
     worker_selected env ps (tkContractAddr t) (fld info ''blockNumber'') w"

definition submission_event_justified :: "eth_env \<Rightarrow> json js \<Rightarrow> verifier \<Rightarrow> nat \<Rightarrow> bool" where
  "submission_event_justified env ev vf p \<longleftrightarrow>
     (\<exists>event k l. ev = Inr event \<and> map_of (vfSubmit vf) k = Some l \<and> slPromise l = p \<and>
        event_confirms env (slResult l) event)"

fun justified :: "eth_env \<Rightarrow> vstep \<Rightarrow> verifier \<Rightarrow> nat \<Rightarrow> bool" where
  "justified env (ReplyCreation q t w reply) vf p \<longleftrightarrow>
     q = p \<and> (\<exists>tp. reply = Inr tp \<and> fld tp ''status'' = RECORD_CREATED \<and>
        creation_justified env (vfParams vf) t w tp)"
| "justified env (ReplySubmission q r tr cr lt) vf p \<longleftrightarrow>
     q = p \<and> (\<exists>tp. tr = Inr tp \<and> record_confirms env r tp cr lt)"
| "justified env (CreationEvent ev) vf p \<longleftrightarrow>
     (\<exists>event k l info. ev = Inr event \<and> map_of (vfCreate vf) k = Some l \<and> clPromise l = p \<and>
        creation_target event k = Some info \<and>
        creation_justified env (vfParams vf) (clTask l) (clWorker l) info)"
| "justified env (SubmissionEvent ev) vf p \<longleftrightarrow> submission_event_justified env ev vf p"
| "justified env (DeployedEvent ev) vf p \<longleftrightarrow> submission_event_justified env ev vf p"
| "justified env _ vf p \<longleftrightarrow> False"

definition new_verdicts :: "verifier \<Rightarrow> verifier \<Rightarrow> (nat \<times> verdict) list" where
  "new_verdicts vf vf' = drop (length (vfResolved vf)) (vfResolved vf')"

lemma new_verdicts_simps [simp]:
  "vfResolved vf' = vfResolved vf \<Longrightarrow> new_verdicts vf vf' = []"
  "vfResolved vf' = vfResolved vf @ xs \<Longrightarrow> new_verdicts vf vf' = xs"
  by (simp_all add: new_verdicts_def)

lemma vfResolved_settle:
  "vfResolved (settle p r vf) = vfResolved vf @ (case r of Some (Inr v) \<Rightarrow> [(p, v)] | _ \<Rightarrow> [])"
  by (auto simp: settle_def resolve_def split: option.splits sum.splits)

lemma table_resolved [simp]:
  "vfResolved (deleteTaskCreationListener k vf) = vfResolved vf"
  "vfResolved (deleteTaskSubmissionListener k vf) = vfResolved vf"
  "vfParams (deleteTaskCreationListener k vf) = vfParams vf"
  by (simp_all add: deleteTaskCreationListener_def deleteTaskSubmissionListener_def)

lemma new_of_run:
  "new_verdicts vf (runCreation env ev l (deleteTaskCreationListener k vf)) =
     (case creationListener env (vfParams vf) l ev of Some (Inr v) \<Rightarrow> [(clPromise l, v)] | _ \<Rightarrow> [])"
  "new_verdicts vf (runSubmission env ev sl (deleteTaskSubmissionListener k vf)) =
     (case submissionListener env sl ev of Some (Inr v) \<Rightarrow> [(slPromise sl, v)] | _ \<Rightarrow> [])"
  by (simp_all add: new_verdicts_def runCreation_def runSubmission_def vfResolved_settle)

lemma submission_event_sound:
  assumes "(p, v) \<in> set (new_verdicts vf (fire_first (\<lambda>k. if fld event f = JStr k then Some event else None)
      vfSubmit deleteTaskSubmissionListener (runSubmission env) (obj_keys (vfSubmit vf)) vf))"
    "ckVerified (vdCheck v)"
  shows "submission_event_justified env (Inr event) vf p"
  using submissions.fire_first_cases [of "\<lambda>k. if fld event f = JStr k then Some event else None"
      env "obj_keys (vfSubmit vf)" vf]
proof (elim disjE exE conjE)
  fix k ev l
  assume hit: "(if fld event f = JStr k then Some event else None) = Some ev" "map_of (vfSubmit vf) k = Some l"
    and eq: "fire_first (\<lambda>k. if fld event f = JStr k then Some event else None) vfSubmit
      deleteTaskSubmissionListener (runSubmission env) (obj_keys (vfSubmit vf)) vf
      = runSubmission env ev l (deleteTaskSubmissionListener k vf)"
  then have "ev = event" by (simp split: if_splits)
  then obtain "submissionListener env l event = Some (Inr v)" "slPromise l = p"
    using assms(1) eq new_of_run(2) by (auto split: option.splits sum.splits)
  then show ?thesis
    using submissionListener_verified assms(2) hit(2) by (auto simp: submission_event_justified_def)
qed (use assms(1) in simp)

lemma creation_event_sound:
  assumes "(p, v) \<in> set (new_verdicts vf (taskCreationEventCallback env (Inr event) vf))"
    "ckVerified (vdCheck v)"
  shows "justified env (CreationEvent (Inr event)) vf p"
  using creations.fire_first_cases [of "creation_target event" env "obj_keys (vfCreate vf)" vf]
proof (elim disjE exE conjE)
  fix k ev l
  assume hit: "creation_target event k = Some ev" "map_of (vfCreate vf) k = Some l"
    and eq: "fire_first (creation_target event) vfCreate deleteTaskCreationListener (runCreation env)
      (obj_keys (vfCreate vf)) vf = runCreation env ev l (deleteTaskCreationListener k vf)"
  then obtain "creationListener env (vfParams vf) l ev = Some (Inr v)" "clPromise l = p"
    using assms(1) new_of_run(1)
    by (auto simp: taskCreationEventCallback_def split: option.splits sum.splits)
  then show ?thesis
    using creationListener_verified assms(2) hit by (fastforce simp: creation_justified_def)
qed (use assms(1) in \<open>simp add: taskCreationEventCallback_def\<close>)

lemma creation_reply_sound:
  assumes "(p, v) \<in> set (new_verdicts vf (verifyTaskCreation_reply env q t w reply vf))"
    "ckVerified (vdCheck v)"
  shows "justified env (ReplyCreation q t w reply) vf p"
proof -
  obtain res where res: "verifyTaskCreationNow env t reply = Inr res" "nwCan res" "ckVerified (nwCheck res)"
    using assms by (auto simp: verifyTaskCreation_reply_def new_verdicts_def resolve_def noDetails_def Let_def
        deleteTaskCreationListener_def split: sum.splits if_splits)
  then obtain tp where tp: "reply = Inr tp" "fld tp ''status'' = RECORD_CREATED"
      "verifyTaskCreateParams env (fld tp ''inputsHash'') t = Inr (nwCheck res)"
    by (auto simp: verifyTaskCreationNow_def bindE_eq_Inr dest!: get_prop_fld split: sum.splits if_splits)
  obtain c where "verifySelectedWorker env (vfParams vf) t (fld tp ''blockNumber'') w = Some (Inr c)"
      "q = p" "vdCheck v = c"
    using assms(1) res tp
    by (cases "verifySelectedWorker env (vfParams vf) t (fld tp ''blockNumber'') w")
      (auto simp: verifyTaskCreation_reply_def new_verdicts_def vfResolved_settle Let_def map_sum_def
        split: sum.splits)
  then show ?thesis
    using tp res(3) verifyTaskCreateParams_verified [OF tp(3)] verifySelectedWorker_verified assms(2)
    by (auto simp: creation_justified_def)
qed

lemma submission_reply_sound:
  assumes "(p, v) \<in> set (new_verdicts vf (verifyTaskSubmission_reply env q r tr cr lt vf))"
    "ckVerified (vdCheck v)"
  shows "justified env (ReplySubmission q r tr cr lt) vf p"
proof -
  obtain res vf1 where now: "verifyTaskSubmissionNow env r tr cr lt vf = (res, vf1)" by (rule prod.exhaust)
  then have same: "vfResolved vf1 = vfResolved vf"
    by (auto simp: verifyTaskSubmissionNow_def Let_def split: sum.splits prod.splits option.splits if_splits)
  then have res: "nwCan res" "q = p" "ckVerified (nwCheck res)"
    using assms now by (auto simp: verifyTaskSubmission_reply_def new_verdicts_def resolve_def noDetails_def
        deleteTaskSubmissionListener_def split: if_splits)
  then obtain b where "submission_finding env r tr cr lt = Inr (res, b)"
    using now by (auto simp: verifyTaskSubmissionNow_def Let_def split: sum.splits prod.splits option.splits)
  from submission_finding_verified [OF this] show ?thesis using res by simp
qed

lemma new_epoch_new:
  assumes "verifier_wf vf" "(p, v) \<in> set (new_verdicts vf (newEpochEventCallback env ev vf))"
  shows "v = timedOut"
  using assms checkTimeouts_eq(3) [of "vf\<lparr>vfParams := ps\<rparr>" for ps]
  by (auto simp: newEpochEventCallback_def new_verdicts_def verifier_wf_def split: sum.splits if_splits)

section \<open>No promise is dropped\<close>

text \<open>
  When the handler of a task cannot throw: its inputs can be hashed, and the lottery of an epoch has
  an outcome for its contract.
\<close>

definition hashable :: "eth_env \<Rightarrow> task \<Rightarrow> bool" where
  "hashable env t \<longleftrightarrow>
     (case bindE (createParams env t) (hashArray (envSha3 env)) of Inl e \<Rightarrow> False | Inr h \<Rightarrow> True)"

definition lottery_works :: "eth_env \<Rightarrow> task \<Rightarrow> epoch \<Rightarrow> bool" where
  "lottery_works env t e \<longleftrightarrow>
     (case round_worker (envEncode env) (envKeccak env) (tkContractAddr t) e 0 of
        Inr (Some w) \<Rightarrow> True
      | _ \<Rightarrow> False)"

lemma hashable_check:
  assumes "hashable env t"
  shows "\<exists>c. verifyTaskCreateParams env h t = Inr c"
  using assms
  by (auto simp: hashable_def verifyTaskCreateParams_def split: sum.splits)
    (auto simp: bindE_def split: sum.splits)

lemma find_down_in: "find_down b ps = Some e \<Longrightarrow> e \<in> set ps"
  by (induction ps) (auto split: if_splits)

lemma epoch_found_in: "findWorkerParamForTask ps ob = Some e \<Longrightarrow> e \<in> set ps"
  using find_down_in by (fastforce simp: findWorkerParamForTask_def split: option.splits if_splits)

lemma lottery_check:
  assumes "list_all (lottery_works env t) ps"
  shows "\<exists>c. verifySelectedWorker env ps t b w = Some (Inr c)"
proof (cases "findWorkerParamForTask ps (block_of b)")
  case (Some e)
  then have "lottery_works env t e" using assms epoch_found_in [OF Some] by (simp add: list_all_iff)
  then obtain u where "round_worker (envEncode env) (envKeccak env) (tkContractAddr t) e 0 = Inr (Some u)"
    by (auto simp: lottery_works_def split: sum.splits option.splits)
  then show ?thesis
    using Some by (simp add: verifySelectedWorker_def verifySelectedWorker_params_def selectWorkerGroup_one
        del: One_nat_def)
qed (simp add: verifySelectedWorker_def)

lemma creation_handler_resolves:
  assumes "hashable env (clTask l)" "list_all (lottery_works env (clTask l)) ps"
  shows "\<exists>v. creationListener env ps l ev = Some (Inr v)"
proof -
  obtain res where "verifyTaskCreateParams env (fld ev ''inputsHash'') (clTask l) = Inr res"
    using hashable_check [OF assms(1)] by blast
  moreover obtain c where "verifySelectedWorker env ps (clTask l) (fld ev ''blockNumber'') (clWorker l) = Some (Inr c)"
    using lottery_check [OF assms(2)] by blast
  ultimately show ?thesis by (simp add: creationListener_def)
qed

definition promise_resolved :: "nat \<Rightarrow> verifier \<Rightarrow> bool" where
  "promise_resolved p vf \<longleftrightarrow> p \<in> fst ` set (vfResolved vf)"

text \<open>The promise \<open>p\<close> of the creation of task \<open>t\<close> is resolved, or its listener is registered.\<close>

definition covered :: "nat \<Rightarrow> task \<Rightarrow> verifier \<Rightarrow> bool" where
  "covered p t vf \<longleftrightarrow> promise_resolved p vf \<or>
     (\<exists>l. map_of (vfCreate vf) (js_key (tkId t)) = Some l \<and> clPromise l = p \<and> clTask l = t)"

text \<open>
  A step of another verification does not use the id of the task; and the lottery of a new epoch
  has an outcome.
\<close>

fun minds :: "eth_env \<Rightarrow> nat \<Rightarrow> task \<Rightarrow> vstep \<Rightarrow> bool" where
  "minds env p t (StartCreation q (Some u) b w) \<longleftrightarrow> js_key (tkId u) \<noteq> js_key (tkId t)"
| "minds env p t (ReplyCreation q u w reply) \<longleftrightarrow>
     js_key (tkId u) \<noteq> js_key (tkId t) \<or> (q = p \<and> u = t)"
| "minds env p t (NewEpoch (Inr e)) \<longleftrightarrow> lottery_works env t e"
| "minds env p t _ \<longleftrightarrow> True"

lemma resolved_resolve [simp]: "promise_resolved q (resolve p v vf) \<longleftrightarrow> q = p \<or> promise_resolved q vf"
  by (auto simp: promise_resolved_def resolve_def)

lemma resolved_settle:
  "promise_resolved q vf \<Longrightarrow> promise_resolved q (settle p r vf)"
  "promise_resolved q (settle q (Some (Inr v)) vf)"
  by (auto simp: promise_resolved_def settle_def resolve_def split: option.splits sum.splits)

lemma resolved_table [simp]:
  "promise_resolved p (deleteTaskCreationListener k vf) = promise_resolved p vf"
  "promise_resolved p (deleteTaskSubmissionListener k vf) = promise_resolved p vf"
  "promise_resolved p (setTaskCreationListener k l vf) = promise_resolved p vf"
  "promise_resolved p (setTaskSubmissionListener k sl vf) = promise_resolved p vf"
  by (simp_all add: promise_resolved_def deleteTaskCreationListener_def deleteTaskSubmissionListener_def
      setTaskCreationListener_def setTaskSubmissionListener_def)

lemma settle_create_table [simp]:
  "vfCreate (resolve p v vf) = vfCreate vf"
  "vfCreate (deleteTaskSubmissionListener k vf) = vfCreate vf"
  "vfCreate (setTaskSubmissionListener k sl vf) = vfCreate vf"
  "vfCreate (deleteTaskCreationListener k vf) = obj_del (vfCreate vf) k"
  "vfCreate (setTaskCreationListener k l vf) = obj_set (vfCreate vf) k l"
  by (simp_all add: resolve_def deleteTaskSubmissionListener_def setTaskSubmissionListener_def
      deleteTaskCreationListener_def setTaskCreationListener_def)

lemma covered_fire_creation:
  assumes "covered p t vf" "hashable env t" "list_all (lottery_works env t) (vfParams vf)"
  shows "covered p t (fire_first sel vfCreate deleteTaskCreationListener (runCreation env) ks vf)"
  using creations.fire_first_cases [of sel env ks vf]
proof (elim disjE exE conjE)
  fix j ev l
  assume hit: "map_of (vfCreate vf) j = Some l"
    and eq: "fire_first sel vfCreate deleteTaskCreationListener (runCreation env) ks vf
      = runCreation env ev l (deleteTaskCreationListener j vf)"
  show ?thesis
  proof (cases "j = js_key (tkId t) \<and> \<not> promise_resolved p vf")
    case True
    then have l: "clPromise l = p" "clTask l = t" using assms(1) hit by (auto simp: covered_def)
    then obtain v where "creationListener env (vfParams vf) l ev = Some (Inr v)"
      using creation_handler_resolves assms(2,3) by blast
    then show ?thesis by (simp add: eq covered_def runCreation_def l resolved_settle(2))
  next
    case False
    then show ?thesis using assms(1) by (auto simp: eq covered_def runCreation_def resolved_settle(1))
  qed
qed (use assms in simp)

lemma covered_fire_submission:
  assumes "covered p t vf"
  shows "covered p t (fire_first sel vfSubmit deleteTaskSubmissionListener (runSubmission env) ks vf)"
  using submissions.fire_first_cases [of sel env ks vf] assms
  by (auto simp: covered_def runSubmission_def resolved_settle(1))

lemma covered_timeouts:
  assumes "verifier_wf vf" "covered p t vf"
  shows "covered p t (checkTimeouts env e vf)"
proof (cases "promise_resolved p vf")
  case True
  then show ?thesis
    using checkTimeouts_eq(3) [OF assms(1)] by (auto simp: covered_def promise_resolved_def image_Un)
next
  case False
  let ?k = "js_key (tkId t)"
  obtain l where l: "map_of (vfCreate vf) ?k = Some l" "clPromise l = p" "clTask l = t"
    using assms(2) False by (auto simp: covered_def)
  then have mem: "(?k, l) \<in> set (vfCreate vf)" by (simp add: map_of_SomeD)
  show ?thesis
  proof (cases "expired e (clBlock l) (vfTimeout vf)")
    case True
    then have "(p, timedOut) \<in> set (vfResolved (checkTimeouts env e vf))"
      using checkTimeouts_eq(3) [OF assms(1)] mem l(2) by force
    then show ?thesis by (force simp: covered_def promise_resolved_def)
  next
    case nx: False
    have "obj_wf (vfCreate (checkTimeouts env e vf))"
      using assms(1) checkTimeouts_eq(1) [OF assms(1)]
      by (simp add: verifier_wf_def obj_wf_def distinct_map_filter)
    moreover have "(?k, l) \<in> set (vfCreate (checkTimeouts env e vf))"
      using checkTimeouts_eq(1) [OF assms(1)] mem nx by simp
    ultimately have "map_of (vfCreate (checkTimeouts env e vf)) ?k = Some l" by (rule obj_wf_map_of)
    then show ?thesis using l(2,3) by (auto simp: covered_def)
  qed
qed

text \<open>What the reply does when it decides: the listener goes and the promise is resolved.\<close>

lemma reply_resolves:
  assumes "verifyTaskCreationNow env t reply = Inr res" "nwCan res"
    "list_all (lottery_works env t) (vfParams vf)"
  shows "promise_resolved q (verifyTaskCreation_reply env q t w reply vf)"
proof -
  obtain c where "verifySelectedWorker env (vfParams vf) t
      (fld (case reply of Inr v \<Rightarrow> v | Inl e \<Rightarrow> JUndef) ''blockNumber'') w = Some (Inr c)"
    using lottery_check [OF assms(3)] by blast
  then show ?thesis
    using assms(1,2) by (simp add: verifyTaskCreation_reply_def Let_def resolved_settle(2))
qed

lemma covered_reply:
  assumes "covered p t vf" "js_key (tkId u) \<noteq> js_key (tkId t) \<or> (q = p \<and> u = t)"
    "list_all (lottery_works env t) (vfParams vf)"
  shows "covered p t (verifyTaskCreation_reply env q u w reply vf)"
proof (cases "\<exists>res. verifyTaskCreationNow env u reply = Inr res \<and> nwCan res")
  case False
  then show ?thesis using assms(1) by (auto simp: verifyTaskCreation_reply_def split: sum.splits)
next
  case True
  then obtain res where res: "verifyTaskCreationNow env u reply = Inr res" "nwCan res" by blast
  show ?thesis
  proof (cases "js_key (tkId u) = js_key (tkId t)")
    case True
    then have "promise_resolved p (verifyTaskCreation_reply env q u w reply vf)"
      using assms(2,3) reply_resolves [OF res] by auto
    then show ?thesis by (simp add: covered_def)
  next
    case other: False
    have "verifyTaskCreation_reply env q u w reply vf \<in>
        range (\<lambda>r. settle q r (deleteTaskCreationListener (js_key (tkId u)) vf))
        \<union> range (\<lambda>v. resolve q v (deleteTaskCreationListener (js_key (tkId u)) vf))"
      using res by (auto simp: verifyTaskCreation_reply_def Let_def)
    then show ?thesis using assms(1) other by (auto simp: covered_def resolved_settle(1))
  qed
qed

lemma covered_submission_reply:
  assumes "covered p t vf"
  shows "covered p t (verifyTaskSubmission_reply env q r tr cr lt vf)"
proof -
  obtain res vf1 where now: "verifyTaskSubmissionNow env r tr cr lt vf = (res, vf1)" by (rule prod.exhaust)
  then have "vfCreate vf1 = vfCreate vf" "vfResolved vf1 = vfResolved vf"
    by (auto simp: verifyTaskSubmissionNow_def Let_def split: sum.splits prod.splits option.splits if_splits)
  then have "covered p t vf1" using assms by (simp add: covered_def promise_resolved_def)
  then show ?thesis using now by (auto simp: verifyTaskSubmission_reply_def covered_def)
qed

lemma verifier_wf_fire:
  assumes "verifier_wf vf"
  shows "verifier_wf (fire_first sel vfCreate deleteTaskCreationListener (runCreation env) ks vf)"
    and "verifier_wf (fire_first sel vfSubmit deleteTaskSubmissionListener (runSubmission env) ks vf)"
  using creations.fire_first_cases [of sel env ks vf] submissions.fire_first_cases [of sel env ks vf] assms
  by (auto simp: verifier_wf_def runCreation_def runSubmission_def deleteTaskCreationListener_def
      deleteTaskSubmissionListener_def)

lemma verifier_wf_step:
  assumes "verifier_wf vf"
  shows "verifier_wf (do_vstep env st vf)"
proof (cases st)
  case (ReplySubmission p r tr cr lt)
  obtain res vf1 where now: "verifyTaskSubmissionNow env r tr cr lt vf = (res, vf1)" by (rule prod.exhaust)
  then have "verifier_wf vf1"
    using assms by (auto simp: verifyTaskSubmissionNow_def Let_def verifier_wf_def
        split: sum.splits prod.splits option.splits if_splits)
  then show ?thesis
    using ReplySubmission now
    by (auto simp: verifyTaskSubmission_reply_def verifier_wf_def resolve_def deleteTaskSubmissionListener_def)
next
  case (NewEpoch ev)
  show ?thesis
  proof (cases "\<exists>e. ev = Inr e \<and> validateWorkerParams e")
    case True
    then obtain e where e: "do_vstep env st vf = checkTimeouts env e (vf\<lparr>vfParams := push_epoch e (vfParams vf)\<rparr>)"
      using NewEpoch by (auto simp: newEpochEventCallback_def)
    have wf: "verifier_wf (vf\<lparr>vfParams := push_epoch e (vfParams vf)\<rparr>)"
      using assms by (simp add: verifier_wf_def)
    show ?thesis
      using assms checkTimeouts_eq(1,2) [OF wf] unfolding e verifier_wf_def
      by (simp add: obj_wf_def distinct_map_filter)
  qed (use assms NewEpoch in \<open>auto simp: newEpochEventCallback_def split: sum.splits\<close>)
next
  case (CreationEvent ev)
  then show ?thesis
    using assms by (auto simp: taskCreationEventCallback_def verifier_wf_fire split: sum.splits)
next
  case (SubmissionEvent ev)
  then show ?thesis
    using assms by (auto simp: taskSubmissionEventCallback_def verifier_wf_fire split: sum.splits)
next
  case (DeployedEvent ev)
  then show ?thesis
    using assms by (auto simp: taskDeployedContractEventCallback_def verifier_wf_fire split: sum.splits)
qed (use assms in \<open>auto simp: verifier_wf_def resolve_def setTaskCreationListener_def
      setTaskSubmissionListener_def deleteTaskCreationListener_def deleteTaskSubmissionListener_def Let_def
      verifyTaskCreation_start_def verifyTaskCreation_reply_def verifyTaskSubmission_start_def
      split: option.splits sum.splits\<close>)

lemma covered_step:
  assumes "verifier_wf vf" "covered p t vf" "minds env p t st" "hashable env t"
    "list_all (lottery_works env t) (vfParams vf)"
  shows "covered p t (do_vstep env st vf)"
proof (cases st)
  case (StartCreation q ot b w)
  then show ?thesis
    using assms(2,3) by (cases ot) (auto simp: verifyTaskCreation_start_def covered_def)
next
  case (StartSubmission q ro b)
  then show ?thesis
    using assms(2) by (cases ro) (auto simp: verifyTaskSubmission_start_def covered_def)
next
  case (NewEpoch ev)
  have "covered p t (checkTimeouts env e (vf\<lparr>vfParams := ps\<rparr>))" for e ps
    using assms(1,2) by (intro covered_timeouts) (auto simp: verifier_wf_def covered_def promise_resolved_def)
  then show ?thesis
    using NewEpoch assms(2) by (auto simp: newEpochEventCallback_def split: sum.splits)
next
  case (CreationEvent ev)
  then show ?thesis
    using covered_fire_creation [OF assms(2,4,5)] assms(2)
    by (auto simp: taskCreationEventCallback_def split: sum.splits)
next
  case (SubmissionEvent ev)
  then show ?thesis
    using assms(2) by (auto simp: taskSubmissionEventCallback_def covered_fire_submission split: sum.splits)
next
  case (DeployedEvent ev)
  then show ?thesis
    using assms(2) by (auto simp: taskDeployedContractEventCallback_def covered_fire_submission split: sum.splits)
qed (use assms in \<open>auto intro: covered_reply covered_submission_reply\<close>)

text \<open>Only a new epoch changes the epochs.\<close>

lemma params_fire [simp]:
  "vfParams (fire_first sel vfCreate deleteTaskCreationListener (runCreation env) ks vf) = vfParams vf"
  "vfParams (fire_first sel vfSubmit deleteTaskSubmissionListener (runSubmission env) ks vf) = vfParams vf"
  using creations.fire_first_cases [of sel env ks vf] submissions.fire_first_cases [of sel env ks vf]
  by (auto simp: runCreation_def runSubmission_def deleteTaskSubmissionListener_def)

lemma params_step:
  assumes "verifier_wf vf"
  shows "vfParams (do_vstep env st vf) =
    (case st of
       NewEpoch (Inr e) \<Rightarrow> if validateWorkerParams e then push_epoch e (vfParams vf) else vfParams vf
     | _ \<Rightarrow> vfParams vf)"
proof (cases st)
  case (ReplySubmission p r tr cr lt)
  obtain res vf1 where now: "verifyTaskSubmissionNow env r tr cr lt vf = (res, vf1)" by (rule prod.exhaust)
  then have "vfParams vf1 = vfParams vf"
    by (auto simp: verifyTaskSubmissionNow_def Let_def split: sum.splits prod.splits option.splits if_splits)
  then show ?thesis
    using ReplySubmission now
    by (auto simp: verifyTaskSubmission_reply_def resolve_def deleteTaskSubmissionListener_def)
next
  case (NewEpoch ev)
  have "verifier_wf (vf\<lparr>vfParams := ps\<rparr>)" for ps using assms by (simp add: verifier_wf_def)
  from checkTimeouts_eq(4) [OF this] show ?thesis
    using NewEpoch by (auto simp: newEpochEventCallback_def split: sum.splits)
qed (auto simp: resolve_def setTaskCreationListener_def setTaskSubmissionListener_def Let_def
      verifyTaskCreation_start_def verifyTaskCreation_reply_def verifyTaskSubmission_start_def
      taskCreationEventCallback_def taskSubmissionEventCallback_def taskDeployedContractEventCallback_def
      split: option.splits sum.splits)

lemma push_epoch_all: "list_all P ps \<Longrightarrow> P e \<Longrightarrow> list_all P (push_epoch e ps)"
  by (cases ps) (auto simp: push_epoch_def Let_def)

lemma lotteries_step:
  assumes "verifier_wf vf" "list_all (lottery_works env t) (vfParams vf)" "minds env p t st"
  shows "list_all (lottery_works env t) (vfParams (do_vstep env st vf))"
  using assms push_epoch_all
  by (auto simp: params_step split: vstep.splits sum.splits)

lemma covered_steps:
  "verifier_wf vf \<Longrightarrow> covered p t vf \<Longrightarrow> list_all (minds env p t) sts \<Longrightarrow> hashable env t \<Longrightarrow>
     list_all (lottery_works env t) (vfParams vf) \<Longrightarrow>
     covered p t (foldl (\<lambda>v st. do_vstep env st v) vf sts)"
  by (induction sts arbitrary: vf) (auto simp: covered_step verifier_wf_step lotteries_step)

section \<open>Properties\<close>

definition ex_env :: eth_env where
  "ex_env = \<lparr>envEncode = ex_encode, envKeccak = ex_keccak, envSha3 = (\<lambda>s. JStr s),
     envIsAddress = (\<lambda>a. a \<noteq> [])\<rparr>"

definition ex_ctask :: task where
  "ex_ctask = ComputeTask (JStr ''ab12'') (JStr ''3cf8'') (JStr ''5a5b'') (JStr ''04b1'')
     (JNum 100) (JStr ''4409'') (JNum 7)"

definition ex_record :: json where
  "ex_record = JObj [(''status'', JNum 1), (''blockNumber'', JNum 150), (''gasLimit'', JNum 100),
     (''inputsHash'', JStr (''00000000000000025a5b'' @ ''00000000000000023cf8'' @
        ''00000000000000024409'' @ ''000000000000000204b1''))]"

definition ex_vf :: verifier where
  "ex_vf = EthereumVerifier\<lparr>vfParams := [ex_epoch], vfTimeout := 20\<rparr>"

definition ex_vf1 :: verifier where
  "ex_vf1 = verifyTaskCreation_start ex_env 0 (Some ex_ctask) (Some 150) ''aa'' ex_vf"

lemma ex_vf_wf: "verifier_wf ex_vf" "verifier_wf ex_vf1"
proof -
  show "verifier_wf ex_vf" by (simp add: verifier_wf_def ex_vf_def EthereumVerifier_def)
  then show "verifier_wf ex_vf1"
    unfolding ex_vf1_def using verifier_wf_step [of ex_vf ex_env "StartCreation 0 (Some ex_ctask) (Some 150) ''aa''"]
    by simp
qed

text \<open>
  C5: soundness of verification. Whatever a single step of the verifier is (a start, a reply
  of the contract, an event, a new epoch), a promise that it resolves as verified is
  justified: for a task creation, the hash of the task's inputs is the one recorded by the
  contract and the worker is the one selected for the contract address in the epoch of the
  recorded block; for a result, the contract's record or event confirms its output, delta
  and kind. A new epoch never verifies anything.
\<close>

theorem verdict_sound:
  assumes "verifier_wf vf" "(p, v) \<in> set (new_verdicts vf (do_vstep env st vf))" "ckVerified (vdCheck v)"
  shows "justified env st vf p"
proof (cases st)
  case (StartCreation q ot b w)
  then show ?thesis
    using assms(2,3) by (cases ot)
      (auto simp: verifyTaskCreation_start_def new_verdicts_def resolve_def noDetails_def
        setTaskCreationListener_def split: if_splits)
next
  case (StartSubmission q ro b)
  then show ?thesis
    using assms(2,3) by (cases ro)
      (auto simp: verifyTaskSubmission_start_def new_verdicts_def resolve_def noDetails_def
        setTaskSubmissionListener_def)
next
  case (NewEpoch ev)
  then have "v = timedOut" using new_epoch_new [OF assms(1)] assms(2) by simp
  then show ?thesis using assms(3) by (simp add: timedOut_def noDetails_def)
next
  case (CreationEvent ev)
  then show ?thesis
    using assms(2,3) creation_event_sound by (cases ev) (auto simp: taskCreationEventCallback_def)
next
  case (SubmissionEvent ev)
  then show ?thesis
    using assms(2,3) submission_event_sound by (cases ev) (auto simp: taskSubmissionEventCallback_def)
next
  case (DeployedEvent ev)
  then show ?thesis
    using assms(2,3) submission_event_sound by (cases ev) (auto simp: taskDeployedContractEventCallback_def)
qed (use assms creation_reply_sound submission_reply_sound in auto)

theorem verdict_sound_witness:
  "justified ex_env (ReplyCreation 0 ex_ctask ''aa'' (Inr ex_record)) ex_vf1 0"
proof -
  have "new_verdicts ex_vf1 (do_vstep ex_env (ReplyCreation 0 ex_ctask ''aa'' (Inr ex_record)) ex_vf1)
      = [(0, \<lparr>vdCheck = passed, vdGasLimit = JNum 100, vdBlockNumber = JNum 150\<rparr>)]"
    by code_simp
  then show ?thesis by (intro verdict_sound [OF ex_vf_wf(2)]) auto
qed

text \<open>
  C6: no verification is dropped. After the verification of a task creation has started with
  promise \<open>p\<close>, whatever steps follow in whatever order (replies, events, epochs, other
  verifications), the promise is resolved or its listener is still registered under the task id;
  provided that no other verification uses the same task id, and that its handler does not throw:
  the inputs of the task can be hashed, and the lottery of every epoch has an outcome for its
  contract.
\<close>

theorem creation_not_dropped:
  assumes "verifier_wf vf" "envIsAddress env w" "hashable env t"
    and "list_all (lottery_works env t) (vfParams vf)" "list_all (minds env p t) sts"
  shows "let vf' = foldl (\<lambda>v st. do_vstep env st v) (verifyTaskCreation_start env p (Some t) b w vf) sts in
    p \<in> fst ` set (vfResolved vf') \<or>
    (\<exists>l. map_of (vfCreate vf') (js_key (tkId t)) = Some l \<and> clPromise l = p \<and> clTask l = t)"
proof -
  let ?vf = "verifyTaskCreation_start env p (Some t) b w vf"
  have "covered p t (foldl (\<lambda>v st. do_vstep env st v) ?vf sts)"
  proof (rule covered_steps)
    show "verifier_wf ?vf"
      using verifier_wf_step [OF assms(1), of env "StartCreation p (Some t) b w"] by simp
    show "covered p t ?vf" using assms(2) by (simp add: verifyTaskCreation_start_def covered_def)
    show "list_all (lottery_works env t) (vfParams ?vf)"
      using assms(2,4) by (simp add: verifyTaskCreation_start_def setTaskCreationListener_def)
  qed (use assms in simp_all)
  then show ?thesis by (simp add: covered_def promise_resolved_def)
qed

definition ex_vsteps :: "vstep list" where
  "ex_vsteps =
     [CreationEvent (Inr JNull), StartCreation 1 (Some (ex_ctask\<lparr>tkId := JStr ''cd34''\<rparr>)) (Some 160) ''aa'',
      NewEpoch (Inr (ex_epoch\<lparr>epFirstBlock := Some 165\<rparr>)), ReplyCreation 0 ex_ctask ''aa'' (Inr ex_record)]"

theorem creation_not_dropped_witness:
  "let vf = foldl (\<lambda>v st. do_vstep ex_env st v)
      (verifyTaskCreation_start ex_env 0 (Some ex_ctask) (Some 150) ''aa'' ex_vf) ex_vsteps in
   0 \<in> fst ` set (vfResolved vf) \<or>
   (\<exists>l. map_of (vfCreate vf) (js_key (tkId ex_ctask)) = Some l \<and> clPromise l = 0 \<and> clTask l = ex_ctask)"
proof (rule creation_not_dropped [OF ex_vf_wf(1)])
  show "envIsAddress ex_env ''aa''" by (simp add: ex_env_def)
  show "hashable ex_env ex_ctask" by code_simp
  show "list_all (lottery_works ex_env ex_ctask) (vfParams ex_vf)" by code_simp
  show "list_all (minds ex_env 0 ex_ctask) ex_vsteps" by code_simp
qed

text \<open>
  Both provisos are needed. A listener that throws (the arguments have an odd number of digits) was
  deleted before, and its promise is lost; a second verification of the same id takes the listener
  of the first, whose promise is lost when the contract has no record yet.
\<close>

lemma throwing_listener_loses_promise:
  "let t = ex_ctask\<lparr>tkBody := ComputeBody (JStr ''5a5'') (JStr ''3cf8'') (JStr ''04b1'')\<rparr>;
       vf = taskCreationEventCallback ex_env
         (Inr (JObj [(''taskId'', JStr ''ab12''), (''blockNumber'', JNum 150)]))
         (verifyTaskCreation_start ex_env 0 (Some t) (Some 150) ''aa'' ex_vf)
   in vfCreate vf = [] \<and> vfResolved vf = [] \<and> vfLost vf = [0]"
  by code_simp

lemma second_listener_replaces_first:
  "let vf = taskCreationEventCallback ex_env
       (Inr (JObj [(''taskId'', JStr ''ab12''), (''type'', JStr ''TaskCancelled'')]))
       (verifyTaskCreation_start ex_env 1 (Some ex_ctask) (Some 150) ''aa''
         (verifyTaskCreation_start ex_env 0 (Some ex_ctask) (Some 150) ''aa'' ex_vf))
   in vfCreate vf = [] \<and> map fst (vfResolved vf) = [1]"
  by code_simp

text \<open>
  C7: a new epoch times out exactly the old listeners. The listeners left in both tables are
  those whose block is less than the task timeout before the first block of the epoch; the
  promises of all others are resolved as timed out, in the order of the tables, and no
  other promise is touched.
\<close>

theorem newEpoch_times_out:
  assumes "verifier_wf vf" "validateWorkerParams e"
  shows "let vf' = newEpochEventCallback env (Inr e) vf in
    vfCreate vf' = filter (\<lambda>(k, l). \<not> expired e (clBlock l) (vfTimeout vf)) (vfCreate vf) \<and>
    vfSubmit vf' = filter (\<lambda>(k, l). \<not> expired e (slBlock l) (vfTimeout vf)) (vfSubmit vf) \<and>
    new_verdicts vf vf' =
      map (\<lambda>(k, l). (clPromise l, timedOut)) (filter (\<lambda>(k, l). expired e (clBlock l) (vfTimeout vf)) (vfCreate vf))
      @ map (\<lambda>(k, l). (slPromise l, timedOut)) (filter (\<lambda>(k, l). expired e (slBlock l) (vfTimeout vf)) (vfSubmit vf)) \<and>
    vfLost vf' = vfLost vf"
proof -
  have wf: "verifier_wf (vf\<lparr>vfParams := push_epoch e (vfParams vf)\<rparr>)"
    using assms(1) by (simp add: verifier_wf_def)
  show ?thesis
    using checkTimeouts_eq(1,2,3,6) [OF wf, of env e] assms(2)
    by (simp add: newEpochEventCallback_def Let_def)
qed

theorem newEpoch_times_out_witness:
  "vfCreate (newEpochEventCallback ex_env (Inr (ex_epoch\<lparr>epFirstBlock := Some 200\<rparr>)) ex_vf1) = []"
proof -
  let ?e = "ex_epoch\<lparr>epFirstBlock := Some 200\<rparr>"
  have "validateWorkerParams ?e" by (simp add: validateWorkerParams_def)
  note t = newEpoch_times_out [OF ex_vf_wf(2) this, of ex_env]
  have "filter (\<lambda>(k, l). \<not> expired ?e (clBlock l) (vfTimeout ex_vf1)) (vfCreate ex_vf1) = []"
    by code_simp
  then show ?thesis using t by (simp add: Let_def)
qed

text \<open>
  The window of epochs. New epochs with growing first blocks keep the array ordered and at
  most five long, the newest epoch is its last element, and only the oldest one is dropped.
\<close>

lemma epoch_window:
  assumes "verifier_wf vf" "epochs_sorted (vfParams vf)" "length (vfParams vf) \<le> 5" "validateWorkerParams e"
    and "\<forall>q\<in>set (vfParams vf). js_less (epFirstBlock q) (epFirstBlock e)"
  shows "epochs_sorted (vfParams (newEpochEventCallback env (Inr e) vf)) \<and>
    length (vfParams (newEpochEventCallback env (Inr e) vf)) \<le> 5 \<and>
    vfParams (newEpochEventCallback env (Inr e) vf) =
      drop (if length (vfParams vf) = 5 then 1 else 0) (vfParams vf) @ [e]"
proof -
  have wf: "verifier_wf (vf\<lparr>vfParams := push_epoch e (vfParams vf)\<rparr>)"
    using assms(1) by (simp add: verifier_wf_def)
  have eq: "vfParams (newEpochEventCallback env (Inr e) vf) = push_epoch e (vfParams vf)"
    using checkTimeouts_eq(4) [OF wf, of env e] assms(4) by (simp add: newEpochEventCallback_def)
  have push: "push_epoch e (vfParams vf) = drop (if length (vfParams vf) = 5 then 1 else 0) (vfParams vf) @ [e]"
    using assms(3) by (cases "vfParams vf") (auto simp: push_epoch_def Let_def workerParamArrayMaxSize_def)
  have "epochs_sorted (drop n ps)" if "epochs_sorted ps" for n ps
    using that by (metis append_take_drop_id epochs_sorted_simps(3))
  then show ?thesis
    unfolding eq push using assms(2-5) by (auto dest: in_set_dropD split: if_splits)
qed

end
