(* ===== verification/Sync_Pipeline.thy ===== *)
theory Sync_Pipeline
  imports Db_Actions
begin

text \<open>
  The actions under \<open>worker/controller/actions/sync\<close>: identifying what is missing, receiving
  it from the providers, the pipeline that runs a whole synchronisation under a lock, and the
  announcements of local content. Core, Ethereum and the peers are parameters over a state
  of the world.
\<close>

record ('c, 'p, 'w) sync_env =
  seCodec :: codec
  seKeccak :: "int list \<Rightarrow> json"
  seLib :: "'c cid_lib"
  seNet :: "('p, 'w) sync_net"
  seRouting :: "'w \<Rightarrow> 'c engcid \<Rightarrow> 'p routing_answer"
  seTips :: "'w \<Rightarrow> tip list js option"
  seHasEthereum :: bool
  seAddresses :: "'w \<Rightarrow> string list js"
  seContract :: "'w \<Rightarrow> string \<Rightarrow> contract_data js"
  seUpdate :: "json \<Rightarrow> 'w \<Rightarrow> json js option \<times> 'w"

section \<open>Identifying missing states\<close>

definition identifyMissingStates ::
    "('c, 'p, 'w) sync_env \<Rightarrow> 'w \<Rightarrow> (missing list \<times> excess list) js option" where
  "identifyMissingStates E w =
     map_option (\<lambda>tips. bindE tips (\<lambda>localTips.
       if \<not> seHasEthereum E then Inl (Err EthereumErr ''[IDENTIFY_MISSING_STATES] failure, no ethereum!'')
       else compareLocalStateToRemote (seAddresses E w) (seContract E w) localTips)) (seTips E w)"

section \<open>Receiving from the providers\<close>

record all_result =
  arSuccess :: bool
  arResults :: "sync_status list option"

text \<open>The jobs of \<open>TryReceiveAllAction\<close>, one contract after the other.\<close>

fun receive_jobs ::
    "('c, 'p, 'w) sync_env \<Rightarrow> receiver \<Rightarrow> all_result list \<Rightarrow> ('p list \<times> sync_msg list) list \<Rightarrow> 'w \<Rightarrow>
     all_result list js option \<times> 'w" where
  "receive_jobs E r acc [] w = (Some (Inr acc), w)"
| "receive_jobs E r acc ((providers, msgs) # js) w =
     (case trySyncReceive (seCodec E) (seKeccak E) (seNet E) r providers msgs w of
        (None, w) \<Rightarrow> (None, w)
      | (Some (Some err, isDone, res), w) \<Rightarrow> (Some (Inl err), w)
      | (Some (None, isDone, res), w) \<Rightarrow>
          receive_jobs E r (acc @ [\<lparr>arSuccess = isDone, arResults = res\<rparr>]) js w)"

definition tryReceiveAll ::
    "('c, 'p, 'w) sync_env \<Rightarrow> ('p list \<times> sync_msg list) list \<Rightarrow> missing_map \<Rightarrow> receiver \<Rightarrow> 'w \<Rightarrow>
     all_result list option js option \<times> receiver \<times> 'w" where
  "tryReceiveAll E allMissingDataList missingMap r w =
     (if allMissingDataList = [] then (Some (Inr None), r, w)
      else let r = setRemoteMissingStatesMap missingMap r;
               (res, w) = receive_jobs E r [] allMissingDataList w
           in (map_option (map_sum id Some) res, r, w))"

section \<open>The pipeline\<close>

record pipeline =
  plRunning :: bool
  plReceiver :: receiver

type_synonym pipe_end = "js_error option \<times> all_result list option"

text \<open>The identifiers of the missing contracts; \<open>None\<close> at the first address without one.\<close>

fun sync_ecids :: "'c cid_lib \<Rightarrow> string list \<Rightarrow> 'c engcid list option" where
  "sync_ecids L [] = Some []"
| "sync_ecids L (a # as) =
     (case createFromSCAddress L (JStr a) of
        None \<Rightarrow> None
      | Some e \<Rightarrow> map_option ((#) e) (sync_ecids L as))"

text \<open>The message that reverts an excess: the whole contract, or a range of deltas.\<close>

definition revert_msg :: "excess \<Rightarrow> json" where
  "revert_msg e =
     (if exRemoteTip e = -1
      then JObj [(''address'', JStr (exAddress e)), (''type'', JStr ''RemoveContract'')]
      else JObj [(''input'', JArr [JObj [(''address'', JStr (exAddress e)), (''from'', JNum (exRemoteTip e + 1)),
                    (''to'', JNum (exLocalTip e))]]), (''type'', JStr ''RemoveDeltas'')])"

fun revert_all :: "('c, 'p, 'w) sync_env \<Rightarrow> excess list \<Rightarrow> 'w \<Rightarrow> unit js option \<times> 'w" where
  "revert_all E [] w = (Some (Inr ()), w)"
| "revert_all E (e # es) w =
     (case seUpdate E (revert_msg e) w of
        (None, w) \<Rightarrow> (None, w)
      | (Some (Inl err), w) \<Rightarrow> (Some (Inl err), w)
      | (Some (Inr _), w) \<Rightarrow> revert_all E es w)"

text \<open>
  The body of \<open>execute\<close> as the value of its \<open>try\<close> block: how it leaves the block. A hanging
  step never leaves it; an early \<open>return onEnd(err)\<close> leaves it with the lock held; an
  exception goes to the outer \<open>catch\<close>.
\<close>

datatype pipe_exit = Hangs | Early js_error | Throws js_error | Done "all_result list option"

text \<open>
  After the search for providers. The handler of a failed receive evaluates \<open>instanceof\<close>
  with the undefined \<open>errs.SyncReceiverNoMissingDataErr\<close>, which throws.
\<close>

definition receive_and_revert ::
    "('c, 'p, 'w) sync_env \<Rightarrow> missing list \<Rightarrow> excess list \<Rightarrow> ('p list \<times> sync_msg list) list \<Rightarrow>
     receiver \<Rightarrow> 'w \<Rightarrow> pipe_exit \<times> receiver \<times> 'w" where
  "receive_and_revert E missingList excessList jobs r w =
     (case tryReceiveAll E jobs (transformMissingStatesListToMap missingList) r w of
        (None, r, w) \<Rightarrow> (Hangs, r, w)
      | (Some (Inl err), r, w) \<Rightarrow> (Throws JsTypeError, r, w)
      | (Some (Inr allResults), r, w) \<Rightarrow>
          (case revert_all E excessList w of
             (None, w) \<Rightarrow> (Hangs, r, w)
           | (Some (Inl err), w) \<Rightarrow> (Throws err, r, w)
           | (Some (Inr _), w) \<Rightarrow> (Done allResults, r, w)))"

definition receive_jobs_of ::
    "'c cid_lib \<Rightarrow> ('c, 'p) find_result \<Rightarrow> (string \<times> sync_msg list) list \<Rightarrow> 'c engcid list \<Rightarrow>
     ('p list \<times> sync_msg list) list" where
  "receive_jobs_of L fr msgsMap ecids =
     map (\<lambda>e. ((case getProvidersFor L e fr of Some ps \<Rightarrow> ps | None \<Rightarrow> []),
               (case map_of msgsMap (js_key (ecAddress e)) of Some ms \<Rightarrow> ms | None \<Rightarrow> []))) ecids"

definition pipeline_body ::
    "('c, 'p, 'w) sync_env \<Rightarrow> receiver \<Rightarrow> 'w \<Rightarrow> pipe_exit \<times> receiver \<times> 'w" where
  "pipeline_body E r w =
     (case identifyMissingStates E w of
        None \<Rightarrow> (Hangs, r, w)
      | Some (Inl err) \<Rightarrow> (Throws err, r, w)
      | Some (Inr (missingList, excessList)) \<Rightarrow>
     (case buildMissingStatesResult missingList of
        Inl err \<Rightarrow> (Throws err, r, w)
      | Inr msgsMap \<Rightarrow>
     (case sync_ecids (seLib E) (obj_keys msgsMap) of
        None \<Rightarrow> (Early (Err SyncReceiverErr ''error creating EngCid''), r, w)
      | Some ecids \<Rightarrow>
     (case findProvidersBatch (seLib E) (seRouting E w) ecids of
        None \<Rightarrow> (Hangs, r, w)
      | Some fr \<Rightarrow>
          if frComplete fr \<or> isErrors fr
          then (Early (Err SyncReceiverErr ''some error finding providers !''), r, w)
          else receive_and_revert E missingList excessList (receive_jobs_of (seLib E) fr msgsMap ecids) r w))))"

text \<open>
  \<open>execute\<close>, with \<open>onEnd\<close> given or not: the invocations of \<open>onEnd\<close> and the new state. Without
  \<open>onEnd\<close> a call of it throws inside the \<open>try\<close> block, and the handler, which releases the
  lock first, throws again.
\<close>

definition receiveAllPipeline ::
    "('c, 'p, 'w) sync_env \<Rightarrow> bool \<Rightarrow> pipeline \<Rightarrow> 'w \<Rightarrow> pipe_end list \<times> pipeline \<times> 'w" where
  "receiveAllPipeline E hasEnd st w =
     (let call = (\<lambda>c. if hasEnd then [c] else []) in
      if plRunning st then (call (Some (Err SyncReceiverErr ''already running''), None), st, w)
      else
        let (exit, r, w) = pipeline_body E (plReceiver st) w in
        (case exit of
           Hangs \<Rightarrow> ([], \<lparr>plRunning = True, plReceiver = r\<rparr>, w)
         | Early err \<Rightarrow> (call (Some err, None), \<lparr>plRunning = hasEnd, plReceiver = r\<rparr>, w)
         | Throws err \<Rightarrow> (call (Some err, None), \<lparr>plRunning = False, plReceiver = r\<rparr>, w)
         | Done res \<Rightarrow> (call (None, res), \<lparr>plRunning = False, plReceiver = r\<rparr>, w)))"

text \<open>\<open>asyncExecute\<close> sets \<open>params.callback\<close>, which \<open>execute\<close> does not use.\<close>

definition receiveAll_asyncExecute ::
    "('c, 'p, 'w) sync_env \<Rightarrow> pipeline \<Rightarrow> 'w \<Rightarrow> all_result list option js option \<times> pipeline \<times> 'w" where
  "receiveAll_asyncExecute E st w =
     (let (ends, st, w) = receiveAllPipeline E False st w in
      (promise_settle (map (\<lambda>(err, res). Call (case err of Some e \<Rightarrow> Inl e | None \<Rightarrow> Inr res)) ends), st, w))"

section \<open>Announcements\<close>

definition announceContent ::
    "('c engcid \<Rightarrow> js_error option cb list) \<Rightarrow> 'c engcid list option \<Rightarrow> 'c engcid list js option" where
  "announceContent provide engCids =
     (case engCids of
        None \<Rightarrow> Some (Inl (Err TypeErr ''[AnnounceContent] is not list of EngCids''))
      | Some [] \<Rightarrow> Some (Inl (Err TypeErr ''[AnnounceContent] is not list of EngCids''))
      | Some cids \<Rightarrow>
          map_option (\<lambda>failedCids.
            if failedCids \<noteq> [] \<and> length failedCids = length cids
            then Inl (ErrVal (JStr ''[AnnounceContent] content announce failed'')) else Inr failedCids)
            (provideContentsBatch provide cids))"

text \<open>
  \<open>AnnounceLocalStateAction\<close>: the addresses of core that have an identifier are announced, and
  the identifiers are reported whether or not the announcements succeed.
\<close>

definition local_ecids :: "'c cid_lib \<Rightarrow> json list \<Rightarrow> 'c engcid list" where
  "local_ecids L addrs = somes (map (createFromSCAddress L) addrs)"

definition announceLocalState ::
    "'c cid_lib \<Rightarrow> ('c engcid \<Rightarrow> js_error option cb list) \<Rightarrow> json \<Rightarrow> 'c engcid list js option" where
  "announceLocalState L provide allAddrsResponse =
     (case get_prop (fld allAddrsResponse ''result'') ''addresses'' of
        Inr (JArr addrs) \<Rightarrow>
          map_option (\<lambda>failedCids. Inr (local_ecids L addrs)) (provideContentsBatch provide (local_ecids L addrs))
      | _ \<Rightarrow> None)"

text \<open>
  \<open>GetLocalTipsOfRemote\<close>: an unknown peer makes the message of the error read an undefined
  variable, but the exception is caught as any other and the answer is \<open>null\<close>.
\<close>

definition getLocalTipsOfRemote :: "(json \<Rightarrow> json js) \<Rightarrow> (json \<Rightarrow> json js) \<Rightarrow> json \<Rightarrow> json" where
  "getLocalTipsOfRemote lookUpPeer getLocalStateOfRemote peerB58Id =
     (if \<not> truthy peerB58Id then JNull
      else case bindE (lookUpPeer peerB58Id) (\<lambda>peerInfo.
                  if \<not> truthy peerInfo then Inl JsReferenceError else getLocalStateOfRemote peerInfo) of
             Inl e \<Rightarrow> JNull
           | Inr remoteTips \<Rightarrow> remoteTips)"


section \<open>After a search for providers\<close>

lemma add_find_errored: "frErrored (add_find L r (e, err, ps)) = [] \<longleftrightarrow> frErrored r = [] \<and> err = None"
  by (cases err; cases "frErrored r")
    (auto simp: add_find_def addErroredProviderResult_def addProviderResult_def split: if_splits)

lemma find_fold_covers:
  "frErrored (foldl (add_find L) r xs) = [] \<Longrightarrow> (e, ans) \<in> set xs \<Longrightarrow>
     map_of (frMap (foldl (add_find L) r xs)) (cid_key L e) \<noteq> None"
proof (induction xs rule: rev_induct)
  case (snoc x xs)
  obtain e' err ps where x: "x = (e', err, ps)" by (cases x) auto
  have ok: "frErrored (foldl (add_find L) r xs) = []" "err = None"
    using snoc.prems(1) add_find_errored [of L "foldl (add_find L) r xs" e' err ps] by (simp_all add: x)
  then show ?case using snoc by (auto simp: x add_find_def addProviderResult_def)
qed simp

lemma parallel_ok_length: "parallel_ok js = Some rs \<Longrightarrow> length rs = length js"
  by (induction js arbitrary: rs rule: parallel_ok.induct) (auto split: list.splits cb.splits sum.splits)

text \<open>Every identifier has its providers when the search reports no errors.\<close>

lemma search_covers:
  assumes "findProvidersBatch L routing ecids = Some fr" "\<not> isErrors fr" "e \<in> set ecids"
  shows "getProvidersFor L e fr \<noteq> None"
proof -
  obtain rs where rs: "parallel_ok (map (\<lambda>e. findProvider (routing e)) ecids) = Some rs"
      "fr = foldl (add_find L) FindProviderResult (zip ecids rs)"
    using assms(1) by (auto simp: findProvidersBatch_def)
  have "length rs = length ecids" using parallel_ok_length [OF rs(1)] by simp
  then obtain ans where "(e, ans) \<in> set (zip ecids rs)"
    using assms(3) by (metis in_set_conv_nth length_zip min.idem nth_zip nth_mem)
  moreover have "frErrored fr = []" using assms(2) by (simp add: isErrors_def)
  ultimately show ?thesis using find_fold_covers rs(2) by (fastforce simp: getProvidersFor_def)
qed

section \<open>What a run writes\<close>

definition writes_ok :: "('c, 'p, 'w) sync_env \<Rightarrow> ('w \<Rightarrow> bool) \<Rightarrow> missing list \<Rightarrow> excess list \<Rightarrow> bool" where
  "writes_ok E I ms es \<longleftrightarrow>
     (\<forall>p reqs w. I w \<longrightarrow> I (snd (startStateSyncRequest (seNet E) p reqs w))) \<and>
     (\<forall>m w. I w \<longrightarrow> verify (seKeccak E) (Some (transformMissingStatesListToMap ms)) m = Inr None \<longrightarrow>
        I (snd (netDbWrite (seNet E) m w))) \<and>
     (\<forall>e w. I w \<longrightarrow> e \<in> set es \<longrightarrow> I (snd (seUpdate E (revert_msg e) w)))"

lemma receive_jobs_keeps:
  assumes "writes_ok E I ms es" "remoteMissingStatesMap r = Some (transformMissingStatesListToMap ms)" "I w"
  shows "I (snd (receive_jobs E r acc js w))"
  using assms(3)
proof (induction js arbitrary: acc w)
  case (Cons j js)
  obtain ps msgs where j: "j = (ps, msgs)" by fastforce
  obtain a w' where t: "trySyncReceive (seCodec E) (seKeccak E) (seNet E) r ps msgs w = (a, w')" by fastforce
  have "I (snd (trySyncReceive (seCodec E) (seKeccak E) (seNet E) r ps msgs w))"
    by (rule trySyncReceive_keeps [where I = I])
      (use assms Cons.prems in \<open>auto simp: writes_ok_def\<close>)
  then have "I w'" by (simp add: t)
  then show ?case using Cons.IH by (simp add: j t split: option.splits prod.splits)
qed simp

lemma revert_all_keeps:
  assumes "\<forall>e w. I w \<longrightarrow> e \<in> set es \<longrightarrow> I (snd (seUpdate E (revert_msg e) w))" "I w"
  shows "I (snd (revert_all E es w))"
  using assms
proof (induction es arbitrary: w)
  case (Cons e es)
  obtain a w' where u: "seUpdate E (revert_msg e) w = (a, w')" by fastforce
  have "I w'" using Cons.prems u by (metis list.set_intros(1) snd_conv)
  then show ?case using Cons by (simp add: u split: option.splits sum.splits)
qed simp

lemma receive_and_revert_keeps:
  assumes "writes_ok E I ms es" "I w"
  shows "I (snd (snd (receive_and_revert E ms es jobs r w)))"
proof -
  obtain a r' w' where t: "tryReceiveAll E jobs (transformMissingStatesListToMap ms) r w = (a, r', w')"
    by (metis prod_cases3)
  have "I w'"
  proof (cases "jobs = []")
    case False
    let ?r = "setRemoteMissingStatesMap (transformMissingStatesListToMap ms) r"
    have "I (snd (receive_jobs E ?r [] jobs w))"
      by (rule receive_jobs_keeps [OF assms(1) _ assms(2)]) (simp add: setRemoteMissingStatesMap_def)
    then show ?thesis using t False by (clarsimp simp: tryReceiveAll_def Let_def case_prod_beta)
  qed (use t assms(2) in \<open>simp add: tryReceiveAll_def\<close>)
  obtain b w2 where v: "revert_all E es w' = (b, w2)" by fastforce
  have "I (snd (revert_all E es w'))"
    by (rule revert_all_keeps) (use assms(1) \<open>I w'\<close> in \<open>simp_all add: writes_ok_def\<close>)
  then have "I w2" by (simp add: v)
  with \<open>I w'\<close> show ?thesis
    by (simp add: receive_and_revert_def t v split: option.split sum.split)
qed

lemma pipeline_body_keeps:
  assumes "\<And>ms es. identifyMissingStates E w = Some (Inr (ms, es)) \<Longrightarrow> writes_ok E I ms es" "I w"
  shows "I (snd (snd (pipeline_body E r w)))"
  using assms receive_and_revert_keeps [where I = I and E = E]
  by (simp add: pipeline_body_def split: option.split sum.split prod.split)


section \<open>Properties\<close>

text \<open>
  C22: what a synchronisation may change. Whatever peers, core and Ethereum answer, a property
  of the world holds after a run of the pipeline when it held before and is kept by dialling
  a peer, by writing a message that the verifier accepts for the states found missing at the
  start of the run, and by the messages that revert the excess found then.
\<close>

theorem pipeline_writes_verified:
  assumes "I w"
    and "\<forall>ms es. identifyMissingStates E w = Some (Inr (ms, es)) \<longrightarrow> writes_ok E I ms es"
  shows "I (snd (snd (receiveAllPipeline E hasEnd st w)))"
  using assms pipeline_body_keeps [where I = I and E = E and w = w and r = "plReceiver st"]
  by (simp add: receiveAllPipeline_def Let_def case_prod_beta split: pipe_exit.split)

text \<open>
  A failed search for providers leaves the pipeline locked. When an identifier of a
  missing contract cannot be found in the network, the caller gets an error, nothing is
  written, and from then on every run is refused as already running.
\<close>

lemma provider_error_locks:
  assumes "\<not> plRunning st" "identifyMissingStates E w = Some (Inr (ms, es))"
    and "buildMissingStatesResult ms = Inr msgsMap" "sync_ecids (seLib E) (obj_keys msgsMap) = Some ecids"
    and "findProvidersBatch (seLib E) (seRouting E w) ecids = Some fr" "isErrors fr"
  shows "\<exists>st'. receiveAllPipeline E True st w =
      ([(Some (Err SyncReceiverErr ''some error finding providers !''), None)], st', w) \<and>
    (\<forall>w'. receiveAllPipeline E True st' w' = ([(Some (Err SyncReceiverErr ''already running''), None)], st', w'))"
  using assms by (simp add: receiveAllPipeline_def Let_def pipeline_body_def)

text \<open>
  The promise of \<open>asyncExecute\<close> never settles, whether the synchronisation succeeds, fails
  or is refused.
\<close>

lemma async_pipeline_never_settles: "fst (receiveAll_asyncExecute E st w) = None"
  by (simp add: receiveAll_asyncExecute_def receiveAllPipeline_def Let_def case_prod_beta split: pipe_exit.split)

text \<open>
  A peer that sends nothing is taken for a successful synchronisation: when the first
  provider ends its stream at once, the attempt is reported as done with no results and no
  other provider is asked.
\<close>

lemma silent_peer_succeeds:
  assumes "startStateSyncRequest N (Some p) (toNetworkSyncReqParser c msgs) w = (Inr ([], Ended), w')"
  shows "trySyncReceive c keccak N r (p # ps) msgs w = (Some (None, True, Some []), w')"
  using assms by (simp add: trySyncReceive_def sync_jobs_retry attempts_eq trySyncOneContractOneRequest_def)

text \<open>
  The deltas that a revert message removes, with the upper end of the range excluded as in
  the requests for deltas.
\<close>

definition reverted :: "json \<Rightarrow> int set" where
  "reverted m =
     (case fld m ''input'' of
        JArr [r] \<Rightarrow> (case (fld r ''from'', fld r ''to'') of (JNum a, JNum b) \<Rightarrow> {a..<b} | _ \<Rightarrow> {})
      | _ \<Rightarrow> {})"

text \<open>
  The revert of excess deltas stops one short. For an excess that does not cover the whole
  contract, the message to core asks to remove the deltas of the plan except the local tip.
\<close>

lemma revert_leaves_tip:
  assumes "exRemoteTip e \<noteq> -1"
  shows "reverted (revert_msg e) = plan_drops [e] (exAddress e) - {exLocalTip e}"
proof -
  have "{x \<in> set [e]. exAddress x = exAddress e} = {e}" by auto
  then show ?thesis
    using assms by (auto simp: reverted_def revert_msg_def plan_drops_def obj_get_def)
qed

section \<open>Witnesses\<close>

definition ex_sync_env :: "(string, nat, sync_msg list) sync_env" where
  "ex_sync_env = \<lparr>seCodec = ex_codec, seKeccak = (\<lambda>_. JStr ''h1''), seLib = ex_cid_lib, seNet = ex_net,
     seRouting = (\<lambda>w e. (Some JsRangeError, Some [])), seTips = (\<lambda>w. Some (Inr (take 1 ex_tips))), seHasEthereum = True,
     seAddresses = (\<lambda>w. Inr [replicate 64 (CHR ''a'')]), seContract = (\<lambda>w. ex_reader),
     seUpdate = (\<lambda>m w. (Some (Inr JUndef), w))\<rparr>"

definition ex_pipeline :: pipeline where
  "ex_pipeline = \<lparr>plRunning = False, plReceiver = Receiver\<rparr>"

theorem pipeline_writes_verified_witness:
  "list_all (\<lambda>m. \<exists>ms es. identifyMissingStates ex_sync_env [] = Some (Inr (ms, es)) \<and>
       verify (seKeccak ex_sync_env) (Some (transformMissingStatesListToMap ms)) m = Inr None)
     (snd (snd (receiveAllPipeline ex_sync_env True ex_pipeline [])))"
  by (rule pipeline_writes_verified [where I = "list_all (\<lambda>m. \<exists>ms es. identifyMissingStates ex_sync_env [] = Some (Inr (ms, es)) \<and>
       verify (seKeccak ex_sync_env) (Some (transformMissingStatesListToMap ms)) m = Inr None)"])
    (auto simp: writes_ok_def ex_sync_env_def ex_net_def)

lemma ex_search_fails:
  "case identifyMissingStates ex_sync_env [] of
     Some (Inr (ms, es)) \<Rightarrow>
       (case buildMissingStatesResult ms of
          Inr mm \<Rightarrow>
            (case sync_ecids (seLib ex_sync_env) (obj_keys mm) of
               Some ecids \<Rightarrow>
                 (case findProvidersBatch (seLib ex_sync_env) (seRouting ex_sync_env []) ecids of
                    Some fr \<Rightarrow> isErrors fr | None \<Rightarrow> False)
             | None \<Rightarrow> False)
        | Inl _ \<Rightarrow> False)
   | _ \<Rightarrow> False"
  by code_simp

end
