(* ===== verification/Eth_Reader.thy ===== *)
theory Eth_Reader
  imports Worker_Selection State_Machines
begin

text \<open>
  \<open>src/src/ethereum/EnigmaContractReaderAPI.js\<close>: the calls that read the Enigma contract at a
  confirmed block, the parsers of its events, and the subscriptions that deliver an event once
  enough blocks have followed it. The contract behind web3 is the parameter \<open>chain\<close>.
\<close>

section \<open>Numbers\<close>

text \<open>
  \<open>parseInt\<close>: the digits at the start of the string form. The result that is not a number, which
  is different from every status and block the code compares it with, is written \<open>null\<close>, as in
  JSON text.
\<close>

definition is_hex :: "char \<Rightarrow> bool" where
  "is_hex c \<longleftrightarrow> hex_val c \<noteq> None"

definition digits_int :: "string \<Rightarrow> int option" where
  "digits_int s =
     (if take 2 s = ''0x'' \<or> take 2 s = ''0X''
      then (let ds = takeWhile is_hex (drop 2 s) in if ds = [] then None else Some (int (hexs_val ds)))
      else (let ds = takeWhile is_digit s in if ds = [] then None else Some (int (digits_val ds))))"

definition parseInt :: "json \<Rightarrow> json" where
  "parseInt v =
     (let s = dropWhile (\<lambda>c. c = CHR '' '') (js_key v);
          n = (case s of
                 c # cs \<Rightarrow> if c = CHR ''-'' then map_option uminus (digits_int cs)
                           else if c = CHR ''+'' then digits_int cs else digits_int s
               | [] \<Rightarrow> None)
      in case n of Some i \<Rightarrow> JNum i | None \<Rightarrow> JNull)"

text \<open>\<open>JSBI.BigInt\<close>: decimal or hexadecimal text without a rest, or a number.\<close>

definition BigInt :: "json \<Rightarrow> json js" where
  "BigInt v =
     (case v of
        JNum n \<Rightarrow> Inr (JNum n)
      | JBool b \<Rightarrow> Inr (JNum (if b then 1 else 0))
      | JStr s \<Rightarrow>
          (let ds = (if take 2 s = ''0x'' then drop 2 s else if take 1 s = ''-'' then drop 1 s else s) in
           if s = [] then Inr (JNum 0)
           else if ds \<noteq> [] \<and> list_all (if take 2 s = ''0x'' then is_hex else is_digit) ds then Inr (parseInt v)
           else Inl JsSyntaxError)
      | JUndef \<Rightarrow> Inl JsTypeError
      | JNull \<Rightarrow> Inl JsTypeError
      | _ \<Rightarrow> Inl JsSyntaxError)"

section \<open>Reading the contract\<close>

text \<open>
  What web3 answers: the number of the latest block, and a call of a method at a given block
  (\<open>None\<close> for the latest one). \<open>chHexToAscii\<close> is \<open>web3.utils.hexToAscii\<close>.
\<close>

record chain =
  chBlock :: "int js"
  chCall :: "string \<Rightarrow> json list \<Rightarrow> int option \<Rightarrow> json js"
  chHexToAscii :: "json \<Rightarrow> json js"

record reader =
  rdWorker :: "string option"
  rdMinimumConfirmations :: int

text \<open>
  A call at the confirmed block. Its promise rejects with the error of web3; an exception in
  the callback of web3 leaves it unsettled (\<open>None\<close>).
\<close>

definition confirmed_call ::
    "chain \<Rightarrow> reader \<Rightarrow> string \<Rightarrow> json list \<Rightarrow> (json \<Rightarrow> json js js) \<Rightarrow> json js option" where
  "confirmed_call ch rd name args parse =
     (case chBlock ch of
        Inl e \<Rightarrow> Some (Inl e)
      | Inr currentBlockNumber \<Rightarrow>
          (case chCall ch name args (Some (currentBlockNumber - rdMinimumConfirmations rd)) of
             Inl e \<Rightarrow> Some (Inl e)
           | Inr data \<Rightarrow> (case parse data of Inl e \<Rightarrow> None | Inr r \<Rightarrow> Some r)))"

text \<open>\<open>data.a\<close>, \<open>data.b\<close>, ... with a conversion each, collected in an object.\<close>

type_synonym fields = "(string \<times> string \<times> (json \<Rightarrow> json js)) list"

fun pick_fields :: "fields \<Rightarrow> json \<Rightarrow> (string \<times> json) list js" where
  "pick_fields [] v = Inr []"
| "pick_fields ((k, prop, f) # fs) v =
     bindE (get_prop v prop) (\<lambda>x. bindE (f x) (\<lambda>y. bindE (pick_fields fs v) (\<lambda>rest. Inr ((k, y) # rest))))"

definition field_int :: "json \<Rightarrow> json js" where
  "field_int v = Inr (parseInt v)"

definition field_bare :: "json \<Rightarrow> json js" where
  "field_bare v = Inr (remove0x v)"

definition resolved :: "fields \<Rightarrow> json \<Rightarrow> json js js" where
  "resolved fs data = bindE (pick_fields fs data) (\<lambda>ps. Inr (Inr (JObj ps)))"

definition getContractParams :: "chain \<Rightarrow> reader \<Rightarrow> string \<Rightarrow> json js option" where
  "getContractParams ch rd address =
     confirmed_call ch rd ''getSecretContract'' [add0x (JStr address)]
       (resolved [(''owner'', ''owner'', Inr), (''preCodeHash'', ''preCodeHash'', Inr), (''codeHash'', ''codeHash'', Inr),
          (''status'', ''status'', field_int), (''deltaHashes'', ''stateDeltaHashes'', Inr)])"

definition countSecretContracts :: "chain \<Rightarrow> reader \<Rightarrow> json js option" where
  "countSecretContracts ch rd = confirmed_call ch rd ''countSecretContracts'' [] (\<lambda>data. Inr (Inr (parseInt data)))"

text \<open>The addresses of a list lose their prefix; an empty answer is passed on.\<close>

definition bare_addresses :: "json \<Rightarrow> json js js" where
  "bare_addresses data =
     (if truthy data
      then (case data of JArr xs \<Rightarrow> Inr (Inr (JArr (map remove0x xs))) | _ \<Rightarrow> Inl JsTypeError)
      else Inr (Inr data))"

definition getSecretContractAddresses :: "chain \<Rightarrow> reader \<Rightarrow> json \<Rightarrow> json \<Rightarrow> json js option" where
  "getSecretContractAddresses ch rd from to =
     confirmed_call ch rd ''getSecretContractAddresses'' [from, to] bare_addresses"

definition getAllSecretContractAddresses :: "chain \<Rightarrow> reader \<Rightarrow> json js option" where
  "getAllSecretContractAddresses ch rd = confirmed_call ch rd ''getAllSecretContractAddresses'' [] bare_addresses"

definition getWorkerParams :: "chain \<Rightarrow> reader \<Rightarrow> json \<Rightarrow> json js option" where
  "getWorkerParams ch rd blockNumber = confirmed_call ch rd ''getWorkerParams'' [blockNumber] (\<lambda>data. Inr (Inr data))"

definition getWorkersParams :: "chain \<Rightarrow> reader \<Rightarrow> json js option" where
  "getWorkersParams ch rd = confirmed_call ch rd ''getWorkersParams'' [] (\<lambda>data. Inr (Inr data))"

text \<open>\<open>Object.keys(data).length\<close>\<close>

definition keys_length :: "json \<Rightarrow> nat js" where
  "keys_length v =
     (case v of
        JUndef \<Rightarrow> Inl JsTypeError
      | JNull \<Rightarrow> Inl JsTypeError
      | JObj fs \<Rightarrow> Inr (length fs)
      | JArr xs \<Rightarrow> Inr (length xs)
      | JStr s \<Rightarrow> Inr (length s)
      | _ \<Rightarrow> Inr 0)"

definition worker_state :: "string \<Rightarrow> (json \<Rightarrow> json js) \<Rightarrow> json \<Rightarrow> json js js" where
  "worker_state address report data =
     bindE (keys_length data) (\<lambda>n.
     if n < 4 then Inr (Inl (Err EnigmaContractDataError (''Wrong number of parameters received for worker state '' @ address)))
     else bindE (report (fld data ''report'')) (\<lambda>r.
       Inr (Inr (JObj [(''address'', fld data ''signer''), (''status'', parseInt (fld data ''status'')),
         (''report'', r), (''balance'', parseInt (fld data ''balance''))]))))"

definition getWorker :: "chain \<Rightarrow> reader \<Rightarrow> string \<Rightarrow> json js option" where
  "getWorker ch rd address = confirmed_call ch rd ''getWorker'' [JStr address] (worker_state address Inr)"

text \<open>The block number is read before the address of the worker is checked.\<close>

definition getSelfWorker :: "chain \<Rightarrow> reader \<Rightarrow> json js option" where
  "getSelfWorker ch rd =
     (case chBlock ch of
        Inl e \<Rightarrow> Some (Inl e)
      | Inr _ \<Rightarrow>
          (case rdWorker rd of
             None \<Rightarrow> Some (Inl (Err InputErr ''Missing worker-address when calling getSelfWorker''))
           | Some address \<Rightarrow>
               if address = [] then Some (Inl (Err InputErr ''Missing worker-address when calling getSelfWorker''))
               else confirmed_call ch rd ''getWorker'' [JStr address] (worker_state address (chHexToAscii ch))))"

text \<open>\<open>data[0]\<close> and \<open>data[1]\<close>\<close>

definition js_index :: "json \<Rightarrow> nat \<Rightarrow> json" where
  "js_index v i =
     (case v of
        JArr xs \<Rightarrow> if i < length xs then xs ! i else JUndef
      | JObj fs \<Rightarrow> obj_get fs (int_str (int i))
      | JStr s \<Rightarrow> if i < length s then JStr [s ! i] else JUndef
      | _ \<Rightarrow> JUndef)"

definition getReport :: "chain \<Rightarrow> reader \<Rightarrow> string \<Rightarrow> json js option" where
  "getReport ch rd workerAddress =
     confirmed_call ch rd ''getReport'' [JStr workerAddress] (\<lambda>data.
       bindE (keys_length data) (\<lambda>n.
       if n \<noteq> 2 then Inr (Inl (Err EnigmaContractDataError (''Wrong number of parameters received for worker report '' @ workerAddress)))
       else Inr (Inr (JObj [(''signer'', js_index data 0), (''report'', js_index data 1)]))))"

definition getTaskParams :: "chain \<Rightarrow> reader \<Rightarrow> json \<Rightarrow> json js option" where
  "getTaskParams ch rd taskId =
     confirmed_call ch rd ''getTaskRecord'' [add0x taskId]
       (resolved [(''inputsHash'', ''inputsHash'', Inr), (''gasLimit'', ''gasLimit'', field_int),
          (''gasPrice'', ''gasPx'', field_int), (''proof'', ''proof'', Inr), (''senderAddress'', ''sender'', Inr),
          (''blockNumber'', ''blockNumber'', field_int), (''status'', ''status'', field_int),
          (''outputHash'', ''outputHash'', Inr)])"

definition getEpochSize :: "chain \<Rightarrow> reader \<Rightarrow> json js option" where
  "getEpochSize ch rd = confirmed_call ch rd ''getEpochSize'' [] (\<lambda>data. Inr (Inr data))"

text \<open>The one call without a block: it reads the latest state.\<close>

definition getTaskTimeout :: "chain \<Rightarrow> json js option" where
  "getTaskTimeout ch = Some (chCall ch ''getTaskTimeoutSize'' [] None)"

section \<open>Events\<close>

text \<open>\<open>data[0]\<close>, \<open>event.returnValues.bytes32s[2]\<close>: an element of a value that has to exist.\<close>

definition field_at :: "nat \<Rightarrow> json \<Rightarrow> json js" where
  "field_at i v = (if v = JUndef \<or> v = JNull then Inl JsTypeError else Inr (js_index v i))"

text \<open>\<open>stakes.map(x => cryptography.toBN(x))\<close>\<close>

definition field_stakes :: "json \<Rightarrow> json js" where
  "field_stakes v = (case v of JArr xs \<Rightarrow> bindE (mapE BigInt xs) (\<lambda>ys. Inr (JArr ys)) | _ \<Rightarrow> Inl JsTypeError)"

text \<open>\<open>_initEventParsers\<close>; the id of \<open>TaskFeeReturned\<close> is not stripped.\<close>

definition event_parsers :: "(string \<times> fields) list" where
  "event_parsers =
     [(''Registered'', [(''workerAddress'', ''custodian'', Inr), (''signer'', ''signer'', Inr)]),
      (''WorkersParameterized'', [(''seed'', ''seed'', BigInt), (''firstBlockNumber'', ''firstBlockNumber'', field_int),
         (''inclusionBlockNumber'', ''inclusionBlockNumber'', field_int), (''workers'', ''workers'', Inr),
         (''balances'', ''stakes'', field_stakes), (''nonce'', ''nonce'', field_int)]),
      (''TaskRecordCreated'', [(''taskId'', ''taskId'', field_bare), (''inputsHash'', ''inputsHash'', Inr),
         (''gasLimit'', ''gasLimit'', field_int), (''gasPrice'', ''gasPx'', field_int),
         (''senderAddress'', ''sender'', Inr), (''blockNumber'', ''blockNumber'', field_int)]),
      (''ReceiptVerified'', [(''taskId'', ''taskId'', field_bare), (''stateDeltaHash'', ''bytes32s'', field_at 2),
         (''stateDeltaHashIndex'', ''deltaHashIndex'', field_int), (''outputHash'', ''bytes32s'', field_at 3)]),
      (''ReceiptFailed'', [(''taskId'', ''taskId'', field_bare), (''outputHash'', ''outputHash'', Inr)]),
      (''ReceiptFailedETH'', [(''taskId'', ''taskId'', field_bare)]),
      (''TaskFeeReturned'', [(''taskId'', ''taskId'', Inr)]),
      (''DepositSuccessful'', [(''from'', ''from'', Inr), (''value'', ''value'', field_int)]),
      (''WithdrawSuccessful'', [(''to'', ''to'', Inr), (''value'', ''value'', field_int)]),
      (''SecretContractDeployed'', [(''secretContractAddress'', ''taskId'', field_bare),
         (''codeHash'', ''bytes32s'', field_at 2), (''stateDeltaHash'', ''bytes32s'', field_at 3)]),
      (''LoggedIn'', [(''workerAddress'', ''workerAddress'', Inr)]),
      (''LoggedOut'', [(''workerAddress'', ''workerAddress'', Inr)]),
      (''Unregistered'', [(''address'', ''custodian'', Inr)])]"

definition parse_event :: "string \<Rightarrow> json \<Rightarrow> json js" where
  "parse_event eventName event =
     (case map_of event_parsers eventName of
        None \<Rightarrow> Inl JsTypeError
      | Some fs \<Rightarrow> bindE (get_prop event ''returnValues'') (\<lambda>rv. bindE (pick_fields fs rv) (\<lambda>ps. Inr (JObj ps))))"

section \<open>Subscriptions\<close>

text \<open>
  \<open>subscribe\<close>: a watcher per call, and for each of its events a subscription to the headers of new
  blocks that waits for the confirmed block. \<open>suActive\<close> is \<open>_activeEventSubscriptions\<close>;
  \<open>suEvents\<close> is the history of the accepted events, whose positions number the subscriptions;
  \<open>suCalls\<close> are the invocations of the callbacks, and \<open>suThrew\<close> the subscriptions of those with an
  event that ended in an exception.
\<close>

record event_wait =
  ewWatcher :: nat
  ewEvent :: json
  ewConfirmed :: int

record subs =
  suWatchers :: "(nat \<times> string) list"
  suActive :: "(string \<times> nat) list"
  suPending :: "(nat \<times> event_wait) list"
  suEvents :: "event_wait list"
  suCalls :: "(nat \<times> nat \<times> json js) list"
  suThrew :: "nat list"

definition no_subs :: subs where
  "no_subs = \<lparr>suWatchers = [], suActive = [], suPending = [], suEvents = [], suCalls = [], suThrew = []\<rparr>"

definition subscribe :: "nat \<Rightarrow> string \<Rightarrow> subs \<Rightarrow> subs" where
  "subscribe watcher eventName s = s\<lparr>suWatchers := suWatchers s @ [(watcher, eventName)]\<rparr>"

text \<open>
  The handler of the data of a watcher: parse, ask for the latest block, wait. An exception, or
  an error of web3, drops the event. The watcher becomes active with its first event.
\<close>

definition event_data :: "reader \<Rightarrow> nat \<Rightarrow> json \<Rightarrow> int js \<Rightarrow> subs \<Rightarrow> subs" where
  "event_data rd watcher event block s =
     (case map_of (suWatchers s) watcher of
        None \<Rightarrow> s
      | Some eventName \<Rightarrow>
          (case (parse_event eventName event, block) of
             (Inr result, Inr startingBlockNumber) \<Rightarrow>
               (let p = \<lparr>ewWatcher = watcher, ewEvent = result,
                         ewConfirmed = startingBlockNumber + rdMinimumConfirmations rd\<rparr> in
                s\<lparr>suPending := suPending s @ [(length (suEvents s), p)],
                  suEvents := suEvents s @ [p],
                  suActive := obj_set (suActive s) eventName watcher\<rparr>)
           | _ \<Rightarrow> s))"

text \<open>
  A header of a new block for the subscription \<open>i\<close>: from the confirmed block on the callback gets
  the event, and the subscription ends unless the callback throws, which \<open>throws\<close> says. On an error the handler reads the undeclared variable
  \<open>err\<close>, so that nothing happens; the error event of the subscription invokes the callback.
\<close>

definition new_header :: "nat \<Rightarrow> int js \<Rightarrow> bool \<Rightarrow> subs \<Rightarrow> subs" where
  "new_header i header throws s =
     (case (map_of (suPending s) i, header) of
        (Some p, Inr number) \<Rightarrow>
          (if ewConfirmed p \<le> number
           then (let s = s\<lparr>suCalls := suCalls s @ [(i, ewWatcher p, Inr (ewEvent p))]\<rparr> in
                 if throws then s\<lparr>suThrew := suThrew s @ [i]\<rparr>
                 else s\<lparr>suPending := filter (\<lambda>q. fst q \<noteq> i) (suPending s)\<rparr>)
           else s)
      | _ \<Rightarrow> s)"

definition header_error :: "nat \<Rightarrow> js_error \<Rightarrow> subs \<Rightarrow> subs" where
  "header_error i err s =
     (case map_of (suPending s) i of
        Some p \<Rightarrow> s\<lparr>suCalls := suCalls s @ [(i, ewWatcher p, Inl err)]\<rparr>
      | None \<Rightarrow> s)"

text \<open>The \<open>changed\<close> event of a header subscription only forgets the watcher.\<close>

definition header_changed :: "nat \<Rightarrow> subs \<Rightarrow> subs" where
  "header_changed i s =
     (case map_of (suPending s) i of
        Some p \<Rightarrow>
          (case map_of (suWatchers s) (ewWatcher p) of
             Some eventName \<Rightarrow> s\<lparr>suActive := obj_del (suActive s) eventName\<rparr>
           | None \<Rightarrow> s)
      | None \<Rightarrow> s)"

text \<open>Only the active watchers are stopped, and their events in waiting are still delivered.\<close>

definition unsubscribeAll :: "subs \<Rightarrow> bool \<times> subs" where
  "unsubscribeAll s =
     (True, s\<lparr>suWatchers := filter (\<lambda>(w, n). w \<notin> snd ` set (suActive s)) (suWatchers s)\<rparr>)"

section \<open>Traces of subscriptions\<close>

datatype sub_step =
    Subscribe nat string
  | EventData nat json "int js"
  | NewHeader nat "int js" bool
  | HeaderError nat js_error
  | HeaderChanged nat
  | UnsubscribeAll

fun do_sub :: "reader \<Rightarrow> sub_step \<Rightarrow> subs \<Rightarrow> subs" where
  "do_sub rd (Subscribe w n) s = subscribe w n s"
| "do_sub rd (EventData w ev b) s = event_data rd w ev b s"
| "do_sub rd (NewHeader i h throws) s = new_header i h throws s"
| "do_sub rd (HeaderError i e) s = header_error i e s"
| "do_sub rd (HeaderChanged i) s = header_changed i s"
| "do_sub rd UnsubscribeAll s = snd (unsubscribeAll s)"

definition run_subs :: "reader \<Rightarrow> sub_step list \<Rightarrow> subs" where
  "run_subs rd sts = foldl (\<lambda>s st. do_sub rd st s) no_subs sts"

text \<open>The deliveries: the invocations of callbacks with an event.\<close>

definition deliveries :: "subs \<Rightarrow> (nat \<times> nat \<times> json js) list" where
  "deliveries s = filter (\<lambda>(i, w, r). \<not> isl r) (suCalls s)"

definition delivered :: "subs \<Rightarrow> nat list" where
  "delivered s = map fst (deliveries s)"

text \<open>
  Every accepted event waits or has been delivered; it was delivered once for every time its callback
  threw, and once more when it does not wait any longer. A delivery passes the parsed event to the
  callback of its watcher.
\<close>

definition subs_inv :: "subs \<Rightarrow> bool" where
  "subs_inv s \<longleftrightarrow>
     distinct (map fst (suPending s)) \<and>
     (\<forall>i. count_list (delivered s) i + of_bool (i \<in> fst ` set (suPending s)) =
        count_list (suThrew s) i + of_bool (i < length (suEvents s))) \<and>
     (\<forall>i \<in> set (suThrew s). i < length (suEvents s)) \<and>
     (\<forall>(i, p) \<in> set (suPending s). i < length (suEvents s) \<and> suEvents s ! i = p) \<and>
     (\<forall>(i, w, r) \<in> set (deliveries s). i < length (suEvents s) \<and>
        w = ewWatcher (suEvents s ! i) \<and> r = Inr (ewEvent (suEvents s ! i)))"

text \<open>A delivery is justified by a header of the confirmed block or a later one.\<close>

definition header_seen :: "sub_step list \<Rightarrow> subs \<Rightarrow> bool" where
  "header_seen sts s \<longleftrightarrow>
     (\<forall>i\<in>set (delivered s). \<exists>n b. NewHeader i (Inr n) b \<in> set sts \<and> ewConfirmed (suEvents s ! i) \<le> n)"

text \<open>The steps that concern neither the waiting events nor the deliveries.\<close>

lemma subs_frame:
  assumes "suPending s' = suPending s" "suEvents s' = suEvents s" "deliveries s' = deliveries s" "suThrew s' = suThrew s"
  shows "subs_inv s' = subs_inv s" "header_seen sts s' = header_seen sts s"
  using assms by (simp_all add: subs_inv_def header_seen_def delivered_def)

lemma deliveries_simps [simp]:
  "deliveries (s\<lparr>suCalls := suCalls s @ [(i, w, Inr r)]\<rparr>) = deliveries s @ [(i, w, Inr r)]"
  "deliveries (s\<lparr>suCalls := suCalls s @ [(i, w, Inl e)]\<rparr>) = deliveries s"
  "deliveries (s\<lparr>suPending := ps\<rparr>) = deliveries s"
  "deliveries (s\<lparr>suThrew := ts\<rparr>) = deliveries s"
  "deliveries (s\<lparr>suWatchers := ws\<rparr>) = deliveries s"
  "deliveries (s\<lparr>suActive := as\<rparr>) = deliveries s"
  "deliveries (s\<lparr>suPending := ps, suEvents := es, suActive := as\<rparr>) = deliveries s"
  by (simp_all add: deliveries_def)

lemma subs_invD:
  assumes "subs_inv s"
  shows "distinct (map fst (suPending s))"
    "count_list (delivered s) i + of_bool (i \<in> fst ` set (suPending s)) = count_list (suThrew s) i + of_bool (i < length (suEvents s))"
    "(i, p) \<in> set (suPending s) \<Longrightarrow> i < length (suEvents s) \<and> suEvents s ! i = p"
    "(i, w, r) \<in> set (deliveries s) \<Longrightarrow>
       i < length (suEvents s) \<and> w = ewWatcher (suEvents s ! i) \<and> r = Inr (ewEvent (suEvents s ! i))"
    "i \<in> set (delivered s) \<Longrightarrow> i < length (suEvents s)"
    "i \<in> set (suThrew s) \<Longrightarrow> i < length (suEvents s)"
  using assms unfolding subs_inv_def delivered_def by auto

lemma subs_accept:
  assumes "subs_inv s" "header_seen sts s"
    and s': "s' = s\<lparr>suPending := suPending s @ [(length (suEvents s), p)], suEvents := suEvents s @ [p], suActive := as\<rparr>"
  shows "subs_inv s'" "header_seen sts s'"
proof -
  note inv = subs_invD [OF assms(1)]
  let ?n = "length (suEvents s)"
  have del: "deliveries s' = deliveries s" "delivered s' = delivered s"
    by (simp_all add: s' delivered_def deliveries_def)
  have parts: "suPending s' = suPending s @ [(?n, p)]" "suEvents s' = suEvents s @ [p]" "suThrew s' = suThrew s"
    by (simp_all add: s')
  have old: "suEvents s' ! i = suEvents s ! i" if "i < ?n" for i
    using that by (simp add: s' nth_append)
  have new: "?n \<notin> fst ` set (suPending s)" using inv(3) by fastforce
  have "count_list (delivered s) ?n = 0" "count_list (suThrew s) ?n = 0"
    using inv(5,6) by (auto simp: count_list_0_iff)
  then have "count_list (delivered s') i + of_bool (i \<in> fst ` set (suPending s')) =
      count_list (suThrew s') i + of_bool (i < length (suEvents s'))" for i
    using inv(2) [of i] new by (cases "i = ?n") (auto simp: parts del(2) less_Suc_eq)
  then show "subs_inv s'"
    using inv(1,3,4,6) new old unfolding subs_inv_def del(1) by (auto simp: parts less_SucI)
  show "header_seen sts s'"
    using assms(2) inv(5) old unfolding header_seen_def del by auto
qed

lemma subs_deliver:
  assumes "subs_inv s" "header_seen sts s" "map_of (suPending s) i = Some p" "ewConfirmed p \<le> n"
  shows "subs_inv (new_header i (Inr n) b s)" "header_seen (sts @ [NewHeader i (Inr n) b]) (new_header i (Inr n) b s)"
proof -
  note inv = subs_invD [OF assms(1)]
  let ?s' = "new_header i (Inr n) b s"
  have s': "suPending ?s' = (if b then suPending s else filter (\<lambda>q. fst q \<noteq> i) (suPending s))"
    "suThrew ?s' = (if b then suThrew s @ [i] else suThrew s)" "suEvents ?s' = suEvents s"
    "deliveries ?s' = deliveries s @ [(i, ewWatcher p, Inr (ewEvent p))]"
    using assms(3,4) by (simp_all add: new_header_def Let_def)
  have del: "delivered ?s' = delivered s @ [i]" by (simp add: delivered_def s'(4))
  have p: "(i, p) \<in> set (suPending s)" using assms(3) by (rule map_of_SomeD)
  then have i: "i < length (suEvents s)" "suEvents s ! i = p" "i \<in> fst ` set (suPending s)" using inv(3) by force+
  have "count_list (delivered ?s') j + of_bool (j \<in> fst ` set (suPending ?s')) =
      count_list (suThrew ?s') j + of_bool (j < length (suEvents ?s'))" for j
  proof (cases "j = i")
    case True
    then show ?thesis using inv(2) [of i] i(3) by (auto simp: s' del)
  next
    case False
    then have "(j \<in> fst ` set (filter (\<lambda>q. fst q \<noteq> i) (suPending s))) = (j \<in> fst ` set (suPending s))" by force
    then show ?thesis using inv(2) [of j] False by (simp add: s' del)
  qed
  then show "subs_inv ?s'"
    using inv(1,3,4,6) i(1,2) distinct_map_filter [OF inv(1), of "\<lambda>q. fst q \<noteq> i"]
    unfolding subs_inv_def s' by auto
  show "header_seen (sts @ [NewHeader i (Inr n) b]) ?s'"
    using assms(2,4) i(2) unfolding header_seen_def del s'(3) by fastforce
qed

lemma subs_step:
  assumes "subs_inv s" "header_seen sts s"
  shows "subs_inv (do_sub rd st s) \<and> header_seen (sts @ [st]) (do_sub rd st s)"
proof -
  have more_steps: "header_seen (sts @ [st]) s'" if "header_seen sts s'" for s'
    using that by (fastforce simp: header_seen_def)
  have other: "subs_inv (do_sub rd st s) \<and> header_seen (sts @ [st]) (do_sub rd st s)"
    if "\<And>w ev b. st \<noteq> EventData w ev b" "\<And>i h b. st \<noteq> NewHeader i h b"
  proof -
    have "suPending (do_sub rd st s) = suPending s" "suEvents (do_sub rd st s) = suEvents s"
      "deliveries (do_sub rd st s) = deliveries s" "suThrew (do_sub rd st s) = suThrew s"
      using that
      by (cases st; simp add: subscribe_def header_error_def header_changed_def unsubscribeAll_def split: option.split)+
    from subs_frame [OF this] show ?thesis using assms more_steps by simp
  qed
  show ?thesis
  proof (cases st)
    case (EventData w ev b)
    then show ?thesis
      using assms more_steps subs_accept [OF assms refl]
      by (simp add: event_data_def Let_def split: option.split sum.split)
  next
    case (NewHeader i h b)
    show ?thesis
    proof (cases "\<exists>p n. map_of (suPending s) i = Some p \<and> h = Inr n \<and> ewConfirmed p \<le> n")
      case True
      then show ?thesis using subs_deliver [OF assms] NewHeader by auto
    next
      case False
      then have "new_header i h b s = s" by (auto simp: new_header_def split: option.split sum.split)
      then show ?thesis using assms more_steps NewHeader by simp
    qed
  qed (use assms more_steps other in auto)
qed

lemma run_subs_snoc: "run_subs rd (sts @ [st]) = do_sub rd st (run_subs rd sts)"
  by (simp add: run_subs_def)

interpretation subs_run: machine no_subs "do_sub rd" "\<lambda>_. True" "\<lambda>sts s. subs_inv s \<and> header_seen sts s" for rd
proof unfold_locales
  show "subs_inv no_subs \<and> header_seen [] no_subs"
    by (simp add: no_subs_def subs_inv_def header_seen_def delivered_def deliveries_def)
qed (use subs_step in blast)+

lemmas run_subs_inv = subs_run.always [OF TrueI, folded run_subs_def]

text \<open>What the accepted events of a trace are: parsed events with their confirmed blocks.\<close>

lemma suEvents_step:
  "suEvents (do_sub rd st s) = suEvents s \<or>
     (\<exists>w ev b n r p. st = EventData w ev (Inr b) \<and> map_of (suWatchers s) w = Some n \<and> parse_event n ev = Inr r \<and>
        p = \<lparr>ewWatcher = w, ewEvent = r, ewConfirmed = b + rdMinimumConfirmations rd\<rparr> \<and>
        suEvents (do_sub rd st s) = suEvents s @ [p])"
  by (cases st)
    (auto simp: subscribe_def event_data_def new_header_def header_error_def header_changed_def unsubscribeAll_def
      Let_def split: option.split sum.split)

lemma suWatchers_step:
  "set (suWatchers (do_sub rd st s)) \<subseteq> set (suWatchers s) \<union> {(w, n). st = Subscribe w n}"
  by (cases st)
    (auto simp: subscribe_def event_data_def new_header_def header_error_def header_changed_def unsubscribeAll_def
      Let_def split: option.split sum.split)

definition event_origin :: "reader \<Rightarrow> sub_step list \<Rightarrow> event_wait \<Rightarrow> bool" where
  "event_origin rd sts p \<longleftrightarrow>
     (\<exists>n ev b. Subscribe (ewWatcher p) n \<in> set sts \<and> EventData (ewWatcher p) ev (Inr b) \<in> set sts \<and>
        parse_event n ev = Inr (ewEvent p) \<and> ewConfirmed p = b + rdMinimumConfirmations rd)"

interpretation subs_origin: machine no_subs "do_sub rd" "\<lambda>_. True"
    "\<lambda>sts s. (\<forall>w n. (w, n) \<in> set (suWatchers s) \<longrightarrow> Subscribe w n \<in> set sts) \<and> (\<forall>p\<in>set (suEvents s). event_origin rd sts p)" for rd
proof unfold_locales
  fix sts st and s :: subs
  assume inv: "(\<forall>w n. (w, n) \<in> set (suWatchers s) \<longrightarrow> Subscribe w n \<in> set sts) \<and> (\<forall>p\<in>set (suEvents s). event_origin rd sts p)"
  have old: "event_origin rd (sts @ [st]) p" if "p \<in> set (suEvents s)" for p
    using inv that by (fastforce simp: event_origin_def)
  have new: "event_origin rd (sts @ [st]) p"
    if "st = EventData w ev (Inr b)" "map_of (suWatchers s) w = Some n" "parse_event n ev = Inr r"
      "p = \<lparr>ewWatcher = w, ewEvent = r, ewConfirmed = b + rdMinimumConfirmations rd\<rparr>" for w ev b n r p
    using inv that map_of_SomeD [OF that(2)] by (auto simp: event_origin_def)
  have "\<forall>p\<in>set (suEvents (do_sub rd st s)). event_origin rd (sts @ [st]) p"
    using suEvents_step [of rd st s] old new by (elim disjE exE conjE) auto
  then show "(\<forall>w n. (w, n) \<in> set (suWatchers (do_sub rd st s)) \<longrightarrow> Subscribe w n \<in> set (sts @ [st])) \<and>
      (\<forall>p\<in>set (suEvents (do_sub rd st s)). event_origin rd (sts @ [st]) p)"
    using inv suWatchers_step [of rd st s] by auto
qed (simp_all add: no_subs_def)

lemma event_has_origin: "p \<in> set (suEvents (run_subs rd sts)) \<Longrightarrow> event_origin rd sts p"
  using subs_origin.always [OF TrueI, of rd sts] by (simp add: run_subs_def)

section \<open>Properties\<close>

datatype read =
    R_ContractParams string | R_Count | R_Addresses json json | R_AllAddresses
  | R_WorkerParams json | R_WorkersParams | R_Worker string | R_SelfWorker | R_Report string
  | R_TaskParams json | R_EpochSize | R_TaskTimeout

fun do_read :: "chain \<Rightarrow> reader \<Rightarrow> read \<Rightarrow> json js option" where
  "do_read ch rd (R_ContractParams a) = getContractParams ch rd a"
| "do_read ch rd R_Count = countSecretContracts ch rd"
| "do_read ch rd (R_Addresses m n) = getSecretContractAddresses ch rd m n"
| "do_read ch rd R_AllAddresses = getAllSecretContractAddresses ch rd"
| "do_read ch rd (R_WorkerParams b) = getWorkerParams ch rd b"
| "do_read ch rd R_WorkersParams = getWorkersParams ch rd"
| "do_read ch rd (R_Worker a) = getWorker ch rd a"
| "do_read ch rd R_SelfWorker = getSelfWorker ch rd"
| "do_read ch rd (R_Report a) = getReport ch rd a"
| "do_read ch rd (R_TaskParams t) = getTaskParams ch rd t"
| "do_read ch rd R_EpochSize = getEpochSize ch rd"
| "do_read ch rd R_TaskTimeout = getTaskTimeout ch"

text \<open>
  C25: all reads but one depend only on confirmed blocks. When two views of the chain have the same
  latest block, and agree on the state of the contract at every block that is at least the minimum
  number of confirmations old, every read of the contract except that of the task timeout gives the
  same result on both. The read of the task timeout gives the value of the latest block.
\<close>

theorem reads_confirmed:
  assumes "chBlock ch = Inr n" "chBlock ch' = Inr n" "chHexToAscii ch = chHexToAscii ch'"
    and "\<forall>name args b. b \<le> n - rdMinimumConfirmations rd \<longrightarrow> chCall ch name args (Some b) = chCall ch' name args (Some b)"
    and "q \<noteq> R_TaskTimeout"
  shows "do_read ch rd q = do_read ch' rd q \<and> do_read ch rd R_TaskTimeout = Some (chCall ch ''getTaskTimeoutSize'' [] None)"
proof -
  have "confirmed_call ch rd name args parse = confirmed_call ch' rd name args parse" for name args parse
    using assms by (simp add: confirmed_call_def)
  then show ?thesis
    using assms(1-3,5)
    by (cases q)
      (simp_all add: getTaskTimeout_def getContractParams_def countSecretContracts_def getSecretContractAddresses_def
        getAllSecretContractAddresses_def getWorkerParams_def getWorkersParams_def getWorker_def getSelfWorker_def
        getReport_def getTaskParams_def getEpochSize_def split: option.split)
qed

definition ex_chain :: "int \<Rightarrow> chain" where
  "ex_chain fresh = \<lparr>chBlock = Inr 100,
     chCall = (\<lambda>name args b. Inr (case b of Some n \<Rightarrow> if n \<le> 88 then JStr ''7'' else JNum fresh | None \<Rightarrow> JNum fresh)),
     chHexToAscii = Inr\<rparr>"

definition ex_rd :: reader where
  "ex_rd = \<lparr>rdWorker = None, rdMinimumConfirmations = 12\<rparr>"

theorem reads_confirmed_witness:
  "do_read (ex_chain 1) ex_rd R_Count = do_read (ex_chain 2) ex_rd R_Count \<and> getTaskTimeout (ex_chain 1) \<noteq> getTaskTimeout (ex_chain 2)"
proof -
  have "do_read (ex_chain 1) ex_rd R_Count = do_read (ex_chain 2) ex_rd R_Count"
    by (rule reads_confirmed [where n = 100, THEN conjunct1]) (simp_all add: ex_chain_def ex_rd_def)
  then show ?thesis by (simp add: getTaskTimeout_def ex_chain_def)
qed

text \<open>
  C26: an event is delivered once, unchanged, and only when it is confirmed. In every run every
  delivery is of an accepted event: it passes the parsed event to the callback that subscribed to it,
  after a header whose number is at least the block at which the event came plus the minimum number
  of confirmations. An accepted event is delivered once for every time its callback threw, since the
  subscription then stays, and once more when it does not wait any longer: an event whose callback
  does not throw waits undelivered or has been delivered exactly once.
\<close>

theorem events_confirmed:
  "list_all (\<lambda>i. count_list (delivered (run_subs rd sts)) i =
       count_list (suThrew (run_subs rd sts)) i + (if i \<in> fst ` set (suPending (run_subs rd sts)) then 0 else 1))
     [0..<length (suEvents (run_subs rd sts))] \<and>
   list_all (\<lambda>(i, w, r). i < length (suEvents (run_subs rd sts)) \<and> event_origin rd sts (suEvents (run_subs rd sts) ! i) \<and>
       w = ewWatcher (suEvents (run_subs rd sts) ! i) \<and> r = Inr (ewEvent (suEvents (run_subs rd sts) ! i)) \<and>
       list_ex (\<lambda>st. case st of NewHeader j (Inr n) b \<Rightarrow> j = i \<and> ewConfirmed (suEvents (run_subs rd sts) ! i) \<le> n | _ \<Rightarrow> False) sts)
     (deliveries (run_subs rd sts))"
proof -
  let ?s = "run_subs rd sts"
  have inv: "subs_inv ?s" and seen: "header_seen sts ?s" using run_subs_inv by auto
  have "list_ex (\<lambda>st. case st of NewHeader j (Inr n) b \<Rightarrow> j = i \<and> ewConfirmed (suEvents ?s ! i) \<le> n | _ \<Rightarrow> False) sts"
    if "(i, w, r) \<in> set (deliveries ?s)" for i w r
  proof -
    have "i \<in> set (delivered ?s)" using that by (force simp: delivered_def)
    then obtain n b where "NewHeader i (Inr n) b \<in> set sts" "ewConfirmed (suEvents ?s ! i) \<le> n"
      using seen by (auto simp: header_seen_def)
    then show ?thesis by (auto simp: list_ex_iff intro!: bexI [of _ "NewHeader i (Inr n) b"])
  qed
  moreover have "count_list (delivered ?s) i = count_list (suThrew ?s) i + (if i \<in> fst ` set (suPending ?s) then 0 else 1)"
    if "i < length (suEvents ?s)" for i
    using subs_invD(2) [OF inv, of i] that by (cases "i \<in> fst ` set (suPending ?s)") simp_all
  ultimately show ?thesis
    using subs_invD(4) [OF inv] event_has_origin [OF nth_mem] by (auto simp: list_all_iff)
qed

text \<open>A callback that throws gets the event again with every later header.\<close>

lemma throwing_callback_called_again:
  assumes "map_of (suPending s) i = Some p" "ewConfirmed p \<le> n" "ewConfirmed p \<le> m"
  shows "deliveries (new_header i (Inr m) b (new_header i (Inr n) True s)) =
    deliveries s @ [(i, ewWatcher p, Inr (ewEvent p)), (i, ewWatcher p, Inr (ewEvent p))]"
  using assms by (simp add: new_header_def Let_def deliveries_def)

text \<open>
  C27: a confirmed event is delivered. Once a header of the confirmed block or a later one reaches
  the subscription of an accepted event, the event has been delivered.
\<close>

theorem event_delivered:
  assumes "i < length (suEvents (run_subs rd sts))" "ewConfirmed (suEvents (run_subs rd sts) ! i) \<le> n"
  shows "i \<in> set (delivered (run_subs rd (sts @ [NewHeader i (Inr n) throws])))"
proof (cases "i \<in> fst ` set (suPending (run_subs rd sts))")
  case True
  let ?s = "run_subs rd sts"
  have inv: "subs_inv ?s" using run_subs_inv by auto
  obtain p where p: "map_of (suPending ?s) i = Some p" using True by (cases "map_of (suPending ?s) i") (auto simp: map_of_eq_None_iff)
  then have "suEvents ?s ! i = p" using subs_invD(3) [OF inv] map_of_SomeD by fastforce
  then show ?thesis using p assms(2) by (simp add: run_subs_snoc new_header_def delivered_def Let_def)
next
  case False
  let ?s = "run_subs rd sts"
  have inv: "subs_inv ?s" using run_subs_inv by auto
  have "count_list (delivered ?s) i \<noteq> 0" using subs_invD(2) [OF inv, of i] False assms(1) by simp
  then have "i \<in> set (delivered ?s)" by (simp add: count_list_0_iff)
  then show ?thesis
    by (auto simp: run_subs_snoc new_header_def delivered_def Let_def split: option.split)
qed

definition ex_subs :: "sub_step list" where
  "ex_subs = [Subscribe 0 ''ReceiptFailedETH'',
     EventData 0 (JObj [(''returnValues'', JObj [(''taskId'', JStr ''0xab'')])]) (Inr 100)]"

theorem event_delivered_witness:
  "delivered (run_subs ex_rd (ex_subs @ [NewHeader 0 (Inr 112) False])) = [0]"
proof -
  have "suEvents (run_subs ex_rd ex_subs) = [\<lparr>ewWatcher = 0, ewEvent = JObj [(''taskId'', JStr ''ab'')], ewConfirmed = 112\<rparr>]"
    by code_simp
  then have "0 \<in> set (delivered (run_subs ex_rd (ex_subs @ [NewHeader 0 (Inr 112) False])))"
    by (intro event_delivered) simp_all
  moreover have "length (delivered (run_subs ex_rd (ex_subs @ [NewHeader 0 (Inr 112) False]))) = 1" by code_simp
  ultimately show ?thesis by (auto simp: length_Suc_conv)
qed

end
