(* ===== verification/Eth_Writer.thy ===== *)
theory Eth_Writer
  imports Eth_Reader
begin

text \<open>
  \<open>src/src/ethereum/EnigmaContractWriterAPI.js\<close>: the transactions a worker sends to the contract.
  A transaction is sent once and then driven by the events of web3: an error, the receipt, and
  the confirmations by later blocks; the promise of the call settles from them. The minimum of
  confirmations is an integer, and past events are read in one step.
\<close>

section \<open>Options\<close>

text \<open>The bounds of \<open>config.json\<close>.\<close>

definition gasMin :: int where "gasMin = 21000"
definition gasMax :: int where "gasMax = 8000000"
definition gasPriceMin :: int where "gasPriceMin = 3"
definition gasPriceMax :: int where "gasPriceMax = 100"

definition default_options :: "json \<Rightarrow> (string \<times> json) list" where
  "default_options workerAddress =
     (''gas'', JNum 3000000) # (if truthy workerAddress then [(''from'', workerAddress)] else [])"

text \<open>
  \<open>v < lo || v > hi\<close>: a string counts as the number it spells, \<open>null\<close> as zero; every comparison
  with anything else is false.
\<close>

definition out_of_range :: "json \<Rightarrow> int \<Rightarrow> int \<Rightarrow> bool" where
  "out_of_range v lo hi =
     (case v of
        JNum n \<Rightarrow> n < lo \<or> n > hi
      | JStr s \<Rightarrow> (case BigInt (JStr s) of Inr (JNum n) \<Rightarrow> n < lo \<or> n > hi | _ \<Rightarrow> False)
      | JNull \<Rightarrow> 0 < lo \<or> 0 > hi
      | JBool b \<Rightarrow> of_bool b < lo \<or> of_bool b > hi
      | _ \<Rightarrow> False)"

definition range_text :: "int \<Rightarrow> int \<Rightarrow> string" where
  "range_text lo hi = int_str lo @ ''-'' @ int_str hi"

definition validateTxParams :: "(json \<Rightarrow> bool) \<Rightarrow> (string \<times> json) list \<Rightarrow> string option" where
  "validateTxParams isAddress txParams =
     (let gas = obj_get txParams ''gas''; gasPrice = obj_get txParams ''gasPrice''; from = obj_get txParams ''from'' in
      if ''gas'' \<in> set (obj_keys txParams) \<and> out_of_range gas gasMin gasMax
      then Some (''gas limit specified '' @ js_key gas @ '' is not in the allowed range: '' @ range_text gasMin gasMax)
      else if ''gasPrice'' \<in> set (obj_keys txParams) \<and> out_of_range gasPrice gasPriceMin gasPriceMax
      then Some (''gas price specified '' @ js_key gasPrice @ '' is not in the allowed range: '' @
        range_text gasPriceMin gasPriceMax)
      else if ''from'' \<in> set (obj_keys txParams) \<and> \<not> isAddress from
      then Some (''the from address specified '' @ js_key from @ '' is not a valid Ethereum address'' @
        range_text gasPriceMin gasPriceMax)
      else None)"

text \<open>
  The given options completed by the defaults; \<open>defaultsDeep\<close> is the package
  \<open>@nodeutils/defaults-deep\<close>.
\<close>

definition getTransactionOptions ::
    "((string \<times> json) list \<Rightarrow> (string \<times> json) list \<Rightarrow> (string \<times> json) list) \<Rightarrow> (json \<Rightarrow> bool) \<Rightarrow> json \<Rightarrow>
       (string \<times> json) list option \<Rightarrow> string + (string \<times> json) list" where
  "getTransactionOptions defaultsDeep isAddress workerAddress txParams =
     (case txParams of
        None \<Rightarrow> Inr (default_options workerAddress)
      | Some ps \<Rightarrow>
          (case validateTxParams isAddress ps of
             Some error \<Rightarrow> Inl error
           | None \<Rightarrow> Inr (defaultsDeep ps (default_options workerAddress))))"

section \<open>Transactions\<close>

text \<open>The arguments of the methods, in the order of the code.\<close>

datatype eth_tx =
    Register json json json
  | Unregister
  | Login
  | Logout
  | DeploySecretContract json json json json json json json json
  | DeploySecretContractFailure json json json json
  | CommitReceipt json json json json json json json json
  | CommitTaskFailure json json json json json

definition or_empty_hex :: "json \<Rightarrow> json" where
  "or_empty_hex v = (if truthy v then v else JStr ''0x'')"

text \<open>The method of the contract and its arguments.\<close>

fun tx_call :: "json \<Rightarrow> eth_tx \<Rightarrow> string \<times> json list" where
  "tx_call staking (Register signerAddress report signature) =
     (''register'', [add0x staking, add0x signerAddress, add0x report, add0x signature])"
| "tx_call staking Unregister = (''unregister'', [])"
| "tx_call staking Login = (''login'', [])"
| "tx_call staking Logout = (''logout'', [])"
| "tx_call staking (DeploySecretContract taskId preCodeHash codeHash deltaHash ethData ethAddr gasUsed signature) =
     (''deploySecretContract'', [gasUsed, add0x ethAddr,
        JArr [add0x taskId, add0x preCodeHash, add0x codeHash, add0x deltaHash],
        add0x (or_empty_hex ethData), add0x signature])"
| "tx_call staking (DeploySecretContractFailure taskId outputHash gasUsed signature) =
     (''deploySecretContractFailure'', [add0x taskId, add0x outputHash, gasUsed, add0x signature])"
| "tx_call staking (CommitReceipt address taskId deltaHash outputHash ethData ethAddr gasUsed signature) =
     (''commitReceipt'', [gasUsed, add0x ethAddr,
        JArr [add0x address, add0x taskId, add0x (or_empty_hex deltaHash), add0x outputHash],
        add0x (or_empty_hex ethData), add0x signature])"
| "tx_call staking (CommitTaskFailure address taskId outputHash gasUsed signature) =
     (''commitTaskFailure'', [add0x address, add0x taskId, add0x outputHash, gasUsed, add0x signature])"

text \<open>
  The events that \<open>resolveLogic\<close> looks for, in order, and the task id it filters by; none for
  the transactions that resolve with \<open>null\<close>.
\<close>

fun tx_events :: "eth_tx \<Rightarrow> string list \<times> json" where
  "tx_events (DeploySecretContract taskId _ _ _ _ _ _ _) =
     ([''SecretContractDeployed'', ''ReceiptFailedETH''], add0x taskId)"
| "tx_events (CommitReceipt _ taskId _ _ _ _ _ _) = ([''ReceiptVerified'', ''ReceiptFailedETH''], add0x taskId)"
| "tx_events (DeploySecretContractFailure taskId _ _ _) = ([''ReceiptFailed''], add0x taskId)"
| "tx_events (CommitTaskFailure _ taskId _ _ _) = ([''ReceiptFailed''], add0x taskId)"
| "tx_events _ = ([], JNull)"

section \<open>Past events\<close>

text \<open>
  \<open>past name taskId w\<close> is what \<open>getPastEvents\<close> answers in the state \<open>w\<close> of the chain, for the
  events since the block at which the transaction was sent.
\<close>

type_synonym 'w past = "string \<Rightarrow> json \<Rightarrow> 'w \<Rightarrow> json js"

definition parseEvents :: "(string \<times> json) list \<Rightarrow> (string \<times> json) list js" where
  "parseEvents events =
     mapE (\<lambda>(name, event). bindE (parse_event name event) (\<lambda>v. Inr (name, v)))
       (filter (\<lambda>(name, event). name \<in> set (map fst event_parsers)) events)"

definition parsePastEvents :: "'w past \<Rightarrow> string \<Rightarrow> json \<Rightarrow> 'w \<Rightarrow> json js" where
  "parsePastEvents past name taskId w =
     bindE (past name taskId w) (\<lambda>rawEvents.
       case rawEvents of
         JArr (ev # _) \<Rightarrow>
           bindE (get_prop ev ''event'') (\<lambda>n.
           bindE (parseEvents [(js_key n, ev)]) (\<lambda>fs. Inr (JObj fs)))
       | _ \<Rightarrow> Inr (JObj []))"

text \<open>The events of the first name that has any; those of the last name otherwise.\<close>

fun find_events :: "'w past \<Rightarrow> string list \<Rightarrow> json \<Rightarrow> 'w \<Rightarrow> json js" where
  "find_events past [] taskId w = Inr JNull"
| "find_events past [name] taskId w = parsePastEvents past name taskId w"
| "find_events past (name # names) taskId w =
     bindE (parsePastEvents past name taskId w) (\<lambda>events.
       if events \<noteq> JObj [] then Inr events else find_events past names taskId w)"

definition resolveLogic :: "'w past \<Rightarrow> eth_tx \<Rightarrow> 'w \<Rightarrow> json js" where
  "resolveLogic past tx w = (case tx_events tx of (names, taskId) \<Rightarrow> find_events past names taskId w)"

section \<open>Sending\<close>

text \<open>
  The promise of a transaction, and whether it still listens to confirmations. The handlers are
  asynchronous: an error while they read the events is lost.
\<close>

datatype 'w tx_event = TxError js_error | TxReceipt 'w | TxConfirmation int 'w

record tx_run =
  trSettled :: "json js option"
  trListens :: bool

definition tx_settle :: "json js \<Rightarrow> tx_run \<Rightarrow> tx_run" where
  "tx_settle r t = (if trSettled t = None then t\<lparr>trSettled := Some r\<rparr> else t)"

definition tx_resolve :: "json js \<Rightarrow> tx_run \<Rightarrow> tx_run" where
  "tx_resolve r t = (case r of Inr v \<Rightarrow> tx_settle (Inr v) t | Inl e \<Rightarrow> t)"

fun tx_step :: "int \<Rightarrow> 'w past \<Rightarrow> eth_tx \<Rightarrow> 'w tx_event \<Rightarrow> tx_run \<Rightarrow> tx_run" where
  "tx_step minimum past tx (TxError error) t = tx_settle (Inl error) t"
| "tx_step minimum past tx (TxReceipt w) t =
     (if minimum = 0 then tx_resolve (resolveLogic past tx w) t else t)"
| "tx_step minimum past tx (TxConfirmation confNumber w) t =
     (if trListens t \<and> confNumber \<ge> minimum
      then tx_resolve (resolveLogic past tx w) (t\<lparr>trListens := False\<rparr>)
      else t)"

text \<open>
  The object behind the calls, with what it uses of web3 and of the contract: \<open>wrEncode\<close> is
  \<open>encodeABI\<close> of a method and its arguments.
\<close>

record 'w writer =
  wrContract :: json
  wrStaking :: json
  wrWorker :: json
  wrMinimum :: int
  wrIsAddress :: "json \<Rightarrow> bool"
  wrDefaultsDeep :: "(string \<times> json) list \<Rightarrow> (string \<times> json) list \<Rightarrow> (string \<times> json) list"
  wrEncode :: "string \<times> json list \<Rightarrow> json"
  wrPast :: "'w past"

definition tx_object :: "'w writer \<Rightarrow> eth_tx \<Rightarrow> (string \<times> json) list \<Rightarrow> json \<Rightarrow> json" where
  "tx_object wr tx options chainId =
     JObj [(''from'', obj_get options ''from''), (''to'', wrContract wr), (''gas'', obj_get options ''gas''),
       (''data'', wrEncode wr (tx_call (wrStaking wr) tx)), (''chainId'', chainId)]"

text \<open>
  A call: refused options reject at once; an error of the chain id, of the signature or of the
  block number leaves the promise unsettled; otherwise the signed transaction is sent and its
  events decide. The result is the transaction that was sent and how the promise settled;
  \<open>prepared\<close> is the outcome of signing and of reading the block number.
\<close>

definition transact ::
    "'w writer \<Rightarrow> eth_tx \<Rightarrow> (string \<times> json) list option \<Rightarrow> json js \<Rightarrow> unit js \<Rightarrow> 'w tx_event list \<Rightarrow>
       json option \<times> json js option" where
  "transact wr tx txParams chainId prepared events =
     (case getTransactionOptions (wrDefaultsDeep wr) (wrIsAddress wr) (wrWorker wr) txParams of
        Inl error \<Rightarrow> (None, Some (Inl (ErrVal (JStr error))))
      | Inr options \<Rightarrow>
          (case (chainId, prepared) of
             (Inr c, Inr _) \<Rightarrow>
               (Some (tx_object wr tx options c),
                trSettled (foldl (\<lambda>t ev. tx_step (wrMinimum wr) (wrPast wr) tx ev t)
                  \<lparr>trSettled = None, trListens = True\<rparr> events))
           | _ \<Rightarrow> (None, None)))"

definition api_register where
  "api_register wr signerAddress report signature = transact wr (Register signerAddress report signature)"

definition api_unregister where "api_unregister wr = transact wr Unregister"
definition api_login where "api_login wr = transact wr Login"
definition api_logout where "api_logout wr = transact wr Logout"

definition api_deploySecretContract where
  "api_deploySecretContract wr taskId preCodeHash codeHash initStateDeltaHash optionalEthereumData
       optionalEthereumContractAddress gasUsed signature =
     transact wr (DeploySecretContract taskId preCodeHash codeHash initStateDeltaHash optionalEthereumData
       optionalEthereumContractAddress gasUsed signature)"

definition api_commitReceipt where
  "api_commitReceipt wr secretContractAddress taskId stateDeltaHash outputHash optionalEthereumData
       optionalEthereumContractAddress gasUsed signature =
     transact wr (CommitReceipt secretContractAddress taskId stateDeltaHash outputHash optionalEthereumData
       optionalEthereumContractAddress gasUsed signature)"

definition api_commitTaskFailure where
  "api_commitTaskFailure wr secretContractAddress taskId outputHash gasUsed signature =
     transact wr (CommitTaskFailure secretContractAddress taskId outputHash gasUsed signature)"

definition api_deploySecretContractFailure where
  "api_deploySecretContractFailure wr taskId outputHash gasUsed signature =
     transact wr (DeploySecretContractFailure taskId outputHash gasUsed signature)"

section \<open>Properties\<close>

text \<open>The first event that decides a transaction.\<close>

fun decides :: "int \<Rightarrow> 'w tx_event \<Rightarrow> bool" where
  "decides minimum (TxError e) = True"
| "decides minimum (TxReceipt w) = (minimum = 0)"
| "decides minimum (TxConfirmation n w) = (n \<ge> minimum)"

fun tx_outcome :: "'w past \<Rightarrow> eth_tx \<Rightarrow> 'w tx_event \<Rightarrow> json js" where
  "tx_outcome past tx (TxError e) = Inl e"
| "tx_outcome past tx (TxReceipt w) = resolveLogic past tx w"
| "tx_outcome past tx (TxConfirmation n w) = resolveLogic past tx w"

lemma settled_stays: "trSettled t = Some r \<Longrightarrow> trSettled (tx_step minimum past tx ev t) = Some r"
  by (cases ev) (auto simp: tx_settle_def tx_resolve_def split: sum.split)

lemma settled_run: "trSettled t = Some r \<Longrightarrow> trSettled (foldl (\<lambda>t ev. tx_step minimum past tx ev t) t evs) = Some r"
  by (induction evs arbitrary: t) (auto simp: settled_stays)

lemma tx_step_undecided: "\<not> decides minimum ev \<Longrightarrow> tx_step minimum past tx ev t = t"
  by (cases ev) auto

lemma tx_step_decides:
  assumes "decides minimum ev" "trSettled t = None" "trListens t"
    and "\<forall>w. \<exists>v. resolveLogic past tx w = Inr v"
  shows "trSettled (tx_step minimum past tx ev t) = Some (tx_outcome past tx ev)"
proof -
  obtain f where f: "resolveLogic past tx w = Inr (f w)" for w using assms(4) by metis
  show ?thesis using assms(1-3) by (cases ev) (auto simp: tx_settle_def tx_resolve_def f)
qed

text \<open>
  C24: a transaction settles with its first deciding event. When the options are accepted, the
  transaction is signed and reading past events does not fail, exactly the encoded call is sent,
  and the promise settles exactly when an error, a confirmation by at least the minimum number of
  blocks, or, when that number is zero, the receipt occurs; the first of these decides, by its
  error or by the events found then.
\<close>

theorem tx_first_decides:
  assumes "getTransactionOptions (wrDefaultsDeep wr) (wrIsAddress wr) (wrWorker wr) txParams = Inr opts"
    and "\<forall>w. \<exists>v. resolveLogic (wrPast wr) tx w = Inr v"
  shows "transact wr tx txParams (Inr c) (Inr ()) events =
    (Some (tx_object wr tx opts c),
     map_option (tx_outcome (wrPast wr) tx) (find (decides (wrMinimum wr)) events))"
proof -
  have "trSettled (foldl (\<lambda>t ev. tx_step (wrMinimum wr) (wrPast wr) tx ev t) t events) =
      map_option (tx_outcome (wrPast wr) tx) (find (decides (wrMinimum wr)) events)"
    if "trSettled t = None" "trListens t" for t
    using that
  proof (induction events arbitrary: t)
    case (Cons ev events)
    show ?case
    proof (cases "decides (wrMinimum wr) ev")
      case True
      then show ?thesis using settled_run [OF tx_step_decides [OF True Cons.prems assms(2)]] by simp
    next
      case False
      then show ?thesis using Cons tx_step_undecided [OF False] by simp
    qed
  qed simp
  then show ?thesis using assms(1) by (simp add: transact_def)
qed

definition ex_writer :: "unit writer" where
  "ex_writer = \<lparr>wrContract = JStr ''0xc0'', wrStaking = JStr ''0x51'', wrWorker = JStr ''0xaa'', wrMinimum = 2,
     wrIsAddress = (\<lambda>_. True), wrDefaultsDeep = (\<lambda>ps ds. ps), wrEncode = (\<lambda>(name, args). JArr (JStr name # args)),
     wrPast = (\<lambda>n t w. Inr (JArr []))\<rparr>"

theorem tx_first_decides_witness:
  "snd (transact ex_writer Login (Some [(''gas'', JNum 21000)]) (Inr (JNum 4)) (Inr ())
      [TxReceipt (), TxConfirmation 1 (), TxConfirmation 2 ()]) = Some (Inr JNull)"
  using tx_first_decides [of ex_writer "Some [(''gas'', JNum 21000)]" "[(''gas'', JNum 21000)]" Login "JNum 4"
      "[TxReceipt (), TxConfirmation 1 (), TxConfirmation 2 ()]"]
  by (simp add: resolveLogic_def ex_writer_def getTransactionOptions_def validateTxParams_def obj_get_def out_of_range_def
      gasMin_def gasMax_def gasPriceMin_def gasPriceMax_def)

text \<open>The contract answers with well-formed events of the name it was asked for.\<close>

definition logged :: "'w past \<Rightarrow> string \<Rightarrow> json \<Rightarrow> 'w \<Rightarrow> json list \<Rightarrow> bool" where
  "logged past name taskId w evs \<longleftrightarrow> past name taskId w = Inr (JArr evs) \<and>
     (\<forall>ev\<in>set evs. get_prop ev ''event'' = Inr (JStr name) \<and> (\<exists>v. parse_event name ev = Inr v))"

lemma parsePastEvents_logged:
  assumes "logged past name taskId w evs" "name \<in> set (map fst event_parsers)"
  shows "\<exists>v. parsePastEvents past name taskId w = Inr (JObj (if evs = [] then [] else [(name, v)]))"
  using assms by (cases evs) (auto simp: logged_def parsePastEvents_def parseEvents_def)

text \<open>
  What a committed result reports. The outcome of a deployment or of a receipt contains
  \<open>ReceiptFailedETH\<close> exactly when the contract has not logged the success of the task but has
  logged the failure of its callback; so a success that was logged is never taken for a failure.
\<close>

lemma failure_reported:
  assumes "tx_events tx = ([success, ''ReceiptFailedETH''], taskId)" "success \<in> {''SecretContractDeployed'', ''ReceiptVerified''}"
    and "logged past success taskId w oks" "logged past ''ReceiptFailedETH'' taskId w fails"
  shows "bindE (resolveLogic past tx w) (has_prop ''ReceiptFailedETH'') = Inr (oks = [] \<and> fails \<noteq> [])"
proof -
  have names: "success \<in> set (map fst event_parsers)" "''ReceiptFailedETH'' \<in> set (map fst event_parsers)"
    "success \<noteq> ''ReceiptFailedETH''"
    using assms(2) by (auto simp: event_parsers_def)
  obtain v u where "parsePastEvents past success taskId w = Inr (JObj (if oks = [] then [] else [(success, v)]))"
    "parsePastEvents past ''ReceiptFailedETH'' taskId w = Inr (JObj (if fails = [] then [] else [(''ReceiptFailedETH'', u)]))"
    using parsePastEvents_logged [OF assms(3) names(1)] parsePastEvents_logged [OF assms(4) names(2)] by blast
  then show ?thesis
    using assms(1) names(3) by (simp add: resolveLogic_def)
qed

definition ex_past :: "unit past" where
  "ex_past name taskId w = Inr (JArr (if name = ''ReceiptFailedETH''
     then [JObj [(''event'', JStr name), (''returnValues'', JObj [(''taskId'', taskId)])]] else []))"

end
