(* ===== verification/Task_Actions.thy ===== *)
theory Task_Actions
  imports Ptt Task_Manager Eth_Verifier Sync_Pipeline Eth_Writer
begin

text \<open>
  The actions under \<open>worker/controller/actions/tasks\<close> and \<open>CommitReceiptAction.js\<close>: the life of a
  task from the request to the committed receipt, and the results of other workers. The
  task manager is that of the development; the verdicts of the verifier, the core process,
  the contract and the network are parameters over a state of the world.
\<close>

section \<open>Parameters\<close>

record 'w task_env =
  teHasEthereum :: bool
  teKeccak :: "int list \<Rightarrow> json"
  teRegParams :: "'w \<Rightarrow> json"
  teVerifyCreation :: "task \<Rightarrow> json \<Rightarrow> 'w \<Rightarrow> verdict js option \<times> 'w"
  teVerifySubmission :: "result option \<Rightarrow> json \<Rightarrow> json \<Rightarrow> 'w \<Rightarrow> verdict js option \<times> 'w"
  teStateKeys :: "json \<Rightarrow> json \<Rightarrow> 'w \<Rightarrow> unit js option \<times> 'w"
  teExchange :: "'w exchange"
  teTx :: "eth_tx \<Rightarrow> 'w \<Rightarrow> json js option \<times> 'w"
  tePublish :: "json \<Rightarrow> 'w \<Rightarrow> 'w"
  teAnnounce :: "json \<Rightarrow> 'w \<Rightarrow> unit js option \<times> 'w"
  teHasCid :: "json \<Rightarrow> bool"

section \<open>Starting a task\<close>

text \<open>\<open>StartTaskExecutionAction\<close>: the fields that the verification overwrites are set first.\<close>

definition start_request :: "json \<Rightarrow> json \<Rightarrow> json js" where
  "start_request type request =
     bindE (set_prop request ''gasLimit'' (JNum 0)) (\<lambda>request.
     bindE (set_prop request ''blockNumber'' (JNum 0)) (\<lambda>request.
     if type = T_Deploy then set_prop request ''taskId'' (fld request ''contractAddress'') else Inr request))"

definition start_task :: "json \<Rightarrow> json \<Rightarrow> task option js" where
  "start_task type request =
     bindE (start_request type request) (\<lambda>request.
     if type = T_Deploy then deploy_buildTask request
     else if type = T_Compute then compute_buildTask request else Inr None)"

definition startTaskExecution :: "int \<Rightarrow> json \<Rightarrow> json \<Rightarrow> 's taskmgr \<Rightarrow> unit js \<times> 's taskmgr" where
  "startTaskExecution now type request tm =
     (case start_task type request of
        Inl e \<Rightarrow> (Inl e, tm)
      | Inr None \<Rightarrow> (Inr (), tm)
      | Inr (Some t) \<Rightarrow> (Inr (), snd (addTaskUnverified now (Some t) tm)))"

section \<open>Verifying a new task\<close>

text \<open>
  The verified task object is the one in the pool: its gas limit and block number change
  there.
\<close>

definition set_verified_params :: "json \<Rightarrow> verdict \<Rightarrow> 's taskmgr \<Rightarrow> 's taskmgr" where
  "set_verified_params taskId v tm =
     (case map_of (tmPool tm) (js_key taskId) of
        None \<Rightarrow> tm
      | Some (time, t) \<Rightarrow> tm\<lparr>tmPool := obj_set (tmPool tm) (js_key taskId)
            (time, setBlockNumber (vdBlockNumber v) (setGasLimit (vdGasLimit v) t))\<rparr>)"

text \<open>
  The result of the action: what \<open>onResult\<close> gets, \<open>None\<close> when it is not invoked. Every
  exception of the verification counts as not verified.
\<close>

definition verifyNewTask ::
    "'w task_env \<Rightarrow> task \<Rightarrow> 's taskmgr \<Rightarrow> 'w \<Rightarrow> bool option \<times> 's taskmgr \<times> 'w" where
  "verifyNewTask E t tm w =
     (let finish = (\<lambda>isVerified tm w.
            let (r, tm) = asyncOnVerifyTask (tkId t) isVerified tm in
            (case r of Some (Inr _) \<Rightarrow> (Some isVerified, tm, w) | _ \<Rightarrow> (None, tm, w))) in
      if \<not> teHasEthereum E then finish True tm w
      else case get_prop (fld (teRegParams E w) ''result'') ''signingKey'' of
             Inl e \<Rightarrow> finish False tm w
           | Inr key \<Rightarrow>
               (case teVerifyCreation E t key w of
                  (None, w) \<Rightarrow> (None, tm, w)
                | (Some (Inl e), w) \<Rightarrow> finish False tm w
                | (Some (Inr v), w) \<Rightarrow>
                    if ckError (vdCheck v) \<noteq> None then finish False tm w
                    else if ckVerified (vdCheck v) then finish True (set_verified_params (tkId t) v tm) w
                    else finish False tm w))"

section \<open>Executing a task\<close>

text \<open>
  From a response of core to a result: \<open>None\<close> when nothing can be built; an exception leaves
  the action.
\<close>

definition core_result :: "task \<Rightarrow> json \<Rightarrow> result option js" where
  "core_result t response =
     bindE (if truthy (fld response ''result'') then set_prop (fld response ''result'') ''taskId'' (tkId t)
            else Inr (fld response ''result'')) (\<lambda>res.
     if fld response ''type'' = T_Failed then bindE (set_prop res ''status'' FAILED) buildFailedResult
     else if fld response ''type'' = T_Deploy then bindE (set_prop res ''status'' SUCCESS) buildDeployResult
     else if fld response ''type'' = T_Compute
     then bindE (set_prop res ''status'' SUCCESS) (\<lambda>res.
          bindE (buildComputeResult res) (\<lambda>r. case r of None \<Rightarrow> Inl JsTypeError | Some _ \<Rightarrow> Inr r))
     else Inr None)"

definition is_deploy :: "task \<Rightarrow> bool" where
  "is_deploy t = (case tkBody t of DeployBody _ _ _ _ \<Rightarrow> True | _ \<Rightarrow> False)"

definition run_on_core :: "'w task_env \<Rightarrow> task \<Rightarrow> 's taskmgr \<Rightarrow> 'w \<Rightarrow> 's taskmgr \<times> 'w" where
  "run_on_core E t tm w =
     (case toCoreJson t of
        Inl e \<Rightarrow> (tm, w)
      | Inr input \<Rightarrow>
          (case teExchange E \<lparr>crId = JUndef, crType = tkType t, crInput = RawInput input\<rparr> w of
             (None, w) \<Rightarrow> (tm, w)
           | (Some response, w) \<Rightarrow>
               if truthy (fld response ''msg'') then (tm, w)
               else (case core_result t response of
                       Inr (Some r) \<Rightarrow> (snd (asyncOnFinishTask r tm), w)
                     | _ \<Rightarrow> (tm, w))))"

definition executeTask :: "'w task_env \<Rightarrow> task \<Rightarrow> 's taskmgr \<Rightarrow> 'w \<Rightarrow> 's taskmgr \<times> 'w" where
  "executeTask E t tm w =
     (if is_deploy t
      then (case teStateKeys E (JArr [tkContractAddr t]) (tkBlockNumber t) w of
              (Some (Inr _), w) \<Rightarrow> run_on_core E t tm w
            | (_, w) \<Rightarrow> (tm, w))
      else run_on_core E t tm w)"

section \<open>Committing a receipt\<close>

definition ETHEREUM_EMPTY_HASH :: json where
  "ETHEREUM_EMPTY_HASH = JStr (''0x'' @ replicate 64 (CHR ''0''))"

definition revert_deploy_msg :: "task \<Rightarrow> json" where
  "revert_deploy_msg t = JObj [(''address'', tkContractAddr t), (''type'', JStr ''RemoveContract'')]"

text \<open>
  \<open>deltaKey + 1\<close>: strings, arrays and objects are concatenated; the number of \<open>undefined\<close> is not
  a number, which the message to core writes as \<open>null\<close>.
\<close>

definition js_succ :: "json \<Rightarrow> json" where
  "js_succ v =
     (case v of
        JNum n \<Rightarrow> JNum (n + 1)
      | JNull \<Rightarrow> JNum 1
      | JBool b \<Rightarrow> JNum (if b then 2 else 1)
      | JUndef \<Rightarrow> JNull
      | _ \<Rightarrow> JStr (js_key v @ ''1''))"

definition revert_delta_msg :: "task \<Rightarrow> result \<Rightarrow> json" where
  "revert_delta_msg t r =
     (let deltaKey = fld (rDelta r) ''key'' in JObj
       [(''input'', JArr [JObj [(''address'', tkContractAddr t), (''from'', deltaKey), (''to'', js_succ deltaKey)]]),
        (''type'', JStr ''RemoveDeltas'')])"

text \<open>\<open>_revertState\<close>: the error of the update, if any; \<open>None\<close> when the update does not end.\<close>

definition revertState :: "'w task_env \<Rightarrow> json \<Rightarrow> 'w \<Rightarrow> js_error option option \<times> 'w" where
  "revertState E coreMsg w =
     (let (r, w) = asyncUpdateDb (teExchange E) (RawInput coreMsg) w in
      (map_option (\<lambda>x. case x of Inl e \<Rightarrow> Some e | Inr _ \<Rightarrow> None) r, w))"

text \<open>
  The outcome of a commit: the error that is returned or \<open>null\<close>; an exception of the action; or
  a call that does not end.
\<close>

datatype commit = Returns "js_error option" | Rejects js_error | Pends

definition commit_revert :: "'w task_env \<Rightarrow> js_error option \<Rightarrow> json \<Rightarrow> 'w \<Rightarrow> commit \<times> 'w" where
  "commit_revert E err coreMsg w =
     (case revertState E coreMsg w of
        (None, w) \<Rightarrow> (Pends, w)
      | (Some e, w) \<Rightarrow> (Returns (if err \<noteq> None then err else e), w))"

text \<open>\<open>ReceiptFailedETH in events\<close>\<close>

definition receipt_failed :: "json \<Rightarrow> bool js" where
  "receipt_failed events = has_prop ''ReceiptFailedETH'' events"

definition commitDeploySuccess :: "'w task_env \<Rightarrow> task \<Rightarrow> result \<Rightarrow> 'w \<Rightarrow> commit \<times> 'w" where
  "commitDeploySuccess E t r w =
     (if \<not> hasDelta r then (Returns (Some (Err InputErr ''No delta for deploy task'')), w)
      else case bindE (crypto_hash (teKeccak E) (rOutput r) True) (\<lambda>h.
                bindE (crypto_hash (teKeccak E) (fld (rDelta r) ''data'') True) (\<lambda>d. Inr (h, d))) of
             Inl e \<Rightarrow> commit_revert E (Some e) (revert_deploy_msg t) w
           | Inr (h, d) \<Rightarrow>
               (case teTx E (DeploySecretContract (tkId t) (rPreCodeHash r) h d (rEthPayload r) (rEthAddr r)
                       (rUsedGas r) (rSignature r)) w of
                  (None, w) \<Rightarrow> (Pends, w)
                | (Some (Inl e), w) \<Rightarrow> commit_revert E (Some e) (revert_deploy_msg t) w
                | (Some (Inr events), w) \<Rightarrow>
                    (case receipt_failed events of
                       Inl e \<Rightarrow> commit_revert E (Some e) (revert_deploy_msg t) w
                     | Inr True \<Rightarrow> commit_revert E None (revert_deploy_msg t) w
                     | Inr False \<Rightarrow> (Returns None, w))))"

definition commit_failure :: "'w task_env \<Rightarrow> (json \<Rightarrow> eth_tx) \<Rightarrow> result \<Rightarrow> 'w \<Rightarrow> commit \<times> 'w" where
  "commit_failure E tx r w =
     (case crypto_hash (teKeccak E) (rOutput r) True of
        Inl e \<Rightarrow> (Returns (Some e), w)
      | Inr h \<Rightarrow>
          (case teTx E (tx h) w of
             (None, w) \<Rightarrow> (Pends, w)
           | (Some (Inl e), w) \<Rightarrow> (Returns (Some e), w)
           | (Some (Inr _), w) \<Rightarrow> (Returns None, w)))"

text \<open>
  \<open>_commitComputeTask\<close>: the handler of a failed transaction logs the undeclared variable \<open>e\<close>, so
  that the action rejects before it reverts anything.
\<close>

definition commitComputeSuccess :: "'w task_env \<Rightarrow> task \<Rightarrow> result \<Rightarrow> 'w \<Rightarrow> commit \<times> 'w" where
  "commitComputeSuccess E t r w =
     (case (if hasDelta r then crypto_hash (teKeccak E) (fld (rDelta r) ''data'') True else Inr ETHEREUM_EMPTY_HASH) of
        Inl e \<Rightarrow> (Rejects e, w)
      | Inr deltaHash \<Rightarrow>
     (case crypto_hash (teKeccak E) (rOutput r) True of
        Inl e \<Rightarrow> (Rejects JsReferenceError, w)
      | Inr h \<Rightarrow>
     (case teTx E (CommitReceipt (tkContractAddr t) (tkId t) deltaHash h (rEthPayload r) (rEthAddr r)
             (rUsedGas r) (rSignature r)) w of
        (None, w) \<Rightarrow> (Pends, w)
      | (Some (Inl e), w) \<Rightarrow> (Rejects JsReferenceError, w)
      | (Some (Inr events), w) \<Rightarrow>
          (case receipt_failed events of
             Inl e \<Rightarrow> (Rejects JsReferenceError, w)
           | Inr failed \<Rightarrow>
               if failed \<and> hasDelta r then commit_revert E None (revert_delta_msg t r) w
               else (Returns None, w)))))"

definition commitReceipt :: "'w task_env \<Rightarrow> task \<Rightarrow> 'w \<Rightarrow> commit \<times> 'w" where
  "commitReceipt E t w =
     (case tkResult t of
        None \<Rightarrow> (Rejects JsTypeError, w)
      | Some r \<Rightarrow>
          if is_deploy t
          then (if resultIsSuccess r then commitDeploySuccess E t r w
                else commit_failure E (\<lambda>h. DeploySecretContractFailure (tkId t) h (rUsedGas r) (rSignature r)) r w)
          else (if resultIsSuccess r then commitComputeSuccess E t r w
                else commit_failure E (\<lambda>h. CommitTaskFailure (tkContractAddr t) (tkId t) h (rUsedGas r) (rSignature r)) r w))"

section \<open>Publishing a result\<close>

definition result_message :: "task \<Rightarrow> result \<Rightarrow> json" where
  "result_message t r = JStr (JSON_stringify (JObj
     [(''contractAddress'', tkContractAddr t), (''result'', resultToDbJson r),
      (''type'', if isSuccess t then tkType t else T_Failed)]))"

text \<open>\<open>PublishTaskResultAction\<close>: publish, commit, and announce a deployed contract.\<close>

definition publishTaskResult :: "'w task_env \<Rightarrow> task \<Rightarrow> 'w \<Rightarrow> 'w" where
  "publishTaskResult E t w =
     (case tkResult t of
        None \<Rightarrow> w
      | Some r \<Rightarrow>
          (let w = tePublish E (result_message t r) w;
               (c, w) = (if teHasEthereum E then commitReceipt E t w else (Returns None, w))
           in if c = Returns None \<and> is_deploy t \<and> resultIsSuccess r \<and> teHasCid E (tkContractAddr t)
              then snd (teAnnounce E (tkContractAddr t) w) else w))"

section \<open>Results of other workers\<close>

definition buildTaskResult :: "json \<Rightarrow> json \<Rightarrow> (result option \<times> js_error option) js" where
  "buildTaskResult type resultObj =
     (if fld resultObj ''status'' = FAILED then bindE (buildFailedResult resultObj) (\<lambda>r. Inr (r, None))
      else if type = T_Deploy then bindE (buildDeployResult resultObj) (\<lambda>r. Inr (r, None))
      else if type = T_Compute then bindE (buildComputeResult resultObj) (\<lambda>r. Inr (r, None))
      else Inr (None, Some (ErrVal (JStr ''[VERIFY_TASK_RESULT] received unrecognized task type''))))"

definition buildIpcMsg :: "result option \<Rightarrow> json \<Rightarrow> json option js" where
  "buildIpcMsg ro contractAddr =
     (case ro of
        None \<Rightarrow> Inl JsTypeError
      | Some r \<Rightarrow>
          if is_FailedResult r then Inr None
          else if is_DeployResult r then Inr (Some (JObj [(''address'', contractAddr), (''bytecode'', rOutput r),
                 (''type'', JStr ''UpdateNewContractOnDeployment''), (''delta'', rDelta r)]))
          else if hasDelta r then Inr (Some (JObj [(''type'', JStr ''UpdateDeltas''),
                 (''deltas'', JArr [JObj [(''address'', contractAddr), (''key'', fld (rDelta r) ''key''),
                    (''data'', fld (rDelta r) ''data'')]])]))
          else Inr None)"

text \<open>The tip of the contract that core has, for a computation without a delta.\<close>

definition local_tip :: "'w task_env \<Rightarrow> json \<Rightarrow> 'w \<Rightarrow> json js option \<times> 'w" where
  "local_tip E contractAddress w =
     (let (r, w) = getTips (teExchange E) contractAddress w in
      (map_option (\<lambda>x. bindE x (\<lambda>tips.
         case tips of
           JArr (tip # _) \<Rightarrow>
             bindE (get_prop tip ''address'') (\<lambda>a.
             if \<not> truthy a \<or> a \<noteq> contractAddress
             then Inl (ErrVal (JStr ''[VERIFY_TASK_RESULT] error in reading local tip'')) else Inr tip)
         | _ \<Rightarrow> Inl (ErrVal (JStr ''[VERIFY_TASK_RESULT] error in reading local tip'')))) (settle_reply r), w))"

text \<open>
  \<open>_verifyResult\<close>: \<open>{error, isVerified}\<close>. The log of an error reads the id of the result and
  throws when there is none.
\<close>

definition verifyResult ::
    "'w task_env \<Rightarrow> result option \<Rightarrow> json \<Rightarrow> 'w \<Rightarrow> check js option \<times> 'w" where
  "verifyResult E ro contractAddress w =
     (if \<not> teHasEthereum E then (Some (Inr passed), w)
      else
        let needsTip = (case ro of Some r \<Rightarrow> instanceof_ComputeResult r \<and> \<not> hasDelta r | None \<Rightarrow> False);
            (tip, w) = (if needsTip then local_tip E contractAddress w else (Some (Inr JNull), w)) in
        case tip of
          None \<Rightarrow> (None, w)
        | Some (Inl e) \<Rightarrow> (Some (Inr \<lparr>ckVerified = False, ckError = Some e\<rparr>), w)
        | Some (Inr localTip) \<Rightarrow>
            (case teVerifySubmission E ro contractAddress localTip w of
               (None, w) \<Rightarrow> (None, w)
             | (Some (Inl e), w) \<Rightarrow>
                 (Some (if ro = None then Inl JsTypeError else Inr \<lparr>ckVerified = False, ckError = Some e\<rparr>), w)
             | (Some (Inr v), w) \<Rightarrow>
                 (case ckError (vdCheck v) of
                    Some e \<Rightarrow> (Some (if ro = None then Inl JsTypeError else Inr \<lparr>ckVerified = False, ckError = Some e\<rparr>), w)
                  | None \<Rightarrow> (Some (if ckVerified (vdCheck v) \<and> ro = None then Inl JsTypeError
                                   else Inr \<lparr>ckVerified = ckVerified (vdCheck v), ckError = None\<rparr>), w))))"

definition is_eth_failure :: "js_error option \<Rightarrow> bool" where
  "is_eth_failure e = (case e of Some (Err TaskEthereumFailureErr _) \<Rightarrow> True | _ \<Rightarrow> False)"

text \<open>
  Storing the result: \<open>TASK_STATUS.FAILED.FAILED_ETHEREUM_CB\<close> reads a property of the string
  \<open>FAILED\<close>, so that the status becomes \<open>undefined\<close>. The exceptions are caught and reported.
\<close>

definition store_outside ::
    "json \<Rightarrow> json \<Rightarrow> js_error option \<Rightarrow> 's taskmgr \<Rightarrow> js_error option js option \<times> 's taskmgr" where
  "store_outside type resultObj verifyError tm =
     (case outside_buildTask type resultObj of
        Inl e \<Rightarrow> (Some (Inl e), tm)
      | Inr None \<Rightarrow> (Some (Inr verifyError), tm)
      | Inr (Some t) \<Rightarrow>
          if is_eth_failure verifyError \<and> tkResult t = None then (Some (Inl JsTypeError), tm)
          else
            let t = (if is_eth_failure verifyError
                     then t\<lparr>tkResult := map_option (setResultStatus JUndef) (tkResult t)\<rparr> else t);
                (r, tm) = addOutsideResult (Some t) tm in
            (map_option (map_sum id (\<lambda>_. verifyError)) r, tm))"

text \<open>Updating core with a verified result and announcing a deployed contract.\<close>

definition update_core ::
    "'w task_env \<Rightarrow> json \<Rightarrow> json \<Rightarrow> json \<Rightarrow> 'w \<Rightarrow> js_error option js option \<times> 'w" where
  "update_core E coreMsg type resultObj w =
     (case asyncUpdateDb (teExchange E) (RawInput coreMsg) w of
        (None, w) \<Rightarrow> (None, w)
      | (Some (Inl e), w) \<Rightarrow> (Some (Inl e), w)
      | (Some (Inr _), w) \<Rightarrow>
          if type = T_Deploy \<and> fld resultObj ''status'' = SUCCESS \<and> teHasCid E (fld resultObj ''taskId'')
          then (case teAnnounce E (fld resultObj ''taskId'') w of
                  (None, w) \<Rightarrow> (None, w)
                | (Some (Inl e), w) \<Rightarrow> (Some (Inr (Some e)), w)
                | (Some (Inr _), w) \<Rightarrow> (Some (Inr None), w))
          else (Some (Inr None), w))"

text \<open>
  \<open>VerifyAndStoreResultAction\<close>: what the optional callback gets, \<open>None\<close> when the action does not
  reach it.
\<close>

definition verifyAndStoreResult ::
    "'w task_env \<Rightarrow> json \<Rightarrow> 's taskmgr \<Rightarrow> 'w \<Rightarrow> js_error option option \<times> 's taskmgr \<times> 'w" where
  "verifyAndStoreResult E msgObj tm w =
     (let resultObj = fld msgObj ''result''; contractAddress = fld msgObj ''contractAddress'';
          type = fld msgObj ''type'' in
      if nullish resultObj then (None, tm, w)
      else
        case buildTaskResult type resultObj of
          Inl e \<Rightarrow> (None, tm, w)
        | Inr (ro, Some err) \<Rightarrow> (Some (Some err), tm, w)
        | Inr (ro, None) \<Rightarrow>
            (case verifyResult E ro contractAddress w of
               (None, w) \<Rightarrow> (None, tm, w)
             | (Some (Inl e), w) \<Rightarrow> (None, tm, w)
             | (Some (Inr c), w) \<Rightarrow>
                 (let upd = (if ckVerified c
                             then (case buildIpcMsg ro contractAddress of
                                     Inl e \<Rightarrow> Inl None
                                   | Inr None \<Rightarrow> Inr (None, w)
                                   | Inr (Some coreMsg) \<Rightarrow>
                                       (case update_core E coreMsg type resultObj w of
                                          (None, w) \<Rightarrow> Inl (Some (None, w))
                                        | (Some (Inl e), w) \<Rightarrow> Inl (Some (Some e, w))
                                        | (Some (Inr e), w) \<Rightarrow> Inr (e, w)))
                             else Inr (None, w)) in
                  case upd of
                    Inl None \<Rightarrow> (None, tm, w)
                  | Inl (Some (None, w)) \<Rightarrow> (None, tm, w)
                  | Inl (Some (Some e, w)) \<Rightarrow> (Some (Some e), tm, w)
                  | Inr (annErr, w) \<Rightarrow>
                      let err = (if annErr \<noteq> None then annErr else ckError c) in
                      if ckVerified c \<or> is_eth_failure (ckError c)
                      then (case store_outside type resultObj (ckError c) tm of
                              (None, tm) \<Rightarrow> (None, tm, w)
                            | (Some (Inl e), tm) \<Rightarrow> (Some (Some e), tm, w)
                            | (Some (Inr _), tm) \<Rightarrow> (Some err, tm, w))
                      else (Some err, tm, w))))"

text \<open>\<open>GetResultAction\<close>\<close>

definition getResult :: "json \<Rightarrow> 's taskmgr \<Rightarrow> result option js option" where
  "getResult taskId tm = map_option (map_sum id tkResult) (asyncGetTask taskId tm)"

section \<open>Lemmas\<close>

lemma asyncOnVerifyTask_False: "asyncOnVerifyTask k False tm = (Some (Inr ()), tm)"
  by (simp add: asyncOnVerifyTask_def onVerifyTask_def promise_settle_def split: option.split)

lemma parse_normal: "json_normal v \<Longrightarrow> JSON_parse (JSON_stringify v) = Inr v"
  by (simp only: JSON_parse_stringify json_normal_wf json_norm_normal)

lemma finished_result:
  assumes "worker_task_ok t" "tkResult t = Some r"
  shows "result_ok r" "isSuccess t = resultIsSuccess r"
    "isSuccess t \<Longrightarrow> rStatus r = SUCCESS \<and> tkType t = (if is_DeployResult r then T_Deploy else T_Compute) \<and> \<not> is_FailedResult r"
    "\<not> isSuccess t \<Longrightarrow> is_FailedResult r"
  using assms not_Failed_and_Deploy
  by (auto simp: worker_task_ok_def finished_ok_def resultIsSuccess_def isSuccess_def isFailed_def
      split: if_splits task_body.splits)

lemma buildTaskResult_toDbJson:
  assumes "worker_task_ok t" "tkResult t = Some r"
  shows "buildTaskResult (if isSuccess t then tkType t else T_Failed) (resultToDbJson r) = Inr (Some r, None)"
    "outside_buildTask (if isSuccess t then tkType t else T_Failed) (resultToDbJson r) =
       Inr (Some (OutsideTask (rTaskId r) (if isSuccess t then tkType t else T_Failed) r))"
proof -
  note f = finished_result [OF assms]
  have st: "\<not> isSuccess t \<Longrightarrow> rStatus r = FAILED" using is_FailedResult_status [OF f(1) f(4)] by simp
  show "buildTaskResult (if isSuccess t then tkType t else T_Failed) (resultToDbJson r) = Inr (Some r, None)"
    using f(3,4) st
    by (simp add: buildTaskResult_def buildFailedResult_toDbJson buildDeployResult_toDbJson buildComputeResult_toDbJson)
  show "outside_buildTask (if isSuccess t then tkType t else T_Failed) (resultToDbJson r) =
       Inr (Some (OutsideTask (rTaskId r) (if isSuccess t then tkType t else T_Failed) r))"
    using f(3,4) st
    by (simp add: outside_buildTask_def buildFromRaw_def set_prop_status_same buildFailedResult_toDbJson
        buildDeployResult_toDbJson buildComputeResult_toDbJson)
qed

lemma core_result_Some:
  assumes "core_result t (JObj fs) = Inr (Some r)" "obj_get fs ''result'' = JObj rs"
  shows "rTaskId r = tkId t"
    and "obj_get fs ''type'' = T_Failed \<and> is_FailedResult r \<and> rStatus r = FAILED
       \<or> obj_get fs ''type'' = T_Deploy \<and> is_DeployResult r \<and> rStatus r = SUCCESS
       \<or> obj_get fs ''type'' = T_Compute \<and> \<not> is_FailedResult r \<and> \<not> is_DeployResult r \<and> rStatus r = SUCCESS"
proof -
  have "buildFromRaw (obj_get fs ''type'') (JObj (obj_set rs ''taskId'' (tkId t))) = Inr (Some r)"
    using assms by (auto simp: core_result_def buildFromRaw_def bindE_eq_Inr split: if_splits option.splits)
  note b = buildFromRaw_obj_Some [OF this]
  show "rTaskId r = tkId t" using b(1) by (simp add: obj_get_def)
  show "obj_get fs ''type'' = T_Failed \<and> is_FailedResult r \<and> rStatus r = FAILED
       \<or> obj_get fs ''type'' = T_Deploy \<and> is_DeployResult r \<and> rStatus r = SUCCESS
       \<or> obj_get fs ''type'' = T_Compute \<and> \<not> is_FailedResult r \<and> \<not> is_DeployResult r \<and> rStatus r = SUCCESS"
    using b(2) .
qed

lemma buildFromRaw_normal:
  assumes "buildFromRaw type (JObj fs) = Inr (Some r)" "json_normal (JObj fs)"
  shows "result_ok r"
  using assms(1) obj_get_normal [OF json_normal_obj_set [OF assms(2)]]
  by (auto simp: buildFromRaw_def buildFailedResult_def buildDeployResult_def buildComputeResult_def parse_if_string_def
      some_missing_obj result_fields_defs split: if_splits)

lemma core_result_fits:
  assumes "worker_task_ok t" "core_result t (JObj fs) = Inr (Some r)" "obj_get fs ''result'' = JObj rs"
    and "json_normal (JObj rs)" "obj_get fs ''type'' \<in> {tkType t, T_Failed}"
  shows "result_fits r t" "rTaskId r = tkId t"
proof -
  note c = core_result_Some [OF assms(2,3)]
  have id: "json_normal (tkId t)" using assms(1) by (simp add: worker_task_ok_def)
  have "buildFromRaw (obj_get fs ''type'') (JObj (obj_set rs ''taskId'' (tkId t))) = Inr (Some r)"
    using assms(2,3) by (auto simp: core_result_def buildFromRaw_def bindE_eq_Inr split: if_splits option.splits)
  then have ok: "result_ok r" using json_normal_obj_set [OF assms(4) id] by (rule buildFromRaw_normal)
  have ty: "tkType t = (if is_deploy t then T_Deploy else T_Compute)"
    using assms(1) by (auto simp: worker_task_ok_def is_deploy_def split: task_body.splits)
  show "result_fits r t"
    using c ok ty assms(5)
    by (cases "tkBody t") (auto simp: result_fits_def resultIsSuccess_def is_deploy_def is_FailedResult_def is_DeployResult_def
      split: result.splits)
  show "rTaskId r = tkId t" by (rule c(1))
qed

section \<open>Properties\<close>

definition ex_tenv :: "nat task_env" where
  "ex_tenv = \<lparr>teHasEthereum = True, teKeccak = (\<lambda>_. JStr ''h1''),
     teRegParams = (\<lambda>w. JObj [(''result'', JObj [(''signingKey'', JStr ''aa'')])]),
     teVerifyCreation = (\<lambda>t k w. (Some (Inr \<lparr>vdCheck = \<lparr>ckVerified = False, ckError = None\<rparr>,
        vdGasLimit = JNull, vdBlockNumber = JNull\<rparr>), w)),
     teVerifySubmission = (\<lambda>r a tip w. (Some (Inr \<lparr>vdCheck = \<lparr>ckVerified = False, ckError = None\<rparr>,
        vdGasLimit = JNull, vdBlockNumber = JNull\<rparr>), w)),
     teStateKeys = (\<lambda>a b w. (Some (Inr ()), w)),
     teExchange = (\<lambda>r w. (Some (JObj [(''type'', T_Compute), (''status'', JNum 0), (''result'', resultToDbJson ex_result)]), w + 1)),
     teTx = (\<lambda>tx w. (Some (Inl (Err EthereumErr ''reverted'')), w)),
     tePublish = (\<lambda>m w. w), teAnnounce = (\<lambda>a w. (Some (Inr ()), w)), teHasCid = (\<lambda>_. True)\<rparr>"

text \<open>
  A task is not executed without a positive verdict. With the Ethereum component, the
  verification of a new task leaves the task manager exactly as it was (the task stays in the
  pool and nothing is announced) unless the verifier answered, without an error, that the task
  is verified.
\<close>

lemma unverified_not_executed:
  assumes "teHasEthereum E" "verifyNewTask E t tm w = (r, tm', w')"
  shows "tm' = tm \<or>
    (\<exists>key v. get_prop (fld (teRegParams E w) ''result'') ''signingKey'' = Inr key \<and>
       teVerifyCreation E t key w = (Some (Inr v), w') \<and> ckVerified (vdCheck v) \<and> ckError (vdCheck v) = None)"
proof (cases "get_prop (fld (teRegParams E w) ''result'') ''signingKey''")
  case (Inl e)
  then show ?thesis using assms by (simp add: verifyNewTask_def asyncOnVerifyTask_False)
next
  case (Inr key)
  then show ?thesis
    using assms
    by (auto simp: verifyNewTask_def asyncOnVerifyTask_False Let_def
        split: prod.splits option.splits sum.splits if_splits)
qed

text \<open>
  A task executed by core is finished under its own id. When core answers the request of a
  stored computation without a system error and a result can be built from the answer, the
  result carries the id of the task whatever id core sent, and the task manager either stores
  the task with this result and announces it, or reports a database error with the stored task
  unchanged or gone.
\<close>

lemma executed_task_finished:
  assumes "tm_rel tm a" "tkId t = JStr k" "spPending a k = None" "spStored a k = Some t" "worker_task_ok t"
    and "\<not> is_deploy t" "toCoreJson t = Inr input"
    and "teExchange E \<lparr>crId = JUndef, crType = tkType t, crInput = RawInput input\<rparr> w = (Some (JObj fs), w')"
    and "\<not> truthy (obj_get fs ''msg'')" "obj_get fs ''result'' = JObj rs"
    and "core_result t (JObj fs) = Inr (Some r)" "result_fits r t"
  shows "rTaskId r = tkId t \<and> snd (executeTask E t tm w) = w' \<and>
    (tm_rel (fst (executeTask E t tm w)) (spec_finish k r a)
     \<or> tm_rel (fst (executeTask E t tm w)) a \<or> tm_rel (fst (executeTask E t tm w)) (spec_drop k a))"
proof -
  have id: "rTaskId r = tkId t" using core_result_Some(1) [OF assms(11,10)] .
  have run: "executeTask E t tm w = (snd (onFinishTask r tm), w')"
    using assms(6-9,11)
    by (simp add: executeTask_def run_on_core_def asyncOnFinishTask_def case_prod_beta)
  have "tm_rel (snd (onFinishTask r tm)) (spec_finish k r a)
     \<or> tm_rel (snd (onFinishTask r tm)) a \<or> tm_rel (snd (onFinishTask r tm)) (spec_drop k a)"
    using finish_refines [OF assms(1,3), of r "fst (onFinishTask r tm)" "snd (onFinishTask r tm)"]
      assms(2,4,5,12) id by auto
  then show ?thesis using id run by simp
qed

text \<open>
  C32: results have the type of their task. When core answers a well-formed task with its own type
  or a failure, the result that is built belongs to the task and is of its class or a failure with
  the status failed, and the task that carries it is well formed again.
\<close>

theorem core_result_typed:
  assumes "worker_task_ok t" "core_result t (JObj fs) = Inr (Some r)" "obj_get fs ''result'' = JObj rs"
    and "json_normal (JObj rs)" "obj_get fs ''type'' \<in> {tkType t, T_Failed}"
  shows "result_fits r t \<and> worker_task_ok (setResult (Some r) t) \<and> isFinished (setResult (Some r) t)"
  using core_result_fits [OF assms] worker_task_ok_setResult [OF assms(1)] setResult_finishes(1) [of r t] by blast

lemma ex_core_input:
  "toCoreJson (setInProgressStatus ex_task) =
     Inr (JObj [(''encryptedArgs'', JStr ''3cf8''), (''encryptedFn'', JStr ''5a5b''), (''userDHKey'', JStr ''04b1''),
       (''gasLimit'', JNum 100), (''contractAddress'', JStr ''4409'')])"
  by (simp add: toCoreJson_def ex_task_def ComputeTask_def Task_def setStatus_def remove0x_def strip0x_def)

theorem core_result_typed_witness:
  "result_fits ex_result (setInProgressStatus ex_task) \<and> worker_task_ok (setResult (Some ex_result) (setInProgressStatus ex_task))"
proof -
  let ?fs = "[(''type'', T_Compute), (''status'', JNum 0), (''result'', resultToDbJson ex_result)]"
  obtain rs where rs: "resultToDbJson ex_result = JObj rs" by (simp add: ex_result_def)
  have n: "json_normal (resultToDbJson ex_result)" by code_simp
  have r: "core_result (setInProgressStatus ex_task) (JObj ?fs) = Inr (Some ex_result)" by code_simp
  have ty: "tkType (setInProgressStatus ex_task) = T_Compute" by code_simp
  show ?thesis
    using core_result_typed [OF ex_fits(1) r, of rs] n ty by (simp add: rs obj_get_def)
qed

text \<open>
  C17: what a worker publishes, the others receive. The message of a finished task is text that
  parses to an object with the address of the contract, from which
  \<open>VerifyAndStoreResultAction\<close> builds the same result, and the same outside task, that the
  worker has: successful results under their type, failed ones as failures.
\<close>

theorem published_result_received:
  assumes "worker_task_ok t" "tkResult t = Some r"
  shows "\<exists>s v. result_message t r = JStr s \<and> JSON_parse s = Inr v \<and>
    fld v ''contractAddress'' = tkContractAddr t \<and>
    buildTaskResult (fld v ''type'') (fld v ''result'') = Inr (Some r, None) \<and>
    outside_buildTask (fld v ''type'') (fld v ''result'') = Inr (Some (OutsideTask (tkId t) (fld v ''type'') r))"
proof -
  let ?type = "if isSuccess t then tkType t else T_Failed"
  let ?v = "JObj [(''contractAddress'', tkContractAddr t), (''result'', resultToDbJson r), (''type'', ?type)]"
  have id: "rTaskId r = tkId t" using assms by (simp add: worker_task_ok_def finished_ok_def)
  have "json_normal (tkContractAddr t)" "json_normal ?type"
    using assms(1) by (auto simp: worker_task_ok_def split: task_body.splits)
  then have "json_normal ?v"
    using resultToDbJson_normal [OF finished_result(1) [OF assms]] by (simp add: obj_wf_def)
  then have "JSON_parse (JSON_stringify ?v) = Inr ?v" by (rule parse_normal)
  then show ?thesis
    using buildTaskResult_toDbJson [OF assms] id by (simp add: result_message_def obj_get_def)
qed

theorem published_result_received_witness:
  "\<exists>s v. result_message (setResult (Some ex_result) (setInProgressStatus ex_task)) ex_result = JStr s \<and>
    JSON_parse s = Inr v \<and> buildTaskResult (fld v ''type'') (fld v ''result'') = Inr (Some ex_result, None)"
proof -
  let ?t = "setResult (Some ex_result) (setInProgressStatus ex_task)"
  have "tkResult ?t = Some ex_result" by code_simp
  then show ?thesis
    using published_result_received [OF worker_task_ok_setResult [OF ex_fits]] by blast
qed

text \<open>
  A failing transaction of a computation. When the transaction that commits a successful
  computation fails, the action rejects with a reference error of its own handler; nothing is
  sent to core, so that the delta is not reverted and no synchronisation starts.
\<close>

lemma compute_commit_error:
  assumes "\<not> is_deploy t" "tkResult t = Some r" "resultIsSuccess r"
    and "(if hasDelta r then crypto_hash (teKeccak E) (fld (rDelta r) ''data'') True else Inr ETHEREUM_EMPTY_HASH) = Inr d"
    and "crypto_hash (teKeccak E) (rOutput r) True = Inr h"
    and "teTx E (CommitReceipt (tkContractAddr t) (tkId t) d h (rEthPayload r) (rEthAddr r)
        (rUsedGas r) (rSignature r)) w = (Some (Inl e), w')"
  shows "commitReceipt E t w = (Rejects JsReferenceError, w')"
  using assms by (simp add: commitReceipt_def commitComputeSuccess_def)

lemma ex_finished:
  "\<not> is_deploy (setResult (Some ex_result) ex_task)" "tkResult (setResult (Some ex_result) ex_task) = Some ex_result"
  "resultIsSuccess ex_result" "hasDelta ex_result"
  "crypto_hash (teKeccak ex_tenv) (fld (rDelta ex_result) ''data'') True = Inr (JStr ''h1'')"
  "crypto_hash (teKeccak ex_tenv) (rOutput ex_result) True = Inr (JStr ''h1'')"
  by code_simp+

text \<open>The transaction that commits a successful result, and the message that reverts it.\<close>

definition success_tx :: "task \<Rightarrow> result \<Rightarrow> json \<Rightarrow> json \<Rightarrow> eth_tx" where
  "success_tx t r h d =
     (if is_deploy t
      then DeploySecretContract (tkId t) (rPreCodeHash r) h d (rEthPayload r) (rEthAddr r) (rUsedGas r) (rSignature r)
      else CommitReceipt (tkContractAddr t) (tkId t) d h (rEthPayload r) (rEthAddr r) (rUsedGas r) (rSignature r))"

definition revert_of :: "task \<Rightarrow> result \<Rightarrow> json" where
  "revert_of t r = (if is_deploy t then revert_deploy_msg t else revert_delta_msg t r)"

lemma success_tx_events:
  "tx_events (success_tx t r h d) =
     ([if is_deploy t then ''SecretContractDeployed'' else ''ReceiptVerified'', ''ReceiptFailedETH''], add0x (tkId t))"
  by (simp add: success_tx_def)

lemma commit_with_events:
  assumes "tkResult t = Some r" "resultIsSuccess r" "hasDelta r"
    and "crypto_hash (teKeccak E) (rOutput r) True = Inr h"
    and "crypto_hash (teKeccak E) (fld (rDelta r) ''data'') True = Inr d"
    and "teTx E (success_tx t r h d) w = (Some (Inr v), w1)" "has_prop ''ReceiptFailedETH'' v = Inr failed"
  shows "commitReceipt E t w = (if failed then commit_revert E None (revert_of t r) w1 else (Returns None, w1))"
  using assms
  by (cases "is_deploy t")
    (simp_all add: commitReceipt_def commitComputeSuccess_def commitDeploySuccess_def receipt_failed_def
      success_tx_def revert_of_def)

text \<open>
  C23: what is reverted is what the contract refused. When the transaction of a successful result
  settles with the events of the contract, core is told to remove the contract of a deployment,
  or exactly the delta of a computation, if and only if the contract logged the failure of the
  callback and no success of the task; the outcome is then that of this update.
\<close>

theorem receipt_decides_revert:
  assumes "tkResult t = Some r" "resultIsSuccess r" "hasDelta r"
    and "crypto_hash (teKeccak E) (rOutput r) True = Inr h"
    and "crypto_hash (teKeccak E) (fld (rDelta r) ''data'') True = Inr d"
    and "teTx E (success_tx t r h d) w = (Some (resolveLogic past (success_tx t r h d) w1), w1)"
    and "logged past (if is_deploy t then ''SecretContractDeployed'' else ''ReceiptVerified'') (add0x (tkId t)) w1 oks"
    and "logged past ''ReceiptFailedETH'' (add0x (tkId t)) w1 fails"
    and "asyncUpdateDb (teExchange E) (RawInput (revert_of t r)) w1 = (Some u, w2)"
  shows "commitReceipt E t w =
    (if oks = [] \<and> fails \<noteq> [] then (Returns (case u of Inl e \<Rightarrow> Some e | Inr _ \<Rightarrow> None), w2) else (Returns None, w1))"
proof -
  have "bindE (resolveLogic past (success_tx t r h d) w1) (has_prop ''ReceiptFailedETH'') = Inr (oks = [] \<and> fails \<noteq> [])"
    using failure_reported [OF success_tx_events _ assms(7,8)] by simp
  then obtain v where v: "resolveLogic past (success_tx t r h d) w1 = Inr v"
    "has_prop ''ReceiptFailedETH'' v = Inr (oks = [] \<and> fails \<noteq> [])"
    by (auto simp: bindE_eq_Inr)
  then show ?thesis
    using commit_with_events [OF assms(1-5) _ v(2)] assms(6,9) by (simp add: commit_revert_def revertState_def)
qed

theorem receipt_decides_revert_witness:
  "commitReceipt (ex_tenv\<lparr>teTx := \<lambda>tx w. (Some (resolveLogic (\<lambda>n t w. ex_past n t ()) tx w), w)\<rparr>)
     (setResult (Some ex_result) ex_task) 3 = (Returns None, 4)"
proof -
  let ?E = "ex_tenv\<lparr>teTx := \<lambda>tx w. (Some (resolveLogic (\<lambda>n t w. ex_past n t ()) tx w), w)\<rparr>"
  let ?t = "setResult (Some ex_result) ex_task"
  let ?ev = "\<lambda>t. JObj [(''event'', JStr ''ReceiptFailedETH''), (''returnValues'', JObj [(''taskId'', t)])]"
  have u: "asyncUpdateDb (teExchange ?E) i 3 = (Some (Inr (JObj [(''type'', T_Compute), (''status'', JNum 0),
      (''result'', resultToDbJson ex_result)])), 4)" for i
    by (simp add: asyncUpdateDb_def updateDb_def dbRequest_def validate_known CORE_REQUESTS_def ex_tenv_def
        nullish_def settle_reply_def update_error_def err_of_def obj_get_def)
  have l: "logged (\<lambda>n t (w::nat). ex_past n t ()) ''ReceiptVerified'' a 3 []"
    "logged (\<lambda>n t (w::nat). ex_past n t ()) ''ReceiptFailedETH'' a 3 [?ev a]" for a
    by (simp_all add: logged_def ex_past_def obj_get_def parse_event_def event_parsers_def field_bare_def)
  show ?thesis
    using receipt_decides_revert [OF ex_finished(2,3,4), of ?E _ _ 3 "\<lambda>n t w. ex_past n t ()" 3 "[]" "[?ev (add0x (tkId ?t))]" _ 4]
      ex_finished u l by simp
qed

text \<open>
  C18: a result of another worker that the verifier does not confirm is dropped: neither the
  task manager nor core changes, and the callback gets the error of the verification. The one
  exception, a failure that Ethereum reports, is excluded here.
\<close>

theorem unverified_result_dropped:
  assumes "\<not> nullish (fld msg ''result'')" "buildTaskResult (fld msg ''type'') (fld msg ''result'') = Inr (ro, None)"
    and "verifyResult E ro (fld msg ''contractAddress'') w = (Some (Inr c), w')"
    and "\<not> ckVerified c" "\<not> is_eth_failure (ckError c)"
  shows "verifyAndStoreResult E msg tm w = (Some (ckError c), tm, w')"
  using assms by (simp add: verifyAndStoreResult_def Let_def)

lemma ex_dropped:
  "verifyResult ex_tenv (Some ex_result) a w = (Some (Inr \<lparr>ckVerified = False, ckError = None\<rparr>), w)"
  using ex_finished(4) by (simp add: verifyResult_def ex_tenv_def Let_def)

theorem unverified_result_dropped_witness:
  "verifyAndStoreResult ex_tenv (JObj [(''contractAddress'', JStr ''4409''), (''result'', resultToDbJson ex_result),
     (''type'', T_Compute)]) ex_tm2 3 = (Some None, ex_tm2, 3)"
proof -
  let ?m = "JObj [(''contractAddress'', JStr ''4409''), (''result'', resultToDbJson ex_result), (''type'', T_Compute)]"
  have "\<not> nullish (fld ?m ''result'')" "buildTaskResult (fld ?m ''type'') (fld ?m ''result'') = Inr (Some ex_result, None)"
    by code_simp+
  then show ?thesis
    using unverified_result_dropped [of ?m "Some ex_result" ex_tenv 3 "\<lparr>ckVerified = False, ckError = None\<rparr>" 3 ex_tm2]
      ex_dropped by (simp add: is_eth_failure_def)
qed

text \<open>
  A failure that Ethereum reports loses its status. The outside task is stored although it is
  not verified, but with the status \<open>undefined\<close> instead of \<open>FAILED_ETHEREUM_CB\<close>: what is written for
  a computation is the text of its result without a status.
\<close>

lemma ethereum_failure_status_lost:
  assumes "outside_buildTask type res = Inr (Some t)" "tkResult t = Some r"
  shows "store_outside type res (Some (Err TaskEthereumFailureErr m)) tm =
    (let (p, tm') = addOutsideResult (Some (t\<lparr>tkResult := Some (setResultStatus JUndef r)\<rparr>)) tm in
     (map_option (map_sum id (\<lambda>_. Some (Err TaskEthereumFailureErr m))) p, tm')) \<and>
    rStatus (setResultStatus JUndef r) = JUndef"
  using assms by (cases r) (simp_all add: store_outside_def is_eth_failure_def Let_def)

lemma buildTask_Some:
  "deploy_buildTask (JObj fs) = Inr (Some t) \<Longrightarrow>
     t = DeployTask (obj_get fs ''taskId'') (obj_get fs ''preCode'') (obj_get fs ''encryptedArgs'') (obj_get fs ''encryptedFn'')
       (obj_get fs ''userDHKey'') (obj_get fs ''gasLimit'') (obj_get fs ''contractAddress'') (obj_get fs ''blockNumber'')"
  "compute_buildTask (JObj fs) = Inr (Some t) \<Longrightarrow>
     t = ComputeTask (obj_get fs ''taskId'') (obj_get fs ''encryptedArgs'') (obj_get fs ''encryptedFn'')
       (obj_get fs ''userDHKey'') (obj_get fs ''gasLimit'') (obj_get fs ''contractAddress'') (obj_get fs ''blockNumber'')"
  by (auto simp only: deploy_buildTask_def compute_buildTask_def some_missing_obj bindE_simps fld.simps
      sum.inject option.inject sum.distinct option.distinct split: if_splits)

lemma start_task_cases:
  assumes "start_task type request = Inr (Some t)"
  obtains (deploy) fs where "type = T_Deploy" "t = DeployTask (obj_get fs ''contractAddress'') (obj_get fs ''preCode'')
      (obj_get fs ''encryptedArgs'') (obj_get fs ''encryptedFn'') (obj_get fs ''userDHKey'') (JNum 0)
      (obj_get fs ''contractAddress'') (JNum 0)"
  | (compute) fs where "type = T_Compute" "t = ComputeTask (obj_get fs ''taskId'') (obj_get fs ''encryptedArgs'')
      (obj_get fs ''encryptedFn'') (obj_get fs ''userDHKey'') (JNum 0) (obj_get fs ''contractAddress'') (JNum 0)"
proof -
  have "is_obj request"
    using assms
    by (cases request) (auto simp: start_task_def start_request_def deploy_buildTask_def compute_buildTask_def
        deploy_fields_def compute_fields_def split: if_splits)
  then obtain fs where fs: "request = JObj fs" by (cases request) auto
  let ?fs = "obj_set (obj_set fs ''gasLimit'' (JNum 0)) ''blockNumber'' (JNum 0)"
  have get: "obj_get (obj_set gs k v) k' = (if k = k' then v else obj_get gs k')" for gs k v k'
    by (simp add: obj_get_def)
  consider "type = T_Deploy" "deploy_buildTask (JObj (obj_set ?fs ''taskId'' (obj_get ?fs ''contractAddress''))) = Inr (Some t)"
    | "type = T_Compute" "compute_buildTask (JObj ?fs) = Inr (Some t)"
    using assms fs by (auto simp: start_task_def start_request_def split: if_splits)
  then show thesis
  proof cases
    case 1
    then show thesis using deploy [of fs] buildTask_Some(1) [OF 1(2)] by (simp add: get)
  next
    case 2
    then show thesis using compute [of fs] buildTask_Some(2) [OF 2(2)] by (simp add: get)
  qed
qed

lemma start_task_Some:
  assumes "start_task type request = Inr (Some t)"
  shows "tkGasLimit t = JNum 0" "tkBlockNumber t = JNum 0" "tkResult t = None"
    "is_deploy t \<Longrightarrow> tkId t = tkContractAddr t"
  using assms
  by (cases rule: start_task_cases; simp add: DeployTask_def ComputeTask_def Task_def is_deploy_def)+

lemma start_pooled:
  assumes "tm_rel tm a" "start_task type request = Inr (Some t)" "worker_task_ok t"
  shows "tm_rel (snd (startTaskExecution now type request tm)) (spec_add t a)"
proof -
  have "fst (addTaskUnverified now (Some t) tm) = None" by (simp add: addTaskUnverified_def)
  then have "tm_rel (snd (addTaskUnverified now (Some t) tm)) (spec_add t a)"
    using add_refines [OF assms(1,3) start_task_Some(3) [OF assms(2)], of now] by (simp add: prod_eq_iff)
  then show ?thesis using assms(2) by (simp add: startTaskExecution_def)
qed

text \<open>
  A well-formed request is pooled. A request with the fields of its type that core does not
  set becomes a task with gas limit and block number zero, waiting in the pool under its id and
  announced for verification; the id of a deployment is the address of the contract.
\<close>

lemma started_task_pooled:
  assumes "tm_rel tm a" "start_task type request = Inr (Some t)" "worker_task_ok t"
  shows "fst (startTaskExecution now type request tm) = Inr () \<and>
    tm_rel (snd (startTaskExecution now type request tm)) (spec_add t a) \<and>
    tkGasLimit t = JNum 0 \<and> tkBlockNumber t = JNum 0 \<and> (is_deploy t \<longrightarrow> tkId t = tkContractAddr t)"
  using start_pooled [OF assms] start_task_Some [OF assms(2)] assms(2) by (simp add: startTaskExecution_def)

end
