(* ===== verification/Worker_Tasks.thy ===== *)
theory Worker_Tasks
  imports Task_Actions State_Machines
begin

text \<open>
  A worker at work: the task manager, the transfer of state keys and the actions on tasks
  composed the way \<open>NodeController.js\<close> wires them. Requests, notifications, executions and
  transfers come in any order, the world changes between any two of them, and the writes to the
  database may fail.
\<close>

section \<open>The worker\<close>

text \<open>
  The manager, the transfer, and the state of everything outside. Two histories are kept for the
  specification: the tasks whose verification got a positive verdict, and those whose result was
  published.
\<close>

record ('s, 'w) worker =
  wkTm :: "'s taskmgr"
  wkPtt :: ptt
  wkWorld :: 'w
  wkVerified :: "task list"
  wkPublished :: "task list"

definition Worker :: "'s level_ops \<Rightarrow> string \<Rightarrow> json \<Rightarrow> 'w \<Rightarrow> ('s, 'w) worker" where
  "Worker L defaultPath dbPath w =
     \<lparr>wkTm = TaskManager L defaultPath dbPath, wkPtt = PrincipalNode, wkWorld = w,
      wkVerified = [], wkPublished = []\<rparr>"

text \<open>The verdict on a task: without the Ethereum part every task passes.\<close>

definition verdict_on :: "'w task_env \<Rightarrow> task \<Rightarrow> 'w \<Rightarrow> verdict option" where
  "verdict_on E t w =
     (case get_prop (fld (teRegParams E w) ''result'') ''signingKey'' of
        Inl e \<Rightarrow> None
      | Inr key \<Rightarrow> (case fst (teVerifyCreation E t key w) of Some (Inr v) \<Rightarrow> Some v | _ \<Rightarrow> None))"

definition approved :: "'w task_env \<Rightarrow> task \<Rightarrow> 'w \<Rightarrow> bool" where
  "approved E t w \<longleftrightarrow>
     (teHasEthereum E \<longrightarrow>
       (case verdict_on E t w of
          None \<Rightarrow> False
        | Some v \<Rightarrow> ckError (vdCheck v) = None \<and> ckVerified (vdCheck v)))"

text \<open>
  The actions the task manager's notifications start (\<open>_initTaskManager\<close> and the table of
  actions): a new task is verified, a verified one is handed over for execution, and the
  result of a finished one is published.
\<close>

definition on_notification :: "'w task_env \<Rightarrow> notification \<Rightarrow> ('s, 'w) worker \<Rightarrow> ('s, 'w) worker" where
  "on_notification E n s =
     (case n of
        VERIFY_NEW_TASK t \<Rightarrow>
          (let (r, tm, w) = verifyNewTask E t (wkTm s) (wkWorld s) in
           s\<lparr>wkTm := tm, wkWorld := w,
             wkVerified := wkVerified s @ (if approved E t (wkWorld s) then [t] else [])\<rparr>)
      | TASK_VERIFIED t \<Rightarrow> s\<lparr>wkPtt := handleVerifiedTask t (wkPtt s)\<rparr>
      | TASK_FINISHED t \<Rightarrow>
          s\<lparr>wkWorld := publishTaskResult E t (wkWorld s), wkPublished := wkPublished s @ [t]\<rparr>)"

text \<open>\<open>EXEC_TASK\<close>\<close>

definition on_execute :: "'w task_env \<Rightarrow> task \<Rightarrow> ('s, 'w) worker \<Rightarrow> ('s, 'w) worker" where
  "on_execute E t s = (let (tm, w) = executeTask E t (wkTm s) (wkWorld s) in s\<lparr>wkTm := tm, wkWorld := w\<rparr>)"

section \<open>Steps\<close>

text \<open>
  A request of a user at a time, with its type; the listener of the notification with a number;
  the execution that was issued with a number; a step of the transfer of keys; and any change of
  the world.
\<close>

datatype 'w worker_step =
    Requested int json json
  | Notified nat
  | Executes nat
  | Transfers ptt_step
  | Elsewhere 'w

fun do_worker :: "'w task_env \<Rightarrow> 'w worker_step \<Rightarrow> ('s, 'w) worker \<Rightarrow> ('s, 'w) worker" where
  "do_worker E (Requested now type request) s =
     s\<lparr>wkTm := snd (startTaskExecution now type request (wkTm s))\<rparr>"
| "do_worker E (Notified n) s =
     (if n < length (tmEvents (wkTm s)) then on_notification E (tmEvents (wkTm s) ! n) s else s)"
| "do_worker E (Executes n) s =
     (if n < length (ptExecuted (wkPtt s)) then on_execute E (ptExecuted (wkPtt s) ! n) s else s)"
| "do_worker E (Transfers st) s = s\<lparr>wkPtt := do_ptt st (wkPtt s)\<rparr>"
| "do_worker E (Elsewhere w) s = s\<lparr>wkWorld := w\<rparr>"

definition run_worker ::
    "'w task_env \<Rightarrow> 's level_ops \<Rightarrow> string \<Rightarrow> json \<Rightarrow> 'w \<Rightarrow> 'w worker_step list \<Rightarrow> ('s, 'w) worker" where
  "run_worker E L defaultPath dbPath w sts =
     foldl (\<lambda>s st. do_worker E st s) (Worker L defaultPath dbPath w) sts"

section \<open>What the users ask for\<close>

text \<open>The tasks of the requests.\<close>

fun asked_by :: "'w worker_step \<Rightarrow> task list" where
  "asked_by (Requested now type request) =
     (case start_task type request of Inr (Some t) \<Rightarrow> [t] | _ \<Rightarrow> [])"
| "asked_by _ = []"

definition asked :: "'w worker_step list \<Rightarrow> task list" where
  "asked sts = concat (map asked_by sts)"

lemma asked_append [simp]: "asked (xs @ ys) = asked xs @ asked ys"
  by (simp add: asked_def)

text \<open>
  The requests are well formed, and two requests with the same id are the same (ids are
  hashes of the requests). Tasks are handed over by the listener of the manager only.
\<close>

fun no_task :: "'w worker_step \<Rightarrow> bool" where
  "no_task (Transfers st) = (verified_tasks [st] = [])"
| "no_task _ = True"

definition steps_ok :: "'w worker_step list \<Rightarrow> bool" where
  "steps_ok sts \<longleftrightarrow>
     (\<forall>t \<in> set (asked sts). worker_task_ok t) \<and> inj_on tkId (set (asked sts)) \<and> list_all no_task sts"

lemma steps_ok_prefix: "steps_ok (sts @ [st]) \<Longrightarrow> steps_ok sts"
  by (auto simp: steps_ok_def inj_on_Un)

text \<open>The task as it was requested.\<close>

definition origin :: "task \<Rightarrow> task" where
  "origin t = t\<lparr>tkStatus := UNVERIFIED, tkResult := None, tkGasLimit := JNum 0, tkBlockNumber := JNum 0\<rparr>"

lemma origin_simps [simp]:
  "origin (setStatus st t) = origin t"
  "origin (setGasLimit g t) = origin t"
  "origin (setBlockNumber b t) = origin t"
  "origin (setResult ro t) = origin t"
  "origin (origin t) = origin t"
  by (auto simp: origin_def setStatus_def setGasLimit_def setBlockNumber_def setResult_def split: option.splits)

lemma origin_eqD:
  assumes "origin t = origin u"
  shows "tkId t = tkId u" "tkBody t = tkBody u" "tkType t = tkType u" "tkContractAddr t = tkContractAddr u"
  using assms by (simp_all add: origin_def task_eq_iff)

lemma result_fits_origin:
  assumes "result_fits r t" "origin t = origin u"
  shows "result_fits r u"
  using assms(1) unfolding result_fits_def origin_eqD(1,2) [OF assms(2)] .

lemma start_task_origin: "start_task type request = Inr (Some t) \<Longrightarrow> origin t = t"
  by (cases rule: start_task_cases [of type request t])
    (auto simp: origin_def DeployTask_def ComputeTask_def Task_def)

section \<open>The environment\<close>

text \<open>
  The gas limit and the block number of a verdict, and the answers of core to a task, are
  values of JSON; core answers with a result of the type of the task, with a failure, or with a
  message of a system error.
\<close>

definition verdicts_ok :: "'w task_env \<Rightarrow> bool" where
  "verdicts_ok E \<longleftrightarrow>
     (\<forall>t key w v. fst (teVerifyCreation E t key w) = Some (Inr v) \<longrightarrow>
        json_normal (vdGasLimit v) \<and> json_normal (vdBlockNumber v))"

definition answer_ok :: "json \<Rightarrow> json \<Rightarrow> bool" where
  "answer_ok type v \<longleftrightarrow>
     truthy (fld v ''msg'') \<or>
     (\<exists>fs rs. v = JObj fs \<and> obj_get fs ''type'' \<in> {type, T_Failed} \<and> obj_get fs ''result'' = JObj rs \<and>
        json_normal (JObj rs))"

definition core_ok :: "'w task_env \<Rightarrow> bool" where
  "core_ok E \<longleftrightarrow>
     (\<forall>type input w v. type \<in> {T_Deploy, T_Compute} \<longrightarrow>
        fst (teExchange E \<lparr>crId = JUndef, crType = type, crInput = RawInput input\<rparr> w) = Some v \<longrightarrow> answer_ok type v)"

section \<open>The actions refine the specification of the manager\<close>

text \<open>The parameters of a verdict are set on the pending task.\<close>

definition spec_params :: "string \<Rightarrow> verdict \<Rightarrow> task_spec \<Rightarrow> task_spec" where
  "spec_params k v a =
     a\<lparr>spPending := (spPending a)(k := map_option
         (\<lambda>t. setBlockNumber (vdBlockNumber v) (setGasLimit (vdGasLimit v) t)) (spPending a k))\<rparr>"

lemma worker_task_ok_params:
  "worker_task_ok t \<Longrightarrow> json_normal g \<Longrightarrow> json_normal b \<Longrightarrow> worker_task_ok (setBlockNumber b (setGasLimit g t))"
  by (cases "tkBody t")
    (auto simp: worker_task_ok_def finished_ok_def setBlockNumber_def setGasLimit_def task_status_defs split: option.splits)

lemma params_refines:
  assumes rel: "tm_rel tm a" and v: "json_normal (vdGasLimit v)" "json_normal (vdBlockNumber v)"
  shows "tm_rel (set_verified_params (JStr k) v tm) (spec_params k v a)"
proof (cases "map_of (tmPool tm) k")
  case None
  then have "spPending a k = None" using tm_relD(3) [OF rel] by simp
  then have "spec_params k v a = a" by (simp add: spec_params_def fun_upd_idem)
  then show ?thesis using None rel by (simp add: set_verified_params_def)
next
  case (Some p)
  obtain time t where p: "p = (time, t)" by (cases p)
  let ?t = "setBlockNumber (vdBlockNumber v) (setGasLimit (vdGasLimit v) t)"
  have pend: "spPending a k = Some t" using Some p tm_relD(3) [OF rel] by simp
  note t = pending_okD [OF tm_relD(5) [OF rel] pend]
  have "pending_ok (spec_params k v a)"
    using tm_relD(5) [OF rel] t worker_task_ok_params [of t, OF _ v]
    by (auto simp: pending_ok_def spec_params_def pend setBlockNumber_def setGasLimit_def split: if_splits)
  moreover have "spPending (spec_params k v a) =
      (\<lambda>k'. map_option snd (map_of (obj_set (tmPool tm) k (time, ?t)) k'))"
    using Some p by (simp add: spec_params_def fun_eq_iff tm_relD(3) [OF rel])
  ultimately show ?thesis
    using tm_relD [OF rel] Some p
    by (simp add: tm_rel_def set_verified_params_def obj_wf_obj_set) (simp add: spec_params_def)
qed

text \<open>
  Verifying a new task: nothing changes without the approval; with it, the task may get the
  parameters of the verdict, and is stored and announced or marked.
\<close>

lemma verdict_on_ok: "verdicts_ok E \<Longrightarrow> verdict_on E t w = Some v \<Longrightarrow> json_normal (vdGasLimit v) \<and> json_normal (vdBlockNumber v)"
  unfolding verdicts_ok_def verdict_on_def
  by (auto split: sum.splits option.splits)

lemma verify_rejected:
  assumes "\<not> approved E t w" "verifyNewTask E t tm w = (r, tm', w')"
  shows "tm' = tm"
  using unverified_not_executed [OF _ assms(2)] assms(1) by (auto simp: approved_def verdict_on_def)

lemma verify_accepted:
  assumes "approved E t w" "verifyNewTask E t tm w = (r, tm', w')"
  shows "tm' = snd (onVerifyTask (tkId t) True tm) \<and> \<not> teHasEthereum E \<or>
    (\<exists>v. verdict_on E t w = Some v \<and> tm' = snd (onVerifyTask (tkId t) True (set_verified_params (tkId t) v tm)))"
  using assms
  by (auto simp: approved_def verdict_on_def verifyNewTask_def asyncOnVerifyTask_def Let_def
      split: prod.splits option.splits sum.splits if_splits)

lemma onVerifyTask_cases:
  assumes "tm_rel tm a"
  obtains "tm_rel (snd (onVerifyTask (JStr k) True tm)) (spec_verify k a)"
    | "tm_rel (snd (onVerifyTask (JStr k) True tm)) (spec_mark k a)"
  using verify_refines [OF assms, of k "fst (onVerifyTask (JStr k) True tm)" "snd (onVerifyTask (JStr k) True tm)"]
  by auto

lemma verify_action:
  assumes "tm_rel tm a" "tkId t = JStr k" "verdicts_ok E" "verifyNewTask E t tm w = (r, tm', w')"
  obtains (same) "tm' = tm"
    | (judged) b where "approved E t w" "pending_ok b"
      "b = a \<or> (\<exists>v. b = spec_params k v a \<and> json_normal (vdGasLimit v) \<and> json_normal (vdBlockNumber v))"
      "tm_rel tm' (spec_verify k b) \<or> tm_rel tm' (spec_mark k b)"
proof (cases "approved E t w")
  case False
  then show thesis using verify_rejected [OF False assms(4)] same by simp
next
  case True
  show thesis
    using verify_accepted [OF True assms(4)]
  proof (elim disjE exE conjE)
    assume "tm' = snd (onVerifyTask (tkId t) True tm)"
    then show thesis using assms(2) judged [OF True tm_relD(5) [OF assms(1)]] onVerifyTask_cases [OF assms(1), of k] by metis
  next
    fix v assume v: "verdict_on E t w = Some v"
      "tm' = snd (onVerifyTask (tkId t) True (set_verified_params (tkId t) v tm))"
    note n = verdict_on_ok [OF assms(3) v(1)]
    have rel: "tm_rel (set_verified_params (JStr k) v tm) (spec_params k v a)"
      using params_refines [OF assms(1)] n by blast
    have "tm_rel tm' (spec_verify k (spec_params k v a)) \<or> tm_rel tm' (spec_mark k (spec_params k v a))"
      using onVerifyTask_cases [OF rel, of k] v(2) assms(2) by auto
    then show thesis using judged [OF True tm_relD(5) [OF rel]] n by blast
  qed
qed

text \<open>Executing a task: nothing changes, or the stored task gets a result that fits or may be lost.\<close>

lemma run_on_core_cases:
  assumes "run_on_core E t tm w = (tm', w')" "worker_task_ok t" "core_ok E"
  obtains (same) "tm' = tm" | (finished) r where "tm' = snd (onFinishTask r tm)" "result_fits r t" "rTaskId r = tkId t"
proof -
  have ty: "tkType t \<in> {T_Deploy, T_Compute}"
    using assms(2) by (auto simp: worker_task_ok_def split: task_body.splits)
  consider "tm' = tm" | input v r where "toCoreJson t = Inr input"
    "fst (teExchange E \<lparr>crId = JUndef, crType = tkType t, crInput = RawInput input\<rparr> w) = Some v"
    "\<not> truthy (fld v ''msg'')" "core_result t v = Inr (Some r)" "tm' = snd (onFinishTask r tm)"
    using assms(1)
    by (auto simp: run_on_core_def asyncOnFinishTask_def case_prod_beta
        split: sum.splits option.splits if_splits prod.splits)
  then show thesis
  proof cases
    case 2
    then have "answer_ok (tkType t) v" using assms(3) ty unfolding core_ok_def by blast
    then obtain fs rs where v: "v = JObj fs" "obj_get fs ''type'' \<in> {tkType t, T_Failed}" "obj_get fs ''result'' = JObj rs"
      "json_normal (JObj rs)"
      using 2(3) unfolding answer_ok_def by blast
    show thesis
      using finished [OF 2(5)] core_result_fits [OF assms(2) 2(4) [unfolded v(1)] v(3,4,2)] by blast
  qed (rule same)
qed

lemma execute_action:
  assumes rel: "tm_rel tm a" and run: "executeTask E t tm w = (tm', w')" and t: "worker_task_ok t" "tkId t = JStr k"
    and core: "core_ok E"
    and stored: "\<And>u. spStored a k = Some u \<Longrightarrow> worker_task_ok u \<and> origin u = origin t"
  obtains (same) "tm' = tm" | (kept) "tm_rel tm' a" | (lost) "tm_rel tm' (spec_drop k a)"
    | (finished) r where "result_fits r t" "tm_rel tm' (spec_finish k r a)"
proof -
  consider "tm' = tm" | w1 where "run_on_core E t tm w1 = (tm', w')"
    using run by (auto simp: executeTask_def split: if_splits prod.splits option.splits sum.splits)
  then show thesis
  proof cases
    case 2
    then show thesis
    proof (rule run_on_core_cases [OF _ t(1) core])
      fix r assume r: "tm' = snd (onFinishTask r tm)" "result_fits r t" "rTaskId r = tkId t"
      show thesis
      proof (cases "spPending a k")
        case None
        have "worker_task_ok u \<and> result_fits r u" if "spStored a k = Some u" for u
          using stored [OF that] result_fits_origin [OF r(2)] by metis
        then show thesis
          using finish_refines [OF rel None, of r "fst (onFinishTask r tm)" tm'] r t(2) kept lost finished by auto
      next
        case (Some u)
        then have "onFinishTask r tm = ([Call (Inl (errMsg ''[ON_FINISH_TASK] error task was executed without verification.''))], tm)"
          using isUnverifiedInPool_rel [OF rel] r(3) t(2) by (simp add: onFinishTask_def)
        then show thesis using r(1) same by simp
      qed
    qed (rule same)
  qed (rule same)
qed

section \<open>The invariant\<close>

text \<open>
  \<open>R\<close> are the tasks of the requests, \<open>V\<close> those with a positive verdict: a task of the worker is
  requested; before it is executed it is cleared; what is published has a result of its own.
\<close>

definition requested :: "task set \<Rightarrow> task \<Rightarrow> bool" where
  "requested R t \<longleftrightarrow> worker_task_ok t \<and> origin t \<in> R"

definition cleared :: "task set \<Rightarrow> task set \<Rightarrow> task \<Rightarrow> bool" where
  "cleared R V t \<longleftrightarrow> requested R t \<and> origin t \<in> origin ` V"

definition completed :: "task set \<Rightarrow> task set \<Rightarrow> task \<Rightarrow> bool" where
  "completed R V t \<longleftrightarrow> cleared R V t \<and> tkResult t \<noteq> None"

fun note_ok :: "task set \<Rightarrow> task set \<Rightarrow> notification \<Rightarrow> bool" where
  "note_ok R V (VERIFY_NEW_TASK t) = requested R t"
| "note_ok R V (TASK_VERIFIED t) = cleared R V t"
| "note_ok R V (TASK_FINISHED t) = completed R V t"

definition spec_inv :: "task set \<Rightarrow> task set \<Rightarrow> task_spec \<Rightarrow> bool" where
  "spec_inv R V a \<longleftrightarrow>
     (\<forall>k t. spPending a k = Some t \<longrightarrow> requested R t) \<and>
     (\<forall>k t. spStored a k = Some t \<longrightarrow> cleared R V t) \<and>
     (\<forall>n \<in> set (spLog a). note_ok R V n)"

definition worker_inv :: "task set \<Rightarrow> ('s, 'w) worker \<Rightarrow> bool" where
  "worker_inv R s \<longleftrightarrow>
     (\<exists>a. tm_rel (wkTm s) a \<and> spec_inv R (set (wkVerified s)) a) \<and>
     (\<forall>t \<in> set (handled (wkPtt s)). cleared R (set (wkVerified s)) t) \<and>
     (\<forall>t \<in> set (wkPublished s). completed R (set (wkVerified s)) t)"

lemma cleared_mono:
  "requested R t \<Longrightarrow> R \<subseteq> R' \<Longrightarrow> requested R' t"
  "cleared R V t \<Longrightarrow> R \<subseteq> R' \<Longrightarrow> V \<subseteq> V' \<Longrightarrow> cleared R' V' t"
  "completed R V t \<Longrightarrow> R \<subseteq> R' \<Longrightarrow> V \<subseteq> V' \<Longrightarrow> completed R' V' t"
  by (auto simp: requested_def cleared_def completed_def)

lemma note_ok_mono: "note_ok R V n \<Longrightarrow> R \<subseteq> R' \<Longrightarrow> V \<subseteq> V' \<Longrightarrow> note_ok R' V' n"
  by (cases n) (auto intro: cleared_mono)

lemma spec_inv_mono: "spec_inv R V a \<Longrightarrow> R \<subseteq> R' \<Longrightarrow> V \<subseteq> V' \<Longrightarrow> spec_inv R' V' a"
  by (simp add: spec_inv_def) (blast intro: cleared_mono(1,2) note_ok_mono)

lemma requested_same:
  assumes "inj_on tkId R" "requested R t" "requested R u" "tkId t = tkId u"
  shows "origin t = origin u"
  using inj_onD [OF assms(1), of "origin t" "origin u"] assms(2-4) by (simp add: requested_def origin_def)

lemma spec_inv_add: "spec_inv R V a \<Longrightarrow> requested R t \<Longrightarrow> spec_inv R V (spec_add t a)"
  by (auto simp: spec_inv_def spec_add_def)

lemma spec_inv_params:
  assumes "spec_inv R V a" "json_normal (vdGasLimit v)" "json_normal (vdBlockNumber v)"
  shows "spec_inv R V (spec_params k v a)"
  using assms worker_task_ok_params by (auto simp: spec_inv_def spec_params_def requested_def)

lemma requested_in_progress: "requested R t \<Longrightarrow> tkResult t = None \<Longrightarrow> requested R (setInProgressStatus t)"
  using worker_task_ok_in_progress by (simp add: requested_def)

lemma spec_inv_mark: "spec_inv R V a \<Longrightarrow> pending_ok a \<Longrightarrow> spec_inv R V (spec_mark k a)"
  using requested_in_progress by (auto simp: spec_inv_def spec_mark_def dest: pending_okD)

lemma spec_inv_verify:
  assumes "spec_inv R V a" "pending_ok a" "\<And>t. spPending a k = Some t \<Longrightarrow> origin t \<in> origin ` V"
  shows "spec_inv R V (spec_verify k a)"
proof (cases "spPending a k")
  case (Some t)
  then have "requested R t" "tkResult t = None" using assms(1) pending_okD [OF assms(2)] by (auto simp: spec_inv_def)
  then have "cleared R V (setInProgressStatus t)"
    using requested_in_progress assms(3) [OF Some] by (simp add: cleared_def)
  then show ?thesis using assms(1) Some by (auto simp: spec_inv_def spec_verify_def)
qed (simp add: spec_verify_def assms(1))

lemma spec_inv_drop: "spec_inv R V a \<Longrightarrow> spec_inv R V (spec_drop k a)"
  by (auto simp: spec_inv_def spec_drop_def)

lemma completed_setResult:
  assumes "cleared R V t" "result_fits r t"
  shows "completed R V (setResult (Some r) t)"
proof -
  have "tkResult (setResult (Some r) t) = Some r"
    using assms(2) by (simp add: setResult_def result_fits_def setStatus_def)
  then show ?thesis
    using assms worker_task_ok_setResult by (simp add: completed_def cleared_def requested_def)
qed

lemma spec_inv_finish:
  assumes "spec_inv R V a" "\<And>t. spStored a k = Some t \<Longrightarrow> result_fits r t"
  shows "spec_inv R V (spec_finish k r a)"
proof (cases "spStored a k")
  case (Some t)
  then have "completed R V (setResult (Some r) t)"
    using assms completed_setResult by (simp add: spec_inv_def)
  then show ?thesis using assms(1) Some by (auto simp: spec_inv_def spec_finish_def completed_def)
qed (simp add: spec_finish_def assms(1))

lemma worker_inv_mono: "worker_inv R s \<Longrightarrow> R \<subseteq> R' \<Longrightarrow> worker_inv R' s"
  by (simp add: worker_inv_def) (blast intro: cleared_mono(2,3) spec_inv_mono)

section \<open>Every step keeps the invariant\<close>

lemma handled_done:
  "no_task (Transfers st) \<Longrightarrow> handled (do_ptt st s) = handled s"
  by (cases st) (simp_all add: handled_action)

lemma handled_more: "set (handled (handleVerifiedTask t s)) = insert t (set (handled s))"
  by (auto simp: handled_def handleVerifiedTask_def)

lemma executed_handled: "n < length (ptExecuted s) \<Longrightarrow> ptExecuted s ! n \<in> set (handled s)"
  by (simp add: handled_def)

lemma inv_requested:
  assumes "worker_inv R s" "\<And>t. start_task type request = Inr (Some t) \<Longrightarrow> worker_task_ok t \<and> t \<in> R"
  shows "worker_inv R (do_worker E (Requested now type request) s)"
proof (cases "\<exists>t. start_task type request = Inr (Some t)")
  case True
  then obtain t where t: "start_task type request = Inr (Some t)" by blast
  obtain a where a: "tm_rel (wkTm s) a" "spec_inv R (set (wkVerified s)) a" using assms(1) by (auto simp: worker_inv_def)
  have "requested R t" using assms(2) [OF t] start_task_origin [OF t] by (simp add: requested_def)
  then show ?thesis
    using assms(1) start_pooled [OF a(1) t, of now] assms(2) [OF t] spec_inv_add [OF a(2)]
    by (auto simp: worker_inv_def)
next
  case False
  then have "snd (startTaskExecution now type request (wkTm s)) = wkTm s"
    by (auto simp: startTaskExecution_def split: sum.splits option.splits)
  then show ?thesis using assms(1) by simp
qed

lemma worker_task_id: "worker_task_ok t \<Longrightarrow> tkId t = JStr (task_key t)"
  using task_ok_key [of t] by (simp add: task_ok_def)

lemma spec_inv_judged:
  assumes "spec_inv R V b" "pending_ok b" "tm_rel tm' (spec_verify k b) \<or> tm_rel tm' (spec_mark k b)"
    and "\<And>u. spPending b k = Some u \<Longrightarrow> origin u \<in> origin ` V"
  shows "\<exists>a'. tm_rel tm' a' \<and> spec_inv R V a'"
  using assms spec_inv_mark spec_inv_verify by metis

lemma inv_verify:
  assumes inv: "worker_inv R s" and R: "inj_on tkId R" and t: "requested R t" and E: "verdicts_ok E"
  shows "worker_inv R (on_notification E (VERIFY_NEW_TASK t) s)"
proof -
  let ?V = "insert t (set (wkVerified s))"
  obtain r tm' w' where run: "verifyNewTask E t (wkTm s) (wkWorld s) = (r, tm', w')" by (metis prod.collapse)
  obtain a where a: "tm_rel (wkTm s) a" "spec_inv R (set (wkVerified s)) a" using inv by (auto simp: worker_inv_def)
  have id: "tkId t = JStr (task_key t)" using t worker_task_id by (simp add: requested_def)
  have a2: "spec_inv R ?V a" using a(2) by (rule spec_inv_mono) auto
  have same: "origin u = origin t" if "spPending b (task_key t) = Some u" "spec_inv R ?V b" "pending_ok b" for b u
  proof -
    have "requested R u" "tkId u = JStr (task_key t)" using that pending_okD by (auto simp: spec_inv_def)
    then show ?thesis using requested_same [OF R _ t] id by simp
  qed
  show ?thesis
    using a(1) id E run
  proof (cases rule: verify_action)
    case same
    then show ?thesis
      using inv run by (auto simp: worker_inv_def on_notification_def intro: cleared_mono spec_inv_mono)
  next
    case (judged b)
    then have b: "spec_inv R ?V b" using a2 spec_inv_params by auto
    have "\<exists>a'. tm_rel tm' a' \<and> spec_inv R ?V a'"
      using spec_inv_judged [OF b judged(2,4)] same [OF _ b judged(2)] by auto
    then show ?thesis
      using inv run judged(1)
      by (auto simp: worker_inv_def on_notification_def intro: cleared_mono)
  qed
qed

lemma inv_notified:
  assumes inv: "worker_inv R s" and "inj_on tkId R" "verdicts_ok E"
  shows "worker_inv R (do_worker E (Notified n) s)"
proof (cases "n < length (tmEvents (wkTm s))")
  case True
  let ?n = "tmEvents (wkTm s) ! n"
  obtain a where a: "tm_rel (wkTm s) a" "spec_inv R (set (wkVerified s)) a" using inv by (auto simp: worker_inv_def)
  have "?n \<in> set (spLog a)" using True tm_relD(7) [OF a(1)] by simp
  then have ok: "note_ok R (set (wkVerified s)) ?n" using a(2) by (simp add: spec_inv_def)
  show ?thesis
  proof (cases ?n)
    case (VERIFY_NEW_TASK t)
    then show ?thesis using True ok inv_verify [OF inv assms(2) _ assms(3)] by simp
  next
    case (TASK_VERIFIED t)
    then show ?thesis using True ok inv by (simp add: worker_inv_def on_notification_def handled_more)
  next
    case (TASK_FINISHED t)
    then show ?thesis using True ok inv by (simp add: worker_inv_def on_notification_def)
  qed
qed (simp add: inv)

lemma inv_executes:
  assumes inv: "worker_inv R s" and R: "inj_on tkId R" and E: "core_ok E"
  shows "worker_inv R (do_worker E (Executes n) s)"
proof (cases "n < length (ptExecuted (wkPtt s))")
  case True
  let ?t = "ptExecuted (wkPtt s) ! n" and ?V = "set (wkVerified s)"
  obtain tm' w' where run: "executeTask E ?t (wkTm s) (wkWorld s) = (tm', w')" by (metis prod.collapse)
  obtain a where a: "tm_rel (wkTm s) a" "spec_inv R ?V a" using inv by (auto simp: worker_inv_def)
  have "cleared R ?V ?t" using inv executed_handled [OF True] by (simp add: worker_inv_def)
  then have t: "requested R ?t" "worker_task_ok ?t" by (simp_all add: cleared_def requested_def)
  note id = worker_task_id [OF t(2)]
  have stored: "worker_task_ok u \<and> origin u = origin ?t" if "spStored a (task_key ?t) = Some u" for u
  proof -
    have "requested R u" "tkId u = tkId ?t"
      using that a(2) tm_relD(6) [OF a(1)] id by (auto simp: spec_inv_def cleared_def stored_ok_def)
    then show ?thesis using requested_same [OF R _ t(1)] by (simp add: requested_def)
  qed
  have "\<exists>a'. tm_rel tm' a' \<and> spec_inv R ?V a'"
  proof (rule execute_action [OF a(1) run t(2) id E stored])
    fix r assume r: "result_fits r ?t" "tm_rel tm' (spec_finish (task_key ?t) r a)"
    have "spec_inv R ?V (spec_finish (task_key ?t) r a)"
      using spec_inv_finish [OF a(2)] stored result_fits_origin [OF r(1)] by metis
    then show ?thesis using r(2) by blast
  qed (use a spec_inv_drop in blast)+
  then show ?thesis using True inv run by (simp add: worker_inv_def on_execute_def)
qed (simp add: inv)

text \<open>A sound environment: the fresh store is empty, and answers are values of JSON.\<close>

definition env_ok :: "'w task_env \<Rightarrow> 's level_ops \<Rightarrow> bool" where
  "env_ok E L \<longleftrightarrow>
     level_ok L \<and> (\<forall>name. lvContents L (lvOpen L name) = Map.empty) \<and> verdicts_ok E \<and> core_ok E"

lemma inv_step:
  assumes "worker_inv (set (asked sts)) s" "steps_ok (sts @ [st])" "verdicts_ok E" "core_ok E"
  shows "worker_inv (set (asked (sts @ [st]))) (do_worker E st s)"
proof -
  let ?R = "set (asked (sts @ [st]))"
  have inv: "worker_inv ?R s" using assms(1) by (rule worker_inv_mono) simp
  have R: "inj_on tkId ?R" "\<And>t. t \<in> ?R \<Longrightarrow> worker_task_ok t" "no_task st"
    using assms(2) by (auto simp: steps_ok_def)
  show ?thesis
  proof (cases st)
    case (Requested now type request)
    have "worker_task_ok t \<and> t \<in> ?R" if "start_task type request = Inr (Some t)" for t
      using that R(2) by (simp add: Requested asked_def)
    then show ?thesis using inv_requested [OF inv] Requested by blast
  next
    case (Transfers pst)
    then show ?thesis using inv handled_done [of pst] R(3) by (simp add: worker_inv_def)
  next
    case (Elsewhere w)
    then show ?thesis using inv by (simp add: worker_inv_def)
  qed (use inv_notified [OF inv R(1) assms(3)] inv_executes [OF inv R(1) assms(4)] in blast)+
qed

lemma inv_start: "env_ok E L \<Longrightarrow> worker_inv {} (Worker L path dbPath w)"
  using tm_rel_init [of L path dbPath]
  by (auto simp: env_ok_def worker_inv_def Worker_def spec_inv_def spec_init_def handled_def PrincipalNode_def)

interpretation worker_run: machine "Worker L path dbPath w" "do_worker E" steps_ok
  "\<lambda>sts s. env_ok E L \<longrightarrow> worker_inv (set (asked sts)) s"
  for E :: "'w task_env" and L :: "'s level_ops" and path dbPath w
proof
  show "env_ok E L \<longrightarrow> worker_inv (set (asked [])) (Worker L path dbPath w)"
    by (simp add: asked_def inv_start)
qed (blast intro: steps_ok_prefix inv_step dest: env_ok_def [THEN iffD1])+

lemmas run_worker_inv = worker_run.always [folded run_worker_def]

text \<open>A task counts as verified from the step at which the verifier approved it.\<close>

lemma verified_when:
  assumes "t \<in> set (wkVerified (run_worker E L path dbPath w sts))"
  obtains before n after where "sts = before @ Notified n # after"
    "n < length (tmEvents (wkTm (run_worker E L path dbPath w before)))"
    "tmEvents (wkTm (run_worker E L path dbPath w before)) ! n = VERIFY_NEW_TASK t"
    "approved E t (wkWorld (run_worker E L path dbPath w before))"
  using assms
proof (induction sts arbitrary: thesis rule: rev_induct)
  case Nil
  then show ?case by (simp add: run_worker_def Worker_def)
next
  case (snoc st sts)
  let ?s = "run_worker E L path dbPath w sts"
  have run: "run_worker E L path dbPath w (sts @ [st]) = do_worker E st ?s" by (simp add: run_worker_def)
  show ?case
  proof (cases "t \<in> set (wkVerified ?s)")
    case True
    then show ?thesis by (rule snoc.IH [rotated]) (rule snoc.prems(1); simp)
  next
    case False
    then obtain n where "st = Notified n" "n < length (tmEvents (wkTm ?s))"
      "tmEvents (wkTm ?s) ! n = VERIFY_NEW_TASK t" "approved E t (wkWorld ?s)"
      using snoc.prems(2) unfolding run
      by (cases st) (auto simp: on_notification_def on_execute_def split: if_splits notification.splits prod.splits)
    then show ?thesis using snoc.prems(1) [of sts n "[]"] by simp
  qed
qed

section \<open>When the database can be written\<close>

text \<open>
  \<open>P\<close> holds of the states of the store in which writes succeed; it lasts from write to write.
\<close>

definition stays_writable :: "'s level_ops \<Rightarrow> ('s \<Rightarrow> bool) \<Rightarrow> bool" where
  "stays_writable L P \<longleftrightarrow>
     (\<forall>k v d. P d \<longrightarrow> fst (lvPut L (JStr k) (JStr v) d) = None \<and> P (snd (lvPut L (JStr k) (JStr v) d))) \<and>
     (\<forall>k d. P d \<longrightarrow> fst (lvDel L (JStr k) d) = None \<and> P (snd (lvDel L (JStr k) d)))"

definition writable :: "('s \<Rightarrow> bool) \<Rightarrow> 's taskmgr \<Rightarrow> bool" where
  "writable P tm \<longleftrightarrow>
     stays_writable (ldLevel (tmDb tm)) P \<and> (\<exists>d. ldDb (tmDb tm) = Some d \<and> P d)"

lemma writable_simps [simp]:
  "writable P (tm\<lparr>tmPool := m\<rparr>) = writable P tm"
  "writable P (notify n tm) = writable P tm"
  by (simp_all add: writable_def notify_def)

lemma storeTask_writable:
  assumes "writable P tm" "task_ok t"
  shows "fst (storeTask t tm) = [Call (Inr ())]" "writable P (snd (storeTask t tm))"
    "fst (deleteTask (JStr k) tm) = [Call (Inr ())]" "writable P (snd (deleteTask (JStr k) tm))"
proof -
  obtain v where v: "toDbJson t = Inr v" using any_task.enc_total [OF assms(2)] by blast
  obtain d where d: "stays_writable (ldLevel (tmDb tm)) P" "ldDb (tmDb tm) = Some d" "P d"
    using assms(1) by (auto simp: writable_def)
  have put: "fst (lvPut (ldLevel (tmDb tm)) (tkId t) (JStr v) d) = None \<and>
      P (snd (lvPut (ldLevel (tmDb tm)) (tkId t) (JStr v) d))" for v
    using d(1,3) task_ok_key [OF assms(2)] unfolding stays_writable_def by metis
  have del: "fst (lvDel (ldLevel (tmDb tm)) (JStr k) d) = None \<and> P (snd (lvDel (ldLevel (tmDb tm)) (JStr k) d))"
    using d(1,3) unfolding stays_writable_def by metis
  show "fst (storeTask t tm) = [Call (Inr ())]" "writable P (snd (storeTask t tm))"
    using v d put [of "JSON_stringify v"]
    by (simp_all add: storeTask_def serializeTask_def with_db_def db_put_def on_handle_def err_cb_def writable_def case_prod_beta)
  show "fst (deleteTask (JStr k) tm) = [Call (Inr ())]" "writable P (snd (deleteTask (JStr k) tm))"
    using d del
    by (simp_all add: deleteTask_def with_db_def db_delete_def on_handle_def err_cb_def writable_def case_prod_beta)
qed

lemma verify_writable:
  assumes rel: "tm_rel tm a" and w: "writable P tm" and pend: "spPending a k = Some t"
  shows "tm_rel (snd (onVerifyTask (JStr k) True tm)) (spec_verify k a)"
    "writable P (snd (onVerifyTask (JStr k) True tm))"
    "fst (onVerifyTask (JStr k) True tm) = [Call (Inr ())]"
proof -
  obtain time where pool: "map_of (tmPool tm) k = Some (time, t)" using pend tm_relD(3) [OF rel] by auto
  let ?tm = "tm\<lparr>tmPool := obj_set (tmPool tm) k (time, setInProgressStatus t)\<rparr>"
  have "task_ok (setInProgressStatus t)"
    using pending_okD [OF tm_relD(5) [OF rel] pend] worker_task_ok_in_progress [of t] by (simp add: task_ok_def)
  then have st: "fst (storeTask (setInProgressStatus t) ?tm) = [Call (Inr ())]"
    "writable P (snd (storeTask (setInProgressStatus t) ?tm))"
    using storeTask_writable [of P ?tm] w by simp_all
  then have run: "fst (onVerifyTask (JStr k) True tm) = [Call (Inr ())]"
    "writable P (snd (onVerifyTask (JStr k) True tm))"
    using pool by (simp_all add: onVerifyTask_def Let_def case_prod_beta)
  show "tm_rel (snd (onVerifyTask (JStr k) True tm)) (spec_verify k a)"
    using verify_refines [OF rel, of k "[Call (Inr ())]" "snd (onVerifyTask (JStr k) True tm)"] run(1) by (simp add: prod_eq_iff)
  show "writable P (snd (onVerifyTask (JStr k) True tm))" "fst (onVerifyTask (JStr k) True tm) = [Call (Inr ())]"
    by (rule run(2), rule run(1))
qed

lemma finish_writable:
  assumes rel: "tm_rel tm a" and w: "writable P tm" and k: "spPending a k = None" "rTaskId r = JStr k"
    and t: "spStored a k = Some t" "worker_task_ok t" "result_fits r t"
  shows "tm_rel (snd (onFinishTask r tm)) (spec_finish k r a)"
proof -
  let ?t = "setResult (Some r) t" and ?tm = "snd (deleteTask (JStr k) tm)"
  have ok: "task_ok ?t" using t worker_task_ok_setResult by (simp add: task_ok_def)
  note del = storeTask_writable(3,4) [OF w ok, of k]
  note st = storeTask_writable(1) [OF del(2) ok]
  have "fst (onFinishTask r tm) = [Call (Inr ())]"
    using readTask_eq [OF rel, of k] k t(1) isUnverifiedInPool_rel [OF rel, of "JStr k"] del(1) st
    by (simp add: onFinishTask_def Let_def case_prod_beta)
  then show ?thesis
    using finish_refines [OF rel k, of "[Call (Inr ())]" "snd (onFinishTask r tm)"] t by (simp add: prod_eq_iff)
qed

lemma set_verified_params_writable: "writable P (set_verified_params k v tm) = writable P tm"
  by (simp add: set_verified_params_def split: option.splits)

lemma requested_writable:
  assumes "writable P tm" "start_task type request = Inr (Some t)"
  shows "writable P (snd (startTaskExecution now type request tm))"
  using assms by (simp add: startTaskExecution_def addTaskUnverified_def)

text \<open>The stages of a task that goes through: pending, verified with its parameters, finished.\<close>

lemma verified_stage:
  assumes rel: "tm_rel tm a" and w: "writable P tm" and t: "worker_task_ok t" "spPending a (task_key t) = Some t"
    and eth: "teHasEthereum E" and key: "get_prop (fld (teRegParams E w) ''result'') ''signingKey'' = Inr key"
    and v: "teVerifyCreation E t key w = (Some (Inr v), w1)" "ckVerified (vdCheck v)" "ckError (vdCheck v) = None"
      "json_normal (vdGasLimit v)" "json_normal (vdBlockNumber v)"
  obtains tm' where "verifyNewTask E t tm w = (Some True, tm', w1)" "writable P tm'"
    "tm_rel tm' (spec_verify (task_key t) (spec_params (task_key t) v a))"
proof -
  let ?tm = "set_verified_params (JStr (task_key t)) v tm" and ?a = "spec_params (task_key t) v a"
  note id = worker_task_id [OF t(1)]
  have rel2: "tm_rel ?tm ?a" using params_refines [OF rel v(4,5)] .
  have pend: "spPending ?a (task_key t) = Some (setBlockNumber (vdBlockNumber v) (setGasLimit (vdGasLimit v) t))"
    using t(2) by (simp add: spec_params_def)
  have w2: "writable P ?tm" using w by (simp add: set_verified_params_writable)
  note ver = verify_writable [OF rel2 w2 pend]
  have "verifyNewTask E t tm w = (Some True, snd (onVerifyTask (JStr (task_key t)) True ?tm), w1)"
    using eth key v(1-3) id ver(3) by (simp add: verifyNewTask_def asyncOnVerifyTask_def case_prod_beta)
  then show thesis using that ver by blast
qed

lemma executed_stage:
  assumes rel: "tm_rel tm a" and w: "writable P tm" and t: "worker_task_ok t" "spPending a (task_key t) = None"
      "spStored a (task_key t) = Some t"
    and keys: "if is_deploy t then teStateKeys E (JArr [tkContractAddr t]) (tkBlockNumber t) w1 = (Some (Inr u), w2) else w2 = w1"
    and core: "toCoreJson t = Inr input"
      "teExchange E \<lparr>crId = JUndef, crType = tkType t, crInput = RawInput input\<rparr> w2 = (Some (JObj fs), w3)"
      "\<not> truthy (obj_get fs ''msg'')" "core_result t (JObj fs) = Inr (Some r)"
    and answer: "obj_get fs ''type'' \<in> {tkType t, T_Failed}" "obj_get fs ''result'' = JObj rs" "json_normal (JObj rs)"
  obtains tm' where "executeTask E t tm w1 = (tm', w3)" "tm_rel tm' (spec_finish (task_key t) r a)"
proof -
  note fits = core_result_fits [OF t(1) core(4) answer(2,3,1)]
  have id: "rTaskId r = JStr (task_key t)" using fits(2) worker_task_id [OF t(1)] by simp
  have "run_on_core E t tm w2 = (snd (onFinishTask r tm), w3)"
    using core by (simp add: run_on_core_def asyncOnFinishTask_def case_prod_beta)
  then have "executeTask E t tm w1 = (snd (onFinishTask r tm), w3)"
    using keys by (simp add: executeTask_def split: if_splits)
  then show thesis using that finish_writable [OF rel w t(2) id t(3,1) fits(1)] by blast
qed

text \<open>The task that a positive verdict leaves in the database, and the steps of one task.\<close>

definition verified_task :: "verdict \<Rightarrow> task \<Rightarrow> task" where
  "verified_task v t = setInProgressStatus (setBlockNumber (vdBlockNumber v) (setGasLimit (vdGasLimit v) t))"

definition life_of_task :: "int \<Rightarrow> json \<Rightarrow> json \<Rightarrow> ('s, 'w) worker \<Rightarrow> 'w worker_step list" where
  "life_of_task now type request s =
     (let n = length (tmEvents (wkTm s)); m = length (ptExecuted (wkPtt s)) in
      [Requested now type request, Notified n, Notified (n + 1), Executes m, Notified (n + 2)])"

lemma verified_task_simps [simp]:
  "tkId (verified_task v t) = tkId t" "tkType (verified_task v t) = tkType t" "task_key (verified_task v t) = task_key t"
  "tkContractAddr (verified_task v t) = tkContractAddr t" "tkBlockNumber (verified_task v t) = vdBlockNumber v"
  "is_deploy (verified_task v t) = is_deploy t"
  by (simp_all add: verified_task_def setStatus_def setBlockNumber_def setGasLimit_def task_key_def is_deploy_def)

lemma stages:
  assumes "spPending a (task_key t) = None"
  shows "spPending (spec_add t a) (task_key t) = Some t" "spLog (spec_add t a) = spLog a @ [VERIFY_NEW_TASK t]"
    "spPending (spec_verify (task_key t) (spec_params (task_key t) v (spec_add t a))) (task_key t) = None"
    "spStored (spec_verify (task_key t) (spec_params (task_key t) v (spec_add t a))) (task_key t) = Some (verified_task v t)"
    "spLog (spec_verify (task_key t) (spec_params (task_key t) v (spec_add t a))) =
       spLog a @ [VERIFY_NEW_TASK t, TASK_VERIFIED (verified_task v t)]"
  using assms by (simp_all add: spec_add_def spec_params_def spec_verify_def verified_task_def)

lemma spec_finish_log: "spStored a k = Some t \<Longrightarrow> spLog (spec_finish k r a) = spLog a @ [TASK_FINISHED (setResult (Some r) t)]"
  by (simp add: spec_finish_def)

lemma last_event:
  "tm_rel tm a \<Longrightarrow> spLog a = ns @ [n] \<Longrightarrow> length (tmEvents tm) = Suc (length ns) \<and> tmEvents tm ! length ns = n"
  using tm_relD(7) [of tm a] by (metis length_append_singleton nth_append_length)

lemma handled_now: "\<not> isInPTT p \<Longrightarrow> handleVerifiedTask t p = p\<lparr>ptExecuted := ptExecuted p @ [t]\<rparr>"
  by (simp add: handleVerifiedTask_def)

section \<open>Properties\<close>

text \<open>
  C15: a worker publishes results only of tasks that were requested and that the verifier approved.
  Whatever the order of requests, notifications, executions and transfers of keys, whatever changes
  outside between them and whichever writes fail: a published result is that of a task some user
  asked for, it carries the id of this task and is of its class, and at an earlier step the task
  was announced for verification and approved.
\<close>

theorem published_was_verified:
  assumes "env_ok E L" "steps_ok sts" "t \<in> set (wkPublished (run_worker E L path dbPath w sts))"
  shows "\<exists>r before n after u.
    origin t \<in> set (asked sts) \<and> tkResult t = Some r \<and> rTaskId r = tkId t \<and> worker_task_ok t \<and>
    sts = before @ Notified n # after \<and>
    n < length (tmEvents (wkTm (run_worker E L path dbPath w before))) \<and>
    tmEvents (wkTm (run_worker E L path dbPath w before)) ! n = VERIFY_NEW_TASK u \<and> origin u = origin t \<and>
    approved E u (wkWorld (run_worker E L path dbPath w before))"
proof -
  let ?s = "run_worker E L path dbPath w sts"
  have "completed (set (asked sts)) (set (wkVerified ?s)) t"
    using run_worker_inv [OF assms(2), of E L path dbPath w] assms(1,3) by (simp add: worker_inv_def)
  then obtain r u where t: "worker_task_ok t" "origin t \<in> set (asked sts)" "tkResult t = Some r"
    "u \<in> set (wkVerified ?s)" "origin u = origin t"
    by (auto simp: completed_def cleared_def requested_def)
  have "rTaskId r = tkId t" using t(1,3) by (simp add: worker_task_ok_def finished_ok_def)
  with t show ?thesis using verified_when [OF t(4)] by metis
qed

text \<open>A worker with a verifier that approves and a core that answers with the type of the task.\<close>

definition ex_wenv :: "nat task_env" where
  "ex_wenv = ex_tenv\<lparr>
     teVerifyCreation := (\<lambda>t k w. (Some (Inr \<lparr>vdCheck = \<lparr>ckVerified = True, ckError = None\<rparr>,
        vdGasLimit = JNum 100, vdBlockNumber = JNum 7\<rparr>), w)),
     teExchange := (\<lambda>r w. (Some (JObj [(''type'', crType r), (''status'', JNum 0),
        (''result'', resultToDbJson ex_result)]), w + 1))\<rparr>"

definition ex_request :: json where
  "ex_request = JObj [(''taskId'', JStr ''0xab12''), (''encryptedArgs'', JStr ''3cf8''), (''encryptedFn'', JStr ''5a5b''),
     (''userDHKey'', JStr ''04b1''), (''contractAddress'', JStr ''4409'')]"

definition ex_steps :: "nat worker_step list" where
  "ex_steps = [Requested 10 T_Compute ex_request, Notified 0, Notified 1, Executes 0, Notified 2]"

lemma ex_env_ok: "env_ok ex_wenv mem_level"
proof -
  have "json_normal (resultToDbJson ex_result)" by code_simp
  moreover obtain rs where "resultToDbJson ex_result = JObj rs" by (simp add: ex_result_def)
  ultimately have "answer_ok type (JObj [(''type'', type), (''status'', JNum 0), (''result'', resultToDbJson ex_result)])" for type
    unfolding answer_ok_def by (intro disjI2 exI) (auto simp: obj_get_def)
  then have "core_ok ex_wenv" by (auto simp: core_ok_def ex_wenv_def)
  then show ?thesis
    by (simp add: env_ok_def level_ok_mem verdicts_ok_def ex_wenv_def) (simp add: mem_level_def)
qed

lemma ex_steps_ok: "steps_ok ex_steps"
proof -
  have "asked ex_steps = [origin ex_task]" by code_simp
  moreover have "worker_task_ok (origin ex_task)" by code_simp
  ultimately show ?thesis by (simp add: steps_ok_def ex_steps_def)
qed

theorem published_was_verified_witness:
  "\<exists>t r. wkPublished (run_worker ex_wenv mem_level ''tasks_db'' JUndef 3 ex_steps) = [t] \<and>
     tkResult t = Some r \<and> rTaskId r = tkId t \<and> origin t \<in> set (asked ex_steps)"
proof -
  let ?s = "run_worker ex_wenv mem_level ''tasks_db'' JUndef 3 ex_steps"
  have "map tkId (wkPublished ?s) = [JStr ''ab12'']" by code_simp
  then obtain t where t: "wkPublished ?s = [t]" by auto
  then have "t \<in> set (wkPublished ?s)" by simp
  then show ?thesis
    using published_was_verified [OF ex_env_ok ex_steps_ok] t by blast
qed

text \<open>
  C16: a requested task completes. When the database can be written and no transfer of keys is in
  progress, a well-formed request of an id that does not wait yet is verified, executed and
  published: if the verifier approves it, the keys of a deployment arrive and core answers with
  its type or a failure, then what the worker publishes is this task with the gas limit
  and block number of the verdict and the result built from core's answer.
\<close>

theorem requested_task_completes:
  assumes rel: "tm_rel (wkTm s) a" and db: "writable P (wkTm s)" and ptt: "\<not> isInPTT (wkPtt s)"
    and t: "start_task type request = Inr (Some t)" "worker_task_ok t" "spPending a (task_key t) = None"
    and eth: "teHasEthereum E" and key: "get_prop (fld (teRegParams E (wkWorld s)) ''result'') ''signingKey'' = Inr key"
    and v: "teVerifyCreation E t key (wkWorld s) = (Some (Inr v), w1)" "ckVerified (vdCheck v)" "ckError (vdCheck v) = None"
      "json_normal (vdGasLimit v)" "json_normal (vdBlockNumber v)"
    and keys: "if is_deploy t then teStateKeys E (JArr [tkContractAddr t]) (vdBlockNumber v) w1 = (Some (Inr u), w2) else w2 = w1"
    and core: "toCoreJson (verified_task v t) = Inr input"
      "teExchange E \<lparr>crId = JUndef, crType = tkType t, crInput = RawInput input\<rparr> w2 = (Some (JObj fs), w3)"
      "\<not> truthy (obj_get fs ''msg'')" "core_result (verified_task v t) (JObj fs) = Inr (Some r)"
    and answer: "obj_get fs ''type'' \<in> {tkType t, T_Failed}" "obj_get fs ''result'' = JObj rs" "json_normal (JObj rs)"
  shows "wkPublished (foldl (\<lambda>s st. do_worker E st s) s (life_of_task now type request s)) =
      wkPublished s @ [setResult (Some r) (verified_task v t)] \<and>
    wkWorld (foldl (\<lambda>s st. do_worker E st s) s (life_of_task now type request s)) =
      publishTaskResult E (setResult (Some r) (verified_task v t)) w3"
proof -
  let ?n = "length (spLog a)" and ?k = "task_key t" and ?t = "verified_task v t"
  let ?tm1 = "snd (startTaskExecution now type request (wkTm s))"
  let ?a2 = "spec_verify ?k (spec_params ?k v (spec_add t a))"
  note rel1 = start_pooled [OF rel t(1,2), of now] and log = stages [OF t(3)]
  obtain tm2 where tm2: "verifyNewTask E t ?tm1 (wkWorld s) = (Some True, tm2, w1)" "writable P tm2"
    "tm_rel tm2 ?a2"
    by (rule verified_stage [OF rel1 requested_writable [OF db t(1)] t(2) log(1) eth key v])
  have ok: "worker_task_ok ?t"
    using t(2) start_task_Some(3) [OF t(1)] worker_task_ok_params [of t, OF _ v(4,5)]
      worker_task_ok_in_progress by (simp add: verified_task_def setBlockNumber_def setGasLimit_def)
  have keys2: "if is_deploy ?t then teStateKeys E (JArr [tkContractAddr ?t]) (tkBlockNumber ?t) w1 = (Some (Inr u), w2) else w2 = w1"
    using keys by simp
  have core2: "teExchange E \<lparr>crId = JUndef, crType = tkType ?t, crInput = RawInput input\<rparr> w2 = (Some (JObj fs), w3)"
    "obj_get fs ''type'' \<in> {tkType ?t, T_Failed}"
    using core(2) answer(1) by simp_all
  have found: "spPending ?a2 (task_key ?t) = None" "spStored ?a2 (task_key ?t) = Some ?t"
    using log(3,4) by simp_all
  obtain tm3 where tm3: "executeTask E ?t tm2 w1 = (tm3, w3)" "tm_rel tm3 (spec_finish (task_key ?t) r ?a2)"
    by (rule executed_stage [OF tm2(3,2) ok found keys2 core(1) core2(1) core(3,4) core2(2) answer(2,3)])
  have n: "length (tmEvents (wkTm s)) = ?n" using tm_relD(7) [OF rel] by simp
  have e1: "length (tmEvents ?tm1) = Suc ?n \<and> tmEvents ?tm1 ! ?n = VERIFY_NEW_TASK t"
    using last_event [OF rel1 log(2)] .
  have e2: "length (tmEvents tm2) = Suc (Suc ?n) \<and> tmEvents tm2 ! Suc ?n = TASK_VERIFIED ?t"
    using last_event [OF tm2(3), of "spLog a @ [VERIFY_NEW_TASK t]"] log(5) by simp
  have e3: "length (tmEvents tm3) = Suc (Suc (Suc ?n)) \<and> tmEvents tm3 ! Suc (Suc ?n) = TASK_FINISHED (setResult (Some r) ?t)"
    using last_event [OF tm3(2) spec_finish_log [OF found(2)]] log(5) by simp
  show ?thesis
    using n e1 e2 e3 tm2(1) tm3(1) ptt
    by (simp add: life_of_task_def Let_def on_notification_def on_execute_def handled_now)
qed

theorem requested_task_completes_witness:
  "wkPublished (foldl (\<lambda>s st. do_worker ex_wenv st s) (Worker mem_level ''tasks_db'' JUndef 3)
      (life_of_task 10 T_Compute ex_request (Worker mem_level ''tasks_db'' JUndef 3))) =
     [setResult (Some ex_result) (setInProgressStatus ex_task)]"
proof -
  let ?s = "Worker mem_level ''tasks_db'' JUndef (3 :: nat)"
  let ?t = "origin ex_task" and ?v = "\<lparr>vdCheck = \<lparr>ckVerified = True, ckError = None\<rparr>, vdGasLimit = JNum 100, vdBlockNumber = JNum 7\<rparr>"
  let ?fs = "[(''type'', T_Compute), (''status'', JNum 0), (''result'', resultToDbJson ex_result)]"
  obtain rs where rs: "resultToDbJson ex_result = JObj rs" by (simp add: ex_result_def)
  have n: "json_normal (JObj rs)" unfolding rs [symmetric] by code_simp
  have db: "writable (\<lambda>d. \<not> msReadOnly d) (wkTm ?s)"
    by (simp add: writable_def stays_writable_def Worker_def TaskManager_def db_open_def LevelDbApi_def mem_level_def
        mem_put_def mem_del_def)
  have rel: "tm_rel (wkTm ?s) spec_init" using ex_tm_rel by (simp add: Worker_def ex_tm_def)
  have t: "start_task T_Compute ex_request = Inr (Some ?t)" "worker_task_ok ?t" by code_simp+
  have vt: "verified_task ?v ?t = setInProgressStatus ex_task" "tkType ?t = T_Compute" "\<not> is_deploy ?t" by code_simp+
  have r: "core_result (setInProgressStatus ex_task) (JObj ?fs) = Inr (Some ex_result)" by code_simp
  show ?thesis
    using requested_task_completes [OF rel db _ t, of ex_wenv "JStr ''aa''" ?v 3 "()" 3 _ ?fs 4 ex_result rs 10] vt r rs n ex_core_input
    by (simp add: Worker_def PrincipalNode_def spec_init_def ex_wenv_def ex_tenv_def obj_get_def)
qed

end
