(* ===== verification/Runtime_Bus.thy ===== *)
theory Runtime_Bus
  imports Core_Channel
begin

text \<open>
  The main controller that connects the runtimes: \<open>main_controller/channels/Communicator.js\<close> and
  \<open>Channel.js\<close>, \<open>main_controller/MainController.js\<close> with its actions, and
  \<open>FacadeController.js\<close>. A channel is an index into the started runtimes and has two ends; the
  listeners of its event emitters, the promises and the continuations that wait for them are the
  state of \<open>bus\<close>, and every entry from outside is a step.
\<close>

section \<open>Channels\<close>

text \<open>
  The two ends of a channel: \<open>Own\<close> is the communicator the main controller keeps, \<open>Far\<close> the one
  the runtime gets. A listener sits at the end whose \<open>send\<close> or \<open>sendAndReceive\<close> fires it.
\<close>

datatype side = Own | Far

type_synonym comm = "nat \<times> side"

datatype listener = OnMessage | Resolve nat

text \<open>
  The promise of \<open>sendAndReceive\<close>: asked by a runtime, or asked by an action of the main
  controller with a continuation that sends the response to the runtime that asked first.
\<close>

datatype promise = Asked nat envelop | Forwarded nat nat envelop

fun promise_env :: "promise \<Rightarrow> envelop" where
  "promise_env (Asked n e) = e"
| "promise_env (Forwarded n k e) = e"

fun promise_at :: "promise \<Rightarrow> comm" where
  "promise_at (Asked n e) = (n, Own)"
| "promise_at (Forwarded n k e) = (k, Far)"

record bus =
  bsTypes :: "string list"
  bsListen :: "(comm \<times> string \<times> listener) list"
  bsPromises :: "promise list"
  bsSettled :: "(nat \<times> envelop js) list"
  bsQueue :: "(nat \<times> envelop) list"
  bsSeen :: "(nat \<times> envelop) list"

definition env_key :: "envelop \<Rightarrow> string" where
  "env_key e = js_key (envId e)"

definition comm_on :: "comm \<Rightarrow> string \<Rightarrow> listener \<Rightarrow> bus \<Rightarrow> bus" where
  "comm_on c ev l s = s\<lparr>bsListen := bsListen s @ [(c, ev, l)]\<rparr>"

definition listeners :: "bus \<Rightarrow> comm \<Rightarrow> string \<Rightarrow> listener list" where
  "listeners s c ev = map (snd \<circ> snd) (filter (\<lambda>x. fst x = c \<and> fst (snd x) = ev) (bsListen s))"

text \<open>
  Settling a promise: only the first time counts. The continuation of a forwarded promise is
  queued as a microtask.
\<close>

definition bus_settle :: "nat \<Rightarrow> envelop js \<Rightarrow> bus \<Rightarrow> bus" where
  "bus_settle p r s =
     (if p \<in> fst ` set (bsSettled s) then s
      else
        (let s = s\<lparr>bsSettled := bsSettled s @ [(p, r)]\<rparr> in
         case (bsPromises s ! p, r) of
           (Forwarded n k e, Inr env) \<Rightarrow> s\<lparr>bsQueue := bsQueue s @ [(n, env)]\<rparr>
         | _ \<Rightarrow> s))"

text \<open>Events at the end of the main controller reach the runtime, or a waiting promise.\<close>

definition emit_own :: "nat \<Rightarrow> string \<Rightarrow> envelop \<Rightarrow> bus \<Rightarrow> bus" where
  "emit_own n ev env s =
     foldl (\<lambda>s l. case l of
        OnMessage \<Rightarrow> s\<lparr>bsSeen := bsSeen s @ [(n, env)]\<rparr>
      | Resolve p \<Rightarrow> bus_settle p (Inr env) s) s (listeners s (n, Own) ev)"

text \<open>\<open>send\<close> emits the event of the id, if there is one; \<open>''m''\<close> is the event of plain messages.\<close>

definition send_event :: "envelop \<Rightarrow> string" where
  "send_event env = (if truthy (envId env) then env_key env else ''m'')"

definition own_send :: "nat \<Rightarrow> envelop \<Rightarrow> bus \<Rightarrow> bus" where
  "own_send n env s = emit_own n (send_event env) env s"

text \<open>\<open>sendAndReceive\<close> of the main controller to channel \<open>k\<close>, on behalf of runtime \<open>n\<close>.\<close>

definition own_sendAndReceive :: "nat \<Rightarrow> nat \<Rightarrow> envelop \<Rightarrow> bus \<Rightarrow> bus" where
  "own_sendAndReceive n k env s =
     (let p = length (bsPromises s);
          s = s\<lparr>bsPromises := bsPromises s @ [Forwarded n k env]\<rparr>;
          s = comm_on (k, Far) (env_key env) (Resolve p) s in
      emit_own k ''m'' env s)"

text \<open>\<open>_communicators[type]\<close>: the last runtime of a type.\<close>

definition getCommunicator :: "string \<Rightarrow> bus \<Rightarrow> nat option" where
  "getCommunicator t s =
     map_of (rev (zip (bsTypes s) [0..<length (bsTypes s)])) t"

section \<open>The actions of the main controller\<close>

text \<open>Without a node, \<open>ProxyAction\<close> throws; without core, \<open>DbAction\<close> drops the request.\<close>

definition proxyAction :: "nat \<Rightarrow> envelop \<Rightarrow> bus \<Rightarrow> js_error option \<times> bus" where
  "proxyAction n env s =
     (if truthy (envId env) then
        (case getCommunicator ''node'' s of
           None \<Rightarrow> (Some JsTypeError, s)
         | Some k \<Rightarrow> (None, own_sendAndReceive n k env s))
      else (None, s))"

definition dbAction :: "nat \<Rightarrow> envelop \<Rightarrow> bus \<Rightarrow> js_error option \<times> bus" where
  "dbAction n env s =
     (if truthy (envId env) then
        (case getCommunicator ''core'' s of
           None \<Rightarrow> (None, s)
         | Some k \<Rightarrow> (None, own_sendAndReceive n k env s))
      else (None, s))"

definition dummyAction :: "string \<Rightarrow> string \<Rightarrow> nat \<Rightarrow> envelop \<Rightarrow> bus \<Rightarrow> js_error option \<times> bus" where
  "dummyAction rid rid' n env s =
     (if truthy (envId env) then
        (case Envelop rid rid' (envId env) (JObj [(''response'', JStr ''some response data'')]) (JStr ''dummy'') of
           Inl e \<Rightarrow> (Some e, s)
         | Inr resEnv \<Rightarrow> (None, own_send n resEnv s))
      else (None, s))"

text \<open>What \<open>thisCommunicator.setOnMessage\<close> runs. A type without an action is ignored.\<close>

definition main_action :: "string \<Rightarrow> string \<Rightarrow> nat \<Rightarrow> envelop \<Rightarrow> bus \<Rightarrow> js_error option \<times> bus" where
  "main_action rid rid' n env s =
     (let t = js_key (envType env) in
      if t = ''dummy'' then dummyAction rid rid' n env s
      else if t = ''proxy'' then proxyAction n env s
      else if t = ''dbreq'' then dbAction n env s
      else (None, s))"

text \<open>
  Events at the end of a runtime. A listener that throws ends the emission and the exception goes
  to the caller.
\<close>

fun run_far :: "string \<Rightarrow> string \<Rightarrow> nat \<Rightarrow> envelop \<Rightarrow> listener list \<Rightarrow> bus \<Rightarrow> js_error option \<times> bus" where
  "run_far rid rid' n env [] s = (None, s)"
| "run_far rid rid' n env (l # ls) s =
     (case (case l of OnMessage \<Rightarrow> main_action rid rid' n env s | Resolve p \<Rightarrow> (None, bus_settle p (Inr env) s)) of
        (Some e, s) \<Rightarrow> (Some e, s)
      | (None, s) \<Rightarrow> run_far rid rid' n env ls s)"

definition emit_far :: "string \<Rightarrow> string \<Rightarrow> nat \<Rightarrow> string \<Rightarrow> envelop \<Rightarrow> bus \<Rightarrow> js_error option \<times> bus" where
  "emit_far rid rid' n ev env s = run_far rid rid' n env (listeners s (n, Far) ev) s"

text \<open>\<open>send\<close> of a runtime, also the way it answers; an exception goes to the runtime.\<close>

definition far_send :: "string \<Rightarrow> string \<Rightarrow> nat \<Rightarrow> envelop \<Rightarrow> bus \<Rightarrow> bus" where
  "far_send rid rid' n env s = snd (emit_far rid rid' n (send_event env) env s)"

text \<open>\<open>sendAndReceive\<close> of a runtime: an exception of the emission rejects the promise.\<close>

definition far_sendAndReceive :: "string \<Rightarrow> string \<Rightarrow> nat \<Rightarrow> envelop \<Rightarrow> bus \<Rightarrow> bus" where
  "far_sendAndReceive rid rid' n env s =
     (let p = length (bsPromises s);
          s = s\<lparr>bsPromises := bsPromises s @ [Asked n env]\<rparr>;
          s = comm_on (n, Own) (env_key env) (Resolve p) s in
      case emit_far rid rid' n ''m'' env s of
        (Some e, s) \<Rightarrow> bus_settle p (Inl e) s
      | (None, s) \<Rightarrow> s)"

section \<open>The start of the controller\<close>

text \<open>
  \<open>start\<close>: \<open>setChannel\<close> registers the handler of the runtime, except for the JSON-RPC server,
  which has none; then the main controller registers its own.
\<close>

definition startRuntime :: "bus \<Rightarrow> string \<Rightarrow> bus" where
  "startRuntime s t =
     (let n = length (bsTypes s);
          s = s\<lparr>bsTypes := bsTypes s @ [t]\<rparr>;
          s = (if t = ''jsonRpc'' then s else comm_on (n, Own) ''m'' OnMessage s) in
      comm_on (n, Far) ''m'' OnMessage s)"

definition MainController :: bus where
  "MainController = \<lparr>bsTypes = [], bsListen = [], bsPromises = [], bsSettled = [], bsQueue = [], bsSeen = []\<rparr>"

definition bus_start :: "string list \<Rightarrow> bus" where
  "bus_start runtimes = foldl startRuntime MainController runtimes"

text \<open>The continuation of a forwarded promise.\<close>

definition bus_continue :: "bus \<Rightarrow> bus" where
  "bus_continue s =
     (case bsQueue s of
        [] \<Rightarrow> s
      | (n, env) # q \<Rightarrow> own_send n env (s\<lparr>bsQueue := q\<rparr>))"

text \<open>
  The steps: a runtime asks, a runtime sends, a queued continuation runs. The random ids that
  \<open>DummyAction\<close> would draw are part of the step.
\<close>

datatype bus_step = Ask nat envelop string string | Reply nat envelop string string | Continue

fun bus_do :: "bus_step \<Rightarrow> bus \<Rightarrow> bus" where
  "bus_do (Ask n env rid rid') s = (if n < length (bsTypes s) then far_sendAndReceive rid rid' n env s else s)"
| "bus_do (Reply n env rid rid') s = (if n < length (bsTypes s) then far_send rid rid' n env s else s)"
| "bus_do Continue s = bus_continue s"

definition bus_run :: "string list \<Rightarrow> bus_step list \<Rightarrow> bus" where
  "bus_run runtimes steps = foldl (\<lambda>s x. bus_do x s) (bus_start runtimes) steps"

section \<open>The facade\<close>

text \<open>
  \<open>FacadeController\<close>: the runtimes by type. \<open>shutdownSystem\<close> lists what it closes, in order; it
  throws when there is no core, before the node is stopped.
\<close>

definition runtimesMap :: "string list \<Rightarrow> string \<Rightarrow> nat option" where
  "runtimesMap runtimes t = map_of (rev (zip runtimes [0..<length runtimes])) t"

datatype shutdown = CloseRpc nat | DisconnectCore nat | StopNode nat

definition shutdownSystem :: "string list \<Rightarrow> shutdown list \<times> js_error option" where
  "shutdownSystem runtimes =
     (let rpc = (case runtimesMap runtimes ''jsonRpc'' of Some k \<Rightarrow> [CloseRpc k] | None \<Rightarrow> []) in
      case runtimesMap runtimes ''core'' of
        None \<Rightarrow> (rpc, Some JsTypeError)
      | Some c \<Rightarrow>
          (case runtimesMap runtimes ''node'' of
             None \<Rightarrow> (rpc @ [DisconnectCore c], Some JsTypeError)
           | Some n \<Rightarrow> (rpc @ [DisconnectCore c, StopNode n], None)))"

section \<open>How the state evolves\<close>

text \<open>
  Ids are as \<open>Envelop\<close> makes them, a string or \<open>false\<close>, and no id is the name of the event of
  plain messages.
\<close>

definition env_ok :: "envelop \<Rightarrow> bool" where
  "env_ok e = (case envId e of JStr i \<Rightarrow> i \<noteq> ''m'' | JBool b \<Rightarrow> \<not> b | _ \<Rightarrow> False)"

lemma env_ok_key: "env_ok e \<Longrightarrow> env_key e \<noteq> ''m''"
  by (auto simp: env_ok_def env_key_def split: json.splits)

lemma env_ok_truthy: "env_ok e \<Longrightarrow> truthy (envId e) \<Longrightarrow> \<exists>i. envId e = JStr i \<and> i \<noteq> [] \<and> i \<noteq> ''m''"
  by (auto simp: env_ok_def split: json.splits)

lemma Envelop_ok:
  "Envelop rid rid' i obj t = Inr e \<Longrightarrow> rid \<noteq> ''m'' \<Longrightarrow> i \<noteq> JStr ''m'' \<Longrightarrow> env_ok e"
  by (cases i) (auto simp: Envelop_def Let_def env_ok_def bindE_eq_Inr split: if_splits)

text \<open>The promises that wait at an end for an id.\<close>

definition waiting :: "bus \<Rightarrow> comm \<Rightarrow> string \<Rightarrow> nat list" where
  "waiting s c ev = concat (map (\<lambda>l. case l of Resolve p \<Rightarrow> [p] | OnMessage \<Rightarrow> []) (listeners s c ev))"

definition settle_all :: "nat list \<Rightarrow> envelop \<Rightarrow> bus \<Rightarrow> bus" where
  "settle_all ps r s = foldl (\<lambda>s p. bus_settle p (Inr r) s) s ps"

lemma settle_all_simps [simp]:
  "settle_all [] r s = s" "settle_all (p # ps) r s = settle_all ps r (bus_settle p (Inr r) s)"
  by (simp_all add: settle_all_def)

lemma bus_settle_frame [simp]:
  "bsTypes (bus_settle p r s) = bsTypes s" "bsListen (bus_settle p r s) = bsListen s"
  "bsPromises (bus_settle p r s) = bsPromises s" "bsSeen (bus_settle p r s) = bsSeen s"
  by (auto simp: bus_settle_def Let_def split: promise.splits sum.splits)

lemma settle_all_frame [simp]:
  "bsTypes (settle_all ps r s) = bsTypes s" "bsListen (settle_all ps r s) = bsListen s"
  "bsPromises (settle_all ps r s) = bsPromises s" "bsSeen (settle_all ps r s) = bsSeen s"
  by (induction ps arbitrary: s) simp_all

lemma comm_on_frame [simp]:
  "bsTypes (comm_on c ev l s) = bsTypes s" "bsPromises (comm_on c ev l s) = bsPromises s"
  "bsSettled (comm_on c ev l s) = bsSettled s" "bsQueue (comm_on c ev l s) = bsQueue s"
  "bsSeen (comm_on c ev l s) = bsSeen s"
  "bsListen (comm_on c ev l s) = bsListen s @ [(c, ev, l)]"
  by (simp_all add: comm_on_def)

lemma listeners_comm_on [simp]:
  "listeners (comm_on c ev l s) c' ev' = listeners s c' ev' @ (if c' = c \<and> ev' = ev then [l] else [])"
  by (auto simp: listeners_def comm_on_def)

lemma listeners_frame: "bsListen s' = bsListen s \<Longrightarrow> listeners s' = listeners s"
  by (simp add: listeners_def fun_eq_iff)

lemma listeners_set: "l \<in> set (listeners s c ev) \<longleftrightarrow> (c, ev, l) \<in> set (bsListen s)"
  by (cases c) (auto simp: listeners_def image_iff Bex_def)

lemma waiting_set: "p \<in> set (waiting s c ev) \<longleftrightarrow> (c, ev, Resolve p) \<in> set (bsListen s)"
  by (auto simp: waiting_def listeners_set [symmetric] split: listener.splits)

text \<open>
  Emissions. When only promises listen to an event, the emission settles them; the event of plain
  messages has the one listener that the start registered.
\<close>

lemma emit_own_id: "OnMessage \<notin> set (listeners s (n, Own) ev) \<Longrightarrow> emit_own n ev env s = settle_all (waiting s (n, Own) ev) env s"
proof -
  have "foldl (\<lambda>s l. case l of OnMessage \<Rightarrow> s\<lparr>bsSeen := bsSeen s @ [(n, env)]\<rparr> | Resolve p \<Rightarrow> bus_settle p (Inr env) s) t ls
      = settle_all (concat (map (\<lambda>l. case l of Resolve p \<Rightarrow> [p] | OnMessage \<Rightarrow> []) ls)) env t"
    if "OnMessage \<notin> set ls" for ls and t :: bus
    using that by (induction ls arbitrary: t) (auto split: listener.splits)
  then show "OnMessage \<notin> set (listeners s (n, Own) ev) \<Longrightarrow> ?thesis" by (simp add: emit_own_def waiting_def)
qed

lemma emit_far_id:
  "OnMessage \<notin> set (listeners s (n, Far) ev) \<Longrightarrow>
     emit_far rid rid' n ev env s = (None, settle_all (waiting s (n, Far) ev) env s)"
proof -
  have "run_far rid rid' n env ls t = (None, settle_all (concat (map (\<lambda>l. case l of Resolve p \<Rightarrow> [p] | OnMessage \<Rightarrow> []) ls)) env t)"
    if "OnMessage \<notin> set ls" for ls and t :: bus
    using that by (induction ls arbitrary: t) (auto split: listener.splits)
  then show "OnMessage \<notin> set (listeners s (n, Far) ev) \<Longrightarrow> ?thesis" by (simp add: emit_far_def waiting_def)
qed

section \<open>The invariant\<close>

text \<open>
  The target of a message at the main controller, and where a response comes from: the asks and
  replies so far are \<open>A\<close> and \<open>R\<close>.
\<close>

definition bus_target :: "string list \<Rightarrow> envelop \<Rightarrow> nat option" where
  "bus_target types e =
     (if js_key (envType e) = ''proxy'' then runtimesMap types ''node''
      else if js_key (envType e) = ''dbreq'' then runtimesMap types ''core'' else None)"

lemma getCommunicator_map: "getCommunicator t s = runtimesMap (bsTypes s) t"
  by (simp add: getCommunicator_def runtimesMap_def)

definition replied :: "string list \<Rightarrow> (nat \<times> envelop) set \<Rightarrow> (nat \<times> envelop) set \<Rightarrow> nat \<Rightarrow> envelop \<Rightarrow> bool" where
  "replied types A R n r \<longleftrightarrow>
     (\<exists>k e. (n, e) \<in> A \<and> (k, r) \<in> R \<and> env_key e = env_key r \<and> bus_target types e = Some k)"

definition dummied :: "(nat \<times> envelop) set \<Rightarrow> nat \<Rightarrow> envelop \<Rightarrow> bool" where
  "dummied A n r \<longleftrightarrow>
     envType r = JStr ''dummy'' \<and> (\<exists>e. (n, e) \<in> A \<and> env_key e = env_key r \<and> js_key (envType e) = ''dummy'')"

fun provenance :: "string list \<Rightarrow> (nat \<times> envelop) set \<Rightarrow> (nat \<times> envelop) set \<Rightarrow> promise \<Rightarrow> envelop \<Rightarrow> bool" where
  "provenance types A R (Asked n e) r = (replied types A R n r \<or> dummied A n r)"
| "provenance types A R (Forwarded n k e) r = replied types A R n r"

fun promise_ok :: "string list \<Rightarrow> (nat \<times> envelop) set \<Rightarrow> promise \<Rightarrow> bool" where
  "promise_ok types A (Asked n e) \<longleftrightarrow> (n, e) \<in> A"
| "promise_ok types A (Forwarded n k e) \<longleftrightarrow> (n, e) \<in> A \<and> bus_target types e = Some k"

definition listen_ok :: "bus \<Rightarrow> comm \<times> string \<times> listener \<Rightarrow> bool" where
  "listen_ok s x =
     (case x of
        (c, ev, OnMessage) \<Rightarrow> ev = ''m''
      | (c, ev, Resolve p) \<Rightarrow> p < length (bsPromises s) \<and> promise_at (bsPromises s ! p) = c \<and>
          env_key (promise_env (bsPromises s ! p)) = ev \<and> ev \<noteq> ''m'')"

definition bus_inv :: "(nat \<times> envelop) set \<Rightarrow> (nat \<times> envelop) set \<Rightarrow> bus \<Rightarrow> bool" where
  "bus_inv A R s \<longleftrightarrow>
     Ball (set (bsListen s)) (listen_ok s) \<and>
     (\<forall>q \<in> set (bsPromises s). promise_ok (bsTypes s) A q) \<and>
     distinct (map fst (bsSettled s)) \<and>
     (\<forall>(p, r) \<in> set (bsSettled s). p < length (bsPromises s) \<and>
        (case r of Inl e \<Rightarrow> True
         | Inr r \<Rightarrow> env_key r = env_key (promise_env (bsPromises s ! p)) \<and>
             provenance (bsTypes s) A R (bsPromises s ! p) r)) \<and>
     (\<forall>(n, r) \<in> set (bsQueue s). env_ok r \<and> truthy (envId r) \<and> replied (bsTypes s) A R n r) \<and>
     (\<forall>n < length (bsTypes s). listeners s (n, Far) ''m'' = [OnMessage] \<and>
        listeners s (n, Own) ''m'' = (if bsTypes s ! n = ''jsonRpc'' then [] else [OnMessage]))"

lemma bus_invI:
  assumes "\<And>x. x \<in> set (bsListen s) \<Longrightarrow> listen_ok s x"
    and "\<And>q. q \<in> set (bsPromises s) \<Longrightarrow> promise_ok (bsTypes s) A q"
    and "distinct (map fst (bsSettled s))"
    and "\<And>p r. (p, r) \<in> set (bsSettled s) \<Longrightarrow> p < length (bsPromises s)"
    and "\<And>p r. (p, Inr r) \<in> set (bsSettled s) \<Longrightarrow> env_key r = env_key (promise_env (bsPromises s ! p)) \<and>
      provenance (bsTypes s) A R (bsPromises s ! p) r"
    and "\<And>n r. (n, r) \<in> set (bsQueue s) \<Longrightarrow> env_ok r \<and> truthy (envId r) \<and> replied (bsTypes s) A R n r"
    and "\<And>n. n < length (bsTypes s) \<Longrightarrow> listeners s (n, Far) ''m'' = [OnMessage] \<and>
      listeners s (n, Own) ''m'' = (if bsTypes s ! n = ''jsonRpc'' then [] else [OnMessage])"
  shows "bus_inv A R s"
  unfolding bus_inv_def
proof (intro conjI)
  show "\<forall>(p, r) \<in> set (bsSettled s). p < length (bsPromises s) \<and>
        (case r of Inl e \<Rightarrow> True
         | Inr r \<Rightarrow> env_key r = env_key (promise_env (bsPromises s ! p)) \<and>
             provenance (bsTypes s) A R (bsPromises s ! p) r)"
    using assms(4,5) by (auto split: sum.splits)
  show "\<forall>(n, r) \<in> set (bsQueue s). env_ok r \<and> truthy (envId r) \<and> replied (bsTypes s) A R n r"
    using assms(6) by blast
qed (use assms(1-3,7) in blast)+

lemma bus_invD:
  assumes "bus_inv A R s"
  shows "\<And>x. x \<in> set (bsListen s) \<Longrightarrow> listen_ok s x"
    and "\<And>q. q \<in> set (bsPromises s) \<Longrightarrow> promise_ok (bsTypes s) A q"
    and "distinct (map fst (bsSettled s))"
    and "\<And>p r. (p, r) \<in> set (bsSettled s) \<Longrightarrow> p < length (bsPromises s)"
    and "\<And>p r. (p, Inr r) \<in> set (bsSettled s) \<Longrightarrow> env_key r = env_key (promise_env (bsPromises s ! p)) \<and>
      provenance (bsTypes s) A R (bsPromises s ! p) r"
    and "\<And>n r. (n, r) \<in> set (bsQueue s) \<Longrightarrow> env_ok r \<and> truthy (envId r) \<and> replied (bsTypes s) A R n r"
    and "\<And>n. n < length (bsTypes s) \<Longrightarrow> listeners s (n, Far) ''m'' = [OnMessage] \<and>
      listeners s (n, Own) ''m'' = (if bsTypes s ! n = ''jsonRpc'' then [] else [OnMessage])"
  using assms unfolding bus_inv_def by (fastforce split: sum.splits)+

lemma replied_mono: "replied ts A R n r \<Longrightarrow> A \<subseteq> A' \<Longrightarrow> R \<subseteq> R' \<Longrightarrow> replied ts A' R' n r"
  by (auto simp: replied_def)

lemma dummied_mono: "dummied A n r \<Longrightarrow> A \<subseteq> A' \<Longrightarrow> dummied A' n r"
  by (auto simp: dummied_def)

lemma provenance_mono: "provenance ts A R q r \<Longrightarrow> A \<subseteq> A' \<Longrightarrow> R \<subseteq> R' \<Longrightarrow> provenance ts A' R' q r"
  by (cases q) (auto intro: replied_mono dummied_mono)

lemma promise_ok_mono: "promise_ok ts A q \<Longrightarrow> A \<subseteq> A' \<Longrightarrow> promise_ok ts A' q"
  by (cases q) auto

lemma bus_inv_mono: "bus_inv A R s \<Longrightarrow> A \<subseteq> A' \<Longrightarrow> R \<subseteq> R' \<Longrightarrow> bus_inv A' R' s"
  by (rule bus_invI) (auto dest: bus_invD intro: provenance_mono promise_ok_mono replied_mono)

text \<open>Settling a promise with a response of its id.\<close>

definition may_settle :: "(nat \<times> envelop) set \<Rightarrow> (nat \<times> envelop) set \<Rightarrow> bus \<Rightarrow> nat \<Rightarrow> envelop \<Rightarrow> bool" where
  "may_settle A R s p r \<longleftrightarrow>
     p < length (bsPromises s) \<and> env_ok r \<and> truthy (envId r) \<and>
     env_key r = env_key (promise_env (bsPromises s ! p)) \<and> provenance (bsTypes s) A R (bsPromises s ! p) r"

lemma bus_settle_inv:
  assumes inv: "bus_inv A R s" and r: "may_settle A R s p r"
  shows "bus_inv A R (bus_settle p (Inr r) s)"
proof (cases "p \<in> fst ` set (bsSettled s)")
  case True
  then show ?thesis using inv by (simp add: bus_settle_def)
next
  case False
  let ?s = "bus_settle p (Inr r) s"
  have st: "bsSettled ?s = bsSettled s @ [(p, Inr r)]"
    using False by (auto simp: bus_settle_def Let_def split: promise.splits)
  have q: "set (bsQueue ?s) \<subseteq> set (bsQueue s) \<union> {(n, r) | n. replied (bsTypes s) A R n r}"
    using False r by (auto simp: bus_settle_def Let_def may_settle_def split: promise.splits)
  show ?thesis
  proof (rule bus_invI)
    show "listen_ok ?s x" if "x \<in> set (bsListen ?s)" for x
      using bus_invD(1) [OF inv, of x] that by (auto simp: listen_ok_def split: listener.splits)
    show "distinct (map fst (bsSettled ?s))" using False bus_invD(3) [OF inv] by (auto simp: st)
    show "env_ok r' \<and> truthy (envId r') \<and> replied (bsTypes ?s) A R n r'" if "(n, r') \<in> set (bsQueue ?s)" for n r'
      using that q bus_invD(6) [OF inv, of n r'] r by (auto simp: may_settle_def)
    show "listeners ?s (n, Far) ''m'' = [OnMessage] \<and>
      listeners ?s (n, Own) ''m'' = (if bsTypes ?s ! n = ''jsonRpc'' then [] else [OnMessage])" if "n < length (bsTypes ?s)" for n
      using that bus_invD(7) [OF inv, of n] by (simp add: listeners_def)
  qed (use bus_invD [OF inv] r in \<open>auto simp: st may_settle_def\<close>)
qed

lemma may_settle_frame: "may_settle A R (bus_settle p r s) q r' = may_settle A R s q r'"
  by (simp add: may_settle_def)

lemma settle_all_inv:
  "bus_inv A R s \<Longrightarrow> list_all (\<lambda>p. may_settle A R s p r) ps \<Longrightarrow> bus_inv A R (settle_all ps r s)"
  by (induction ps arbitrary: s) (simp_all add: bus_settle_inv may_settle_frame)

text \<open>Adding a promise and its listener.\<close>

definition add_promise :: "promise \<Rightarrow> bus \<Rightarrow> bus" where
  "add_promise q s =
     comm_on (promise_at q) (env_key (promise_env q)) (Resolve (length (bsPromises s)))
       (s\<lparr>bsPromises := bsPromises s @ [q]\<rparr>)"

lemma add_promise_frame [simp]:
  "bsTypes (add_promise q s) = bsTypes s" "bsPromises (add_promise q s) = bsPromises s @ [q]"
  "bsSettled (add_promise q s) = bsSettled s" "bsQueue (add_promise q s) = bsQueue s" "bsSeen (add_promise q s) = bsSeen s"
  "bsListen (add_promise q s) = bsListen s @ [(promise_at q, env_key (promise_env q), Resolve (length (bsPromises s)))]"
  by (simp_all add: add_promise_def)

lemma add_promise_inv:
  assumes inv: "bus_inv A R s" and q: "promise_ok (bsTypes s) A q" "env_ok (promise_env q)"
  shows "bus_inv A R (add_promise q s)"
proof (rule bus_invI)
  show "listen_ok (add_promise q s) x" if "x \<in> set (bsListen (add_promise q s))" for x
    using that bus_invD(1) [OF inv, of x] env_ok_key [OF q(2)]
    by (auto simp: listen_ok_def nth_append split: listener.splits)
  show "listeners (add_promise q s) (n, Far) ''m'' = [OnMessage] \<and>
    listeners (add_promise q s) (n, Own) ''m'' = (if bsTypes (add_promise q s) ! n = ''jsonRpc'' then [] else [OnMessage])"
    if "n < length (bsTypes (add_promise q s))" for n
    using that bus_invD(7) [OF inv, of n] env_ok_key [OF q(2)] by (auto simp: add_promise_def listeners_def)
next
  show "env_key r = env_key (promise_env (bsPromises (add_promise q s) ! p)) \<and>
      provenance (bsTypes (add_promise q s)) A R (bsPromises (add_promise q s) ! p) r"
    if "(p, Inr r) \<in> set (bsSettled (add_promise q s))" for p r
    using that bus_invD(4,5) [OF inv] by (fastforce simp: nth_append)
qed (use bus_invD [OF inv] q in \<open>auto simp: less_Suc_eq\<close>)

lemma listen_ok_frame: "bsPromises s' = bsPromises s \<Longrightarrow> listen_ok s' = listen_ok s"
  by (simp add: listen_ok_def fun_eq_iff)

lemma bus_inv_frame:
  assumes "bus_inv A R s" "bsTypes s' = bsTypes s" "bsListen s' = bsListen s" "bsPromises s' = bsPromises s"
    "bsSettled s' = bsSettled s" "set (bsQueue s') \<subseteq> set (bsQueue s)"
  shows "bus_inv A R s'"
  using assms(1,6) unfolding bus_inv_def assms(2-5) listeners_frame [OF assms(3)] listen_ok_frame [OF assms(4)] by blast

lemma seen_inv: "bus_inv A R s \<Longrightarrow> bus_inv A R (s\<lparr>bsSeen := xs\<rparr>)"
  by (erule bus_inv_frame) simp_all

lemma reject_inv:
  assumes inv: "bus_inv A R s" and p: "p < length (bsPromises s)"
  shows "bus_inv A R (bus_settle p (Inl e) s)"
proof (cases "p \<in> fst ` set (bsSettled s)")
  case False
  then have s: "bus_settle p (Inl e) s = s\<lparr>bsSettled := bsSettled s @ [(p, Inl e)]\<rparr>"
    by (auto simp: bus_settle_def Let_def split: promise.splits)
  show ?thesis unfolding s
  proof (rule bus_invI)
    show "listen_ok (s\<lparr>bsSettled := bsSettled s @ [(p, Inl e)]\<rparr>) x"
      if "x \<in> set (bsListen (s\<lparr>bsSettled := bsSettled s @ [(p, Inl e)]\<rparr>))" for x
      using that bus_invD(1) [OF inv, of x] by (simp cong: listen_ok_frame)
    show "listeners (s\<lparr>bsSettled := bsSettled s @ [(p, Inl e)]\<rparr>) (n, Far) ''m'' = [OnMessage] \<and>
      listeners (s\<lparr>bsSettled := bsSettled s @ [(p, Inl e)]\<rparr>) (n, Own) ''m'' =
        (if bsTypes (s\<lparr>bsSettled := bsSettled s @ [(p, Inl e)]\<rparr>) ! n = ''jsonRpc'' then [] else [OnMessage])"
      if "n < length (bsTypes (s\<lparr>bsSettled := bsSettled s @ [(p, Inl e)]\<rparr>))" for n
      using that bus_invD(7) [OF inv, of n] by (simp add: listeners_def)
  qed (use False p bus_invD [OF inv] in auto)
qed (use assms in \<open>simp add: bus_settle_def\<close>)

text \<open>Plain messages reach the handler of the end.\<close>

lemma emit_own_m:
  assumes "bus_inv A R s" "k < length (bsTypes s)"
  shows "emit_own k ''m'' env s = (if bsTypes s ! k = ''jsonRpc'' then s else s\<lparr>bsSeen := bsSeen s @ [(k, env)]\<rparr>)"
  using bus_invD(7) [OF assms] by (simp add: emit_own_def)

lemma emit_far_m:
  assumes "bus_inv A R s" "n < length (bsTypes s)"
  shows "emit_far rid rid' n ''m'' env s = main_action rid rid' n env s"
  using bus_invD(7) [OF assms] by (auto simp: emit_far_def split: prod.splits option.splits)

lemma no_message_listener: "bus_inv A R s \<Longrightarrow> ev \<noteq> ''m'' \<Longrightarrow> OnMessage \<notin> set (listeners s c ev)"
  using bus_invD(1) by (fastforce simp: listeners_set listen_ok_def)

lemma waiting_may_settle:
  assumes "bus_inv A R s" "env_ok r" "truthy (envId r)" "p \<in> set (waiting s c (env_key r))"
    and "provenance (bsTypes s) A R (bsPromises s ! p) r"
  shows "may_settle A R s p r"
  using bus_invD(1) [OF assms(1), of "(c, env_key r, Resolve p)"] assms(2-5)
  by (auto simp: waiting_set listen_ok_def may_settle_def)

lemma map_of_rev_zip: "map_of (rev (zip xs [0..<length xs])) x = Some k \<Longrightarrow> k < length xs \<and> xs ! k = x"
  by (auto dest!: map_of_SomeD simp: set_zip)

lemma runtimesMap_lt: "runtimesMap ts t = Some k \<Longrightarrow> k < length ts \<and> ts ! k = t"
  unfolding runtimesMap_def by (rule map_of_rev_zip)

lemma bus_target_lt: "bus_target ts e = Some k \<Longrightarrow> k < length ts \<and> ts ! k \<noteq> ''jsonRpc''"
  by (auto simp: bus_target_def dest!: runtimesMap_lt split: if_splits)

text \<open>The request of the main controller to the runtime that serves the type.\<close>

lemma own_sendAndReceive_add:
  assumes "bus_inv A R s" "(n, env) \<in> A" "bus_target (bsTypes s) env = Some k" "env_ok env"
  shows "own_sendAndReceive n k env s = (add_promise (Forwarded n k env) s)\<lparr>bsSeen := bsSeen s @ [(k, env)]\<rparr>"
    and "bus_inv A R (own_sendAndReceive n k env s)"
proof -
  let ?s = "add_promise (Forwarded n k env) s"
  have inv: "bus_inv A R ?s" using add_promise_inv [of A R s "Forwarded n k env"] assms by simp
  have "own_sendAndReceive n k env s = emit_own k ''m'' env ?s"
    by (simp add: own_sendAndReceive_def add_promise_def Let_def)
  then show e: "own_sendAndReceive n k env s = ?s\<lparr>bsSeen := bsSeen s @ [(k, env)]\<rparr>"
    using bus_target_lt [OF assms(3)] emit_own_m [OF inv, of k env] by simp
  show "bus_inv A R (own_sendAndReceive n k env s)" unfolding e by (rule seen_inv [OF inv])
qed

definition dummy_env :: "string \<Rightarrow> string \<Rightarrow> envelop" where
  "dummy_env rid' i = \<lparr>envType = JStr ''dummy'', envId = JStr i,
     envObj = JObj [(''response'', JStr ''some response data''), (''id'', JStr rid')], envValid = True\<rparr>"

lemma dummy_response:
  "i \<noteq> [] \<Longrightarrow> Envelop rid rid' (JStr i) (JObj [(''response'', JStr ''some response data'')]) (JStr ''dummy'') =
     Inr (dummy_env rid' i)"
  by (simp add: Envelop_def dummy_env_def Let_def)

lemma own_send_settles:
  assumes inv: "bus_inv A R s" and r: "env_ok r" "truthy (envId r)"
  shows "own_send n r s = settle_all (waiting s (n, Own) (env_key r)) r s"
  using emit_own_id [OF no_message_listener [OF inv env_ok_key [OF r(1)]]] r(2)
  by (simp add: own_send_def send_event_def)

lemma promise_at_own: "promise_at q = (n, Own) \<longleftrightarrow> (\<exists>e. q = Asked n e)"
  by (cases q) auto

lemma promise_at_far: "promise_at q = (k, Far) \<longleftrightarrow> (\<exists>n e. q = Forwarded n k e)"
  by (cases q) auto

lemma own_waiting_may_settle:
  assumes inv: "bus_inv A R s" and r: "env_ok r" "truthy (envId r)" "replied (bsTypes s) A R n r \<or> dummied A n r"
  shows "list_all (\<lambda>p. may_settle A R s p r) (waiting s (n, Own) (env_key r))"
  unfolding list_all_iff
proof
  fix p assume p: "p \<in> set (waiting s (n, Own) (env_key r))"
  then have "promise_at (bsPromises s ! p) = (n, Own)"
    using bus_invD(1) [OF inv, of "((n, Own), env_key r, Resolve p)"] by (simp add: waiting_set listen_ok_def)
  then have "provenance (bsTypes s) A R (bsPromises s ! p) r" using r(3) by (auto simp: promise_at_own)
  then show "may_settle A R s p r" by (rule waiting_may_settle [OF inv r(1,2) p])
qed

lemma dummy_env_simps [simp]:
  "env_key (dummy_env rid' i) = i" "envType (dummy_env rid' i) = JStr ''dummy''" "envId (dummy_env rid' i) = JStr i"
  by (simp_all add: dummy_env_def env_key_def)

text \<open>The effect of a message at the main controller, as settled and added promises.\<close>

lemma main_action_cases:
  assumes inv: "bus_inv A R s" and e: "(n, env) \<in> A" "env_ok env"
  obtains (settles) r ps where "snd (main_action rid rid' n env s) = settle_all ps r s"
      "list_all (\<lambda>p. may_settle A R s p r) ps"
    | (forwards) k where "main_action rid rid' n env s = (None, (add_promise (Forwarded n k env) s)\<lparr>bsSeen := bsSeen s @ [(k, env)]\<rparr>)"
      "bus_target (bsTypes s) env = Some k" "truthy (envId env)"
proof (cases "truthy (envId env)")
  case False
  then have "snd (main_action rid rid' n env s) = settle_all [] env s"
    by (simp add: main_action_def dummyAction_def proxyAction_def dbAction_def Let_def)
  then show ?thesis using settles [of "[]" env] by simp
next
  case True
  then obtain i where i: "envId env = JStr i" "i \<noteq> []" "i \<noteq> ''m''" using env_ok_truthy [OF e(2)] by blast
  show ?thesis
  proof (cases "js_key (envType env) = ''dummy''")
    case d: True
    let ?r = "dummy_env rid' i"
    have r: "env_ok ?r" "truthy (envId ?r)" "dummied A n ?r" using i e d by (auto simp: env_ok_def dummied_def env_key_def)
    have "list_all (\<lambda>p. may_settle A R s p ?r) (waiting s (n, Own) (env_key ?r))"
      using own_waiting_may_settle [OF inv r(1,2)] r(3) by blast
    moreover have "snd (main_action rid rid' n env s) = settle_all (waiting s (n, Own) (env_key ?r)) ?r s"
      using d i own_send_settles [OF inv r(1,2)] by (simp add: main_action_def dummyAction_def Let_def dummy_response)
    ultimately show ?thesis using settles by metis
  next
    case d: False
    show ?thesis
    proof (cases "bus_target (bsTypes s) env")
      case None
      then have "snd (main_action rid rid' n env s) = settle_all [] env s"
        using d True by (simp add: main_action_def Let_def proxyAction_def dbAction_def getCommunicator_map
          bus_target_def split: if_splits)
      then show ?thesis using settles [of "[]" env] by simp
    next
      case (Some k)
      then have "main_action rid rid' n env s = (None, own_sendAndReceive n k env s)"
        using True d by (auto simp: main_action_def Let_def proxyAction_def dbAction_def getCommunicator_map
          bus_target_def split: if_splits)
      then show ?thesis using forwards own_sendAndReceive_add(1) [OF inv e(1) Some e(2)] Some True by simp
    qed
  qed
qed

lemma main_action_inv:
  assumes inv: "bus_inv A R s" and e: "(n, env) \<in> A" "env_ok env"
  shows "bus_inv A R (snd (main_action rid rid' n env s))"
    and "\<exists>qs. bsPromises (snd (main_action rid rid' n env s)) = bsPromises s @ qs"
    and "bsTypes (snd (main_action rid rid' n env s)) = bsTypes s"
  by (rule main_action_cases [OF inv e, of rid rid'];
      use inv e in \<open>simp add: settle_all_inv add_promise_inv seen_inv\<close>)+

lemma far_sendAndReceive_inv:
  assumes inv: "bus_inv A R s" and n: "n < length (bsTypes s)" and e: "(n, env) \<in> A" "env_ok env"
  shows "bus_inv A R (far_sendAndReceive rid rid' n env s)"
    and "bsTypes (far_sendAndReceive rid rid' n env s) = bsTypes s"
proof -
  let ?s = "add_promise (Asked n env) s"
  have i: "bus_inv A R ?s" using add_promise_inv [OF inv, of "Asked n env"] e by simp
  have f: "far_sendAndReceive rid rid' n env s =
    (case main_action rid rid' n env ?s of
       (Some e, s') \<Rightarrow> bus_settle (length (bsPromises s)) (Inl e) s' | (None, s') \<Rightarrow> s')"
    using emit_far_m [OF i, of n rid rid' env] n by (simp add: far_sendAndReceive_def add_promise_def Let_def)
  obtain x s' where m: "main_action rid rid' n env ?s = (x, s')" by fastforce
  have s': "bus_inv A R s'" "\<exists>qs. bsPromises s' = bsPromises ?s @ qs" "bsTypes s' = bsTypes s"
    using main_action_inv [OF i e, of rid rid'] m by simp_all
  show "bus_inv A R (far_sendAndReceive rid rid' n env s)"
    using s' reject_inv [OF s'(1), of "length (bsPromises s)"] by (auto simp: f m split: option.split)
  show "bsTypes (far_sendAndReceive rid rid' n env s) = bsTypes s"
    using s' by (auto simp: f m split: option.split)
qed

lemma far_send_settles:
  assumes inv: "bus_inv A R s" and n: "n < length (bsTypes s)" and r: "env_ok r"
  shows "far_send rid rid' n r s =
    (if truthy (envId r) then settle_all (waiting s (n, Far) (env_key r)) r s else s)"
proof (cases "truthy (envId r)")
  case True
  then show ?thesis using emit_far_id [OF no_message_listener [OF inv env_ok_key [OF r]]]
    by (simp add: far_send_def send_event_def)
next
  case False
  then show ?thesis
    by (simp add: far_send_def send_event_def emit_far_m [OF inv n] main_action_def Let_def
      dummyAction_def proxyAction_def dbAction_def)
qed

lemma far_waiting_may_settle:
  assumes inv: "bus_inv A R s" and r: "(n, r) \<in> R" "env_ok r" "truthy (envId r)"
  shows "list_all (\<lambda>p. may_settle A R s p r) (waiting s (n, Far) (env_key r))"
  unfolding list_all_iff
proof
  fix p assume p: "p \<in> set (waiting s (n, Far) (env_key r))"
  then have l: "p < length (bsPromises s)" "promise_at (bsPromises s ! p) = (n, Far)"
    "env_key (promise_env (bsPromises s ! p)) = env_key r"
    using bus_invD(1) [OF inv, of "((n, Far), env_key r, Resolve p)"] by (auto simp: waiting_set listen_ok_def)
  then obtain m e where q: "bsPromises s ! p = Forwarded m n e" by (auto simp: promise_at_far)
  then have "promise_ok (bsTypes s) A (Forwarded m n e)" using bus_invD(2) [OF inv] nth_mem [OF l(1)] by metis
  then have "provenance (bsTypes s) A R (bsPromises s ! p) r" using q l(3) r(1) by (auto simp: replied_def)
  then show "may_settle A R s p r" by (rule waiting_may_settle [OF inv r(2,3) p])
qed

lemma far_send_inv:
  assumes inv: "bus_inv A R s" and n: "n < length (bsTypes s)" and r: "(n, r) \<in> R" "env_ok r"
  shows "bus_inv A R (far_send rid rid' n r s)"
  using settle_all_inv [OF inv, of r "waiting s (n, Far) (env_key r)"] far_waiting_may_settle [OF inv r] inv
  by (simp add: far_send_settles [OF inv n r(2)])

lemma bus_continue_inv: "bus_inv A R s \<Longrightarrow> bus_inv A R (bus_continue s) \<and> bsTypes (bus_continue s) = bsTypes s"
proof (cases "bsQueue s")
  case Nil
  then show "bus_inv A R s \<Longrightarrow> ?thesis" by (simp add: bus_continue_def)
next
  case (Cons x q)
  assume inv: "bus_inv A R s"
  let ?s = "s\<lparr>bsQueue := q\<rparr>"
  obtain n r where x: "x = (n, r)" by fastforce
  have r: "env_ok r" "truthy (envId r)" "replied (bsTypes s) A R n r"
    using bus_invD(6) [OF inv, of n r] Cons x by auto
  have i: "bus_inv A R ?s" by (rule bus_inv_frame [OF inv]) (auto simp: Cons)
  show ?thesis
    using settle_all_inv [OF i, of r "waiting ?s (n, Own) (env_key r)"] own_waiting_may_settle [OF i r(1,2), of n] r(3)
    by (simp add: bus_continue_def Cons x own_send_settles [OF i r(1,2)])
qed

section \<open>Properties\<close>

definition asked :: "bus_step list \<Rightarrow> (nat \<times> envelop) set" where
  "asked xs = {(n, e). \<exists>rid rid'. Ask n e rid rid' \<in> set xs}"

definition replies :: "bus_step list \<Rightarrow> (nat \<times> envelop) set" where
  "replies xs = {(n, e). \<exists>rid rid'. Reply n e rid rid' \<in> set xs}"

fun step_ok :: "bus_step \<Rightarrow> bool" where
  "step_ok (Ask n e rid rid') = env_ok e"
| "step_ok (Reply n e rid rid') = env_ok e"
| "step_ok Continue = True"

lemma asked_replies_snoc [simp]:
  "asked (xs @ [x]) = asked xs \<union> asked [x]" "replies (xs @ [x]) = replies xs \<union> replies [x]"
  by (auto simp: asked_def replies_def)

lemma bus_start_snoc: "bus_start (ts @ [t]) = startRuntime (bus_start ts) t"
  by (simp add: bus_start_def)

lemma startRuntime_frame [simp]:
  "bsTypes (startRuntime s t) = bsTypes s @ [t]" "bsPromises (startRuntime s t) = bsPromises s"
  "bsSettled (startRuntime s t) = bsSettled s" "bsQueue (startRuntime s t) = bsQueue s" "bsSeen (startRuntime s t) = bsSeen s"
  by (simp_all add: startRuntime_def Let_def)

lemma startRuntime_listen:
  "set (bsListen (startRuntime s t)) \<subseteq> set (bsListen s) \<union> {((length (bsTypes s), d), ''m'', OnMessage) | d. True}"
  by (auto simp: startRuntime_def Let_def split: if_splits)

lemma listeners_startRuntime:
  "listeners (startRuntime s t) (n, d) ''m'' = listeners s (n, d) ''m'' @
     (if n = length (bsTypes s) \<and> (d = Far \<or> t \<noteq> ''jsonRpc'') then [OnMessage] else [])"
  by (cases d) (auto simp: startRuntime_def Let_def listeners_def)

definition start_inv :: "bus \<Rightarrow> bool" where
  "start_inv s \<longleftrightarrow>
     bsPromises s = [] \<and> bsSettled s = [] \<and> bsQueue s = [] \<and>
     (\<forall>x \<in> set (bsListen s). fst (fst x) < length (bsTypes s) \<and> snd x = (''m'', OnMessage)) \<and>
     (\<forall>n < length (bsTypes s). listeners s (n, Far) ''m'' = [OnMessage] \<and>
        listeners s (n, Own) ''m'' = (if bsTypes s ! n = ''jsonRpc'' then [] else [OnMessage]))"

lemma startRuntime_inv: "start_inv s \<Longrightarrow> start_inv (startRuntime s t)"
proof -
  assume s: "start_inv s"
  have none: "listeners s (length (bsTypes s), d) ''m'' = []" for d
  proof -
    have "l \<notin> set (listeners s (length (bsTypes s), d) ''m'')" for l
      using s unfolding listeners_set by (force simp: start_inv_def)
    then show ?thesis by (cases "listeners s (length (bsTypes s), d) ''m''") auto
  qed
  show ?thesis unfolding start_inv_def
  proof (intro conjI ballI allI impI)
    fix x assume "x \<in> set (bsListen (startRuntime s t))"
    then show "fst (fst x) < length (bsTypes (startRuntime s t))" "snd x = (''m'', OnMessage)"
      using startRuntime_listen [of s t] s by (auto simp: start_inv_def less_Suc_eq)
  next
    fix n assume "n < length (bsTypes (startRuntime s t))"
    then consider "n < length (bsTypes s)" | "n = length (bsTypes s)" by force
    then show "listeners (startRuntime s t) (n, Far) ''m'' = [OnMessage]"
      "listeners (startRuntime s t) (n, Own) ''m'' =
         (if bsTypes (startRuntime s t) ! n = ''jsonRpc'' then [] else [OnMessage])"
      using s none by (cases; simp add: start_inv_def listeners_startRuntime nth_append)+
  qed (use s in \<open>simp_all add: start_inv_def\<close>)
qed

lemma bus_start_inv: "start_inv (bus_start ts) \<and> bsTypes (bus_start ts) = ts"
  by (induction ts rule: rev_induct)
    (simp_all add: bus_start_snoc startRuntime_inv, simp add: bus_start_def MainController_def start_inv_def)

lemma bus_run_snoc: "bus_run ts (xs @ [x]) = bus_do x (bus_run ts xs)"
  by (simp add: bus_run_def)

interpretation bus_machine: machine "bus_start ts" bus_do "list_all step_ok"
    "\<lambda>xs s. bus_inv (asked xs) (replies xs) s \<and> bsTypes s = ts" for ts
proof unfold_locales
  have "start_inv (bus_start ts)" "bsTypes (bus_start ts) = ts" using bus_start_inv by auto
  moreover have "listen_ok (bus_start ts) x" if "x \<in> set (bsListen (bus_start ts))" for x
    using that calculation(1) by (cases x) (auto simp: start_inv_def listen_ok_def)
  ultimately show "bus_inv (asked []) (replies []) (bus_start ts) \<and> bsTypes (bus_start ts) = ts"
    by (auto simp: bus_inv_def start_inv_def)
next
  fix xs x s
  let ?A = "asked (xs @ [x])" and ?R = "replies (xs @ [x])"
  assume ok: "list_all step_ok (xs @ [x])" and i: "bus_inv (asked xs) (replies xs) s \<and> bsTypes s = ts"
  have inv: "bus_inv ?A ?R s" "bsTypes s = ts" using i bus_inv_mono [of "asked xs" "replies xs" s] by auto
  show "bus_inv ?A ?R (bus_do x s) \<and> bsTypes (bus_do x s) = ts"
  proof (cases x)
    case (Ask n e rid rid')
    then have "(n, e) \<in> ?A" "env_ok e" using ok by (auto simp: asked_def)
    then show ?thesis using far_sendAndReceive_inv [OF inv(1)] inv by (simp add: Ask)
  next
    case (Reply n e rid rid')
    then have r: "(n, e) \<in> ?R" "env_ok e" using ok by (auto simp: replies_def)
    show ?thesis using far_send_inv [OF inv(1) _ r] far_send_settles [OF inv(1) _ r(2)] inv by (simp add: Reply)
  next
    case Continue
    then show ?thesis using bus_continue_inv [OF inv(1)] inv by simp
  qed
qed simp

lemmas bus_run_inv = bus_machine.always [folded bus_run_def]

text \<open>
  C36: responses find their request. However the runtimes ask and answer, a request is settled at
  most once, and with a response it is one of its id: one that the runtime which serves a request
  of that id has sent, or the response of the dummy action.
\<close>

theorem bus_correlates:
  assumes "list_all step_ok steps" "bsPromises (bus_run runtimes steps) ! p = Asked n e"
    and "(p, Inr r) \<in> set (bsSettled (bus_run runtimes steps))"
  shows "distinct (map fst (bsSettled (bus_run runtimes steps))) \<and> env_key r = env_key e \<and>
    (replied runtimes (asked steps) (replies steps) n r \<or> dummied (asked steps) n r)"
proof -
  let ?s = "bus_run runtimes steps"
  have inv: "bus_inv (asked steps) (replies steps) ?s" "bsTypes ?s = runtimes" using bus_run_inv [OF assms(1)] by auto
  then show ?thesis using bus_invD(3) [OF inv(1)] bus_invD(5) [OF inv(1) assms(3)] assms(2) by auto
qed

definition ex_env :: "string \<Rightarrow> string \<Rightarrow> envelop" where
  "ex_env t i = \<lparr>envType = JStr t, envId = JStr i, envObj = JObj [(''id'', JStr i)], envValid = True\<rparr>"

definition ex_bus_steps :: "bus_step list" where
  "ex_bus_steps = [Ask 2 (ex_env ''proxy'' ''a1'') [] [], Ask 0 (ex_env ''dbreq'' ''a2'') [] [],
     Reply 1 (ex_env ''dbreq'' ''a2'') [] [], Reply 0 (ex_env ''proxy'' ''a1'') [] [], Continue, Continue]"

lemma ex_bus_settled:
  "bsPromises (bus_run [''node'', ''core'', ''jsonRpc''] ex_bus_steps) ! 0 = Asked 2 (ex_env ''proxy'' ''a1'')"
  "(0, Inr (ex_env ''proxy'' ''a1'')) \<in> set (bsSettled (bus_run [''node'', ''core'', ''jsonRpc''] ex_bus_steps))"
  by code_simp+

theorem bus_correlates_witness:
  "distinct (map fst (bsSettled (bus_run [''node'', ''core'', ''jsonRpc''] ex_bus_steps))) \<and>
     (replied [''node'', ''core'', ''jsonRpc''] (asked ex_bus_steps) (replies ex_bus_steps) 2 (ex_env ''proxy'' ''a1'') \<or>
      dummied (asked ex_bus_steps) 2 (ex_env ''proxy'' ''a1''))"
proof -
  have "list_all step_ok ex_bus_steps" by (simp add: ex_bus_steps_def env_ok_def ex_env_def)
  from bus_correlates [OF this ex_bus_settled] show ?thesis by blast
qed

text \<open>
  A forwarded request: the promise of the runtime and that of the main controller listen for the
  id, and once the latter is settled its response waits in the queue or has settled the former.
\<close>

definition linked :: "nat \<Rightarrow> nat \<Rightarrow> nat \<Rightarrow> nat \<Rightarrow> envelop \<Rightarrow> bus \<Rightarrow> bool" where
  "linked p q n k e s \<longleftrightarrow>
     ((n, Own), env_key e, Resolve p) \<in> set (bsListen s) \<and> ((k, Far), env_key e, Resolve q) \<in> set (bsListen s) \<and>
     p < length (bsPromises s) \<and> q < length (bsPromises s) \<and>
     bsPromises s ! p = Asked n e \<and> bsPromises s ! q = Forwarded n k e \<and> (k, e) \<in> set (bsSeen s) \<and>
     (\<forall>x. (p, Inl x) \<notin> set (bsSettled s)) \<and>
     (q \<in> fst ` set (bsSettled s) \<longrightarrow>
        (\<exists>r. (n, r) \<in> set (bsQueue s) \<and> env_key r = env_key e) \<or> p \<in> fst ` set (bsSettled s))"

lemma bus_settle_settled [simp]: "fst ` set (bsSettled (bus_settle p r s)) = insert p (fst ` set (bsSettled s))"
  by (auto simp: bus_settle_def Let_def split: promise.splits sum.splits)

lemma settle_all_settled [simp]: "fst ` set (bsSettled (settle_all ps r s)) = set ps \<union> fst ` set (bsSettled s)"
  by (induction ps arbitrary: s) auto

lemma bus_settle_queue: "set (bsQueue s) \<subseteq> set (bsQueue (bus_settle p r s))"
  by (auto simp: bus_settle_def Let_def split: promise.splits sum.splits)

lemma settle_all_queue: "set (bsQueue s) \<subseteq> set (bsQueue (settle_all ps r s))"
  by (induction ps arbitrary: s) (use bus_settle_queue in \<open>fastforce+\<close>)

lemma bus_settle_ok: "(p, Inl x) \<in> set (bsSettled (bus_settle p' (Inr r) s)) \<Longrightarrow> (p, Inl x) \<in> set (bsSettled s)"
  by (auto simp: bus_settle_def Let_def split: promise.splits if_splits)

lemma settle_all_ok: "(p, Inl x) \<in> set (bsSettled (settle_all ps r s)) \<Longrightarrow> (p, Inl x) \<in> set (bsSettled s)"
proof (induction ps arbitrary: s)
  case (Cons a ps)
  then show ?case using bus_settle_ok [of p x a r s] by simp
qed simp

lemma bus_settle_forwards:
  "q \<notin> fst ` set (bsSettled s) \<Longrightarrow> bsPromises s ! q = Forwarded n k e \<Longrightarrow> (n, r) \<in> set (bsQueue (bus_settle q (Inr r) s))"
  by (simp add: bus_settle_def Let_def)

lemma linked_settle:
  assumes l: "linked p q n k e s" and r: "may_settle A R s p' r"
  shows "linked p q n k e (bus_settle p' (Inr r) s)"
proof -
  let ?s = "bus_settle p' (Inr r) s"
  have "(\<exists>r. (n, r) \<in> set (bsQueue ?s) \<and> env_key r = env_key e) \<or> p \<in> fst ` set (bsSettled ?s)"
    if "q \<in> fst ` set (bsSettled ?s)"
  proof (cases "q \<in> fst ` set (bsSettled s)")
    case True
    then show ?thesis using l bus_settle_queue [of s p' "Inr r"] by (auto simp: linked_def)
  next
    case False
    then have "p' = q" using that by simp
    then show ?thesis using False l r bus_settle_forwards [of q s n k e r] by (auto simp: linked_def may_settle_def)
  qed
  then show ?thesis using l bus_settle_ok [of p _ p' r s] by (auto simp: linked_def)
qed

lemma linked_settle_all:
  "linked p q n k e s \<Longrightarrow> list_all (\<lambda>p. may_settle A R s p r) ps \<Longrightarrow> linked p q n k e (settle_all ps r s)"
proof (induction ps arbitrary: s)
  case (Cons p' ps)
  have "linked p q n k e (bus_settle p' (Inr r) s)" using Cons.prems linked_settle by auto
  then show ?case using Cons by (simp add: may_settle_frame)
qed simp

lemma linked_add: "linked p q n k e s \<Longrightarrow> linked p q n k e (add_promise x s)"
  by (auto simp: linked_def nth_append)

lemma linked_seen: "linked p q n k e s \<Longrightarrow> set (bsSeen s) \<subseteq> set xs \<Longrightarrow> linked p q n k e (s\<lparr>bsSeen := xs\<rparr>)"
  by (auto simp: linked_def)

lemma linked_reject:
  "linked p q n k e s \<Longrightarrow> p' \<noteq> p \<Longrightarrow> p' \<noteq> q \<Longrightarrow> linked p q n k e (bus_settle p' (Inl x) s)"
  using bus_settle_queue [of s p' "Inl x"]
  by (auto simp: linked_def bus_settle_def Let_def split: promise.splits if_splits)

lemma linked_do:
  assumes inv: "bus_inv (asked xs) (replies xs) s" and x: "step_ok x" "asked [x] \<subseteq> asked xs" "replies [x] \<subseteq> replies xs"
    and l: "linked p q n k e s"
  shows "linked p q n k e (bus_do x s)"
proof (cases x)
  case (Ask m env rid rid')
  have e: "(m, env) \<in> asked xs" "env_ok env" using x by (auto simp: Ask asked_def)
  let ?s = "add_promise (Asked m env) s"
  have i: "bus_inv (asked xs) (replies xs) ?s" using add_promise_inv [OF inv, of "Asked m env"] e by simp
  have l': "linked p q n k e (snd (main_action rid rid' m env ?s))"
    by (rule main_action_cases [OF i e, of rid rid'])
      (simp_all add: linked_settle_all [OF linked_add [OF l]] linked_seen [OF linked_add [OF linked_add [OF l]]] subset_insertI)
  have new: "length (bsPromises s) \<noteq> p" "length (bsPromises s) \<noteq> q" using l by (auto simp: linked_def)
  show ?thesis
  proof (cases "m < length (bsTypes s)")
    case True
    then have "bus_do x s = (case main_action rid rid' m env ?s of
       (Some err, s') \<Rightarrow> bus_settle (length (bsPromises s)) (Inl err) s' | (None, s') \<Rightarrow> s')"
      using emit_far_m [OF i, of m rid rid' env] by (simp add: Ask far_sendAndReceive_def add_promise_def Let_def)
    then show ?thesis using l' linked_reject [OF l' new] by (simp split: prod.splits option.splits)
  qed (simp add: Ask l)
next
  case (Reply m r rid rid')
  then have "(m, r) \<in> replies xs" "env_ok r" using x by (auto simp: replies_def)
  then show ?thesis using far_waiting_may_settle [OF inv, of m r] far_send_settles [OF inv] l
      linked_settle_all [OF l, of "asked xs" "replies xs"]
    by (simp add: Reply)
next
  case Continue
  show ?thesis
  proof (cases "bsQueue s")
    case (Cons y qs)
    obtain m r where y: "y = (m, r)" by fastforce
    let ?s = "s\<lparr>bsQueue := qs\<rparr>"
    have r: "env_ok r" "truthy (envId r)" "replied (bsTypes s) (asked xs) (replies xs) m r"
      using bus_invD(6) [OF inv, of m r] Cons y by auto
    have i: "bus_inv (asked xs) (replies xs) ?s" by (rule bus_inv_frame [OF inv]) (auto simp: Cons)
    let ?ps = "waiting ?s (m, Own) (env_key r)"
    have s': "bus_do x s = settle_all ?ps r ?s" by (simp add: Continue bus_continue_def Cons y own_send_settles [OF i r(1,2)])
    have ms: "list_all (\<lambda>p. may_settle (asked xs) (replies xs) ?s p r) ?ps"
      using own_waiting_may_settle [OF i r(1,2), of m] r(3) by simp
    have p: "p \<in> set ?ps" if "m = n" "env_key r = env_key e" using l that by (simp add: waiting_set linked_def)
    show ?thesis
    proof (cases "m = n \<and> env_key r = env_key e")
      case True
      then have "p \<in> set ?ps" using p by simp
      moreover have "(p, Inl z) \<notin> set (bsSettled (settle_all ?ps r ?s))" for z
        using settle_all_ok [of p z ?ps r ?s] l by (auto simp: linked_def)
      ultimately show ?thesis using l by (simp add: s' linked_def)
    next
      case False
      then have "linked p q n k e ?s" using l Cons y by (auto simp: linked_def)
      then show ?thesis unfolding s' by (rule linked_settle_all [OF _ ms])
    qed
  qed (simp add: Continue bus_continue_def l)
qed

interpretation bus_linked: lasting "bus_start ts" bus_do "list_all step_ok"
    "\<lambda>xs s. bus_inv (asked xs) (replies xs) s \<and> bsTypes s = ts" "\<lambda>_. True" "linked p q n k e" for ts p q n k e
proof unfold_locales
  fix xs x s
  assume ok: "list_all step_ok (xs @ [x])" and i: "bus_inv (asked xs) (replies xs) s \<and> bsTypes s = ts" and l: "linked p q n k e s"
  have "bus_inv (asked (xs @ [x])) (replies (xs @ [x])) s"
    by (rule bus_inv_mono [OF conjunct1 [OF i]]) (auto simp: asked_def replies_def)
  then show "linked p q n k e (bus_do x s)"
    by (rule linked_do) (use ok l in \<open>auto simp: asked_def replies_def\<close>)
qed

lemma linked_run:
  "list_all step_ok (xs @ ys) \<Longrightarrow> linked p q n k e (bus_run ts xs) \<Longrightarrow> linked p q n k e (bus_run ts (xs @ ys))"
  using bus_linked.lasts [of xs ys p q n k e ts] by (simp add: bus_run_def list_all_iff)

lemma ask_linked:
  assumes ok: "list_all step_ok (xs @ [Ask n e rid rid'])" and n: "n < length ts"
    and k: "truthy (envId e)" "bus_target ts e = Some k"
  shows "linked (length (bsPromises (bus_run ts xs))) (Suc (length (bsPromises (bus_run ts xs)))) n k e
    (bus_run ts (xs @ [Ask n e rid rid']))"
proof -
  let ?A = "asked (xs @ [Ask n e rid rid'])" and ?s = "bus_run ts xs"
  let ?t = "add_promise (Asked n e) ?s"
  have inv: "bus_inv ?A (replies xs) ?s" "bsTypes ?s = ts"
    using bus_run_inv [of xs ts] ok bus_inv_mono [of "asked xs" "replies xs" ?s ?A] by auto
  have e: "(n, e) \<in> ?A" "env_ok e" using ok by (auto simp: asked_def)
  have i: "bus_inv ?A (replies xs) ?t" using add_promise_inv [OF inv(1), of "Asked n e"] e by simp
  have d: "js_key (envType e) \<noteq> ''dummy''" using k(2) by (auto simp: bus_target_def split: if_splits)
  have "main_action rid rid' n e ?t = (None, own_sendAndReceive n k e ?t)"
    using k d inv(2) by (auto simp: main_action_def Let_def proxyAction_def dbAction_def getCommunicator_map
      bus_target_def split: if_splits)
  then have m: "main_action rid rid' n e ?t = (None, (add_promise (Forwarded n k e) ?t)\<lparr>bsSeen := bsSeen ?s @ [(k, e)]\<rparr>)"
    using own_sendAndReceive_add(1) [OF i e(1) _ e(2), of k] k(2) inv(2) by simp
  have "bus_run ts (xs @ [Ask n e rid rid']) = (add_promise (Forwarded n k e) ?t)\<lparr>bsSeen := bsSeen ?s @ [(k, e)]\<rparr>"
    using emit_far_m [OF i, of n rid rid' e] n inv(2) m
    by (simp add: bus_run_snoc far_sendAndReceive_def add_promise_def Let_def)
  then show ?thesis using bus_invD(4) [OF inv(1)]
    by (fastforce simp: linked_def nth_append image_iff)
qed

text \<open>A settled promise stays settled.\<close>

definition done_of :: "bus \<Rightarrow> nat set" where
  "done_of s = fst ` set (bsSettled s)"

lemma done_of_settle [simp]: "done_of (bus_settle p r s) = insert p (done_of s)"
  by (simp add: done_of_def)

lemma done_of_emit_own: "done_of s \<subseteq> done_of (emit_own n ev env s)"
proof -
  have "done_of t \<subseteq> done_of (foldl (\<lambda>s l. case l of OnMessage \<Rightarrow> s\<lparr>bsSeen := bsSeen s @ [(n, env)]\<rparr>
      | Resolve p \<Rightarrow> bus_settle p (Inr env) s) t ls)" for ls and t :: bus
  proof (induction ls arbitrary: t)
    case (Cons l ls)
    have "done_of t \<subseteq> done_of (case l of OnMessage \<Rightarrow> t\<lparr>bsSeen := bsSeen t @ [(n, env)]\<rparr> | Resolve p \<Rightarrow> bus_settle p (Inr env) t)"
      by (cases l) (auto simp: done_of_def)
    then show ?case using Cons.IH by fastforce
  qed simp
  then show ?thesis by (simp add: emit_own_def)
qed

lemma done_of_frame: "bsSettled s' = bsSettled s \<Longrightarrow> done_of s' = done_of s"
  by (simp add: done_of_def)

lemma done_of_main_action: "done_of s \<subseteq> done_of (snd (main_action rid rid' n env s))"
proof -
  have "done_of s \<subseteq> done_of (own_sendAndReceive n k env s)" for k
    using done_of_emit_own [of "comm_on (k, Far) (env_key env) (Resolve (length (bsPromises s)))
      (s\<lparr>bsPromises := bsPromises s @ [Forwarded n k env]\<rparr>)" k "''m''" env]
    by (simp add: own_sendAndReceive_def Let_def done_of_def)
  then show ?thesis using done_of_emit_own [of s]
    by (auto simp: main_action_def Let_def dummyAction_def proxyAction_def dbAction_def own_send_def
      split: option.splits sum.splits)
qed

lemma done_of_run_far: "done_of s \<subseteq> done_of (snd (run_far rid rid' n env ls s))"
proof (induction ls arbitrary: s)
  case (Cons l ls)
  have "done_of s \<subseteq> done_of (snd (case l of OnMessage \<Rightarrow> main_action rid rid' n env s | Resolve p \<Rightarrow> (None, bus_settle p (Inr env) s)))"
    by (cases l) (auto simp: done_of_main_action)
  then show ?case using Cons.IH by (fastforce split: prod.splits option.splits)
qed simp

lemma done_of_do: "done_of s \<subseteq> done_of (bus_do x s)"
proof (cases x)
  case (Ask n e rid rid')
  let ?t = "add_promise (Asked n e) s"
  have "far_sendAndReceive rid rid' n e s = (case emit_far rid rid' n ''m'' e ?t of
      (Some err, s') \<Rightarrow> bus_settle (length (bsPromises s)) (Inl err) s' | (None, s') \<Rightarrow> s')"
    by (simp add: far_sendAndReceive_def add_promise_def Let_def)
  moreover have "done_of s \<subseteq> done_of (snd (emit_far rid rid' n ''m'' e ?t))"
    using done_of_run_far [of ?t rid rid' n e] by (simp add: emit_far_def done_of_def)
  ultimately show ?thesis by (auto simp: Ask split: prod.split option.split)
next
  case (Reply n e rid rid')
  then show ?thesis using done_of_run_far by (simp add: far_send_def emit_far_def)
next
  case Continue
  have "done_of s = done_of (s\<lparr>bsQueue := q\<rparr>)" for q by (simp add: done_of_def)
  then show ?thesis using done_of_emit_own
    by (auto simp: Continue bus_continue_def own_send_def simp del: subset_iff split: list.splits) (metis subsetD)
qed

interpretation bus_done: lasting "bus_start ts" bus_do "\<lambda>_. True" "\<lambda>_ _. True" "\<lambda>_. True" "\<lambda>s. p \<in> done_of s" for ts p
  by unfold_locales (use done_of_do in blast)+

text \<open>
  C37: a forwarded request is answered. A request of a type that a runtime serves reaches that
  runtime; once it has sent a response of the same id and no continuation is pending, the request
  is settled with a response of that id.
\<close>

theorem bus_answers:
  assumes ok: "list_all step_ok (pre @ Ask n e rid rid' # post)" and n: "n < length runtimes"
    and k: "truthy (envId e)" "bus_target runtimes e = Some k"
    and r: "(k, r) \<in> replies post" "env_key r = env_key e" "truthy (envId r)"
    and idle: "bsQueue (bus_run runtimes (pre @ Ask n e rid rid' # post)) = []"
  shows "(k, e) \<in> set (bsSeen (bus_run runtimes (pre @ Ask n e rid rid' # post))) \<and>
    (\<exists>r'. (length (bsPromises (bus_run runtimes pre)), Inr r')
        \<in> set (bsSettled (bus_run runtimes (pre @ Ask n e rid rid' # post))) \<and> env_key r' = env_key e)"
proof -
  let ?xs = "pre @ [Ask n e rid rid']" and ?p = "length (bsPromises (bus_run runtimes pre))"
  let ?s = "bus_run runtimes (pre @ Ask n e rid rid' # post)"
  have l: "linked ?p (Suc ?p) n k e (bus_run runtimes ?xs)" using ask_linked [OF _ n k] ok by simp
  obtain ys zs a b where post: "post = ys @ Reply k r a b # zs"
    using r(1) by (auto simp: replies_def dest: split_list)
  have l1: "linked ?p (Suc ?p) n k e (bus_run runtimes (?xs @ ys))" using linked_run [OF _ l, of ys] ok post by simp
  have inv: "bus_inv (asked (?xs @ ys)) (replies (?xs @ ys)) (bus_run runtimes (?xs @ ys))"
    "bsTypes (bus_run runtimes (?xs @ ys)) = runtimes" using bus_run_inv [of "?xs @ ys" runtimes] ok post by auto
  have "Suc ?p \<in> set (waiting (bus_run runtimes (?xs @ ys)) (k, Far) (env_key r))"
    using l1 r(2) by (simp add: waiting_set linked_def)
  then have "Suc ?p \<in> done_of (bus_run runtimes (?xs @ ys @ [Reply k r a b]))"
    using far_send_settles [OF inv(1), of k r a b] bus_target_lt [OF k(2)] inv(2) ok post r(3)
      bus_run_snoc [of runtimes "?xs @ ys" "Reply k r a b"]
    by (simp add: done_of_def)
  then have q: "Suc ?p \<in> done_of ?s"
    using bus_done.lasts [OF TrueI, of zs "Suc ?p" runtimes "?xs @ ys @ [Reply k r a b]"] post
    by (simp add: bus_run_def list_all_iff)
  have ls: "linked ?p (Suc ?p) n k e ?s" using linked_run [OF _ l, of post] ok by simp
  then have "?p \<in> fst ` set (bsSettled ?s)" using q idle by (simp add: linked_def done_of_def)
  then obtain x where x: "(?p, x) \<in> set (bsSettled ?s)" by auto
  then obtain r' where r': "x = Inr r'" using ls by (cases x) (auto simp: linked_def)
  have p: "bsPromises ?s ! ?p = Asked n e" using ls by (simp add: linked_def)
  have "env_key r' = env_key e"
    using bus_invD(5) [OF conjunct1 [OF bus_run_inv [OF ok, of runtimes]], of ?p r'] x r' p by simp
  then show ?thesis using x r' ls by (auto simp: linked_def)
qed

theorem bus_answers_witness:
  "(0, ex_env ''proxy'' ''a1'') \<in> set (bsSeen (bus_run [''node'', ''core'', ''jsonRpc''] ex_bus_steps)) \<and>
     (\<exists>r'. (0, Inr r') \<in> set (bsSettled (bus_run [''node'', ''core'', ''jsonRpc''] ex_bus_steps)) \<and>
        env_key r' = ''a1'')"
proof -
  let ?post = "[Ask 0 (ex_env ''dbreq'' ''a2'') [] [], Reply 1 (ex_env ''dbreq'' ''a2'') [] [],
    Reply 0 (ex_env ''proxy'' ''a1'') [] [], Continue, Continue]"
  let ?e = "ex_env ''proxy'' ''a1''"
  have xs: "[] @ Ask 2 ?e [] [] # ?post = ex_bus_steps" by (simp add: ex_bus_steps_def)
  have ok: "list_all step_ok ([] @ Ask 2 ?e [] [] # ?post)" by (simp add: env_ok_def ex_env_def)
  have k: "bus_target [''node'', ''core'', ''jsonRpc''] ?e = Some 0"
    by (simp add: bus_target_def ex_env_def runtimesMap_def upt_rec)
  have t: "truthy (envId ?e)" "env_key ?e = ''a1''" by (simp_all add: ex_env_def env_key_def)
  have r: "(0, ?e) \<in> replies ?post" by (auto simp: replies_def)
  have idle: "bsQueue (bus_run [''node'', ''core'', ''jsonRpc''] ([] @ Ask 2 ?e [] [] # ?post)) = []"
    unfolding xs by code_simp
  have p: "bsPromises (bus_run [''node'', ''core'', ''jsonRpc''] []) = []" by code_simp
  have n: "2 < length [''node'', ''core'', ''jsonRpc'']" by simp
  show ?thesis
    using bus_answers [OF ok n t(1) k r refl t(1) idle] unfolding xs p t(2) list.size(3) .
qed

text \<open>
  The listeners of a request are never removed, not by the continuation that hands the response
  to the runtime that asked either.
\<close>

lemma listeners_stay: "bsListen (bus_continue s) = bsListen s"
proof -
  have "bsListen (foldl (\<lambda>s l. case l of OnMessage \<Rightarrow> s\<lparr>bsSeen := bsSeen s @ [(n, env)]\<rparr>
      | Resolve p \<Rightarrow> bus_settle p (Inr env) s) t ls) = bsListen t" for n env ls and t :: bus
  proof (induction ls arbitrary: t)
    case (Cons l ls)
    then show ?case by (cases l) simp_all
  qed simp
  then show ?thesis by (simp add: bus_continue_def own_send_def emit_own_def split: list.splits)
qed

text \<open>Without core, \<open>shutdownSystem\<close> throws before the node is stopped.\<close>

lemma shutdown_without_core: "shutdownSystem [''node''] = ([], Some JsTypeError)"
  by (simp add: shutdownSystem_def runtimesMap_def)

end
