(* ===== verification/Eng_Node.thy ===== *)
theory Eng_Node
  imports P2p_Messages
begin

text \<open>
  The peer-to-peer node: \<open>worker/EnigmaNode.js\<close>, which dials peers and keeps the subscriptions,
  and \<open>worker/handlers/ProtocolHandler.js\<close>, which serves the protocols, with the bootstrap action
  (\<open>BootstrapDiscoveredAction.js\<close>). libp2p is a parameter: what a dialled peer answers.
\<close>

section \<open>Streams\<close>

text \<open>
  \<open>data.toString("utf8").replace("\n", "")\<close>: one chunk, or the array of chunks that
  \<open>pull.collect\<close> gathers, whose string form puts commas between them. Only the first line break
  is removed.
\<close>

fun drop_newline :: "string \<Rightarrow> string" where
  "drop_newline [] = []"
| "drop_newline (c # cs) = (if c = CHR 0x0A then cs else c # drop_newline cs)"

fun join_chunks :: "string list \<Rightarrow> string" where
  "join_chunks [] = []"
| "join_chunks [s] = s"
| "join_chunks (s # ss) = s @ '','' @ join_chunks ss"

definition stream_text :: "string list \<Rightarrow> string" where
  "stream_text cs = drop_newline (join_chunks cs)"

definition toHeartBeatResMsg :: "string list \<Rightarrow> msg js" where
  "toHeartBeatResMsg data = HeartBeatResMsg (JStr (stream_text data))"

definition toHeartBeatReqMsg :: "json \<Rightarrow> string \<Rightarrow> msg js" where
  "toHeartBeatReqMsg randId data = HeartBeatReqMsg randId (JStr (stream_text [data]))"

definition toFindPeersReqMsg :: "json \<Rightarrow> string \<Rightarrow> msg js" where
  "toFindPeersReqMsg randId data = FindPeersReqMsg randId (JStr (stream_text [data]))"

definition toFindPeersResMsg :: "string list \<Rightarrow> msg js" where
  "toFindPeersResMsg data = FindPeersResMsg (JStr (stream_text data))"

section \<open>Peers\<close>

text \<open>
  A \<open>PeerInfo\<close>: its id as JSON, the address it is connected by, if any, and its addresses.
\<close>

record peer_info =
  piId :: json
  piConnected :: "string option"
  piAddrs :: "string list"

text \<open>\<open>parsePeerInfo\<close> reads the connected address unconditionally.\<close>

definition parsePeerInfo :: "peer_info option \<Rightarrow> json js" where
  "parsePeerInfo p =
     (case p of
        None \<Rightarrow> Inr JNull
      | Some p \<Rightarrow>
          (case piConnected p of
             None \<Rightarrow> Inl JsTypeError
           | Some ma \<Rightarrow> Inr (JObj [(''peerId'', piId p), (''connectedMultiaddr'', JStr ma),
               (''multiAddrs'', JArr (map JStr (piAddrs p)))])))"

definition parsePeerBook :: "peer_info list \<Rightarrow> json js" where
  "parsePeerBook ps = bindE (mapE (\<lambda>p. parsePeerInfo (Some p)) ps) (\<lambda>vs. Inr (JArr vs))"

section \<open>Dialling\<close>

text \<open>
  What dialling a peer at a protocol and sending it one chunk leads to, and hanging up. A stream
  that is pulled through no connection collects what \<open>p2NoConn\<close> gives.
\<close>

datatype dialled = DialError js_error | StreamError js_error | Chunks "string list" | NoAnswer

record 'w p2p =
  p2Self :: string
  p2Dial :: "string \<Rightarrow> 'w \<Rightarrow> js_error option \<times> 'w"
  p2Exchange :: "string \<Rightarrow> string \<Rightarrow> string \<Rightarrow> 'w \<Rightarrow> dialled \<times> 'w"
  p2NoConn :: "string \<Rightarrow> dialled"
  p2HangUp :: "string \<Rightarrow> 'w \<Rightarrow> js_error option \<times> 'w"
  p2Connected :: "'w \<Rightarrow> string list"

definition ERR_SELF_DIAL :: json where
  "ERR_SELF_DIAL = JNum 3"

definition isConnected :: "'w p2p \<Rightarrow> string \<Rightarrow> 'w \<Rightarrow> bool" where
  "isConnected p strId w \<longleftrightarrow> strId \<in> set (p2Connected p w)"

definition arePeersConnected :: "'w p2p \<Rightarrow> 'w \<Rightarrow> bool" where
  "arePeersConnected p w \<longleftrightarrow> length (p2Connected p w) > 0"

text \<open>\<open>dialProtocol\<close>: the callback is never invoked for a dial to itself.\<close>

definition dialProtocol :: "'w p2p \<Rightarrow> string \<Rightarrow> string \<Rightarrow> string \<Rightarrow> 'w \<Rightarrow> dialled \<times> 'w" where
  "dialProtocol p peer protocolName data w =
     (if peer = p2Self p then (NoAnswer, w) else p2Exchange p peer protocolName data w)"

text \<open>A promise that may not settle.\<close>

definition oneShotDial :: "'w p2p \<Rightarrow> string \<Rightarrow> string \<Rightarrow> string \<Rightarrow> 'w \<Rightarrow> string list js option \<times> 'w" where
  "oneShotDial p peer protocolName reqMsg w =
     (if peer = p2Self p then (Some (Inl (Err P2PErr (js_key ERR_SELF_DIAL))), w)
      else
        (case p2Exchange p peer protocolName reqMsg w of
           (DialError e, w) \<Rightarrow> (Some (Inl e), w)
         | (StreamError e, w) \<Rightarrow> (Some (Inl e), w)
         | (Chunks cs, w) \<Rightarrow> (Some (Inr cs), w)
         | (NoAnswer, w) \<Rightarrow> (None, w)))"

text \<open>The connection is dropped in every case; its error counts unless the dial failed.\<close>

definition oneShotDialAndClose :: "'w p2p \<Rightarrow> string \<Rightarrow> string \<Rightarrow> string \<Rightarrow> 'w \<Rightarrow> string list js option \<times> 'w" where
  "oneShotDialAndClose p peer protocolName reqMsg w =
     (case oneShotDial p peer protocolName reqMsg w of
        (None, w) \<Rightarrow> (None, w)
      | (Some (Inl e), w) \<Rightarrow> (Some (Inl e), snd (p2HangUp p peer w))
      | (Some (Inr cs), w) \<Rightarrow>
          (case p2HangUp p peer w of
             (Some err, w) \<Rightarrow> (Some (Inl err), w)
           | (None, w) \<Rightarrow> (Some (Inr cs), w)))"

text \<open>
  \<open>connectToBootstrap\<close>: a dial to itself never settles. The notification after a success is only
  logged by the controller.
\<close>

definition connectToBootstrap :: "'w p2p \<Rightarrow> string \<Rightarrow> 'w \<Rightarrow> bool option \<times> 'w" where
  "connectToBootstrap p peer w =
     (if peer = p2Self p then (None, w)
      else case p2Dial p peer w of (err, w) \<Rightarrow> (Some (err = None), w))"

definition bootstrapDiscovered :: "'w p2p \<Rightarrow> string \<Rightarrow> 'w \<Rightarrow> 'w" where
  "bootstrapDiscovered p peer w =
     (if arePeersConnected p w then w else snd (connectToBootstrap p peer w))"

text \<open>
  The callbacks \<open>onResult(err, ...)\<close>; \<open>None\<close> when it is not invoked, also because an exception
  escapes from the handler of the stream. \<open>sendHeartBeat\<close> does not look at the error of the dial
  and goes on without a connection. The number of peers asked for is the last argument.
\<close>

definition sendHeartBeat :: "'w p2p \<Rightarrow> string \<Rightarrow> msg \<Rightarrow> 'w \<Rightarrow> (js_error option \<times> msg option) option \<times> 'w" where
  "sendHeartBeat p peer heartBeatRequest w =
     (case (case dialProtocol p peer ''/heartbeat/0.1'' (toNetworkStream heartBeatRequest) w of
              (DialError e, w) \<Rightarrow> (p2NoConn p (toNetworkStream heartBeatRequest), w)
            | d \<Rightarrow> d) of
        (StreamError e, w) \<Rightarrow> (Some (Some e, None), w)
      | (Chunks cs, w) \<Rightarrow>
          (case bindE (toHeartBeatResMsg cs) (\<lambda>res. bindE (isCompatibleWithMsg res heartBeatRequest) (\<lambda>b. Inr (res, b))) of
             Inl e \<Rightarrow> (None, w)
           | Inr (res, True) \<Rightarrow> (Some (None, Some res), w)
           | Inr (res, False) \<Rightarrow> (Some (None, None), w))
      | (_, w) \<Rightarrow> (None, w))"

definition findPeers ::
    "'w p2p \<Rightarrow> json \<Rightarrow> string \<Rightarrow> json \<Rightarrow> 'w \<Rightarrow> (js_error option \<times> (msg \<times> msg) option) option \<times> 'w" where
  "findPeers p randId peer maxPeers w =
     (if peer = p2Self p then (Some (Some (ErrVal ERR_SELF_DIAL), None), w)
      else
        (case FindPeersReqMsg randId (JObj [(''from'', JStr (p2Self p)), (''to'', JStr peer), (''maxpeers'', maxPeers)]) of
           Inl e \<Rightarrow> (None, w)
         | Inr req \<Rightarrow>
             if \<not> msgValid req then (Some (Some (Err P2PErr ''err creating findpeer request msg.''), None), w)
             else
             (case dialProtocol p peer ''/findpeers/0.1'' (toNetworkStream req) w of
                (DialError e, w) \<Rightarrow> (Some (Some e, None), w)
              | (StreamError e, w) \<Rightarrow> (Some (Some e, None), w)
              | (NoAnswer, w) \<Rightarrow> (None, w)
              | (Chunks cs, w) \<Rightarrow>
                  (case bindE (toFindPeersResMsg cs) (\<lambda>res. bindE (isCompatibleWithMsg res req) (\<lambda>b. Inr (res, b))) of
                     Inl e \<Rightarrow> (None, w)
                   | Inr (res, True) \<Rightarrow> (Some (None, Some (req, res)), w)
                   | Inr (res, False) \<Rightarrow> (Some (Some (Err P2PErr ''Invalid find peers response msg''), None), w)))))"

definition getLocalStateOfRemote :: "'w p2p \<Rightarrow> string \<Rightarrow> 'w \<Rightarrow> json js option \<times> 'w" where
  "getLocalStateOfRemote p peer w =
     (case (if isConnected p peer w then oneShotDial p peer ''/localstateexchange/0.1'' (p2Self p) w
            else oneShotDialAndClose p peer ''/localstateexchange/0.1'' (p2Self p) w) of
        (r, w) \<Rightarrow> (map_option (\<lambda>x. bindE x (\<lambda>cs. JSON_parse (stream_text cs))) r, w))"

section \<open>Serving\<close>

text \<open>
  \<open>onHeartBeat\<close>: the answer to one chunk, \<open>None\<close> after the fallback; an exception breaks the
  stream. \<open>randId\<close> is the id a request built here would get.
\<close>

definition onHeartBeat :: "string \<Rightarrow> json \<Rightarrow> string \<Rightarrow> string option js" where
  "onHeartBeat self randId data =
     bindE (toHeartBeatReqMsg randId data) (\<lambda>hbReq.
     if \<not> msgValid hbReq then Inr None
     else
       bindE (req_param ''from'' hbReq) (\<lambda>from.
       bindE (HeartBeatResMsg (JObj [(''from'', JStr self), (''to'', from), (''id'', msg_id hbReq)])) (\<lambda>hbRes.
       Inr (Some (toNetworkStream hbRes)))))"

text \<open>
  \<open>onFindPeers\<close>: the answer to one chunk, and the peers that are left for the next chunk on the
  same connection.
\<close>

definition onFindPeers ::
    "(peer_info list \<Rightarrow> nat \<Rightarrow> peer_info list) \<Rightarrow> string \<Rightarrow> json \<Rightarrow> string \<Rightarrow> peer_info list \<Rightarrow>
       (string option \<times> peer_info list) js" where
  "onFindPeers pickRandom self randId data peers =
     bindE (toFindPeersReqMsg randId data) (\<lambda>req.
     if \<not> msgValid req then Inr (None, peers)
     else
       bindE (req_param ''maxpeers'' req) (\<lambda>maxPeers.
       let peers = (case maxPeers of JNum n \<Rightarrow> if n > 0 then pickRandomFromList pickRandom peers n else peers | _ \<Rightarrow> peers) in
       bindE (parsePeerBook peers) (\<lambda>parsed.
       bindE (req_param ''from'' req) (\<lambda>from.
       bindE (FindPeersResMsg (JObj [(''from'', JStr self), (''to'', from), (''peers'', parsed), (''id'', msg_id req)])) (\<lambda>res.
       Inr (Some (toNetworkStream res), peers))))))"

text \<open>Every chunk of a connection is answered in turn; an exception ends the stream.\<close>

fun serve_chunks ::
    "(peer_info list \<Rightarrow> nat \<Rightarrow> peer_info list) \<Rightarrow> string \<Rightarrow> json \<Rightarrow> string list \<Rightarrow> peer_info list \<Rightarrow> string option list" where
  "serve_chunks pickRandom self randId [] peers = []"
| "serve_chunks pickRandom self randId (data # rest) peers =
     (case onFindPeers pickRandom self randId data peers of
        Inl e \<Rightarrow> []
      | Inr (answer, peers) \<Rightarrow> answer # serve_chunks pickRandom self randId rest peers)"

text \<open>
  The handlers of \<open>ProtocolHandler\<close>. A valid protocol without a handler, which is \<open>/echo\<close>, throws.
\<close>

definition handlers :: "string list" where
  "handlers = [''peer:discovery'', ''peer:connect'', ''peer:disconnect'', ''/heartbeat/0.1'', ''/findpeers/0.1'',
     ''/sync/0.1'', ''/localstateexchange/0.1'', ''/broadcast/0.1'', ''/taskresults/0.1'']"

definition protocols_list :: "string list" where
  "protocols_list = [''/heartbeat/0.1'', ''/findpeers/0.1'', ''/sync/0.1'', ''/localstateexchange/0.1'']"

definition subscriptions_list :: "string list" where
  "subscriptions_list = [''/broadcast/0.1'', ''/taskresults/0.1'']"

text \<open>Which handler runs: none after the fallback.\<close>

definition handle_protocol :: "string \<Rightarrow> string option js" where
  "handle_protocol protocolName =
     (if \<not> isValidProtocol protocolName then Inr None
      else if protocolName \<in> set handlers then Inr (Some protocolName) else Inl JsTypeError)"

definition handleTopic :: "string list \<Rightarrow> string option" where
  "handleTopic topicIDs =
     (case topicIDs of
        t # _ \<Rightarrow> if isValidTopic t then Some t else None
      | [] \<Rightarrow> None)"

datatype notification =
    DISCOVERED string
  | NEW_PEER_CONNECTED string
  | STATE_SYNC_REQ
  | GET_ALL_TIPS
  | RECEIVED_NEW_RESULT json

definition onPeerDiscovery :: "string \<Rightarrow> string \<Rightarrow> notification list" where
  "onPeerDiscovery self peer = (if self = peer then [] else [DISCOVERED peer])"

definition onPeerConnect :: "string \<Rightarrow> notification list" where
  "onPeerConnect peer = [NEW_PEER_CONNECTED peer]"

definition onStateSync :: "notification list" where
  "onStateSync = [STATE_SYNC_REQ]"

text \<open>\<open>onLocalStateExchange\<close>: the answers once the tips are read.\<close>

definition onLocalStateExchange :: "json js \<Rightarrow> string list \<Rightarrow> string list option" where
  "onLocalStateExchange tips received =
     (case tips of Inl e \<Rightarrow> None | Inr v \<Rightarrow> Some (map (\<lambda>_. JSON_stringify v) received))"

definition onTaskResultPublish :: "string \<Rightarrow> string \<Rightarrow> json \<Rightarrow> notification list" where
  "onTaskResultPublish self from message = (if from = self then [] else [RECEIVED_NEW_RESULT message])"

section \<open>Subscriptions of the node\<close>

text \<open>\<open>enHandlers\<close> is \<open>_topicHandlersMap\<close>; \<open>enSubs\<close> what libp2p was asked to subscribe, in order.\<close>

record eng_node =
  enStarted :: bool
  enHandlers :: "(string \<times> nat) list"
  enSubs :: "(string \<times> nat) list"

definition not_started :: js_error where
  "not_started = Err InitPipelinesErr ''Please start the Worker before subscribing''"

text \<open>
  \<open>broadcast\<close> and \<open>broadcastLoop\<close>, after so many rounds of the timer: what has been published, in order.
\<close>

definition eng_broadcast :: "string \<Rightarrow> 'a \<Rightarrow> (string \<times> 'a) list \<Rightarrow> (string \<times> 'a) list" where
  "eng_broadcast topic content published = published @ [(topic, content)]"

fun broadcastLoop :: "nat \<Rightarrow> string \<Rightarrow> 'a \<Rightarrow> (string \<times> 'a) list \<Rightarrow> (string \<times> 'a) list" where
  "broadcastLoop 0 topic content published = published"
| "broadcastLoop (Suc rounds) topic content published = broadcastLoop rounds topic content (eng_broadcast topic content published)"

text \<open>\<open>start\<close>: the error of libp2p is not looked at.\<close>

definition eng_start :: "js_error option \<Rightarrow> eng_node \<Rightarrow> eng_node" where
  "eng_start err s = s\<lparr>enStarted := True\<rparr>"

definition eng_subscribe :: "(string \<times> nat) list \<Rightarrow> eng_node \<Rightarrow> js_error option \<times> eng_node" where
  "eng_subscribe subscriptions s =
     (if \<not> enStarted s then (Some not_started, s)
      else (None, s\<lparr>enHandlers := foldl (\<lambda>m (t, h). obj_set m t h) (enHandlers s) subscriptions,
                    enSubs := enSubs s @ subscriptions\<rparr>))"

definition eng_unsubscribe :: "string \<Rightarrow> nat \<Rightarrow> js_error option \<Rightarrow> eng_node \<Rightarrow> js_error option \<times> eng_node" where
  "eng_unsubscribe topic handler err s =
     (if \<not> enStarted s then (Some not_started, s)
      else (None, if err = None then s\<lparr>enSubs := filter (\<lambda>x. x \<noteq> (topic, handler)) (enSubs s)\<rparr> else s))"

text \<open>The handler of the default subscriptions is \<open>handleTopic\<close> for every topic; \<open>h\<close> names it.\<close>

definition defaultSubscribe :: "nat \<Rightarrow> eng_node \<Rightarrow> js_error option \<times> eng_node" where
  "defaultSubscribe h s =
     (if \<not> enStarted s then (Some not_started, s)
      else (None, s\<lparr>enSubs := enSubs s @ map (\<lambda>t. (t, h)) subscriptions_list\<rparr>))"

text \<open>\<open>provideContent\<close>: the callback with the error of the content routing and the identifier.\<close>

definition provideContent :: "'c option \<Rightarrow> ('c \<Rightarrow> js_error option) \<Rightarrow> eng_node \<Rightarrow> (js_error option \<times> 'c) option js" where
  "provideContent engCid provide s =
     (if \<not> enStarted s then Inl (Err InitPipelinesErr ''Please start the Worker before providing content'')
      else Inr (map_option (\<lambda>c. (provide c, c)) engCid))"

section \<open>Lemmas\<close>

text \<open>JSON text has no line breaks, so that streams of one chunk keep it.\<close>

lemma hex_char_code: "d < 16 \<Longrightarrow> 48 \<le> (of_char (hex_char d) :: nat)"
  by (simp add: hex_char_def)

lemma newline_code: "(of_char (CHR 0x0A) :: nat) = 10" by simp

lemma esc_char_no_newline: "CHR 0x0A \<notin> set (esc_char c)"
proof -
  have h: "hex_char d \<noteq> CHR 0x0A" if "d < 16" for d
  proof
    assume "hex_char d = CHR 0x0A"
    then have "(of_char (hex_char d) :: nat) = 10" using newline_code by simp
    then show False using hex_char_code [OF that] by simp
  qed
  have "(of_char c :: nat) < 16 * 16" using nat_of_char_less_256 [of c] by simp
  then have c: "(of_char c :: nat) div 16 < 16" by (rule less_mult_imp_div_less)
  have "c \<noteq> CHR 0x0A" if "\<not> (of_char c :: nat) < 32" using that newline_code by auto
  then show ?thesis using h [of "of_char c div 16"] h [of "of_char c mod 16"] c by (auto simp: esc_char_def)
qed

lemma int_str_no_newline: "CHR 0x0A \<notin> set (int_str i)"
  using nat_str_digits [of "nat i"] nat_str_digits [of "nat (- i)"] newline_code
  by (auto simp: int_str_def is_digit_def)

lemma print_no_newline:
  "CHR 0x0A \<notin> set (json_print v)" "CHR 0x0A \<notin> set (print_elems vs)" "CHR 0x0A \<notin> set (print_members fs)"
proof -
  have s: "CHR 0x0A \<notin> set (str_lit s)" for s using esc_char_no_newline by (auto simp: str_lit_def)
  show "CHR 0x0A \<notin> set (json_print v)" "CHR 0x0A \<notin> set (print_elems vs)" "CHR 0x0A \<notin> set (print_members fs)"
    by (induction v and vs and fs rule: json_print_print_elems_print_members.induct)
      (simp_all add: s int_str_no_newline)
qed

lemma drop_newline_id: "CHR 0x0A \<notin> set s \<Longrightarrow> drop_newline s = s"
  by (induction s) auto

lemma stream_text_message [simp]: "stream_text [toNetworkStream m] = toNetworkStream m"
  by (simp add: stream_text_def toNetworkStream_def JSON_stringify_def drop_newline_id print_no_newline)

section \<open>Properties\<close>

text \<open>
  A heart beat is answered. When a peer serves the protocol and its answer arrives in one chunk,
  the callback gets no error and the response, with the id of the request.
\<close>

lemma heart_beat_answered:
  assumes "peer \<noteq> p2Self p" "json_normal randId"
    and "HeartBeatReqMsg randId (JObj [(''from'', JStr (p2Self p)), (''to'', JStr peer)]) = Inr req"
    and "p2Exchange p peer ''/heartbeat/0.1'' (toNetworkStream req) w =
      (case onHeartBeat peer r' (toNetworkStream req) of Inr (Some s) \<Rightarrow> Chunks [s] | _ \<Rightarrow> NoAnswer, w')"
  shows "\<exists>res. sendHeartBeat p peer req w = (Some (None, Some res), w') \<and> msg_id res = msg_id req"
proof -
  obtain res where x: "HeartBeatReqMsg r' (JStr (toNetworkStream req)) = Inr req" "msgValid req"
    "HeartBeatResMsg (JObj [(''from'', JStr peer), (''to'', JStr (p2Self p)), (''id'', msg_id req)]) = Inr res"
    "HeartBeatResMsg (JStr (toNetworkStream res)) = Inr res" "isCompatibleWithMsg res req = Inr True"
    using heartbeat_exchange [OF assms(2), of "JStr (p2Self p)" "JStr peer" r'] assms(3) by auto
  have "req_param ''from'' req = Inr (JStr (p2Self p))"
    using assms(3) by (auto simp: HeartBeatReqMsg_def build_msg_def parse_if_string_def has_all_obj heartBeatReq_of_def
        Msg_obj andE_def req_param_def obj_get_def)
  then have "onHeartBeat peer r' (toNetworkStream req) = Inr (Some (toNetworkStream res))"
    using x by (simp add: onHeartBeat_def toHeartBeatReqMsg_def)
  then have "sendHeartBeat p peer req w = (Some (None, Some res), w')"
    using assms(1,4) x by (simp add: sendHeartBeat_def dialProtocol_def toHeartBeatResMsg_def)
  moreover have "msg_id res = msg_id req"
    using x(5) by (auto simp: isCompatibleWithMsg_def bindE_eq_Inr split: if_splits)
  ultimately show ?thesis by blast
qed

text \<open>
  The request of \<open>findPeers\<close> is always valid, so that it does not matter that the code builds it
  after the dial.
\<close>

definition find_req :: "'w p2p \<Rightarrow> json \<Rightarrow> string \<Rightarrow> json \<Rightarrow> msg" where
  "find_req p randId peer maxPeers =
     \<lparr>rawMsg = findPeersReq_of randId (JObj [(''from'', JStr (p2Self p)), (''to'', JStr peer), (''maxpeers'', maxPeers)]),
      msgValid = True\<rparr>"

lemma find_req:
  "FindPeersReqMsg randId (JObj [(''from'', JStr (p2Self p)), (''to'', JStr peer), (''maxpeers'', n)]) =
     Inr (find_req p randId peer n)"
  by (simp add: FindPeersReqMsg_def build_msg_def parse_if_string_def has_all_obj find_req_def findPeersReq_of_def Msg_obj
      obj_get_def andE_def)

text \<open>What a response shows of a connected peer.\<close>

definition peer_json :: "peer_info \<Rightarrow> json" where
  "peer_json q = JObj [(''peerId'', piId q), (''connectedMultiaddr'', JStr (the (piConnected q))),
     (''multiAddrs'', JArr (map JStr (piAddrs q)))]"

definition book_ok :: "peer_info list \<Rightarrow> bool" where
  "book_ok ps \<longleftrightarrow> list_all (\<lambda>q. piConnected q \<noteq> None \<and> json_normal (piId q)) ps"

lemma parsePeerBook_ok: "book_ok ps \<Longrightarrow> parsePeerBook ps = Inr (JArr (map peer_json ps))"
proof -
  assume "book_ok ps"
  then have "mapE (\<lambda>p. parsePeerInfo (Some p)) ps = Inr (map peer_json ps)"
    by (intro mapE_Inr) (auto simp: book_ok_def list_all_iff parsePeerInfo_def peer_json_def)
  then show ?thesis by (simp add: parsePeerBook_def)
qed

lemma peer_json_normal: "book_ok ps \<Longrightarrow> json_normal (JArr (map peer_json ps))"
proof -
  have strs: "normal_elems (map JStr xs)" for xs by (induction xs) auto
  show "book_ok ps \<Longrightarrow> json_normal (JArr (map peer_json ps))"
    by (induction ps) (auto simp: book_ok_def peer_json_def obj_wf_def strs)
qed

definition pick_ok :: "('a list \<Rightarrow> nat \<Rightarrow> 'a list) \<Rightarrow> bool" where
  "pick_ok pick \<longleftrightarrow> (\<forall>xs k. k \<le> length xs \<longrightarrow> set (pick xs k) \<subseteq> set xs \<and> length (pick xs k) = k)"

text \<open>
  C35: peers are found. When a peer serves the protocol over a book of connected peers and its
  answer arrives in one chunk, the callback gets no error and a compatible response that lists
  only peers of that book, as many as were asked for when the number is positive and smaller than
  the book, and the whole book otherwise.
\<close>

theorem peers_found:
  assumes "peer \<noteq> p2Self p" "json_normal randId" "pick_ok pick" "book_ok book"
    and "\<forall>data. p2Exchange p peer ''/findpeers/0.1'' data w =
      (case onFindPeers pick peer r' data book of Inr (Some s, _) \<Rightarrow> Chunks [s] | _ \<Rightarrow> NoAnswer, w')"
  shows "\<exists>req res ps. findPeers p randId peer (JNum n) w = (Some (None, Some (req, res)), w') \<and>
    res_field ''peers'' res = Inr (JArr (map peer_json ps)) \<and> set ps \<subseteq> set book \<and>
    length ps = (if 0 < n \<and> n < int (length book) then nat n else length book)"
proof -
  let ?self = "JStr (p2Self p)"
  define ps where "ps = (if n > 0 then pickRandomFromList pick book n else book)"
  define req where "req = find_req p randId peer (JNum n)"
  define res where "res = \<lparr>rawMsg = findPeersRes_of (JObj [(''from'', JStr peer), (''to'', ?self),
    (''peers'', JArr (map peer_json ps)), (''id'', randId)]), msgValid = True\<rparr>"
  have ps: "set ps \<subseteq> set book" "length ps = (if 0 < n \<and> n < int (length book) then nat n else length book)"
    using assms(3) by (auto simp: ps_def pickRandomFromList_def pick_ok_def split: if_splits)
  then have ok: "book_ok ps" using assms(4) by (auto simp: book_ok_def list_all_iff)
  have q: "FindPeersReqMsg randId (JObj [(''from'', ?self), (''to'', JStr peer), (''maxpeers'', JNum n)]) = Inr req"
    by (simp add: find_req req_def)
  have q': "toFindPeersReqMsg r' (toNetworkStream req) = Inr req"
    unfolding toFindPeersReqMsg_def FindPeersReqMsg_def stream_text_message
    by (rule build_msg_network)
      (simp_all add: req_def find_req_def findPeersReq_of_def has_all_obj andE_def Msg_obj obj_get_def obj_wf_def assms(2))
  have r: "FindPeersResMsg (JObj [(''from'', JStr peer), (''to'', ?self), (''peers'', JArr (map peer_json ps)), (''id'', randId)])
      = Inr res"
    by (simp add: FindPeersResMsg_def build_msg_def parse_if_string_def has_all_obj res_def findPeersRes_of_def Msg_obj
        obj_get_def andE_def)
  have r': "toFindPeersResMsg [toNetworkStream res] = Inr res"
    unfolding toFindPeersResMsg_def FindPeersResMsg_def stream_text_message
    by (rule build_msg_network)
      (use peer_json_normal [OF ok] in \<open>simp_all add: res_def findPeersRes_of_def has_all_obj andE_def Msg_obj obj_get_def
        obj_wf_def assms(2)\<close>)
  have reqs: "req_param ''maxpeers'' req = Inr (JNum n)" "req_param ''from'' req = Inr ?self" "msg_id req = randId" "msgValid req"
    by (simp_all add: req_def find_req_def findPeersReq_of_def req_param_def msg_id_def obj_get_def)
  have "onFindPeers pick peer r' (toNetworkStream req) book = Inr (Some (toNetworkStream res), ps)"
    by (simp add: onFindPeers_def q' reqs parsePeerBook_ok [OF ok] r flip: ps_def)
  then have x: "p2Exchange p peer ''/findpeers/0.1'' (toNetworkStream req) w = (Chunks [toNetworkStream res], w')"
    using assms(5) by simp
  have "isCompatibleWithMsg res req = Inr True"
    by (simp add: isCompatibleWithMsg_def reqs res_field_def)
      (simp add: res_def findPeersRes_of_def msg_id_def obj_get_def)
  then have "findPeers p randId peer (JNum n) w = (Some (None, Some (req, res)), w')"
    using assms(1) by (simp add: findPeers_def q reqs(4) dialProtocol_def x r')
  moreover have "res_field ''peers'' res = Inr (JArr (map peer_json ps))"
    by (simp add: res_def findPeersRes_of_def res_field_def obj_get_def)
  ultimately show ?thesis using ps by blast
qed

definition ex_book :: "peer_info list" where
  "ex_book = map (\<lambda>n. \<lparr>piId = JStr [n], piConnected = Some ''/ip4/10.0.0.1'', piAddrs = []\<rparr>) ''abc''"

definition ex_p2p :: "unit p2p" where
  "ex_p2p = \<lparr>p2Self = ''Qm1'', p2Dial = (\<lambda>_ w. (None, w)),
     p2Exchange = (\<lambda>peer prot data w. (case onFindPeers (\<lambda>xs k. take k xs) peer (JStr ''r'') data ex_book of
        Inr (Some s, _) \<Rightarrow> Chunks [s] | _ \<Rightarrow> NoAnswer, w)),
     p2NoConn = (\<lambda>_. NoAnswer), p2HangUp = (\<lambda>_ w. (None, w)), p2Connected = (\<lambda>_. [])\<rparr>"

theorem peers_found_witness:
  "\<exists>req res ps. findPeers ex_p2p (JStr ''7'') ''Qm2'' (JNum 2) () = (Some (None, Some (req, res)), ()) \<and>
     res_field ''peers'' res = Inr (JArr (map peer_json ps)) \<and> set ps \<subseteq> set ex_book \<and> length ps = 2"
proof -
  have "pick_ok (\<lambda>xs k. take k xs :: peer_info list)" by (auto simp: pick_ok_def dest: in_set_takeD)
  moreover have "book_ok ex_book" by (simp add: book_ok_def ex_book_def)
  ultimately show ?thesis
    using peers_found [of "''Qm2''" ex_p2p "JStr ''7''" "\<lambda>xs k. take k xs" ex_book "()" "JStr ''r''" "()" 2]
    by (simp add: ex_p2p_def ex_book_def)
qed

text \<open>A book with a peer that is not connected breaks the stream of the request.\<close>

lemma unconnected_peer_breaks:
  assumes "q \<in> set book" "piConnected q = None"
  shows "\<exists>e. parsePeerBook book = Inl e"
proof -
  have "\<exists>e. mapE (\<lambda>p. parsePeerInfo (Some p)) book = Inl e"
    using assms by (induction book) (auto simp: parsePeerInfo_def bindE_def split: sum.split)
  then show ?thesis by (auto simp: parsePeerBook_def)
qed

text \<open>An answer that arrives in two chunks is read with a comma between them.\<close>

lemma two_chunks_joined: "join_chunks [a, b] = a @ '','' @ b"
  by simp

end
