(* ===== verification/Launch.thy ===== *)
theory Launch
  imports Runtime_Bus Eng_Node
begin

text \<open>
  How the program is put together and how its controller dispatches:
  \<open>main_controller/EnvironmentBuilder.js\<close>, \<open>worker/builder/WorkerBuilder.js\<close>, the components that
  \<open>worker/controller/NodeController.js\<close> creates with its table of actions, and the builder of the
  contract API, \<open>ethereum/EnigmaContractAPIBuilder.js\<close>. The configuration is JSON; starting the
  node, web3 and the commands that deploy a test contract are parameters.
\<close>

definition js_or :: "json \<Rightarrow> json \<Rightarrow> json" where
  "js_or a b = (if truthy a then a else b)"

fun get_path :: "json \<Rightarrow> string list \<Rightarrow> json js" where
  "get_path v [] = Inr v"
| "get_path v (k # ks) = bindE (get_prop v k) (\<lambda>v. get_path v ks)"

section \<open>The options of the node\<close>

text \<open>
  \<open>Object.assign({}, config, {})\<close> copies the configuration; the patch of the caller wins with
  \<open>defaultsDeep\<close>, which is a library. \<open>_buildNode\<close> appends the port to every address; the
  addresses are strings.
\<close>

record node_options =
  noDiscover :: json
  noMultiAddrs :: "json list"
  noDnsNodes :: json
  noNamespace :: json
  noPort :: json
  noNickname :: json
  noPathPeerId :: json

definition buildNode :: "json \<Rightarrow> node_options js" where
  "buildNode config =
     bindE (get_prop config ''multiAddrs'') (\<lambda>maAddrs.
     case maAddrs of
       JArr xs \<Rightarrow>
         Inr \<lparr>noDiscover = fld config ''isDiscover'',
              noMultiAddrs = map (\<lambda>ma. JStr (js_key ma @ js_key (fld config ''port''))) xs,
              noDnsNodes = fld config ''bootstrapNodes'', noNamespace = fld config ''namespace'',
              noPort = fld config ''port'', noNickname = fld config ''nickname'', noPathPeerId = fld config ''idPath''\<rparr>
     | _ \<Rightarrow> Inl JsTypeError)"

section \<open>The components of the controller\<close>

text \<open>
  \<open>extraConfig\<close> decides which components exist: a task manager only with a path for its database,
  the servers only when they are configured. The web server and the management server fill in
  defaults.
\<close>

record web_config =
  wcPort :: json
  wcHealthUrl :: json
  wcStatusUrl :: json

record mgmt_config =
  mcPort :: json
  mcUrl :: json

record components =
  coPrincipalUri :: json
  coTaskDb :: "json option"
  coWeb :: "web_config option"
  coMgmt :: "mgmt_config option"

definition initPrincipalNode :: "json \<Rightarrow> json" where
  "initPrincipalNode extraConfig =
     js_or (fld (fld extraConfig ''principal'') ''uri'') (JStr ''http://127.0.0.1:10101'')"

definition initTaskManager :: "json \<Rightarrow> json option" where
  "initTaskManager extraConfig =
     (let p = fld (fld extraConfig ''tm'') ''dbPath'' in if truthy p then Some p else None)"

definition WebServer :: "json \<Rightarrow> web_config" where
  "WebServer config =
     \<lparr>wcPort = js_or (fld config ''port'') (JNum 12345),
      wcHealthUrl = js_or (fld (fld config ''healthCheck'') ''url'') (JStr ''/healthcheck''),
      wcStatusUrl = js_or (fld (fld config ''status'') ''url'') (JStr ''/status'')\<rparr>"

definition initWebServer :: "json \<Rightarrow> web_config option" where
  "initWebServer extraConfig =
     (let c = fld extraConfig ''webserver'' in if truthy c then Some (WebServer c) else None)"

definition own_or :: "json \<Rightarrow> string \<Rightarrow> json \<Rightarrow> json" where
  "own_or v k d = (case v of JObj fs \<Rightarrow> (case map_of fs k of Some x \<Rightarrow> x | None \<Rightarrow> d) | _ \<Rightarrow> d)"

definition mgmt_missing :: string where
  "mgmt_missing = ''Webserver config doesn'' @ [CHR 0x27] @ ''t contain '' @ [CHR 0x27] @ ''mgmtBase'' @ [CHR 0x27] @
     '' option required''"

text \<open>\<open>hasOwnProperty.call\<close> of \<open>undefined\<close> or \<open>null\<close> throws.\<close>

definition ManagementServer :: "json \<Rightarrow> mgmt_config js" where
  "ManagementServer config =
     (case config of
        JObj fs \<Rightarrow>
          (case map_of fs ''mgmtBase'' of
             None \<Rightarrow> Inl (Err PlainError mgmt_missing)
           | Some base \<Rightarrow>
               if base = JUndef \<or> base = JNull then Inl JsTypeError
               else Inr \<lparr>mcPort = own_or base ''port'' (JNum 23456), mcUrl = own_or base ''url'' (JStr ''/mgmt'')\<rparr>)
      | _ \<Rightarrow> Inl (Err PlainError mgmt_missing))"

definition initManagementServer :: "json \<Rightarrow> mgmt_config option js" where
  "initManagementServer extraConfig =
     (let c = fld extraConfig ''mgmt'' in
      if truthy c then bindE (ManagementServer c) (\<lambda>m. Inr (Some m)) else Inr None)"

definition initController :: "json \<Rightarrow> components js" where
  "initController extraConfig =
     bindE (initManagementServer extraConfig) (\<lambda>mgmt.
     Inr \<lparr>coPrincipalUri = initPrincipalNode extraConfig, coTaskDb = initTaskManager extraConfig,
          coWeb = initWebServer extraConfig, coMgmt = mgmt\<rparr>)"

section \<open>The table of actions\<close>

text \<open>
  The actions of the controller by notification, with the class, and whether it has the methods
  \<open>execute\<close> and \<open>asyncExecute\<close>.
\<close>

type_synonym action_entry = "string \<times> bool \<times> bool"

definition node_actions :: "(string \<times> action_entry) list" where
  "node_actions =
    [(''iw'', ''InitWorkerAction'', True, True),
     (''publish'', ''PubsubPublishAction'', True, False),
     (''subscribe'', ''PubsubSubscribeAction'', True, False),
     (''rparams'', ''GetRegistrationParamsAction'', True, False),
     (''sks_rpc'', ''SubscribeSelfSignKeyTopicPipelineAction'', True, False),
     (''getstatekeys'', ''GetStateKeysAction'', True, True),
     (''healthcheck'', ''HealthCheckAction'', True, True),
     (''getworkstatus'', ''GetStatusAction'', True, True),
     (''discovered'', ''BootstrapDiscoveredAction'', True, False),
     (''get_peers'', ''GetPeersAction'', True, False),
     (''connected'', ''NewPeerAction'', True, False),
     (''ntek'', ''NewTaskEncryptionKeyAction'', True, False),
     (''rnresult'', ''VerifyAndStoreResultAction'', True, False),
     (''tfinished'', ''PublishTaskResultAction'', True, False),
     (''tverified'', ''HandleVerifiedTaskAction'', True, False),
     (''etask'', ''ExecuteTaskAction'', True, False),
     (''stexec'', ''StartTaskExecutionAction'', True, True),
     (''verifyreq'', ''VerifyNewTaskAction'', True, True),
     (''gltresult'', ''GetResultAction'', True, True),
     (''dbreq'', ''DbRequestAction'', True, False),
     (''getat'', ''GetAllTipsAction'', True, True),
     (''getaa'', ''GetAllAddrsAction'', True, False),
     (''gett'', ''GetTipsAction'', True, True),
     (''getds'', ''GetDeltasAction'', True, False),
     (''getcbc'', ''GetContractCodeAction'', True, False),
     (''udb'', ''UpdateDbAction'', True, True),
     (''ssyncreq'', ''ProvideSyncStateAction'', True, False),
     (''findcprovider'', ''FindContentProviderAction'', True, True),
     (''identify'', ''IdentifyMissingStatesAction'', True, True),
     (''trcva'', ''TryReceiveAllAction'', True, True),
     (''alc'', ''AnnounceLocalStateAction'', True, True),
     (''srpl'', ''ReceiveAllPipelineAction'', True, True),
     (''gremotetipslocal'', ''GetLocalTipsOfRemote'', True, False),
     (''aengcids'', ''AnnounceContentAction'', True, True),
     (''proxy'', ''ProxyDispatcherAction'', True, False),
     (''rbrpc'', ''RouteRpcBlockingAction'', True, False),
     (''rnbrpc'', ''RouteRpcNonBlockingAction'', True, False),
     (''dissrrpc'', ''GetStatusProxyAction'', True, False),
     (''register'', ''RegisterAction'', True, True),
     (''unregister'', ''UnregisterAction'', True, True),
     (''login'', ''LoginAction'', True, True),
     (''logout'', ''LogoutAction'', True, True),
     (''creceipt'', ''CommitReceiptAction'', False, True),
     (''getworkparams'', ''GetWorkerParamsAction'', True, True)]"

text \<open>Calling a method that the action does not have throws.\<close>

definition execute_of :: "action_entry \<Rightarrow> string js" where
  "execute_of a = (case a of (c, e, x) \<Rightarrow> if e then Inr c else Inl JsTypeError)"

definition execCmd :: "(string \<times> action_entry) list \<Rightarrow> string \<Rightarrow> string option js" where
  "execCmd actions cmd =
     (case map_of actions cmd of None \<Rightarrow> Inr None | Some a \<Rightarrow> bindE (execute_of a) (\<lambda>c. Inr (Some c)))"

text \<open>\<open>asyncExecCmd\<close> with the way the action ends; a missing method rejects the promise, too.\<close>

definition asyncExecCmd :: "(string \<times> action_entry) list \<Rightarrow> (string \<Rightarrow> 'a js option) \<Rightarrow> string \<Rightarrow> 'a js option" where
  "asyncExecCmd actions run cmd =
     (case map_of actions cmd of
        None \<Rightarrow> Some (Inl (Err ActionNameErr (''undefined asyncExecute for '' @ cmd)))
      | Some (c, e, x) \<Rightarrow> if x then run c else Some (Inl JsTypeError))"

text \<open>The events of a component, and the messages over the channel (which log an unknown type).\<close>

definition on_notify :: "(string \<times> action_entry) list \<Rightarrow> string \<Rightarrow> string option js" where
  "on_notify actions notification =
     (case map_of actions notification of None \<Rightarrow> Inr None | Some a \<Rightarrow> bindE (execute_of a) (\<lambda>c. Inr (Some c)))"

datatype received = Executed string | WrongType string

definition node_on_message :: "(string \<times> action_entry) list \<Rightarrow> envelop \<Rightarrow> received js" where
  "node_on_message actions env =
     (case map_of actions (js_key (envType env)) of
        None \<Rightarrow> Inr (WrongType (js_key (envType env)))
      | Some a \<Rightarrow> bindE (execute_of a) (\<lambda>c. Inr (Executed c)))"

definition overrideAction :: "string \<Rightarrow> action_entry \<Rightarrow> (string \<times> action_entry) list \<Rightarrow> (string \<times> action_entry) list" where
  "overrideAction name action actions = obj_set actions name action"

section \<open>Methods of the controller\<close>

text \<open>
  The promises over the callbacks of actions, \<open>None\<close> when the callback is not invoked. The error
  branch of \<open>selfSubscribeAction\<close> rejects with the second argument.
\<close>

definition selfSubscribeAction :: "(js_error option \<times> json) option \<Rightarrow> json js option" where
  "selfSubscribeAction r =
     map_option (\<lambda>(err, signKey). case err of Some e \<Rightarrow> Inl (ErrVal signKey) | None \<Rightarrow> Inr signKey) r"

text \<open>An exception in the callback leaves the promise unsettled.\<close>

definition getSelfSubscriptionKey :: "(js_error option \<times> json) option \<Rightarrow> json js option" where
  "getSelfSubscriptionKey r =
     (case r of
        None \<Rightarrow> None
      | Some (Some e, v) \<Rightarrow> Some (Inl e)
      | Some (None, v) \<Rightarrow>
          (case get_path v [''result'', ''signingKey''] of Inl e \<Rightarrow> None | Inr k \<Rightarrow> Some (Inr k)))"

definition settle_callback :: "(js_error option \<times> 'a) option \<Rightarrow> 'a js option" where
  "settle_callback r = map_option (\<lambda>(err, v). case err of Some e \<Rightarrow> Inl e | None \<Rightarrow> Inr v) r"

definition asyncGetRegistrationParams :: "(js_error option \<times> json) option \<Rightarrow> json js option" where
  "asyncGetRegistrationParams r = settle_callback r"

definition asynctryAnnounce :: "(js_error option \<times> 'a) option \<Rightarrow> 'a js option" where
  "asynctryAnnounce r = settle_callback r"

text \<open>The error of \<open>findProviders\<close> is dropped.\<close>

definition asyncFindProviders :: "(js_error option \<times> 'a) option \<Rightarrow> 'a js option" where
  "asyncFindProviders r = map_option (\<lambda>(err, v). Inr v) r"

text \<open>\<open>lookUpPeer\<close> of the node and of the controller: every error becomes \<open>null\<close>.\<close>

definition eng_lookUpPeer :: "(string \<Rightarrow> 'i option js) \<Rightarrow> ('i \<Rightarrow> 'p js option) \<Rightarrow> string \<Rightarrow> 'p js option" where
  "eng_lookUpPeer b58ToPeerId findPeer b58Id =
     (case b58ToPeerId b58Id of
        Inl e \<Rightarrow> Some (Inl e)
      | Inr None \<Rightarrow> Some (Inl (Err TypeErr (''cant generate PeerId from '' @ b58Id)))
      | Inr (Some i) \<Rightarrow> findPeer i)"

definition lookUpPeer :: "'p js option \<Rightarrow> 'p option option" where
  "lookUpPeer r = map_option (\<lambda>x. case x of Inl e \<Rightarrow> None | Inr p \<Rightarrow> Some p) r"

text \<open>
  A connection string becomes a peer. An invalid one is reported and then parsed all the same, so
  that the exception of the parser comes on top; the result is what the callback gets, in order,
  and the exception that escapes.
\<close>

definition connectionStrToPeerInfo ::
    "(string \<Rightarrow> bool) \<Rightarrow> (string \<Rightarrow> 'p js js) \<Rightarrow> string \<Rightarrow> 'p js list \<times> js_error option" where
  "connectionStrToPeerInfo isIpfs create candidate =
     (let invalid = (if isIpfs candidate then [] else [Inl (Err PlainError ''Invalid multiaddr'')]) in
      case create candidate of
        Inl e \<Rightarrow> (invalid, Some e)
      | Inr r \<Rightarrow> (invalid @ [r], None))"

text \<open>\<open>addPeer\<close>: what the action for discovered peers is executed with, and the exception.\<close>

definition addPeer :: "(string \<Rightarrow> bool) \<Rightarrow> (string \<Rightarrow> 'p js js) \<Rightarrow> string \<Rightarrow> 'p list \<times> js_error option" where
  "addPeer isIpfs create maStr =
     (case connectionStrToPeerInfo isIpfs create maStr of
        (calls, e) \<Rightarrow> (concat (map (\<lambda>r. case r of Inr p \<Rightarrow> [p] | Inl e \<Rightarrow> []) calls), e))"

text \<open>
  The id at the end of an address, and a seed of the peer bank, a peer or its fields, as a peer: \<open>isPeerInfo\<close>, \<open>create\<close> and
  \<open>isIpfs\<close> are third-party. The callback gets an error of \<open>create\<close> and the code goes on with no peer,
  which throws when the seed has an address to add, and invokes the callback again otherwise. A
  peer is its id with its addresses.
\<close>

definition extractId :: "(string \<Rightarrow> bool) \<Rightarrow> string \<Rightarrow> string option" where
  "extractId isIpfs url = (if isIpfs url then Some (drop (length url - 46) url) else None)"

definition peerBankSeedtoPeerInfo ::
    "(string \<Rightarrow> bool) \<Rightarrow> (json \<Rightarrow> 'i js) \<Rightarrow> ('i \<times> string list) + (json \<times> string list option) \<Rightarrow>
     ('i \<times> string list) js list \<times> js_error option" where
  "peerBankSeedtoPeerInfo isIpfs create seed =
     (case seed of
        Inl peerInfo \<Rightarrow> ([Inr peerInfo], None)
      | Inr (peerId, multiAddrs) \<Rightarrow>
          (let added = filter isIpfs (case multiAddrs of None \<Rightarrow> [] | Some mas \<Rightarrow> mas) in
           case create peerId of
             Inr i \<Rightarrow> ([Inr (i, added)], None)
           | Inl e \<Rightarrow> if added = [] then ([Inl e, Inl e], None) else ([Inl e], Some JsTypeError)))"

text \<open>The promises over the callbacks of the file system, of \<open>zlib\<close> and of web3.\<close>

definition readFile :: "(js_error option \<times> 'a) option \<Rightarrow> 'a js option" where
  "readFile r = settle_callback r"

definition gzip :: "(js_error option \<times> 'a) option \<Rightarrow> 'a js option" where
  "gzip r = settle_callback r"

definition gunzip :: "(js_error option \<times> 'a) option \<Rightarrow> 'a js option" where
  "gunzip r = settle_callback r"

definition getEthereumBlockNumber :: "(js_error option \<times> int) option \<Rightarrow> int js option" where
  "getEthereumBlockNumber r = settle_callback r"

section \<open>The environment builder\<close>

text \<open>The fields are \<open>false\<close> until they are set.\<close>

record env_builder =
  ebNode :: json
  ebIpc :: json
  ebLogger :: json
  ebJsonRpc :: json
  ebEthereum :: json

definition EnvironmentBuilder :: env_builder where
  "EnvironmentBuilder =
     \<lparr>ebNode = JBool False, ebIpc = JBool False, ebLogger = JBool False, ebJsonRpc = JBool False, ebEthereum = JBool False\<rparr>"

text \<open>The setters; \<open>reuse\<close> clears a builder for another system.\<close>

definition reuse :: "env_builder \<Rightarrow> env_builder" where
  "reuse b = b\<lparr>ebNode := JBool False, ebIpc := JBool False, ebLogger := JBool False, ebJsonRpc := JBool False,
     ebEthereum := JBool False\<rparr>"

definition setEthereumConfig :: "json \<Rightarrow> env_builder \<Rightarrow> env_builder" where
  "setEthereumConfig ethereumConfig b = b\<lparr>ebEthereum := ethereumConfig\<rparr>"

definition setNodeConfig :: "json \<Rightarrow> env_builder \<Rightarrow> env_builder" where
  "setNodeConfig nodeConfig b = b\<lparr>ebNode := nodeConfig\<rparr>"

definition setJsonRpcConfig :: "json \<Rightarrow> env_builder \<Rightarrow> env_builder" where
  "setJsonRpcConfig jsonRpcConfig b = b\<lparr>ebJsonRpc := jsonRpcConfig\<rparr>"

definition setIpcConfig :: "json \<Rightarrow> env_builder \<Rightarrow> env_builder" where
  "setIpcConfig ipcConfig b = b\<lparr>ebIpc := ipcConfig\<rparr>"

definition setLoggerConfig :: "json \<Rightarrow> env_builder \<Rightarrow> env_builder" where
  "setLoggerConfig loggerConfig b = b\<lparr>ebLogger := loggerConfig\<rparr>"

lemmas builder_setters = setEthereumConfig_def setNodeConfig_def setJsonRpcConfig_def setIpcConfig_def setLoggerConfig_def

text \<open>What is started, in order, with its configuration.\<close>

datatype launch =
    InitEthereum json
  | StartNode json
  | SetEthereumApi
  | StartCore json
  | Listen json json

text \<open>
  \<open>build\<close>: \<open>ethereum\<close> is the error of the initialisation of Ethereum, \<open>startNode\<close> the way the node
  starts, with its peer id. A failure ends the build.
\<close>

definition env_build ::
    "(json \<Rightarrow> js_error option) \<Rightarrow> (json \<Rightarrow> json js) \<Rightarrow> env_builder \<Rightarrow> launch list \<times> string list js" where
  "env_build ethereum startNode b =
     (let withEth = truthy (ebEthereum b);
          ev1 = (if truthy (ebNode b) \<and> withEth then [InitEthereum (ebEthereum b)] else []);
          node = (if truthy (ebNode b) then
                    (case (if withEth then ethereum (ebEthereum b) else None) of
                       Some e \<Rightarrow> (ev1, Inl e)
                     | None \<Rightarrow>
                         (case startNode (ebNode b) of
                            Inl e \<Rightarrow> (ev1 @ [StartNode (ebNode b)], Inl e)
                          | Inr peerId \<Rightarrow>
                              (ev1 @ [StartNode (ebNode b)] @ (if withEth then [SetEthereumApi] else []),
                               Inr ([''node''], peerId))))
                  else (ev1, Inr ([], JNull))) in
      case node of
        (evs, Inl e) \<Rightarrow> (evs, Inl e)
      | (evs, Inr (rts, peerId)) \<Rightarrow>
          (let core = (if truthy (ebIpc b) then
                         (if truthy (fld (ebIpc b) ''uri'') then Inr ([StartCore (ebIpc b)], rts @ [''core''])
                          else Inl (Err PlainError ''Must pass uri to CoreRuntime''))
                       else Inr ([], rts)) in
           case core of
             Inl e \<Rightarrow> (evs, Inl e)
           | Inr (ev, rts) \<Rightarrow>
               if truthy (ebJsonRpc b) then
                 (evs @ ev @ [Listen (js_or (fld (ebJsonRpc b) ''port'') (JNum 3000)) (js_or (fld (ebJsonRpc b) ''peerId'') peerId)],
                  Inr (rts @ [''jsonRpc'']))
               else (evs @ ev, Inr rts)))"

text \<open>\<open>buildFromSingle\<close>: the builder that a configuration file sets up.\<close>

definition single_node_config :: "json \<Rightarrow> json js" where
  "single_node_config nodeConfig =
     bindE (get_path nodeConfig [''network'', ''bootstrapNodes'']) (\<lambda>bootstrapNodes.
     bindE (get_path nodeConfig [''network'', ''port'']) (\<lambda>port.
     bindE (get_prop nodeConfig ''idPath'') (\<lambda>idPath.
     bindE (get_path nodeConfig [''taskManager'', ''dbPath'']) (\<lambda>dbPath.
     bindE (get_path nodeConfig [''principalNode'', ''uri'']) (\<lambda>uri.
     Inr (JObj [(''bootstrapNodes'', bootstrapNodes), (''port'', port), (''idPath'', idPath),
       (''extraConfig'', JObj [(''tm'', JObj [(''dbPath'', dbPath)]), (''principal'', JObj [(''uri'', uri)])])]))))))"

definition buildFromSingle :: "json \<Rightarrow> env_builder js" where
  "buildFromSingle configFile =
     bindE (get_prop configFile ''logger'') (\<lambda>loggerConfig.
     bindE (get_prop configFile ''core'') (\<lambda>ipcConfig.
     bindE (get_prop configFile ''proxy'') (\<lambda>jsonRpcConfig.
     bindE (get_prop jsonRpcConfig ''withProxy'') (\<lambda>withProxy.
     bindE (get_prop configFile ''ethereum'') (\<lambda>ethereumConfig.
     bindE (get_prop ethereumConfig ''withEthereum'') (\<lambda>withEthereum.
     bindE (get_prop configFile ''node'') (\<lambda>node.
     bindE (single_node_config node) (\<lambda>nodeConfig.
       let b = setIpcConfig ipcConfig (setLoggerConfig loggerConfig EnvironmentBuilder);
           b = (if truthy withProxy then setJsonRpcConfig jsonRpcConfig b else b);
           b = (if truthy withEthereum then setEthereumConfig ethereumConfig b else b)
       in Inr (setNodeConfig nodeConfig b)))))))))"

section \<open>Lemmas\<close>

text \<open>
  The commands that the actions and components run with \<open>asyncExecCmd\<close> and with \<open>execCmd\<close> or an
  event have an action with the method; only \<open>CommitReceiptAction\<close> lacks \<open>execute\<close>.
\<close>

definition async_commands :: "string list" where
  "async_commands = [''iw'', ''creceipt'', ''aengcids'', ''udb'', ''gett'', ''getstatekeys'', ''getworkparams'', ''srpl'',
     ''getat'', ''identify'', ''findcprovider'', ''trcva'', ''gltresult'', ''register'']"

definition sync_commands :: "string list" where
  "sync_commands = [''rparams'', ''publish'', ''etask'', ''dbreq'', ''subscribe'', ''stexec'', ''ntek'', ''iw'', ''getaa'',
     ''rbrpc'', ''rnbrpc'', ''dissrrpc'', ''srpl'', ''alc'', ''getstatekeys'', ''sks_rpc'', ''discovered'', ''verifyreq'',
     ''tfinished'', ''tverified'', ''get_peers'', ''register'', ''login'', ''logout'', ''unregister'', ''connected'',
     ''ssyncreq'', ''getat'', ''rnresult'', ''healthcheck'', ''getworkstatus'', ''proxy'']"

lemma commands_have_actions:
  "list_all (\<lambda>c. case map_of node_actions c of Some (n, e, x) \<Rightarrow> x | None \<Rightarrow> False) async_commands"
  "list_all (\<lambda>c. case map_of node_actions c of Some (n, e, x) \<Rightarrow> e | None \<Rightarrow> False) sync_commands"
  "filter (\<lambda>(c, a). \<not> fst (snd a)) node_actions = [(''creceipt'', ''CommitReceiptAction'', False, True)]"
  by code_simp+

lemma asyncExecCmd_run: "c \<in> set async_commands \<Longrightarrow> \<exists>a. asyncExecCmd node_actions run c = run a"
proof -
  assume "c \<in> set async_commands"
  then have "case map_of node_actions c of Some (n, e, x) \<Rightarrow> x | None \<Rightarrow> False"
    using commands_have_actions(1) by (simp add: list_all_iff)
  then show ?thesis by (auto simp: asyncExecCmd_def split: option.splits)
qed

text \<open>A system with a node routes the requests of users to it, and with core the requests to the database.\<close>

lemma launched_targets:
  assumes "env_build ethereum startNode b = (evs, Inr rts)" "truthy (ebNode b)"
  shows "runtimesMap rts ''node'' = Some 0" "truthy (ebIpc b) \<Longrightarrow> runtimesMap rts ''core'' = Some 1"
  using assms by (auto simp: env_build_def Let_def runtimesMap_def split: sum.splits option.splits prod.splits if_splits)

text \<open>A reused builder builds what a new one does, whatever was set before.\<close>

lemma reuse_fresh: "reuse b = EnvironmentBuilder"
  by (simp add: reuse_def EnvironmentBuilder_def)

text \<open>Without a path for the database there is no task manager; there is no default path.\<close>

lemma no_default_task_db:
  "map_option (\<lambda>c. coTaskDb c) (case initController (JObj [(''tm'', JObj [(''dbPath'', JNull)])]) of Inr c \<Rightarrow> Some c | Inl e \<Rightarrow> None)
     = Some None"
  by (simp add: initController_def initManagementServer_def initTaskManager_def obj_get_def Let_def)

text \<open>An invalid connection string is reported and parsed all the same.\<close>

lemma invalid_address_parsed:
  "\<not> isIpfs a \<Longrightarrow> create a = Inl e \<Longrightarrow>
     connectionStrToPeerInfo isIpfs create a = ([Inl (Err PlainError ''Invalid multiaddr'')], Some e)"
  by (simp add: connectionStrToPeerInfo_def)

lemma self_subscribe_loses_error: "selfSubscribeAction (Some (Some e, JUndef)) = Some (Inl (ErrVal JUndef))"
  by (simp add: selfSubscribeAction_def)

end
