(* ===== verification/Eth_Services.thy ===== *)
theory Eth_Services
  imports Eth_Verifier Eth_Reader
begin

text \<open>
  \<open>src/src/ethereum/EthereumServices.js\<close>, which gives the raw events of the contract the names of
  services, and its listeners in \<open>EthereumVerifier.init\<close>: how a raw event reaches the listener
  of a task.
\<close>

section \<open>Services\<close>

definition servicesMap :: "(string \<times> string list) list" where
  "servicesMap =
     [(''NewEpoch'', [''WorkersParameterized'']), (''TaskCreation'', [''TaskRecordCreated'']),
      (''TaskSuccessSubmission'', [''ReceiptVerified'']), (''TaskFailureSubmission'', [''ReceiptFailed'']),
      (''TaskFailureDueToEthereumCB'', [''ReceiptFailedETH'']), (''TaskCancelled'', [''TaskFeeReturned'']),
      (''SecretContractDeployment'', [''SecretContractDeployed''])]"

text \<open>
  \<open>initServices\<close>: the subscriptions it makes, each of an event for a service; an unknown service
  throws after the subscriptions of the services before it.
\<close>

fun init_services :: "string list \<Rightarrow> (string \<times> string) list \<times> js_error option" where
  "init_services [] = ([], None)"
| "init_services (s # ss) =
     (case map_of servicesMap s of
        None \<Rightarrow> ([], Some JsTypeError)
      | Some events \<Rightarrow> apfst (\<lambda>subs. map (Pair s) events @ subs) (init_services ss))"

definition initServices :: "string list option \<Rightarrow> (string \<times> string) list \<times> js_error option" where
  "initServices desired = init_services (case desired of None \<Rightarrow> map fst servicesMap | Some ss \<Rightarrow> ss)"

text \<open>The callback of a subscription: what is emitted under the name of the service.\<close>

definition service_event :: "string \<Rightarrow> json js \<Rightarrow> json js" where
  "service_event service r = bindE r (\<lambda>event. set_prop event ''type'' (JStr service))"

section \<open>The listeners of the verifier\<close>

text \<open>
  The epoch of a parsed event, when its numbers have been parsed; the contract emits integers.
\<close>

definition epoch_of_event :: "json \<Rightarrow> epoch option" where
  "epoch_of_event ev =
     (case (fld ev ''firstBlockNumber'', fld ev ''seed'', fld ev ''workers'', fld ev ''balances'') of
        (JNum first, JNum seed, JArr ws, JArr bs) \<Rightarrow>
          (if list_all is_str ws \<and> list_all (\<lambda>b. case b of JNum _ \<Rightarrow> True | _ \<Rightarrow> False) bs
           then Some \<lparr>epFirstBlock = Some first, epSeed = seed, epWorkers = map js_key ws,
                  epBalances = map (\<lambda>b. case b of JNum n \<Rightarrow> n | _ \<Rightarrow> 0) bs\<rparr>
           else None)
      | _ \<Rightarrow> None)"

definition verifier_on :: "eth_env \<Rightarrow> string \<Rightarrow> json js \<Rightarrow> verifier \<Rightarrow> verifier" where
  "verifier_on env service ev vf =
     (if service = ''NewEpoch''
      then (case ev of
              Inl e \<Rightarrow> newEpochEventCallback env (Inl e) vf
            | Inr v \<Rightarrow> (case epoch_of_event v of Some e \<Rightarrow> newEpochEventCallback env (Inr e) vf | None \<Rightarrow> vf))
      else if service = ''TaskCreation'' \<or> service = ''TaskCancelled'' then taskCreationEventCallback env ev vf
      else if service \<in> {''TaskSuccessSubmission'', ''TaskFailureSubmission'', ''TaskFailureDueToEthereumCB''}
      then taskSubmissionEventCallback env ev vf
      else if service = ''SecretContractDeployment'' then taskDeployedContractEventCallback env ev vf
      else vf)"

section \<open>Lemmas\<close>

text \<open>The first field of a parsed event, when nothing later hides it.\<close>

lemma parse_first_field:
  assumes "parse_event n raw = Inr ev" "get_prop raw ''returnValues'' = Inr rv"
    and "map_of event_parsers n = Some ((k, prop, f) # fs)"
  obtains x rest where "f (fld rv prop) = Inr x" "ev = JObj ((k, x) # rest)" "pick_fields fs rv = Inr rest"
proof -
  from assms obtain y x rest where y: "get_prop rv prop = Inr y" and x: "f y = Inr x"
    and r: "pick_fields fs rv = Inr rest" "ev = JObj ((k, x) # rest)"
    by (auto simp: parse_event_def bindE_eq_Inr)
  then show thesis using that get_prop_fld [OF y] by simp
qed

lemma pick_fields_keys: "pick_fields fs v = Inr ps \<Longrightarrow> map fst ps = map fst fs"
  by (induction fs arbitrary: ps) (auto simp: bindE_eq_Inr)

lemma service_event_JObj: "service_event s (Inr (JObj fs)) = Inr (JObj (obj_set fs ''type'' (JStr s)))"
  by (simp add: service_event_def)

section \<open>Properties\<close>

text \<open>
  C28: the creation of a task reaches its verification. When the contract emits
  \<open>TaskRecordCreated\<close> for a task, with or without the prefix of its id, and a verification waits
  under the bare id, the parsed and renamed event removes exactly that listener and resolves its
  promise, as verified exactly when the hash in the event is that of the inputs of the task and the
  worker is the one selected at the block of the event; provided that the handler does not throw:
  the inputs can be hashed and the lottery of every epoch has an outcome for the contract.
\<close>

theorem creation_event_settles:
  assumes "parse_event ''TaskRecordCreated'' raw = Inr ev" "get_prop raw ''returnValues'' = Inr rv"
    and "fld rv ''taskId'' = JStr s" "map_of (vfCreate vf) (strip0x s) = Some l"
    and "field_int (fld rv ''blockNumber'') = Inr b"
    and "hashable env (clTask l)" "list_all (lottery_works env (clTask l)) (vfParams vf)"
  shows "let vf' = verifier_on env ''TaskCreation'' (service_event ''TaskCreation'' (Inr ev)) vf in
    vfCreate vf' = obj_del (vfCreate vf) (strip0x s) \<and>
    (\<exists>v. vfResolved vf' = vfResolved vf @ [(clPromise l, v)] \<and>
       ckVerified (vdCheck v) =
         (inputs_hash_is env (fld rv ''inputsHash'') (clTask l) \<and>
          worker_selected env (vfParams vf) (tkContractAddr (clTask l)) b (clWorker l)))"
proof -
  have p: "map_of event_parsers ''TaskRecordCreated'' = Some ((''taskId'', ''taskId'', field_bare) #
      [(''inputsHash'', ''inputsHash'', Inr), (''gasLimit'', ''gasLimit'', field_int), (''gasPrice'', ''gasPx'', field_int),
       (''senderAddress'', ''sender'', Inr), (''blockNumber'', ''blockNumber'', field_int)])"
    by (simp add: event_parsers_def)
  obtain x rest where x: "field_bare (fld rv ''taskId'') = Inr x" "ev = JObj ((''taskId'', x) # rest)"
    and r: "pick_fields [(''inputsHash'', ''inputsHash'', Inr), (''gasLimit'', ''gasLimit'', field_int),
       (''gasPrice'', ''gasPx'', field_int), (''senderAddress'', ''sender'', Inr), (''blockNumber'', ''blockNumber'', field_int)] rv
      = Inr rest"
    by (rule parse_first_field [OF assms(1,2) p])
  have ev: "ev = JObj ((''taskId'', JStr (strip0x s)) # rest)"
    using x assms(3) by (simp add: field_bare_def remove0x_def)
  have rest: "map fst rest = [''inputsHash'', ''gasLimit'', ''gasPrice'', ''senderAddress'', ''blockNumber'']"
    using pick_fields_keys [OF r] by simp
  let ?ev = "JObj ((''taskId'', JStr (strip0x s)) # obj_set rest ''type'' (JStr ''TaskCreation''))"
  have "''tasks'' \<notin> set (map fst rest)" unfolding rest by simp
  then have "map_of rest ''tasks'' = None" by (simp add: map_of_eq_None_iff)
  then have sel: "creation_target ?ev k = (if k = strip0x s then Some ?ev else None)" for k
    by (auto simp: creation_target_def obj_get_def)
  have fire: "fire_first (creation_target ?ev) vfCreate deleteTaskCreationListener (runCreation env) (obj_keys (vfCreate vf)) vf
      = runCreation env ?ev l (deleteTaskCreationListener (strip0x s) vf)"
    using assms(4) by (intro creations.fire_first_hit) (auto simp: sel dest: map_of_SomeD intro: rev_image_eqI)
  have run: "verifier_on env ''TaskCreation'' (service_event ''TaskCreation'' (Inr ev)) vf
      = runCreation env ?ev l (deleteTaskCreationListener (strip0x s) vf)"
    using fire by (simp add: ev service_event_JObj verifier_on_def taskCreationEventCallback_def)
  have fields: "fld ?ev ''inputsHash'' = fld rv ''inputsHash''" "fld ?ev ''blockNumber'' = b"
    "ev_type ?ev = JStr ''TaskCreation''"
    using r assms(5) by (auto simp: bindE_eq_Inr obj_get_def dest!: get_prop_fld)
  obtain v where v: "creationListener env (vfParams vf) l ?ev = Some (Inr v)"
    using creation_handler_resolves [OF assms(6,7)] by blast
  have "ckVerified (vdCheck v) = (inputs_hash_is env (fld rv ''inputsHash'') (clTask l) \<and>
      worker_selected env (vfParams vf) (tkContractAddr (clTask l)) b (clWorker l))"
    using creationListener_verified [OF v] unfolding fields by simp
  then show ?thesis by (simp add: run runCreation_def Let_def v vfResolved_settle)
qed

text \<open>
  The cancellation of a task does not. \<open>TaskFeeReturned\<close> is parsed without removing the
  prefix of the id, so that no listener, which are all registered under bare ids, gets the event:
  the verifier is unchanged.
\<close>

lemma cancellation_missed:
  assumes "parse_event ''TaskFeeReturned'' raw = Inr ev" "get_prop raw ''returnValues'' = Inr rv"
    and "fld rv ''taskId'' = JStr s" "take 2 s = ''0x''" "\<forall>k\<in>set (obj_keys (vfCreate vf)). take 2 k \<noteq> ''0x''"
  shows "verifier_on env ''TaskCancelled'' (service_event ''TaskCancelled'' (Inr ev)) vf = vf"
proof -
  have p: "map_of event_parsers ''TaskFeeReturned'' = Some ((''taskId'', ''taskId'', Inr) # [])"
    by (simp add: event_parsers_def)
  have ev: "ev = JObj [(''taskId'', JStr s)]"
    using assms(3) by (auto intro: parse_first_field [OF assms(1,2) p])
  have "creation_target (JObj (obj_set [(''taskId'', JStr s)] ''type'' (JStr ''TaskCancelled''))) k = None"
    if "k \<in> set (obj_keys (vfCreate vf))" for k
    using assms(4,5) that by (auto simp: creation_target_def obj_get_def)
  then show ?thesis
    by (simp add: ev service_event_JObj verifier_on_def taskCreationEventCallback_def creations.fire_first_none del: obj_set.simps)
qed

definition ex_created :: json where
  "ex_created = JObj [(''returnValues'', JObj [(''taskId'', JStr ''0xab12''), (''inputsHash'', fld ex_record ''inputsHash''), (''gasLimit'', JStr ''7''),
     (''gasPx'', JStr ''1''), (''sender'', JStr ''aa''), (''blockNumber'', JStr ''150'')])]"

theorem creation_event_settles_witness:
  "let vf = verifier_on ex_env ''TaskCreation''
     (service_event ''TaskCreation'' (parse_event ''TaskRecordCreated'' ex_created)) ex_vf1 in
   vfCreate vf = [] \<and> (\<exists>v. vfResolved vf = [(0, v)] \<and> ckVerified (vdCheck v))"
proof -
  obtain ev where ev: "parse_event ''TaskRecordCreated'' ex_created = Inr ev"
    by (simp add: ex_created_def parse_event_def event_parsers_def obj_get_def field_bare_def field_int_def)
  let ?l = "\<lparr>clBlock = Some 150, clTask = ex_ctask, clWorker = ''aa'', clPromise = 0\<rparr>"
  have vf: "vfCreate ex_vf1 = [(''ab12'', ?l)]" "vfResolved ex_vf1 = []" "vfParams ex_vf1 = vfParams ex_vf"
    by code_simp+
  have ok: "hashable ex_env ex_ctask" "list_all (lottery_works ex_env ex_ctask) (vfParams ex_vf)"
    by code_simp+
  have block: "field_int (JStr ''150'') = Inr (JNum 150)" by code_simp
  have "bindE (createParams ex_env ex_ctask) (hashArray (envSha3 ex_env)) = Inr (fld ex_record ''inputsHash'')"
    by code_simp
  then have hash: "inputs_hash_is ex_env (fld ex_record ''inputsHash'') ex_ctask"
    by (auto simp: inputs_hash_is_def bindE_eq_Inr)
  have "verifySelectedWorker ex_env (vfParams ex_vf) ex_ctask (JNum 150) ''aa'' = Some (Inr passed)"
    by code_simp
  from verifySelectedWorker_verified [OF this]
  have sel: "worker_selected ex_env (vfParams ex_vf) (tkContractAddr ex_ctask) (JNum 150) ''aa''" by simp
  have "strip0x ''0xab12'' = ''ab12''" by code_simp
  then show ?thesis
    using creation_event_settles [OF ev, of _ "''0xab12''" ex_vf1 ?l "JNum 150" ex_env] ev ok vf block hash sel
    by (auto simp: ex_created_def obj_get_def obj_del_def Let_def)
qed

end
