(* ===== verification/Eth_Setup.thy ===== *)
theory Eth_Setup
  imports Launch Eth_Services
begin

text \<open>
  How the Ethereum part comes up: \<open>ethereum/EnigmaContractAPIBuilder.js\<close>, which connects to a
  contract or deploys one on a test network, and \<open>ethereum/EthereumAPI.js\<close>, which builds the reader or
  writer, the services and the verifier on top. Child processes, files and web3 are parameters.
\<close>

section \<open>The builder\<close>

text \<open>A contract is either connected to or deployed on a test network. \<open>dd\<close> is \<open>defaultsDeep\<close>.\<close>

record api_builder =
  abWriter :: bool
  abNetwork :: bool
  abDeploy :: bool
  abUseDeployed :: bool
  abConfig :: json
  abAddress :: json
  abKey :: json
  abStaking :: json
  abConfirmations :: json

definition APIBuilder :: "json \<Rightarrow> api_builder" where
  "APIBuilder truffleDirectory =
     \<lparr>abWriter = True, abNetwork = False, abDeploy = True, abUseDeployed = False,
      abConfig = JObj [(''url'', JStr ''ws://127.0.0.1:9545''), (''truffleDirectory'', truffleDirectory)],
      abAddress = JNull, abKey = JNull, abStaking = JNull, abConfirmations = JNull\<rparr>"

definition onlyReader :: "api_builder \<Rightarrow> api_builder" where
  "onlyReader b = b\<lparr>abWriter := False\<rparr>"

definition setOperationalAddress :: "json \<Rightarrow> api_builder \<Rightarrow> api_builder" where
  "setOperationalAddress address b = b\<lparr>abAddress := address\<rparr>"

definition setStakingAddress :: "json \<Rightarrow> api_builder \<Rightarrow> api_builder" where
  "setStakingAddress address b = b\<lparr>abStaking := address\<rparr>"

definition setOperationalKey :: "json \<Rightarrow> api_builder \<Rightarrow> api_builder" where
  "setOperationalKey key b = b\<lparr>abKey := key\<rparr>"

definition setMinimunConfirmations :: "json \<Rightarrow> api_builder \<Rightarrow> api_builder" where
  "setMinimunConfirmations minimunConfirmations b = b\<lparr>abConfirmations := minimunConfirmations\<rparr>"

definition with_config :: "(json \<Rightarrow> json \<Rightarrow> json) \<Rightarrow> json \<Rightarrow> api_builder \<Rightarrow> api_builder" where
  "with_config dd config b = (if config = JUndef \<or> config = JNull then b else b\<lparr>abConfig := dd config (abConfig b)\<rparr>)"

definition ab_useDeployed :: "(json \<Rightarrow> json \<Rightarrow> json) \<Rightarrow> json \<Rightarrow> api_builder \<Rightarrow> api_builder" where
  "ab_useDeployed dd config b = with_config dd config (b\<lparr>abUseDeployed := True\<rparr>)"

definition ab_createNetwork :: "(json \<Rightarrow> json \<Rightarrow> json) \<Rightarrow> json \<Rightarrow> api_builder \<Rightarrow> api_builder" where
  "ab_createNetwork dd config b = with_config dd config (b\<lparr>abNetwork := True\<rparr>)"

definition ab_deploy :: "(json \<Rightarrow> json \<Rightarrow> json) \<Rightarrow> json \<Rightarrow> api_builder \<Rightarrow> api_builder" where
  "ab_deploy dd config b = with_config dd config (b\<lparr>abDeploy := True\<rparr>)"

lemmas api_setters = setOperationalAddress_def setStakingAddress_def setOperationalKey_def setMinimunConfirmations_def

section \<open>Building\<close>

text \<open>
  What the build does outside, and its parameters: the parsed \<open>build/contracts/Enigma.json\<close> of a
  truffle directory, the error text of compiling and of migrating, the network of the workspace,
  and the test helper that mines confirmations.
\<close>

datatype api_effect = StartNetwork | CompileContracts | MigrateContracts | ConnectWeb3 string | StopNetwork | Disconnect

record api_env =
  aeContractJson :: "json \<Rightarrow> json js"
  aeCompile :: "json \<Rightarrow> string option"
  aeMigrate :: "json \<Rightarrow> string option"
  aeNetworkId :: "json \<Rightarrow> json js"
  aeAdvance :: "json \<Rightarrow> js_error option"

definition initWeb3 :: "json \<Rightarrow> string js" where
  "initWeb3 url =
     (case url of
        JStr u \<Rightarrow>
          if take 3 u = ''ws:'' then Inr u
          else Inl (Err PlainError ''wrong transport config. Only websocket is currently supported'')
      | _ \<Rightarrow> Inl JsTypeError)"

definition startNetwork :: "api_builder \<Rightarrow> api_effect list" where
  "startNetwork b = [StartNetwork]"

definition buildEnv :: "api_env \<Rightarrow> json \<Rightarrow> unit js" where
  "buildEnv env truffleDirectory =
     (case aeCompile env truffleDirectory of
        Some err \<Rightarrow> Inl (ErrVal (JStr (''ApiBuilder.buildEnv '' @ err))) | None \<Rightarrow> Inr ())"

definition resetEnv :: "api_env \<Rightarrow> json \<Rightarrow> unit js" where
  "resetEnv env truffleDirectory =
     (case aeMigrate env truffleDirectory of
        Some err \<Rightarrow> Inl (ErrVal (JStr (''ApiBuilder.resetEnv '' @ err))) | None \<Rightarrow> Inr ())"

text \<open>The address and the ABI of the contract.\<close>

definition connectToContract :: "api_builder \<Rightarrow> api_effect list \<times> (json \<times> json) js" where
  "connectToContract b =
     (case initWeb3 (fld (abConfig b) ''url'') of
        Inl e \<Rightarrow> ([], Inl e)
      | Inr u \<Rightarrow> ([ConnectWeb3 u], Inr (fld (abConfig b) ''enigmaContractAddress'', fld (abConfig b) ''enigmaContractABI'')))"

definition initEnv :: "api_env \<Rightarrow> api_builder \<Rightarrow> api_effect list \<times> (json \<times> json) js" where
  "initEnv env b =
     (let dir = fld (abConfig b) ''truffleDirectory'' in
      case buildEnv env dir of
        Inl e \<Rightarrow> ([CompileContracts], Inl e)
      | Inr _ \<Rightarrow>
          (case bindE (resetEnv env dir) (\<lambda>_.
                bindE (aeNetworkId env dir) (\<lambda>networkId.
                bindE (aeContractJson env dir) (\<lambda>contract.
                bindE (initWeb3 (fld (abConfig b) ''url'')) (\<lambda>u. Inr (networkId, contract, u))))) of
             Inl e \<Rightarrow> ([CompileContracts, MigrateContracts], Inl e)
           | Inr (networkId, contract, u) \<Rightarrow>
               ([CompileContracts, MigrateContracts, ConnectWeb3 u],
                case aeAdvance env (abConfirmations b) of
                  Some e \<Rightarrow> Inl e
                | None \<Rightarrow>
                    bindE (get_path contract [''networks'', js_key networkId, ''address'']) (\<lambda>address.
                    bindE (get_prop contract ''abi'') (\<lambda>abi. Inr (address, abi))))))"

record built_api =
  buWriter :: bool
  buContract :: json
  buAbi :: json
  buUrl :: json
  buWorker :: json
  buKey :: json
  buStaking :: json
  buConfirmations :: json

definition built :: "api_builder \<Rightarrow> json \<Rightarrow> json \<Rightarrow> built_api" where
  "built b address abi =
     \<lparr>buWriter = abWriter b, buContract = address, buAbi = abi, buUrl = fld (abConfig b) ''url'', buWorker = abAddress b,
      buKey = (if abWriter b then add0x (abKey b) else JUndef), buStaking = (if abWriter b then abStaking b else JUndef),
      buConfirmations = abConfirmations b\<rparr>"

text \<open>
  \<open>build\<close>: the ABI is read from the workspace when the configuration has none. Without a contract there is no
  web3 for the constructors of the API.
\<close>

definition api_build :: "api_env \<Rightarrow> api_builder \<Rightarrow> api_effect list \<times> built_api js" where
  "api_build env b =
     (let net = (if abNetwork b then startNetwork b else []);
          contract =
            (if abUseDeployed b then
               (case (if fld (abConfig b) ''enigmaContractABI'' = JUndef then
                        bindE (aeContractJson env (fld (abConfig b) ''truffleDirectory'')) (\<lambda>contract.
                        bindE (get_prop contract ''abi'') (\<lambda>abi.
                        bindE (set_prop (abConfig b) ''enigmaContractABI'' abi) (\<lambda>config. Inr (b\<lparr>abConfig := config\<rparr>))))
                      else Inr b) of
                  Inl e \<Rightarrow> ([], Inl e)
                | Inr b \<Rightarrow> connectToContract b)
             else if abDeploy b then initEnv env b
             else ([], Inl JsTypeError)) in
      (net @ fst contract, bindE (snd contract) (\<lambda>(address, abi). Inr (built b address abi))))"

definition setConfigAndBuild ::
    "api_env \<Rightarrow> (json \<Rightarrow> json \<Rightarrow> json) \<Rightarrow> json \<Rightarrow> api_builder \<Rightarrow> api_builder \<times> api_effect list \<times> built_api js" where
  "setConfigAndBuild env dd options b =
     (if options = JUndef \<or> options = JNull then (b, [], Inl JsTypeError)
      else
        (let confirmations = (case fld options ''minConfirmations'' of JNum n \<Rightarrow> JNum n | _ \<Rightarrow> JNum 12);
             b = (if truthy (fld options ''enigmaContractAddress'') then
                    ab_useDeployed dd
                      (JObj ([(''enigmaContractAddress'', fld options ''enigmaContractAddress'')] @
                        (if truthy (fld options ''urlProvider'') then [(''url'', fld options ''urlProvider'')] else []) @
                        (if truthy (fld options ''enigmaContractAbi'')
                         then [(''enigmaContractABI'', fld options ''enigmaContractAbi'')] else []))) b
                  else ab_deploy dd JUndef (ab_createNetwork dd (JObj []) b));
             b = setMinimunConfirmations confirmations (setStakingAddress (fld options ''stakingAddress'')
               (setOperationalKey (fld options ''operationalKey'') (setOperationalAddress (fld options ''operationalAddress'') b)))
         in (b, api_build env b)))"

text \<open>
  \<open>destroy\<close>: \<open>kill\<close> and \<open>disconnect\<close> are the errors of ending the network and of web3; without a
  connection there is no web3.
\<close>

definition api_destroy :: "js_error option \<Rightarrow> js_error option \<Rightarrow> bool \<Rightarrow> api_builder \<Rightarrow> api_effect list \<times> unit js" where
  "api_destroy kill disconnect connected b =
     (if abNetwork b \<and> kill \<noteq> None then ([StopNetwork], Inl (the kill))
      else
        ((if abNetwork b then [StopNetwork] else []) @ (if connected then [Disconnect] else []),
         if \<not> connected then Inl JsTypeError else case disconnect of Some e \<Rightarrow> Inl e | None \<Rightarrow> Inr ()))"

section \<open>The Ethereum part of the node\<close>

text \<open>
  The fields of \<open>EthereumAPI\<close>. \<open>eaSubs\<close> are the subscriptions that the services made on the contract,
  each an event for a service, and \<open>eaListens\<close> the services that the verifier listens to.
\<close>

record ethereum_api =
  eaApi :: "built_api option"
  eaBuilder :: "api_builder option"
  eaUrl :: json
  eaAddress :: json
  eaSubs :: "(string \<times> string) list"
  eaVerifier :: "verifier option"
  eaListens :: "string list"

definition EthereumAPI :: ethereum_api where
  "EthereumAPI = \<lparr>eaApi = None, eaBuilder = None, eaUrl = JNull, eaAddress = JNull, eaSubs = [], eaVerifier = None,
     eaListens = []\<rparr>"

text \<open>
  \<open>init\<close> of the verifier: it listens to new epochs before it asks for the recent ones, and to the
  rest after that. The result is its state, the services and the error.
\<close>

definition verifier_services :: "string list" where
  "verifier_services =
     [''TaskCreation'', ''TaskCancelled'', ''TaskSuccessSubmission'', ''TaskFailureSubmission'', ''TaskFailureDueToEthereumCB'',
      ''SecretContractDeployment'']"

definition init_verifier :: "epoch list js \<Rightarrow> int js \<Rightarrow> verifier \<Rightarrow> verifier \<times> string list \<times> unit js" where
  "init_verifier epochs timeout vf =
     (case verifier_init epochs timeout vf of
        Inr vf' \<Rightarrow> (vf', ''NewEpoch'' # verifier_services, Inr ())
      | Inl e \<Rightarrow> (case updateWorkerParamNow epochs vf of Inr vf' \<Rightarrow> vf' | Inl _ \<Rightarrow> vf, [''NewEpoch''], Inl e))"

definition eth_init ::
    "api_env \<Rightarrow> (json \<Rightarrow> json \<Rightarrow> json) \<Rightarrow> json \<Rightarrow> epoch list js \<Rightarrow> int js \<Rightarrow> json \<Rightarrow> ethereum_api \<Rightarrow>
     api_effect list \<times> ethereum_api \<times> unit js" where
  "eth_init env dd dir epochs timeout config s =
     (case setConfigAndBuild env dd config (APIBuilder dir) of
        (b, evs, Inl e) \<Rightarrow> (evs, s, Inl e)
      | (b, evs, Inr api) \<Rightarrow>
          (let s = s\<lparr>eaApi := Some api, eaBuilder := Some b, eaUrl := buUrl api, eaAddress := buContract api,
                 eaSubs := fst (initServices None)\<rparr> in
           case snd (initServices None) of
             Some e \<Rightarrow> (evs, s, Inl e)
           | None \<Rightarrow>
               (case init_verifier epochs timeout EthereumVerifier of
                  (vf, listens, r) \<Rightarrow> (evs, s\<lparr>eaVerifier := Some vf, eaListens := listens\<rparr>, r))))"

definition eth_destroy :: "js_error option \<Rightarrow> js_error option \<Rightarrow> ethereum_api \<Rightarrow> api_effect list \<times> unit js" where
  "eth_destroy kill disconnect s =
     (case eaBuilder s of None \<Rightarrow> ([], Inl JsTypeError) | Some b \<Rightarrow> api_destroy kill disconnect True b)"

section \<open>Lemmas\<close>

text \<open>
  A contract that is connected to is the one of the options, over their web socket, with the
  confirmations of the options or twelve.
\<close>

lemma configured_api:
  assumes dd: "defaults_ok dd" and c: "truthy (obj_get fs ''enigmaContractAddress'')" "truthy (obj_get fs ''enigmaContractAbi'')"
    and u: "obj_get fs ''urlProvider'' = JStr u" "take 3 u = ''ws:''"
  shows "snd (setConfigAndBuild env dd (JObj fs) (APIBuilder dir)) =
    ([ConnectWeb3 u],
     Inr \<lparr>buWriter = True, buContract = obj_get fs ''enigmaContractAddress'', buAbi = obj_get fs ''enigmaContractAbi'',
       buUrl = JStr u, buWorker = obj_get fs ''operationalAddress'', buKey = add0x (obj_get fs ''operationalKey''),
       buStaking = obj_get fs ''stakingAddress'',
       buConfirmations = (case obj_get fs ''minConfirmations'' of JNum n \<Rightarrow> JNum n | _ \<Rightarrow> JNum 12)\<rparr>)"
proof -
  have t: "truthy (JStr u)" using u(2) by (cases u) auto
  have n: "obj_get fs ''enigmaContractAbi'' \<noteq> JUndef" using c(2) by auto
  show ?thesis using dd c u t n
    by (simp add: setConfigAndBuild_def Let_def ab_useDeployed_def with_config_def APIBuilder_def api_build_def connectToContract_def
      api_setters defaults_fld [OF dd] default_field_def initWeb3_def built_def obj_get_def)
qed

text \<open>The key of the template for the web socket is not the one that is read.\<close>

lemma template_provider_ignored:
  assumes "defaults_ok dd"
  shows "fst (snd (setConfigAndBuild env dd
      (JObj [(''ethereumWebsocketProvider'', JStr ''ws://10.0.0.1:9545''), (''enigmaContractAddress'', JStr ''0xab''),
         (''enigmaContractAbi'', JArr [])])
      (APIBuilder dir))) = [ConnectWeb3 ''ws://127.0.0.1:9545'']"
  using assms by (simp add: setConfigAndBuild_def Let_def ab_useDeployed_def with_config_def APIBuilder_def api_build_def
    connectToContract_def api_setters defaults_fld [OF assms] default_field_def initWeb3_def built_def obj_get_def)

text \<open>A network is started exactly by a builder that is told to create one.\<close>

lemma api_build_network: "StartNetwork \<in> set (fst (api_build env b)) \<longleftrightarrow> abNetwork b"
  by (auto simp: api_build_def Let_def startNetwork_def connectToContract_def initEnv_def split: sum.splits prod.splits if_splits)

lemma built_destroyed:
  assumes "setConfigAndBuild env dd config (APIBuilder dir) = (b, evs, Inr api)"
  shows "api_destroy None None True b = ((if StartNetwork \<in> set evs then [StopNetwork] else []) @ [Disconnect], Inr ())"
proof -
  have "evs = fst (api_build env b)" using assms by (auto simp: setConfigAndBuild_def Let_def split: if_splits)
  then show ?thesis by (simp add: api_build_network api_destroy_def)
qed

text \<open>The verifier listens to every service, and every event of a service is parsed.\<close>

lemma services_listened: "set (''NewEpoch'' # verifier_services) = set (map fst servicesMap)"
  "distinct (''NewEpoch'' # verifier_services)"
  by code_simp+

lemma services_parsed: "list_all (\<lambda>(service, event). map_of event_parsers event \<noteq> None) (fst (initServices None))"
  "snd (initServices None) = None" "map fst (fst (initServices None)) = map fst servicesMap"
  "distinct (map snd (fst (initServices None)))"
  by code_simp+

lemma init_verifier_ok:
  "verifier_init epochs timeout vf = Inr vf' \<Longrightarrow> init_verifier epochs timeout vf = (vf', ''NewEpoch'' # verifier_services, Inr ())"
  by (simp add: init_verifier_def)

section \<open>Properties\<close>

text \<open>
  The Ethereum part comes up for the configured contract. With a contract and its ABI, a web
  socket, and epochs and a timeout that the contract answers, the only effect is to connect to
  that socket; the API uses the contract, account and confirmations of the options, twelve by
  default; each service is subscribed to an event that has a parser and the verifier listens to all
  of them, with the epochs, the timeout and no pending task; and destroying it only disconnects.
\<close>

lemma ethereum_comes_up:
  assumes "defaults_ok dd" "truthy (obj_get fs ''enigmaContractAddress'')" "truthy (obj_get fs ''enigmaContractAbi'')"
    and "obj_get fs ''urlProvider'' = JStr u" "take 3 u = ''ws:''" "\<not> (\<exists>p\<in>set (tl epochs). \<not> validateWorkerParams p)"
    and "eth_init env dd dir (Inr epochs) (Inr t) (JObj fs) EthereumAPI = (evs, s, r)"
  shows "r = Inr () \<and> evs = [ConnectWeb3 u] \<and> eaUrl s = JStr u \<and> eaAddress s = obj_get fs ''enigmaContractAddress'' \<and>
    (\<exists>api. eaApi s = Some api \<and> buContract api = obj_get fs ''enigmaContractAddress'' \<and>
       buKey api = add0x (obj_get fs ''operationalKey'') \<and>
       buConfirmations api = (case obj_get fs ''minConfirmations'' of JNum n \<Rightarrow> JNum n | _ \<Rightarrow> JNum 12)) \<and>
    map fst (eaSubs s) = map fst servicesMap \<and> set (eaListens s) = set (map fst servicesMap) \<and>
    list_all (\<lambda>(service, event). map_of event_parsers event \<noteq> None) (eaSubs s) \<and>
    eaVerifier s = Some (EthereumVerifier\<lparr>vfParams := sortWorkerParams epochs, vfTimeout := t\<rparr>) \<and>
    eth_destroy None None s = ([Disconnect], Inr ())"
proof -
  let ?b = "fst (setConfigAndBuild env dd (JObj fs) (APIBuilder dir))"
  obtain api where b: "setConfigAndBuild env dd (JObj fs) (APIBuilder dir) = (?b, [ConnectWeb3 u], Inr api)"
    and api: "buContract api = obj_get fs ''enigmaContractAddress''" "buKey api = add0x (obj_get fs ''operationalKey'')"
      "buUrl api = JStr u" "buConfirmations api = (case obj_get fs ''minConfirmations'' of JNum n \<Rightarrow> JNum n | _ \<Rightarrow> JNum 12)"
    using configured_api [OF assms(1-5), of env dir] by (cases "setConfigAndBuild env dd (JObj fs) (APIBuilder dir)") auto
  have v: "verifier_init (Inr epochs) (Inr t) EthereumVerifier =
      Inr (EthereumVerifier\<lparr>vfParams := sortWorkerParams epochs, vfTimeout := t\<rparr>)"
    using assms(6) by (simp add: verifier_init_def updateWorkerParamNow_def)
  have init: "eth_init env dd dir (Inr epochs) (Inr t) (JObj fs) EthereumAPI =
      ([ConnectWeb3 u], EthereumAPI\<lparr>eaApi := Some api, eaBuilder := Some ?b, eaUrl := JStr u,
         eaAddress := obj_get fs ''enigmaContractAddress'', eaSubs := fst (initServices None),
         eaVerifier := Some (EthereumVerifier\<lparr>vfParams := sortWorkerParams epochs, vfTimeout := t\<rparr>),
         eaListens := ''NewEpoch'' # verifier_services\<rparr>, Inr ())"
    by (subst eth_init_def, subst b) (simp add: services_parsed(2) init_verifier_ok [OF v] api)
  have s: "s = fst (snd (eth_init env dd dir (Inr epochs) (Inr t) (JObj fs) EthereumAPI))" "evs = [ConnectWeb3 u]" "r = Inr ()"
    using assms(7) by (simp_all add: init)
  have l: "set (eaListens s) = set (map fst servicesMap)" unfolding s(1) init using services_listened(1) by simp
  have d: "eth_destroy None None s = ([Disconnect], Inr ())" unfolding s(1) init using built_destroyed [OF b] by (simp add: eth_destroy_def)
  show ?thesis unfolding l d unfolding s init using services_parsed(1,3) api by simp
qed

end
