(* ===== verification/Core_Mock.thy ===== *)
theory Core_Mock
  imports Task_Results
begin

text \<open>
  \<open>src/src/core/core_server_mock/core_server.js\<close>: the stand-in for the core process. Its database
  maps the text of a byte array (the address) to an object from keys to data; the bytecode has
  the key -1. The schema validator (jsonschema) is the parameter \<open>valid\<close>.
\<close>

section \<open>State and messages\<close>

type_synonym mock_db = "(string \<times> (string \<times> json) list) list"

type_synonym schemes = "string \<Rightarrow> json \<Rightarrow> bool"

record mock =
  mkDb :: mock_db
  mkSignKey :: "json option"

definition mock_error :: "json \<Rightarrow> json" where
  "mock_error msg = JObj [(''id'', fld msg ''id''), (''type'', JStr ''Error''),
     (''msg'', JStr (''Message Error, Type: '' @ js_key (fld msg ''type'')))]"

definition mock_result :: "json \<Rightarrow> (string \<times> json) list \<Rightarrow> json" where
  "mock_result msg fs = JObj [(''type'', fld msg ''type''), (''id'', fld msg ''id''), (''result'', JObj fs)]"

text \<open>The elements of an array that the schema has checked.\<close>

definition elems :: "json \<Rightarrow> json list" where
  "elems v = (case v of JArr xs \<Rightarrow> xs | _ \<Rightarrow> [])"

definition num :: "json \<Rightarrow> int" where
  "num v = (case v of JNum n \<Rightarrow> n | _ \<Rightarrow> 0)"

text \<open>\<open>DbUtils.toHexString(JSON.parse(address))\<close> and \<open>JSON.stringify(DbUtils.hexToBytes(address))\<close>\<close>

definition addr_bytes :: "string \<Rightarrow> json js" where
  "addr_bytes key = JSON_parse key"

definition addr_hex :: "string \<Rightarrow> string js" where
  "addr_hex key = bindE (addr_bytes key) (\<lambda>v. Inr (toHexString (map num (elems v))))"

definition addr_key :: "string \<Rightarrow> string" where
  "addr_key hex = JSON_stringify (JArr (map JNum (hexToBytes hex)))"

section \<open>Reading\<close>

definition mock_getContract :: "schemes \<Rightarrow> json \<Rightarrow> mock_db \<Rightarrow> json" where
  "mock_getContract valid msg db =
     (if \<not> valid ''GetContract'' msg then mock_error msg
      else
        let address = fld msg ''input'' in
        mock_result msg [(''address'', address),
          (''bytecode'', case map_of db (addr_key (js_key address)) of
             Some data \<Rightarrow> obj_get data ''-1'' | None \<Rightarrow> JNull)])"

text \<open>\<open>for (let key = from; key < to; key++)\<close>: the deltas of one contract.\<close>

definition range_deltas :: "string \<Rightarrow> (string \<times> json) list \<Rightarrow> int \<Rightarrow> int \<Rightarrow> json list" where
  "range_deltas dbAddr data from to =
     concat (map (\<lambda>key. if truthy (obj_get data (int_str key))
         then [JObj [(''address'', JStr dbAddr), (''key'', JNum key), (''data'', obj_get data (int_str key))]] else [])
       [from..to - 1])"

text \<open>The last range of each address in the request.\<close>

definition input_map :: "json list \<Rightarrow> (string \<times> json) list" where
  "input_map input = foldl (\<lambda>m r. obj_set m (js_key (fld r ''address'')) r) [] input"

definition mock_getDeltas :: "schemes \<Rightarrow> json \<Rightarrow> mock_db \<Rightarrow> json js" where
  "mock_getDeltas valid msg db =
     (if \<not> valid ''GetDeltas'' msg then Inr (mock_error msg)
      else
        let inputMap = input_map (elems (fld msg ''input'')) in
        bindE (mapE (\<lambda>(key, data).
            bindE (addr_hex key) (\<lambda>dbAddr. Inr (case map_of inputMap dbAddr of
               Some r \<Rightarrow> range_deltas dbAddr data (num (fld r ''from'')) (num (fld r ''to''))
             | None \<Rightarrow> []))) db) (\<lambda>dss.
        Inr (mock_result msg [(''deltas'', JArr (concat dss))])))"

text \<open>\<open>Object.keys(...).reduce((a, b) => (a > b ? a : b))\<close>: the order of strings.\<close>

fun str_less :: "string \<Rightarrow> string \<Rightarrow> bool" where
  "str_less [] t = (t \<noteq> [])"
| "str_less (c # s) [] = False"
| "str_less (c # s) (d # t) = ((of_char c :: nat) < of_char d \<or> c = d \<and> str_less s t)"

definition max_key :: "string list \<Rightarrow> string js" where
  "max_key ks = (case ks of [] \<Rightarrow> Inl JsTypeError | k # ks \<Rightarrow> Inr (foldl (\<lambda>a b. if str_less b a then a else b) k ks))"

text \<open>\<open>parseInt\<close> of a key, which is the text of an integer.\<close>

definition key_int :: "string \<Rightarrow> json" where
  "key_int k =
     (case k of
        c # ds \<Rightarrow> JNum (if c = CHR ''-'' then - int (digits_val (takeWhile is_digit ds)) else int (digits_val (takeWhile is_digit k)))
      | [] \<Rightarrow> JNull)"

definition retrieveTipsFromDB :: "mock_db \<Rightarrow> json list js" where
  "retrieveTipsFromDB db =
     mapE (\<lambda>(address, data).
       bindE (addr_bytes address) (\<lambda>bytes.
       bindE (max_key (obj_keys data)) (\<lambda>maxKey.
       Inr (JObj [(''address'', bytes), (''key'', key_int maxKey), (''data'', obj_get data maxKey)])))) db"

definition mock_getAllTips :: "schemes \<Rightarrow> json \<Rightarrow> mock_db \<Rightarrow> json js" where
  "mock_getAllTips valid msg db =
     (if valid ''GetAllTips'' msg
      then bindE (retrieveTipsFromDB db) (\<lambda>tips. Inr (mock_result msg [(''tips'', JArr tips)]))
      else Inr (mock_error msg))"

text \<open>The key of these tips stays a string; an unknown address is an error.\<close>

fun mock_tips :: "mock_db \<Rightarrow> json list \<Rightarrow> json list option js" where
  "mock_tips db [] = Inr (Some [])"
| "mock_tips db (a # as) =
     (case map_of db (addr_key (js_key a)) of
        None \<Rightarrow> Inr None
      | Some data \<Rightarrow>
          bindE (max_key (obj_keys data)) (\<lambda>maxKey.
          bindE (mock_tips db as) (\<lambda>rest.
          Inr (map_option (\<lambda>ts. JObj [(''address'', a), (''key'', JStr maxKey), (''data'', obj_get data maxKey)] # ts) rest))))"

definition mock_getTips :: "schemes \<Rightarrow> json \<Rightarrow> mock_db \<Rightarrow> json js" where
  "mock_getTips valid msg db =
     (if valid ''GetTips'' msg
      then bindE (mock_tips db (elems (fld msg ''input''))) (\<lambda>tips.
        Inr (case tips of Some ts \<Rightarrow> mock_result msg [(''tips'', JArr ts)] | None \<Rightarrow> mock_error msg))
      else Inr (mock_error msg))"

definition mock_getAllAddrs :: "schemes \<Rightarrow> json \<Rightarrow> mock_db \<Rightarrow> json js" where
  "mock_getAllAddrs valid msg db =
     (if \<not> valid ''GetAllAddrs'' msg then Inr (mock_error msg)
      else bindE (mapE (\<lambda>(key, data). addr_hex key) db) (\<lambda>as.
        Inr (mock_result msg [(''addresses'', JArr (map JStr as))])))"

section \<open>Writing\<close>

definition db_entry :: "string \<Rightarrow> mock_db \<Rightarrow> (string \<times> json) list" where
  "db_entry address db = (case map_of db address of Some data \<Rightarrow> data | None \<Rightarrow> [])"

definition db_write :: "string \<Rightarrow> string \<Rightarrow> json \<Rightarrow> mock_db \<Rightarrow> mock_db" where
  "db_write address key data db = obj_set db address (obj_set (db_entry address db) key data)"

definition mock_writeToDB :: "schemes \<Rightarrow> json \<Rightarrow> mock_db \<Rightarrow> json option \<times> mock_db" where
  "mock_writeToDB valid msg db =
     (if valid ''UpdateDeltas'' msg
      then (None, foldl (\<lambda>db d. db_write (js_key (fld d ''address'')) (js_key (fld d ''key'')) (fld d ''data'') db) db
              (elems (fld msg ''deltas'')))
      else if valid ''UpdateNewContract'' msg
      then (None, db_write (js_key (fld msg ''address'')) ''-1'' (fld msg ''bytecode'') db)
      else if valid ''UpdateNewContractOnDeployment'' msg
      then (None, db_write (js_key (fld msg ''address'')) (js_key (fld (fld msg ''delta'') ''key'')) (fld (fld msg ''delta'') ''data'')
              (db_write (js_key (fld msg ''address'')) ''-1'' (fld msg ''bytecode'') db))
      else (Some (mock_error msg), db))"

section \<open>Tasks and keys\<close>

definition checked :: "schemes \<Rightarrow> string \<Rightarrow> json \<Rightarrow> json \<Rightarrow> json" where
  "checked valid scheme msg v = (if valid scheme msg then v else mock_error msg)"

definition id_type_result :: "json \<Rightarrow> (string \<times> json) list \<Rightarrow> json" where
  "id_type_result msg fs = JObj [(''id'', fld msg ''id''), (''type'', fld msg ''type''), (''result'', JObj fs)]"

definition mock_delta :: json where
  "mock_delta = JObj [(''key'', JNum 0), (''data'', JArr (map JNum [11, 2, 3, 5, 41, 44]))]"

definition GET_DEPLOY_BYTECODE_MOCK :: json where
  "GET_DEPLOY_BYTECODE_MOCK = JStr ''88987af7d35eabcad95915b93bfd3d2bc3308f06b7197478b0dfca268f0497dc''"

definition GET_COMPUTE_OUTPUT_MOCK :: json where
  "GET_COMPUTE_OUTPUT_MOCK = JStr ''5678867878978978789789787878979845656666666abygjkljkljkj''"

definition getDeployTaskResult :: "schemes \<Rightarrow> json \<Rightarrow> json" where
  "getDeployTaskResult valid msg = checked valid ''DeploySecretContract'' msg (id_type_result msg
     [(''output'', GET_DEPLOY_BYTECODE_MOCK), (''preCodeHash'', JStr ''hash-of-the-precode-bytecode''),
      (''delta'', mock_delta), (''usedGas'', JStr ''amount-of-gas-used''), (''ethereumPayload'', JStr ''hex of payload''),
      (''ethereumAddress'', JStr ''address of the payload''), (''signature'', JStr ''enclave-signature'')])"

definition getComputeTaskResult :: "schemes \<Rightarrow> json \<Rightarrow> json" where
  "getComputeTaskResult valid msg = checked valid ''ComputeTask'' msg (id_type_result msg
     [(''output'', GET_COMPUTE_OUTPUT_MOCK), (''delta'', mock_delta), (''usedGas'', JStr ''amount-of-gas-used''),
      (''ethereumPayload'', JStr ''hex of payload''), (''ethereumAddress'', JStr ''address of the payload''),
      (''signature'', JStr ''enclave-signature'')])"

definition getPTTRequest :: "schemes \<Rightarrow> json \<Rightarrow> json" where
  "getPTTRequest valid msg = checked valid ''GetPTTRequest'' msg (id_type_result msg
     [(''request'', JStr ''no addresses''), (''workerSig'', JStr ''the-worker-sig'')])"

definition PTTResponse :: "schemes \<Rightarrow> json \<Rightarrow> json" where
  "PTTResponse valid msg = checked valid ''PTTResponse'' msg (id_type_result msg [(''errors'', JArr [])])"

text \<open>The signing key is drawn once; \<open>fresh\<close> is the drawn one.\<close>

definition sign_key :: "json \<Rightarrow> mock \<Rightarrow> json \<times> mock" where
  "sign_key fresh m =
     (case mkSignKey m of
        Some k \<Rightarrow> (k, m)
      | None \<Rightarrow> (fresh, m\<lparr>mkSignKey := Some fresh\<rparr>))"

definition getNewTaskEncryptionKey :: "schemes \<Rightarrow> json \<Rightarrow> json \<Rightarrow> mock \<Rightarrow> json \<times> mock" where
  "getNewTaskEncryptionKey valid fresh msg m =
     (let (k, m) = sign_key fresh m in
      (checked valid ''NewTaskEncryptionKey'' msg
         (JObj [(''id'', fld msg ''id''), (''type'', fld msg ''type''), (''senderKey'', k),
            (''result'', JObj [(''workerEncryptionKey'', JStr ''0061d93b5412c0c99c3c7867db13c4e13e51292bd52565d002ecf845bb0cfd8adfa5459173364ea8aff3fe24054cca88581f6c3c5e928097b9d4d47fce12ae47''),
               (''workerSig'', JStr ''worker-signature-with-signed-by-the-private-key-of-the-sender-key'')])]), m))"

text \<open>\<open>report\<close> and \<open>reportSig\<close> are two long constants of the file.\<close>

definition getRegistrationParams :: "schemes \<Rightarrow> json \<Rightarrow> json \<Rightarrow> json \<Rightarrow> json \<Rightarrow> mock \<Rightarrow> json \<times> mock" where
  "getRegistrationParams valid report reportSig fresh msg m =
     (let (k, m) = sign_key fresh m in
      (checked valid ''GetAllTips'' msg
         (mock_result msg [(''signingKey'', k), (''report'', report), (''signature'', reportSig)]), m))"

section \<open>The server\<close>

definition ok_status :: "json \<Rightarrow> json" where
  "ok_status msg = JObj [(''type'', fld msg ''type''), (''id'', fld msg ''id''), (''status'', JNum 0)]"

text \<open>
  The answer to a message: \<open>None\<close> for an unknown command and when a handler throws. The updates
  are only acknowledged: the call of \<open>_writeToDB\<close> is commented out.
\<close>

definition mock_server :: "schemes \<Rightarrow> json \<Rightarrow> json \<Rightarrow> json \<Rightarrow> json \<Rightarrow> mock \<Rightarrow> json option \<times> mock" where
  "mock_server valid report reportSig fresh msg m =
     (let type = fld msg ''type''; plain = (\<lambda>r. ((case r of Inr v \<Rightarrow> Some v | Inl (e :: js_error) \<Rightarrow> None), m)) in
      if type = JStr ''GetRegistrationParams'' then apfst Some (getRegistrationParams valid report reportSig fresh msg m)
      else if type = JStr ''GetAllTips'' then plain (mock_getAllTips valid msg (mkDb m))
      else if type = JStr ''GetTips'' then plain (mock_getTips valid msg (mkDb m))
      else if type = JStr ''GetAllAddrs'' then plain (mock_getAllAddrs valid msg (mkDb m))
      else if type = JStr ''GetDeltas'' then plain (mock_getDeltas valid msg (mkDb m))
      else if type = JStr ''GetContract'' then plain (Inr (mock_getContract valid msg (mkDb m)))
      else if type \<in> JStr ` {''UpdateNewContract'', ''UpdateNewContractOnDeployment'', ''UpdateDeltas'', ''RemoveContract'', ''RemoveDeltas''}
      then plain (Inr (ok_status msg))
      else if type = JStr ''NewTaskEncryptionKey'' then apfst Some (getNewTaskEncryptionKey valid fresh msg m)
      else if type = JStr ''DeploySecretContract'' then plain (Inr (getDeployTaskResult valid msg))
      else if type = JStr ''ComputeTask'' then plain (Inr (getComputeTaskResult valid msg))
      else if type = JStr ''GetPTTRequest'' then plain (Inr (getPTTRequest valid msg))
      else if type = JStr ''PTTResponse'' then plain (Inr (PTTResponse valid msg))
      else (None, m))"

section \<open>Properties\<close>

lemma range_deltas_iff:
  "JObj [(''address'', JStr a), (''key'', JNum k), (''data'', d)] \<in> set (range_deltas b data from to) \<longleftrightarrow>
     a = b \<and> from \<le> k \<and> k < to \<and> d = obj_get data (int_str k) \<and> truthy d"
  by (auto simp: range_deltas_def split: if_splits)

lemma mapE_set: "mapE f xs = Inr ys \<Longrightarrow> y \<in> set ys \<longleftrightarrow> (\<exists>x\<in>set xs. f x = Inr y)"
  by (induction xs arbitrary: ys) (auto simp: bindE_eq_Inr)

text \<open>
  The stand-in answers a request for deltas exactly. The deltas of the response are those in
  its database, under an address of the request and in the half-open range asked for it, with
  the data held; empty data are left out.
\<close>

lemma mock_deltas_exact:
  assumes "valid ''GetDeltas'' msg" "mock_getDeltas valid msg db = Inr r"
  shows "JObj [(''address'', JStr a), (''key'', JNum k), (''data'', d)] \<in> set (elems (fld (fld r ''result'') ''deltas'')) \<longleftrightarrow>
    (\<exists>addr data range. (addr, data) \<in> set db \<and> addr_hex addr = Inr a \<and>
       map_of (input_map (elems (fld msg ''input''))) a = Some range \<and>
       num (fld range ''from'') \<le> k \<and> k < num (fld range ''to'') \<and> d = obj_get data (int_str k) \<and> truthy d)"
proof -
  let ?m = "input_map (elems (fld msg ''input''))"
  define g where "g b data = (case map_of ?m b of
      Some r \<Rightarrow> range_deltas b data (num (fld r ''from'')) (num (fld r ''to'')) | None \<Rightarrow> [])" for b data
  let ?f = "\<lambda>(key, data). bindE (addr_hex key) (\<lambda>b. Inr (g b data))"
  let ?x = "JObj [(''address'', JStr a), (''key'', JNum k), (''data'', d)]"
  obtain dss where dss: "mapE ?f db = Inr dss" and r: "r = mock_result msg [(''deltas'', JArr (concat dss))]"
    using assms by (auto simp: mock_getDeltas_def Let_def bindE_eq_Inr g_def)
  have in_g: "?x \<in> set (g b data) \<longleftrightarrow> b = a \<and> (\<exists>range. map_of ?m a = Some range \<and>
       num (fld range ''from'') \<le> k \<and> k < num (fld range ''to'') \<and> d = obj_get data (int_str k) \<and> truthy d)" for b data
    by (cases "map_of ?m b") (auto simp: g_def range_deltas_iff)
  have "?x \<in> set (concat dss) \<longleftrightarrow> (\<exists>addr data ds. (addr, data) \<in> set db \<and> ?f (addr, data) = Inr ds \<and> ?x \<in> set ds)"
    using mapE_set [OF dss] by fastforce
  also have "\<dots> \<longleftrightarrow> (\<exists>addr data b. (addr, data) \<in> set db \<and> addr_hex addr = Inr b \<and> ?x \<in> set (g b data))"
    by (simp add: bindE_eq_Inr) blast
  also have "\<dots> \<longleftrightarrow> (\<exists>addr data range. (addr, data) \<in> set db \<and> addr_hex addr = Inr a \<and> map_of ?m a = Some range \<and>
       num (fld range ''from'') \<le> k \<and> k < num (fld range ''to'') \<and> d = obj_get data (int_str k) \<and> truthy d)"
    unfolding in_g by blast
  finally show ?thesis by (simp add: r mock_result_def elems_def obj_get_def)
qed

definition ex_mock_db :: mock_db where
  "ex_mock_db = [(''[171,18]'', [(''0'', JStr ''d0''), (''1'', JStr ''d1''), (''-1'', JStr ''code'')])]"

definition ex_range :: json where
  "ex_range = JObj [(''type'', JStr ''GetDeltas''), (''input'', JArr [JObj [(''address'', JStr ''ab12''), (''from'', JNum 0), (''to'', JNum 1)]])]"

text \<open>
  The tip that the stand-in reports is the last delta of a contract with up to ten deltas; with
  eleven it is the tenth, because the keys are compared as strings.
\<close>

lemma mock_tip_key:
  assumes "0 \<le> n" "n \<le> 9"
  shows "max_key (map int_str [- 1..n]) = Inr (int_str n) \<and> max_key (map int_str [- 1..10]) = Inr (int_str 9)"
proof -
  have "n = 0 \<or> n = 1 \<or> n = 2 \<or> n = 3 \<or> n = 4 \<or> n = 5 \<or> n = 6 \<or> n = 7 \<or> n = 8 \<or> n = 9"
    using assms by presburger
  then have "max_key (map int_str [- 1..n]) = Inr (int_str n)"
    by (elim disjE; hypsubst; code_simp)
  moreover have "max_key (map int_str [- 1..10]) = Inr (int_str 9)" by code_simp
  ultimately show ?thesis by simp
qed

end
