(* ===== verification/Rpc_Proxy.thy ===== *)
theory Rpc_Proxy
  imports Task_Actions Eng_Cid
begin

text \<open>
  The requests of users: the methods of \<open>client_api/JsonRpcServer.js\<close>, the gateway that routes
  them to a worker over publish and subscribe (\<open>worker/controller/actions/proxy\<close>), and the
  worker that answers on the topic of its signing key
  (\<open>SubscribeSelfSignKeyTopicPipelineAction.js\<close>, \<open>NewTaskEncryptionKeyAction.js\<close>).
\<close>

section \<open>JSON-RPC methods\<close>

text \<open>
  What a method does with its arguments: answer at once, by an error or a result, or route a
  message to the gateway and continue with what comes back (\<open>None\<close> is the \<open>null\<close> of a failed
  call). An exception leaves the call unanswered.
\<close>

type_synonym rpc_answer = "json + json"

datatype rpc_step = Answer rpc_answer | Forward json

definition SERVER_ERR :: rpc_answer where
  "SERVER_ERR = Inl (JObj [(''code'', JNum (- 32000)), (''message'', JStr ''Server error'')])"

definition INVALID_PARAM :: rpc_answer where
  "INVALID_PARAM = Inl (JObj [(''code'', JNum (- 32602)), (''message'', JStr ''Invalid params'')])"

abbreviation T_Key :: json where "T_Key \<equiv> JStr ''NewTaskEncryptionKey''"
abbreviation GET_TASK_STATUS :: json where "GET_TASK_STATUS \<equiv> JStr ''gtstatus''"
abbreviation GET_TASK_RESULT :: json where "GET_TASK_RESULT \<equiv> JStr ''gltresult''"

definition getInfo :: "json \<Rightarrow> rpc_answer" where
  "getInfo peerId = Inr (JObj [(''peerId'', peerId), (''status'', JStr ''ok'')])"

definition getWorkerEncryptionKey :: "json \<Rightarrow> rpc_step js" where
  "getWorkerEncryptionKey args =
     bindE (get_prop args ''userPubKey'') (\<lambda>userPubKey.
     let workerAddress = fld args ''workerAddress'' in
     if truthy userPubKey \<and> truthy workerAddress
     then Inr (Forward (JObj [(''workerSignKey'', workerAddress), (''userPubKey'', userPubKey), (''type'', T_Key)]))
     else Inr (Answer INVALID_PARAM))"

definition routed_answer :: "json option \<Rightarrow> rpc_answer" where
  "routed_answer coreRes = (case coreRes of None \<Rightarrow> SERVER_ERR | Some r \<Rightarrow> Inr r)"



definition rpc_getTaskResult :: "json \<Rightarrow> rpc_step js" where
  "rpc_getTaskResult args =
     bindE (get_prop args ''taskId'') (\<lambda>taskId.
     if truthy taskId then Inr (Forward (JObj [(''taskId'', taskId), (''type'', GET_TASK_RESULT)]))
     else Inr (Answer INVALID_PARAM))"





section \<open>The gateway\<close>

text \<open>
  The \<open>+\<close> of JavaScript: a concatenation unless both sides are numbers, booleans, \<open>null\<close> or
  \<open>undefined\<close>; the sum that is not a number is written \<open>null\<close>.
\<close>

definition prim_num :: "json \<Rightarrow> int option option" where
  "prim_num v =
     (case v of
        JNum n \<Rightarrow> Some (Some n)
      | JBool b \<Rightarrow> Some (Some (of_bool b))
      | JNull \<Rightarrow> Some (Some 0)
      | JUndef \<Rightarrow> Some None
      | _ \<Rightarrow> None)"

definition js_plus :: "json \<Rightarrow> json \<Rightarrow> json" where
  "js_plus a b =
     (case (prim_num a, prim_num b) of
        (Some (Some m), Some (Some n)) \<Rightarrow> JNum (m + n)
      | (Some _, Some _) \<Rightarrow> JNull
      | _ \<Rightarrow> JStr (js_key a @ js_key b))"

text \<open>
  \<open>gwGunzip\<close> decodes base 64 and decompresses to an array of bytes; \<open>gwId\<close> is the identifier of
  the node.
\<close>

record gateway =
  gwId :: string
  gwCodec :: codec
  gwGunzip :: "json \<Rightarrow> json js"

datatype dispatched =
    RouteBlocking json
  | StatusRequest json
  | RouteNonBlocking json
  | LocalResult json
  | Dropped

definition unpack_preCode :: "gateway \<Rightarrow> json \<Rightarrow> json js" where
  "unpack_preCode gw content =
     bindE (get_prop content ''request'') (\<lambda>request.
     bindE (get_prop request ''preCode'') (\<lambda>preCode.
     bindE (gwGunzip gw preCode) (\<lambda>bytes.
     bindE (set_prop request ''preCode'' bytes) (\<lambda>request.
     set_prop content ''request'' request))))"

text \<open>\<open>ProxyDispatcherAction.execute\<close> on the content of the envelope, an object.\<close>

definition proxyDispatch :: "gateway \<Rightarrow> json \<Rightarrow> dispatched js" where
  "proxyDispatch gw content =
     (let type = fld content ''type'' in
      if type = T_Key
      then bindE (set_prop content ''targetTopic''
                (js_plus (js_plus (JStr (gwId gw)) (fld content ''workerSignKey'')) (fld content ''id'')))
             (\<lambda>content. Inr (RouteBlocking content))
      else if type = GET_TASK_STATUS
      then bindE (set_prop content ''targetTopic'' (js_plus (fld content ''taskId'') (fld content ''workerAddress''))) (\<lambda>c1.
           bindE (set_prop c1 ''workerSignKey'' (fld content ''workerAddress'')) (\<lambda>c2.
           bindE (if truthy (fld c2 ''id'') then Inr c2 else set_prop c2 ''id'' (fld content ''taskId'')) (\<lambda>c3.
           Inr (StatusRequest c3))))
      else if type = T_Deploy
      then Inr (case unpack_preCode gw content of Inl e \<Rightarrow> Dropped | Inr content \<Rightarrow> RouteNonBlocking content)
      else if type = T_Compute then Inr (RouteNonBlocking content)
      else if type = GET_TASK_RESULT then Inr (LocalResult content)
      else Inr Dropped)"

text \<open>
  The content of a response; its envelope attaches the fresh id \<open>rid\<close>.
\<close>

definition rpc_reply :: "string \<Rightarrow> json \<Rightarrow> json \<Rightarrow> json" where
  "rpc_reply rid result error = JObj [(''result'', result), (''error'', error), (''id'', JStr rid)]"

text \<open>
  \<open>RouteRpcBlockingAction\<close>: subscribe to the topic of the answer, and once subscribed publish
  the request on the topic of the worker; or respond with an error.
\<close>

record blocking =
  blTarget :: json
  blTopic :: json
  blMessage :: "int list"

definition routeBlocking :: "gateway \<Rightarrow> string \<Rightarrow> json \<Rightarrow> json + blocking" where
  "routeBlocking gw rid content =
     (let sequence = fld content ''id''; targetTopic = fld content ''targetTopic'';
          workerSignKey = fld content ''workerSignKey'' in
      if \<not> truthy targetTopic \<or> \<not> truthy sequence \<or> \<not> truthy workerSignKey
      then Inl (rpc_reply rid (JBool False) (JStr ''error no sequence/targetTopic/signKey''))
      else
        (case encoder_encode (gwCodec gw) (JObj [(''type'', fld content ''type''), (''request'', content),
             (''sequence'', sequence), (''targetTopic'', targetTopic)]) of
           None \<Rightarrow> Inl (rpc_reply rid (JBool False) (JStr ''error in encoding routed message''))
         | Some m \<Rightarrow> Inr \<lparr>blTarget = targetTopic, blTopic = workerSignKey, blMessage = m\<rparr>))"

definition blocking_onPublish :: "gateway \<Rightarrow> string \<Rightarrow> int list \<Rightarrow> json" where
  "blocking_onPublish gw rid bs =
     (let data = encoder_decode (gwCodec gw) bs in
      if \<not> truthy data then rpc_reply rid (JBool False) (JStr ''error in decoding response message'')
      else rpc_reply rid (fld data ''result'') JNull)"

text \<open>\<open>RouteRpcNonBlockingAction\<close>: what is published, and the response.\<close>

definition sent :: "bool \<Rightarrow> json" where
  "sent b = JObj [(''sent'', JBool b)]"

definition routeNonBlocking :: "gateway \<Rightarrow> string \<Rightarrow> json \<Rightarrow> ((json \<times> int list) option \<times> json) js" where
  "routeNonBlocking gw rid content =
     (let request = fld content ''request'' in
      bindE (get_prop request ''workerAddress'') (\<lambda>targetTopic.
      if \<not> truthy targetTopic \<or> \<not> truthy request
      then Inr (None, rpc_reply rid (sent False) (JStr ''error no targetTopic/request''))
      else
        (case encoder_encode (gwCodec gw) (JObj [(''type'', fld content ''type''), (''request'', request)]) of
           None \<Rightarrow> Inr (None, rpc_reply rid (sent False) (JStr ''error in encoding routed message''))
         | Some m \<Rightarrow> Inr (Some (targetTopic, m), rpc_reply rid (sent True) JNull))))"

text \<open>
  \<open>GetStatusProxyAction\<close>: the local result, else the request is routed. No response (\<open>None\<close>)
  when the query of the local result does not settle.
\<close>

definition statusProxy :: "gateway \<Rightarrow> string \<Rightarrow> json \<Rightarrow> 's taskmgr \<Rightarrow> (json + blocking) option" where
  "statusProxy gw rid content tm =
     map_option (\<lambda>r. case r of
         Inr (Some result) \<Rightarrow>
           Inl (JObj [(''result'', rStatus result), (''output'', rOutput result), (''id'', JStr rid)])
       | _ \<Rightarrow> routeBlocking gw rid content)
       (getResult (fld content ''taskId'') tm)"

text \<open>\<open>_getTaskResult\<close>: an error or a missing result is answered by \<open>null\<close>.\<close>

definition localResult :: "string \<Rightarrow> json \<Rightarrow> 's taskmgr \<Rightarrow> json option" where
  "localResult rid content tm =
     map_option (\<lambda>r. JObj [(''result'', case r of Inr (Some result) \<Rightarrow> resultToDbJson result | _ \<Rightarrow> JNull),
         (''id'', JStr rid)])
       (getResult (fld content ''taskId'') tm)"

section \<open>The worker\<close>

datatype worker_request =
    KeyRequest json json
  | TaskRequest json json
  | StatusQuery json json
  | Ignored

text \<open>\<open>onPublish\<close> of the topic of the signing key.\<close>

definition worker_onPublish :: "codec \<Rightarrow> int list \<Rightarrow> worker_request" where
  "worker_onPublish c bs =
     (let data = encoder_decode c bs; type = fld data ''type''; request = fld data ''request'';
          targetTopic = fld data ''targetTopic'' in
      if \<not> truthy data then Ignored
      else if type = T_Key then KeyRequest request targetTopic
      else if type = T_Deploy \<or> type = T_Compute then TaskRequest type request
      else if type = GET_TASK_STATUS then StatusQuery request targetTopic
      else Ignored)"

text \<open>
  The message that the core runtime sends for an envelope with the given content: the action is
  chosen by the type in the content.
\<close>

definition content_message :: "string \<Rightarrow> json \<Rightarrow> json \<Rightarrow> json js option" where
  "content_message rid envelopId content =
     map_option (\<lambda>act. bindE (case act of
           SendToCore \<Rightarrow> Inl JsTypeError
         | PreParse \<Rightarrow> Inr content
         | GetDb \<Rightarrow> Inr (JObj [(''id'', fld content ''id''), (''type'', fld content ''type''), (''input'', fld content ''input'')])
         | UpdateDb \<Rightarrow> buildUpdateRequest rid (RawInput (fld content ''input'')))
         (sendToCore_id envelopId))
       (map_of core_actions (js_key (fld content ''type'')))"

text \<open>
  \<open>NewTaskEncryptionKeyAction\<close>: the request of the peer is the content of the envelope. The
  result is the error and the response that reach the callback; \<open>None\<close> when it is never invoked.
\<close>

definition newTaskEncryptionKey ::
    "string \<Rightarrow> validator \<Rightarrow> 'w core_server \<Rightarrow> json \<Rightarrow> 'w \<Rightarrow> (json option \<times> json) option \<times> 'w" where
  "newTaskEncryptionKey rid validate server request w =
     (case bindE (get_prop request ''id'') (\<lambda>i. Envelop rid rid i request (JStr ''DbRequest'')) of
        Inl e \<Rightarrow> (None, w)
      | Inr env \<Rightarrow>
          if envId env = JBool False then (None, w)
          else
            (case content_message rid (envId env) (envObj env) of
               Some (Inr m) \<Rightarrow>
                 (case (case validate m of
                      Inl e \<Rightarrow> (response_content rid (Inl e), w)
                    | Inr m' \<Rightarrow>
                        (case server m' w of
                           (None, w) \<Rightarrow> (None, w)
                         | (Some resp, w) \<Rightarrow> (response_content rid (Inr resp), w))) of
                    (r, w) \<Rightarrow>
                      (map_option (\<lambda>v. (if envValid env then None else Some (JStr ''invalid envelop''), v)) r, w))
             | _ \<Rightarrow> (None, w)))"

text \<open>\<open>_executeNewTaskEncryptionKey\<close>: the message published on the target topic, if any.\<close>

definition key_answer :: "codec \<Rightarrow> json option \<times> json \<Rightarrow> int list option js" where
  "key_answer c r =
     (case r of (err, encKeyResult) \<Rightarrow>
        if err \<noteq> None then Inr None
        else bindE (get_prop encKeyResult ''type'') (\<lambda>t.
          if t = JStr ''Error'' then Inr None
          else bindE (get_prop (fld encKeyResult ''result'') ''workerEncryptionKey'') (\<lambda>k.
            Inr (encoder_encode c (JObj [(''result'', JObj [(''workerEncryptionKey'', k),
              (''workerSig'', fld (fld encKeyResult ''result'') ''workerSig'')])])))))"

text \<open>\<open>_getTaskStatus\<close>\<close>

definition status_message :: "codec \<Rightarrow> json \<Rightarrow> 's taskmgr \<Rightarrow> int list option" where
  "status_message c request tm =
     (case get_prop request ''taskId'' of
        Inl e \<Rightarrow> None
      | Inr taskId \<Rightarrow>
          (case promise_settle (getTaskStatus taskId tm) of
             Some (Inr taskStatus) \<Rightarrow>
               if truthy taskStatus then encoder_encode c (JObj [(''result'', taskStatus)]) else None
           | _ \<Rightarrow> None))"

text \<open>
  The whole handler: what is published on which topic, and the states of the task manager and of
  core.
\<close>

definition worker_handle ::
    "codec \<Rightarrow> string \<Rightarrow> validator \<Rightarrow> 'w core_server \<Rightarrow> int \<Rightarrow> int list \<Rightarrow> 's taskmgr \<Rightarrow> 'w \<Rightarrow>
       (json \<times> int list) option \<times> 's taskmgr \<times> 'w" where
  "worker_handle c rid validate server now bs tm w =
     (case worker_onPublish c bs of
        KeyRequest request targetTopic \<Rightarrow>
          (case newTaskEncryptionKey rid validate server request w of
             (None, w) \<Rightarrow> (None, tm, w)
           | (Some r, w) \<Rightarrow>
               (case key_answer c r of
                  Inr (Some m) \<Rightarrow> (Some (targetTopic, m), tm, w)
                | _ \<Rightarrow> (None, tm, w)))
      | TaskRequest type request \<Rightarrow> (None, snd (startTaskExecution now type request tm), w)
      | StatusQuery request targetTopic \<Rightarrow>
          (map_option (Pair targetTopic) (status_message c request tm), tm, w)
      | Ignored \<Rightarrow> (None, tm, w))"

section \<open>A call from the user to the worker and back\<close>

text \<open>
  The network delivers a message published on a topic and returns what the subscriber publishes.
\<close>

type_synonym 'n network = "json \<Rightarrow> int list \<Rightarrow> 'n \<Rightarrow> (json \<times> int list) option \<times> 'n"

text \<open>The network with one worker, subscribed to its signing key.\<close>

definition worker_net ::
    "string \<Rightarrow> codec \<Rightarrow> string \<Rightarrow> validator \<Rightarrow> 'w core_server \<Rightarrow> int \<Rightarrow> ('s taskmgr \<times> 'w) network" where
  "worker_net key c rid validate server now topic bs n =
     (if topic = JStr key
      then (case worker_handle c rid validate server now bs (fst n) (snd n) of (r, tm, w) \<Rightarrow> (r, (tm, w)))
      else (None, n))"

definition exchange :: "gateway \<Rightarrow> string \<Rightarrow> 'n network \<Rightarrow> blocking \<Rightarrow> 'n \<Rightarrow> json option \<times> 'n" where
  "exchange gw rid net b n =
     (case net (blTopic b) (blMessage b) n of
        (Some (topic, m), n) \<Rightarrow> (if topic = blTarget b then Some (blocking_onPublish gw rid m) else None, n)
      | (None, n) \<Rightarrow> (None, n))"

text \<open>What the gateway sends back for a forwarded message; \<open>None\<close> when it never does.\<close>

definition gateway_serve :: "gateway \<Rightarrow> string \<Rightarrow> 'n network \<Rightarrow> 's taskmgr \<Rightarrow> json \<Rightarrow> 'n \<Rightarrow> json option \<times> 'n" where
  "gateway_serve gw rid net gtm content n =
     (case proxyDispatch gw content of
        Inr (RouteBlocking c) \<Rightarrow>
          (case routeBlocking gw rid c of Inl r \<Rightarrow> (Some r, n) | Inr b \<Rightarrow> exchange gw rid net b n)
      | Inr (StatusRequest c) \<Rightarrow>
          (case statusProxy gw rid c gtm of
             None \<Rightarrow> (None, n)
           | Some (Inl r) \<Rightarrow> (Some r, n)
           | Some (Inr b) \<Rightarrow> exchange gw rid net b n)
      | Inr (RouteNonBlocking c) \<Rightarrow>
          (case routeNonBlocking gw rid c of
             Inl e \<Rightarrow> (None, n)
           | Inr (None, r) \<Rightarrow> (Some r, n)
           | Inr (Some (topic, m), r) \<Rightarrow> (Some r, snd (net topic m n)))
      | Inr (LocalResult c) \<Rightarrow> (localResult rid c gtm, n)
      | _ \<Rightarrow> (None, n))"

text \<open>\<open>_routeNext\<close> attaches the id \<open>seq\<close>; \<open>finish\<close> is the rest of the method.\<close>

definition rpc_call ::
    "gateway \<Rightarrow> string \<Rightarrow> string \<Rightarrow> 'n network \<Rightarrow> 's taskmgr \<Rightarrow> rpc_step js \<Rightarrow> (json option \<Rightarrow> rpc_answer js) \<Rightarrow> 'n \<Rightarrow>
       rpc_answer option \<times> 'n" where
  "rpc_call gw seq rid net gtm step finish n =
     (case step of
        Inl e \<Rightarrow> (None, n)
      | Inr (Answer a) \<Rightarrow> (Some a, n)
      | Inr (Forward c) \<Rightarrow>
          (case attach_id seq c of
             Inl e \<Rightarrow> (None, n)
           | Inr c \<Rightarrow>
               (case gateway_serve gw rid net gtm c n of
                  (None, n) \<Rightarrow> (None, n)
                | (Some r, n) \<Rightarrow> (case finish (Some r) of Inl e \<Rightarrow> (None, n) | Inr a \<Rightarrow> (Some a, n)))))"

section \<open>Lemmas\<close>

lemma encode_decode:
  assumes "codec_ok c" "json_normal v"
  obtains bs where "encoder_encode c v = Some bs" "encoder_decode c bs = v"
  using assms unfolding codec_ok_def encoder_encode_def encoder_decode_def by (metis option.simps(5))

text \<open>The message a gateway publishes for a key, and what the worker reads from it.\<close>

definition key_content :: "gateway \<Rightarrow> string \<Rightarrow> string \<Rightarrow> string \<Rightarrow> json" where
  "key_content gw w u i =
     JObj [(''workerSignKey'', JStr w), (''userPubKey'', JStr u), (''type'', T_Key), (''id'', JStr i),
       (''targetTopic'', JStr (gwId gw @ w @ i))]"

lemma obj_get_simps [simp]:
  "obj_get ((k, v) # fs) k' = (if k' = k then v else obj_get fs k')"
  "obj_get [] k' = JUndef"
  by (simp_all add: obj_get_def)

lemma route_key:
  assumes "codec_ok (gwCodec gw)" "w \<noteq> []" "u \<noteq> []" "i \<noteq> []"
  obtains bs where
    "gateway_serve gw rid net gtm (JObj [(''workerSignKey'', JStr w), (''userPubKey'', JStr u), (''type'', T_Key), (''id'', JStr i)]) n
       = exchange gw rid net \<lparr>blTarget = JStr (gwId gw @ w @ i), blTopic = JStr w, blMessage = bs\<rparr> n"
    "worker_onPublish (gwCodec gw) bs = KeyRequest (key_content gw w u i) (JStr (gwId gw @ w @ i))"
proof -
  let ?v = "JObj [(''type'', T_Key), (''request'', key_content gw w u i), (''sequence'', JStr i),
    (''targetTopic'', JStr (gwId gw @ w @ i))]"
  have "json_normal ?v" by (simp add: key_content_def obj_wf_def)
  then obtain bs where bs: "encoder_encode (gwCodec gw) ?v = Some bs" "encoder_decode (gwCodec gw) bs = ?v"
    using encode_decode [OF assms(1)] by blast
  show thesis
  proof (rule that)
    show "gateway_serve gw rid net gtm (JObj [(''workerSignKey'', JStr w), (''userPubKey'', JStr u), (''type'', T_Key), (''id'', JStr i)]) n
       = exchange gw rid net \<lparr>blTarget = JStr (gwId gw @ w @ i), blTopic = JStr w, blMessage = bs\<rparr> n"
      using bs(1) assms(2-4)
      by (simp add: gateway_serve_def proxyDispatch_def routeBlocking_def js_plus_def prim_num_def key_content_def)
    show "worker_onPublish (gwCodec gw) bs = KeyRequest (key_content gw w u i) (JStr (gwId gw @ w @ i))"
      by (simp add: worker_onPublish_def bs(2))
  qed
qed

lemma newTaskEncryptionKey_key:
  assumes "i \<noteq> []"
  shows "newTaskEncryptionKey rid validate server (key_content gw w u i) st =
    (case (case validate (key_content gw w u i) of
         Inl e \<Rightarrow> (response_content rid (Inl e), st)
       | Inr m' \<Rightarrow> (case server m' st of (None, st) \<Rightarrow> (None, st) | (Some resp, st) \<Rightarrow> (response_content rid (Inr resp), st))) of
       (r, st) \<Rightarrow> (map_option (Pair None) r, st))"
  using assms
  by (simp add: newTaskEncryptionKey_def key_content_def Envelop_def content_message_def core_actions_def sendToCore_id_def
      Let_def)

lemma response_content_keeps:
  assumes "k \<noteq> ''id''"
  obtains fs' where "response_content rid (Inr (JObj fs)) = Some (JObj fs')" "obj_get fs' k = obj_get fs k"
    "\<And>k'. k' \<noteq> ''id'' \<Longrightarrow> obj_get fs' k' = obj_get fs k'"
  using assms by (cases "map_of fs ''id'' = None") (auto simp: response_content_def attach_id_def obj_get_def)


section \<open>Properties\<close>

text \<open>
  C30: a user gets the key of the worker. When a user asks for the encryption key of a worker with
  its own public key, the request reaches the worker through the gateway, core is asked with the
  public key of the user, and the key and signature of core's answer come back to the user through
  the same gateway, whatever the gateway's own tasks are. They come inside a field \<open>result\<close> of
  the answer, beside \<open>error\<close> and \<open>id\<close>; the documentation of the client interface has them
  directly in the answer.
\<close>

theorem key_request_answered:
  assumes "codec_ok (gwCodec gw)" "w \<noteq> []" "u \<noteq> []" "i \<noteq> []"
    and "obj_get ps ''userPubKey'' = JStr u" "obj_get ps ''workerAddress'' = JStr w"
    and "validate (key_content gw w u i) = Inr m" "server m st = (Some (JObj fs), st')"
    and "obj_get fs ''type'' \<noteq> JStr ''Error''"
    and "obj_get fs ''result'' = JObj [(''workerEncryptionKey'', k), (''workerSig'', s)]" "json_normal k" "json_normal s"
  shows "rpc_call gw i rid (worker_net w (gwCodec gw) rid' validate server now) gtm
      (getWorkerEncryptionKey (JObj ps)) (Inr \<circ> routed_answer) (tm, st) =
    (Some (Inr (rpc_reply rid (JObj [(''workerEncryptionKey'', k), (''workerSig'', s)]) JNull)), (tm, st'))"
proof -
  let ?c = "gwCodec gw"
  let ?net = "worker_net w ?c rid' validate server now"
  let ?content = "JObj [(''workerSignKey'', JStr w), (''userPubKey'', JStr u), (''type'', T_Key), (''id'', JStr i)]"
  let ?key = "JObj [(''workerEncryptionKey'', k), (''workerSig'', s)]"
  obtain bs where route: "gateway_serve gw rid ?net gtm ?content (tm, st) =
      exchange gw rid ?net \<lparr>blTarget = JStr (gwId gw @ w @ i), blTopic = JStr w, blMessage = bs\<rparr> (tm, st)"
    and msg: "worker_onPublish ?c bs = KeyRequest (key_content gw w u i) (JStr (gwId gw @ w @ i))"
    by (rule route_key [OF assms(1-4), of rid ?net gtm "(tm, st)"])
  obtain fs' where resp: "response_content rid' (Inr (JObj fs)) = Some (JObj fs')"
    "obj_get fs' ''result'' = ?key" "obj_get fs' ''type'' \<noteq> JStr ''Error''"
    by (rule response_content_keeps [of "''result''" rid' fs]) (use assms(9,10) in auto)
  have "json_normal (JObj [(''result'', ?key)])" using assms(11,12) by (simp add: obj_wf_def)
  then obtain bs' where answer: "encoder_encode ?c (JObj [(''result'', ?key)]) = Some bs'"
    "encoder_decode ?c bs' = JObj [(''result'', ?key)]"
    by (rule encode_decode [OF assms(1)])
  have "worker_handle ?c rid' validate server now bs tm st = (Some (JStr (gwId gw @ w @ i), bs'), tm, st')"
    using assms(7,8) resp answer(1)
    by (simp add: worker_handle_def msg newTaskEncryptionKey_key [OF assms(4)] key_answer_def)
  then have "gateway_serve gw rid ?net gtm ?content (tm, st) = (Some (rpc_reply rid ?key JNull), (tm, st'))"
    by (simp add: route exchange_def worker_net_def blocking_onPublish_def answer(2))
  then show ?thesis
    using assms(2,3,5,6) by (simp add: rpc_call_def getWorkerEncryptionKey_def attach_id_def routed_answer_def)
qed





section \<open>Any update of a peer reaches core\<close>

text \<open>
  The worker trusts the type inside a request for a key. Whoever publishes, on the topic of the
  signing key, such a request whose content has the type \<open>UpdateDb\<close> and as input a command of core
  that passes the validator, for example \<open>RemoveContract\<close>, has this command executed by core.
\<close>

lemma peer_update_reaches_core:
  assumes "encoder_decode c bs = JObj [(''type'', T_Key), (''request'',
      JObj [(''id'', JStr i), (''type'', JStr ''UpdateDb''), (''input'', JObj upd)])]" "i \<noteq> []"
    and "truthy (obj_get upd ''type'')"
    and "validate (JObj (if truthy (obj_get upd ''id'') then upd else obj_set upd ''id'' (JStr i))) = Inr m"
  shows "snd (snd (worker_handle c rid validate server now bs tm w)) = snd (server m w)"
proof -
  let ?req = "JObj [(''id'', JStr i), (''type'', JStr ''UpdateDb''), (''input'', JObj upd)]"
  have "content_message rid (JStr i) ?req =
      Some (Inr (JObj (if truthy (obj_get upd ''id'') then upd else obj_set upd ''id'' (JStr i))))"
    using assms(3) by (simp add: content_message_def core_actions_def buildUpdateRequest_def sendToCore_id_def)
  then have "snd (newTaskEncryptionKey rid validate server ?req w) = snd (server m w)"
    using assms(2,4)
    by (simp add: newTaskEncryptionKey_def Envelop_def Let_def split: prod.split option.split)
  then show ?thesis
    by (auto simp: worker_handle_def worker_onPublish_def Let_def assms(1) split: prod.splits option.split sum.split)
qed

section \<open>Witnesses\<close>

definition ex_gateway :: gateway where
  "ex_gateway = \<lparr>gwId = ''Qm1'', gwCodec = ex_codec, gwGunzip = Inr\<rparr>"

definition ex_key_server :: "nat core_server" where
  "ex_key_server m n = (Some (JObj [(''type'', fld m ''type''), (''id'', fld m ''id''),
     (''result'', JObj [(''workerEncryptionKey'', JStr ''0061''), (''workerSig'', JStr ''cc'')])]), n + 1)"

abbreviation ex_net :: "(mem_state taskmgr \<times> nat) network" where
  "ex_net \<equiv> worker_net ''0xda'' ex_codec ''r2'' Inr ex_key_server 10"

theorem key_request_answered_witness:
  "rpc_call ex_gateway ''7'' ''r1'' ex_net ex_tm
      (getWorkerEncryptionKey (JObj [(''workerAddress'', JStr ''0xda''), (''userPubKey'', JStr ''66'')])) (Inr \<circ> routed_answer) (ex_tm, 0) =
    (Some (Inr (rpc_reply ''r1'' (JObj [(''workerEncryptionKey'', JStr ''0061''), (''workerSig'', JStr ''cc'')]) JNull)), (ex_tm, 1))"
  using key_request_answered [where gw = ex_gateway and w = "''0xda''" and u = "''66''" and i = "''7''"
      and ps = "[(''workerAddress'', JStr ''0xda''), (''userPubKey'', JStr ''66'')]" and validate = Inr
      and m = "key_content ex_gateway ''0xda'' ''66'' ''7''" and server = ex_key_server and st = 0 and st' = 1
      and fs = "[(''type'', T_Key), (''id'', JStr ''7''),
        (''result'', JObj [(''workerEncryptionKey'', JStr ''0061''), (''workerSig'', JStr ''cc'')])]"
      and k = "JStr ''0061''" and s = "JStr ''cc''" and rid = "''r1''" and rid' = "''r2''" and now = 10 and gtm = ex_tm and tm = ex_tm]
    ex_codec_ok
  by (simp add: ex_gateway_def ex_key_server_def key_content_def)



end
