(* ===== verification/Worker_Lifecycle.thy ===== *)
theory Worker_Lifecycle
  imports Eth_Writer Core_Channel
begin

text \<open>
  The life of a worker: the flags of \<open>NodeController.js\<close>, the initialisation
  (\<open>InitWorkerAction.js\<close>, \<open>NewPeerAction.js\<close>), the Ethereum actions of a worker, its health and
  status (\<open>HealthCheckAction.js\<close>, \<open>GetStatusAction.js\<close>, \<open>EthereumAPI.js\<close>) as the web servers
  report them, and the retries of \<open>StoppableTask.js\<close>.
\<close>

section \<open>Registration parameters\<close>

text \<open>
  \<open>GetRegistrationParamsAction\<close>: the callback gets the content of core's response, never an
  error, or is not invoked (\<open>None\<close>) when core does not answer.
\<close>

definition getRegistrationParamsAction :: "(json \<Rightarrow> 'w \<Rightarrow> json option \<times> 'w) \<Rightarrow> 'w \<Rightarrow> (js_error option \<times> json) option \<times> 'w" where
  "getRegistrationParamsAction core w =
     (case core (JObj [(''type'', JStr ''GetRegistrationParams'')]) w of
        (r, w) \<Rightarrow> (map_option (Pair None) r, w))"

section \<open>The Ethereum actions\<close>

text \<open>The writer and reader of the contract as the actions use them.\<close>

record 'w worker_api =
  waAddress :: json
  waRegister :: "json \<Rightarrow> json \<Rightarrow> json \<Rightarrow> 'w \<Rightarrow> json js \<times> 'w"
  waUnregister :: "'w \<Rightarrow> json js \<times> 'w"
  waLogin :: "'w \<Rightarrow> json js \<times> 'w"
  waLogout :: "'w \<Rightarrow> json js \<times> 'w"
  waGetWorker :: "json \<Rightarrow> 'w \<Rightarrow> json js \<times> 'w"
  waSelfWorker :: "'w \<Rightarrow> json js \<times> 'w"

type_synonym outcome = "js_error option \<times> bool"

definition attempt :: "json js \<times> 'w \<Rightarrow> outcome \<times> 'w" where
  "attempt r = (case r of (Inr _, w) \<Rightarrow> ((None, True), w) | (Inl e, w) \<Rightarrow> ((Some e, False), w))"

definition loginAction :: "'w worker_api \<Rightarrow> 'w \<Rightarrow> outcome \<times> 'w" where
  "loginAction api w = attempt (waLogin api w)"

text \<open>The transaction is skipped when the contract already has the worker in the wanted state.\<close>

definition unless_status :: "'w worker_api \<Rightarrow> json \<Rightarrow> ('w \<Rightarrow> json js \<times> 'w) \<Rightarrow> 'w \<Rightarrow> outcome \<times> 'w" where
  "unless_status api wanted tx w =
     (case waGetWorker api (waAddress api) w of
        (Inl e, w) \<Rightarrow> ((Some e, False), w)
      | (Inr v, w) \<Rightarrow>
          (case get_prop v ''status'' of
             Inl e \<Rightarrow> ((Some e, False), w)
           | Inr status \<Rightarrow> if status = wanted then ((None, True), w) else attempt (tx w)))"

abbreviation UNREGISTERED :: json where "UNREGISTERED \<equiv> JNum 0"
abbreviation LOGGEDIN :: json where "LOGGEDIN \<equiv> JNum 1"
abbreviation LOGGEDOUT :: json where "LOGGEDOUT \<equiv> JNum 2"

definition logoutAction :: "'w worker_api \<Rightarrow> 'w \<Rightarrow> outcome \<times> 'w" where
  "logoutAction api w = unless_status api LOGGEDOUT (waLogout api) w"

definition unregisterAction :: "'w worker_api \<Rightarrow> 'w \<Rightarrow> outcome \<times> 'w" where
  "unregisterAction api w = unless_status api UNREGISTERED (waUnregister api) w"

text \<open>A response of core without a result throws before the transaction: no outcome.\<close>

definition registerAction :: "'w worker_api \<Rightarrow> (js_error option \<times> json) option \<Rightarrow> 'w \<Rightarrow> outcome option \<times> 'w" where
  "registerAction api reg w =
     (case reg of
        None \<Rightarrow> (None, w)
      | Some (Some err, _) \<Rightarrow> (Some (Some err, False), w)
      | Some (None, regParams) \<Rightarrow>
          (case bindE (get_prop regParams ''result'') (\<lambda>r. bindE (get_prop r ''signingKey'') (\<lambda>k.
                Inr (k, fld r ''report'', fld r ''signature''))) of
             Inl e \<Rightarrow> (None, w)
           | Inr (signer, report, signature) \<Rightarrow>
               (case attempt (waRegister api signer report signature w) of (o1, w) \<Rightarrow> (Some o1, w))))"

definition getWorkerParamsAction :: "'w worker_api \<Rightarrow> 'w \<Rightarrow> (js_error option \<times> json) \<times> 'w" where
  "getWorkerParamsAction api w =
     (case waSelfWorker api w of (Inr v, w) \<Rightarrow> ((None, v), w) | (Inl e, w) \<Rightarrow> ((Some e, JNull), w))"

text \<open>\<open>asyncExecute\<close> of these actions: the promise of an invocation of the callback.\<close>

definition action_promise :: "js_error option \<times> 'a \<Rightarrow> 'a js" where
  "action_promise r = (case r of (Some e, _) \<Rightarrow> Inl e | (None, v) \<Rightarrow> Inr v)"

section \<open>Health and status\<close>

definition js_and :: "json \<Rightarrow> json \<Rightarrow> json" where
  "js_and a b = (if truthy a then b else a)"

definition eth_healthCheck :: "int js \<Rightarrow> json \<Rightarrow> json \<Rightarrow> json" where
  "eth_healthCheck blockNumber url enigmaContractAddress =
     JObj [(''isConnected'', JBool (\<not> isl blockNumber)),
       (''blockNumber'', case blockNumber of Inr n \<Rightarrow> JNum n | Inl _ \<Rightarrow> JNull),
       (''url'', url), (''enigmaContractAddress'', enigmaContractAddress)]"

text \<open>
  \<open>HealthCheckAction\<close>: \<open>eth\<close> is what the Ethereum part answers, if there is one. The callback is
  not invoked on an error of the registration parameters, or when they have no result.
\<close>

definition healthCheck :: "(js_error option \<times> json) option \<Rightarrow> json js option \<Rightarrow> nat \<Rightarrow> json option" where
  "healthCheck reg eth peers =
     (case reg of
        Some (None, regParams) \<Rightarrow>
          (case bindE (get_prop regParams ''result'') (\<lambda>r. get_prop r ''signingKey'') of
             Inl e \<Rightarrow> None
           | Inr signKey \<Rightarrow>
               let core = JBool (signKey \<noteq> JNull \<and> signKey \<noteq> JUndef);
                   e = (\<lambda>k. case eth of Some (Inr v) \<Rightarrow> fld v k | _ \<Rightarrow> JNull);
                   ethStatus = (case eth of Some (Inr v) \<Rightarrow> fld v ''isConnected'' | _ \<Rightarrow> JBool False);
                   conn = JBool (peers \<ge> 1) in
               Some (JObj
                 [(''status'', js_and (js_and core ethStatus) conn),
                  (''core'', JObj [(''status'', core), (''registrationParams'', JObj [(''signKey'', signKey)])]),
                  (''ethereum'', JObj [(''status'', ethStatus), (''uri'', e ''url''),
                     (''contract_addr'', e ''enigmaContractAddress'')]),
                  (''connectivity'', JObj [(''status'', conn), (''connections'', JNum (int peers))])]))
      | _ \<Rightarrow> None)"

text \<open>The status of the worker: initialising, or what the contract says.\<close>

definition getStatusAction :: "bool \<Rightarrow> (js_error option \<times> json) \<Rightarrow> js_error option \<times> json" where
  "getStatusAction inProgress params =
     (if inProgress then (None, JStr ''initializing'')
      else
        (case bindE (action_promise params) (\<lambda>workerParams. get_prop workerParams ''status'') of
           Inl e \<Rightarrow> (Some e, JNull)
         | Inr s \<Rightarrow> (None,
             if s = UNREGISTERED then JStr ''unregistered''
             else if s = LOGGEDIN then JStr ''logged-in''
             else if s = LOGGEDOUT then JStr ''registered'' else JNull)))"

text \<open>\<open>GetPeersAction\<close>\<close>

definition getPeersAction :: "nat js \<Rightarrow> js_error option \<times> json" where
  "getPeersAction peers = (case peers of Inr n \<Rightarrow> (None, JNum (int n)) | Inl e \<Rightarrow> (Some e, JNum 0))"

text \<open>What the web servers answer to a request.\<close>

datatype web = Sent json | ErrorCode

definition performHealthCheck :: "json option \<Rightarrow> web option" where
  "performHealthCheck r =
     map_option (\<lambda>result. if truthy (fld result ''status'') then Sent result else ErrorCode) r"

definition web_getStatus :: "js_error option \<times> json \<Rightarrow> web" where
  "web_getStatus r = (case r of (Some e, _) \<Rightarrow> ErrorCode | (None, status) \<Rightarrow> Sent status)"

definition web_getPeers :: "js_error option \<times> json \<Rightarrow> web" where
  "web_getPeers r = (case snd r of JNum n \<Rightarrow> Sent (JStr (int_str n)) | _ \<Rightarrow> ErrorCode)"

definition performAction :: "outcome \<Rightarrow> web" where
  "performAction r = (if snd r then Sent (JBool True) else ErrorCode)"

section \<open>Initialisation\<close>

text \<open>
  The calls of \<open>InitWorkerAction\<close> wait for answers, so that several of them may be under way.
  \<open>ndRuns\<close> holds the phase of every call, in the order of the calls; \<open>ndEnds\<close> lists the calls that
  have ended with their error, in order; \<open>ndEffects\<close> is what the controller was told to do;
  \<open>ndListeners\<close> counts the listeners to new epochs.
\<close>

datatype phase = Syncing | Announcing | ReadingParams | Registering | Ended

datatype effect = SyncReceiver | AnnounceLocalState | SelfKeySubscribe | GetEthWorkerParam | RegisterWorker | GetStateKeys

record node =
  ndInitialized :: bool
  ndInProgress :: bool
  ndRuns :: "phase list"
  ndEnds :: "(nat \<times> js_error option) list"
  ndEffects :: "effect list"
  ndListeners :: nat

definition fresh_node :: node where
  "fresh_node = \<lparr>ndInitialized = False, ndInProgress = False, ndRuns = [], ndEnds = [], ndEffects = [], ndListeners = 0\<rparr>"

definition startInitWorker :: "node \<Rightarrow> node" where
  "startInitWorker nd = nd\<lparr>ndInProgress := True\<rparr>"

definition initWorkerDone :: "node \<Rightarrow> node" where
  "initWorkerDone nd = nd\<lparr>ndInitialized := True, ndInProgress := False\<rparr>"

definition canInitWorker :: "node \<Rightarrow> bool" where
  "canInitWorker nd \<longleftrightarrow> \<not> ndInitialized nd \<and> \<not> ndInProgress nd"

definition tell :: "effect \<Rightarrow> node \<Rightarrow> node" where
  "tell e nd = nd\<lparr>ndEffects := ndEffects nd @ [e]\<rparr>"

definition set_phase :: "nat \<Rightarrow> phase \<Rightarrow> node \<Rightarrow> node" where
  "set_phase i p nd = nd\<lparr>ndRuns := (ndRuns nd)[i := p]\<rparr>"

definition call_ends :: "nat \<Rightarrow> js_error option \<Rightarrow> node \<Rightarrow> node" where
  "call_ends i err nd = (set_phase i Ended nd)\<lparr>ndEnds := ndEnds nd @ [(i, err)]\<rparr>"

text \<open>The last function of the waterfall, also after an error.\<close>

definition init_finish :: "nat \<Rightarrow> js_error option \<Rightarrow> node \<Rightarrow> node" where
  "init_finish i err nd = call_ends i err (initWorkerDone nd)"

definition announceState :: "nat \<Rightarrow> node \<Rightarrow> node" where
  "announceState i nd = tell AnnounceLocalState (set_phase i Announcing nd)"

text \<open>\<open>hasEth\<close> is \<open>hasEthereum()\<close>.\<close>

definition init_execute :: "bool \<Rightarrow> node \<Rightarrow> node" where
  "init_execute hasEth nd =
     (let i = length (ndRuns nd); nd1 = nd\<lparr>ndRuns := ndRuns nd @ [Syncing]\<rparr> in
      if ndInitialized nd then call_ends i None nd1
      else if hasEth then tell SyncReceiver (startInitWorker nd1)
      else announceState i (startInitWorker nd1))"

definition backgroundServices :: "bool \<Rightarrow> node \<Rightarrow> node" where
  "backgroundServices hasEth nd =
     tell SelfKeySubscribe (if hasEth then nd\<lparr>ndListeners := ndListeners nd + 1\<rparr> else nd)"

text \<open>\<open>registerWorker\<close>: an error of reading the parameters or of registering is only logged.\<close>

definition registerWorker :: "bool \<Rightarrow> nat \<Rightarrow> node \<Rightarrow> node" where
  "registerWorker hasEth i nd =
     (if hasEth then tell GetEthWorkerParam (set_phase i ReadingParams nd) else init_finish i None nd)"

definition params_read :: "nat \<Rightarrow> json js \<Rightarrow> node \<Rightarrow> node" where
  "params_read i r nd =
     (case r of
        Inl e \<Rightarrow> init_finish i None nd
      | Inr workerParams \<Rightarrow>
          (case get_prop workerParams ''status'' of
             Inl e \<Rightarrow> init_finish i (Some e) nd
           | Inr status \<Rightarrow>
               if status = LOGGEDIN \<or> status = LOGGEDOUT then init_finish i None nd
               else tell RegisterWorker (set_phase i Registering nd)))"

text \<open>\<open>NewPeerAction\<close>: \<open>autoInit\<close> is the option of the configuration.\<close>

definition newPeerAction :: "bool \<Rightarrow> bool \<Rightarrow> node \<Rightarrow> node" where
  "newPeerAction hasEth autoInit nd = (if autoInit \<and> canInitWorker nd then init_execute hasEth nd else nd)"

text \<open>An answer is taken only in the phase that waits for it.\<close>

definition in_phase :: "phase \<Rightarrow> nat \<Rightarrow> node \<Rightarrow> bool" where
  "in_phase p i nd \<longleftrightarrow> i < length (ndRuns nd) \<and> ndRuns nd ! i = p"

datatype life_step =
    InitCall
  | NewPeer bool
  | SyncEnd nat "js_error option"
  | AnnounceEnd nat "js_error option"
  | ParamsRead nat "json js"
  | RegisterEnd nat "json js"
  | NewEpochEvent "js_error option"

fun life :: "bool \<Rightarrow> life_step \<Rightarrow> node \<Rightarrow> node" where
  "life hasEth InitCall nd = init_execute hasEth nd"
| "life hasEth (NewPeer autoInit) nd = newPeerAction hasEth autoInit nd"
| "life hasEth (SyncEnd i err) nd =
     (if in_phase Syncing i nd
      then (case err of Some e \<Rightarrow> init_finish i (Some e) nd | None \<Rightarrow> announceState i nd) else nd)"
| "life hasEth (AnnounceEnd i err) nd =
     (if in_phase Announcing i nd
      then (case err of Some e \<Rightarrow> init_finish i (Some e) nd
            | None \<Rightarrow> registerWorker hasEth i (backgroundServices hasEth nd)) else nd)"
| "life hasEth (ParamsRead i r) nd = (if in_phase ReadingParams i nd then params_read i r nd else nd)"
| "life hasEth (RegisterEnd i r) nd = (if in_phase Registering i nd then init_finish i None nd else nd)"
| "life hasEth (NewEpochEvent err) nd =
     (if err = None then nd\<lparr>ndEffects := ndEffects nd @ replicate (ndListeners nd) GetStateKeys\<rparr> else nd)"

definition run_life :: "bool \<Rightarrow> life_step list \<Rightarrow> node" where
  "run_life hasEth sts = foldl (\<lambda>nd st. life hasEth st nd) fresh_node sts"

section \<open>Stopping\<close>

text \<open>
  \<open>NodeController.stop\<close>: what is stopped, in order. \<open>dbPath\<close> is the path of the task database, if
  there is a task manager; \<open>indexOf\<close> looks for \<open>/tmp/\<close> in it.
\<close>

datatype stop_effect = StopNode | DestroyEthereum | StopTasksAndDropDb | StopTasks | StopWebServer

fun contains :: "string \<Rightarrow> string \<Rightarrow> bool" where
  "contains p [] = (p = [])"
| "contains p (c # cs) = (take (length p) (c # cs) = p \<or> contains p cs)"

definition node_stop :: "bool \<Rightarrow> string option \<Rightarrow> bool \<Rightarrow> stop_effect list" where
  "node_stop hasEth dbPath web =
     StopNode # (if hasEth then [DestroyEthereum] else []) @
     (case dbPath of
        None \<Rightarrow> []
      | Some p \<Rightarrow>
          if p \<noteq> [] \<and> \<not> contains ''/tmp/'' p then [StopTasksAndDropDb]
          else if p \<noteq> [] then [StopTasks] else []) @
     (if web then [StopWebServer] else [])"

section \<open>Retries\<close>

text \<open>
  \<open>StoppableTask\<close>: an option that is missing or zero is \<open>None\<close>. A job reports success or not, with a
  result; the flag is whether the timer had fired by then. The outcome is the number of runs of
  the job and what \<open>onFinish\<close> gets; \<open>None\<close> while more reports are needed.
\<close>

definition st_option :: "int option \<Rightarrow> int option" where
  "st_option v = (case v of Some n \<Rightarrow> if n = 0 then None else Some n | None \<Rightarrow> None)"

definition shouldStop :: "int option \<Rightarrow> int \<Rightarrow> bool \<Rightarrow> bool" where
  "shouldStop maxRetry tryCount stopped \<longleftrightarrow>
     stopped \<or> (case maxRetry of Some m \<Rightarrow> tryCount \<ge> m | None \<Rightarrow> False)"

fun st_done :: "int option \<Rightarrow> int \<Rightarrow> (bool \<times> bool \<times> 'r) list \<Rightarrow> (nat \<times> bool \<times> 'r) option" where
  "st_done maxRetry tryCount [] = None"
| "st_done maxRetry tryCount ((success, stopped, result) # reports) =
     (if success \<or> shouldStop maxRetry tryCount stopped then Some (1, success, result)
      else map_option (apfst Suc) (st_done maxRetry (tryCount + 1) reports))"

definition stoppable_start :: "int option \<Rightarrow> (bool \<times> bool \<times> 'r) list \<Rightarrow> (nat \<times> bool \<times> 'r) option" where
  "stoppable_start maxRetry reports = st_done (st_option maxRetry) (- 1) reports"

section \<open>Lemmas\<close>

text \<open>Which calls have ended, and that the flags say so.\<close>

definition init_inv :: "node \<Rightarrow> bool" where
  "init_inv nd \<longleftrightarrow>
     distinct (map fst (ndEnds nd)) \<and>
     set (map fst (ndEnds nd)) = {i. i < length (ndRuns nd) \<and> ndRuns nd ! i = Ended} \<and>
     (ndInitialized nd \<longleftrightarrow> ndEnds nd \<noteq> []) \<and>
     (ndInProgress nd \<longrightarrow> (\<exists>i. i < length (ndRuns nd) \<and> ndRuns nd ! i \<noteq> Ended))"

lemmas life_defs = init_execute_def announceState_def tell_def set_phase_def call_ends_def init_finish_def
  startInitWorker_def initWorkerDone_def backgroundServices_def registerWorker_def params_read_def Let_def

text \<open>A call that moves to another phase without ending.\<close>

lemma init_inv_move:
  assumes "init_inv nd" "in_phase p i nd" "p \<noteq> Ended" "q \<noteq> Ended"
    and "ndRuns nd' = (ndRuns nd)[i := q]" "ndEnds nd' = ndEnds nd" "ndInitialized nd' = ndInitialized nd"
      "ndInProgress nd' = ndInProgress nd"
  shows "init_inv nd'"
proof -
  have "{j. j < length (ndRuns nd') \<and> ndRuns nd' ! j = Ended} = {j. j < length (ndRuns nd) \<and> ndRuns nd ! j = Ended}"
    using assms(2-5) by (auto simp: in_phase_def nth_list_update)
  moreover have "\<exists>j. j < length (ndRuns nd') \<and> ndRuns nd' ! j \<noteq> Ended"
    using assms(2,4,5) by (auto simp: in_phase_def intro!: exI [of _ i])
  ultimately show ?thesis using assms(1,6-8) by (simp add: init_inv_def)
qed

text \<open>A call that ends.\<close>

lemma init_inv_end:
  assumes "init_inv nd" "in_phase p i nd" "p \<noteq> Ended"
  shows "init_inv (init_finish i err nd)"
proof -
  let ?nd = "init_finish i err nd"
  have i: "i < length (ndRuns nd)" "ndRuns nd ! i \<noteq> Ended" using assms(2,3) by (auto simp: in_phase_def)
  have "{j. j < length (ndRuns ?nd) \<and> ndRuns ?nd ! j = Ended} = insert i {j. j < length (ndRuns nd) \<and> ndRuns nd ! j = Ended}"
    using i by (auto simp: life_defs nth_list_update)
  then show ?thesis using assms(1) i by (auto simp: init_inv_def life_defs)
qed

lemma init_inv_call:
  assumes "init_inv nd"
  shows "init_inv (init_execute hasEth nd)"
proof -
  let ?n = "length (ndRuns nd)"
  let ?nd = "init_execute hasEth nd"
  have ends: "set (map fst (ndEnds nd)) = {j. j < ?n \<and> ndRuns nd ! j = Ended}" using assms by (simp add: init_inv_def)
  have runs: "ndRuns ?nd = ndRuns nd @ [if ndInitialized nd then Ended else if hasEth then Syncing else Announcing]"
    by (simp add: life_defs list_update_append)
  have ended: "{j. j < length (ndRuns ?nd) \<and> ndRuns ?nd ! j = Ended} =
      {j. j < ?n \<and> ndRuns nd ! j = Ended} \<union> (if ndInitialized nd then {?n} else {})"
    unfolding runs by (auto simp: nth_append less_Suc_eq split: if_splits)
  show ?thesis
  proof (cases "ndInitialized nd")
    case True
    have "\<exists>j. j < length (ndRuns ?nd) \<and> ndRuns ?nd ! j \<noteq> Ended" if "ndInProgress nd"
      using that assms unfolding runs by (auto simp: init_inv_def nth_append intro: less_SucI)
    moreover have "ndEnds ?nd = ndEnds nd @ [(?n, None)]" "ndInitialized ?nd" "ndInProgress ?nd = ndInProgress nd"
      using True by (simp_all add: life_defs)
    moreover have "?n \<notin> set (map fst (ndEnds nd))" unfolding ends by simp
    ultimately show ?thesis using assms True ends ended unfolding init_inv_def by auto
  next
    case False
    have "\<exists>j. j < length (ndRuns ?nd) \<and> ndRuns ?nd ! j \<noteq> Ended"
      unfolding runs using False by (intro exI [of _ ?n]) simp
    moreover have "ndEnds ?nd = ndEnds nd" "\<not> ndInitialized ?nd" using False by (simp_all add: life_defs)
    ultimately show ?thesis using assms False ends ended unfolding init_inv_def by auto
  qed
qed

lemma init_inv_step: "init_inv nd \<Longrightarrow> init_inv (life hasEth st nd)"
proof (cases st)
  case (ParamsRead i r)
  assume "init_inv nd"
  then show ?thesis
    using init_inv_end [of nd ReadingParams i] init_inv_move [of nd ReadingParams i Registering]
    by (auto simp: ParamsRead params_read_def tell_def set_phase_def split: sum.split)
next
  case (AnnounceEnd i err)
  assume inv: "init_inv nd"
  then have bg: "init_inv (backgroundServices hasEth nd)" by (simp add: init_inv_def backgroundServices_def tell_def)
  then show ?thesis
    using inv init_inv_end [of nd Announcing i] init_inv_end [OF bg, of Announcing i]
      init_inv_move [OF bg, of Announcing i ReadingParams]
    by (auto simp: AnnounceEnd registerWorker_def in_phase_def backgroundServices_def tell_def set_phase_def split: option.split)
next
  case (SyncEnd i err)
  assume "init_inv nd"
  then show ?thesis
    using init_inv_end [of nd Syncing i] init_inv_move [of nd Syncing i Announcing]
    by (auto simp: SyncEnd announceState_def tell_def set_phase_def split: option.split)
next
  case (RegisterEnd i r)
  assume "init_inv nd"
  then show ?thesis using init_inv_end [of nd Registering i] by (simp add: RegisterEnd)
next
  case (NewEpochEvent err)
  assume "init_inv nd"
  then show ?thesis by (simp add: NewEpochEvent init_inv_def)
qed (simp_all add: init_inv_call newPeerAction_def)

interpretation life_run: machine fresh_node "life hasEth" "\<lambda>_. True" "\<lambda>_. init_inv" for hasEth
  by unfold_locales (simp_all add: init_inv_step, simp add: fresh_node_def init_inv_def)

lemmas run_life_inv = life_run.always [OF TrueI, folded run_life_def]

text \<open>Without direct calls: at most one call, whose flags exclude a second one.\<close>

definition auto_inv :: "node \<Rightarrow> bool" where
  "auto_inv nd \<longleftrightarrow>
     (case ndRuns nd of
        [] \<Rightarrow> RegisterWorker \<notin> set (ndEffects nd)
      | [p] \<Rightarrow> (if p = Ended then ndInitialized nd else ndInProgress nd) \<and>
          count_list (ndEffects nd) RegisterWorker \<le> (if p \<in> {Registering, Ended} then 1 else 0)
      | _ \<Rightarrow> False)"

lemma count_list_replicate: "count_list (replicate n x) y = (if x = y then n else 0)"
  by (induction n) auto

lemma auto_inv_step:
  assumes "auto_inv nd" "st \<noteq> InitCall"
  shows "auto_inv (life hasEth st nd)"
proof -
  consider "ndRuns nd = []" | p where "ndRuns nd = [p]"
    using assms(1) by (auto simp: auto_inv_def split: list.splits)
  then show ?thesis
  proof cases
    case 1
    then have no: "\<not> in_phase p i nd" for p i by (simp add: in_phase_def)
    have none: "count_list (ndEffects nd) RegisterWorker = 0" using assms(1) 1 by (simp add: auto_inv_def count_list_0_iff)
    show ?thesis
      using assms 1 no none by (cases st) (auto simp: auto_inv_def canInitWorker_def newPeerAction_def life_defs)
  next
    case 2
    have phase: "in_phase q i nd \<longleftrightarrow> i = 0 \<and> p = q" for q i using 2 by (auto simp: in_phase_def)
    have no: "\<not> canInitWorker nd" using assms(1) 2 by (auto simp: auto_inv_def canInitWorker_def split: if_splits)
    show ?thesis
    proof (cases st)
      case (AnnounceEnd i err)
      then show ?thesis
        using assms(1) 2 by (cases err) (auto simp: phase auto_inv_def life_defs)
    next
      case (ParamsRead i r)
      then show ?thesis
        using assms(1) 2 by (cases r) (auto simp: phase auto_inv_def life_defs split: sum.split)
    next
      case (SyncEnd i err)
      then show ?thesis using assms(1) 2 by (cases err) (auto simp: phase auto_inv_def life_defs)
    next
      case (NewEpochEvent err)
      then show ?thesis using assms(1) 2 by (simp add: auto_inv_def count_list_replicate)
    qed (use assms 2 no in \<open>auto simp: phase auto_inv_def newPeerAction_def life_defs\<close>)
  qed
qed

interpretation auto_run: machine fresh_node "life hasEth" "\<lambda>sts. InitCall \<notin> set sts" "\<lambda>_. auto_inv" for hasEth
  by unfold_locales (auto intro: auto_inv_step, simp add: fresh_node_def auto_inv_def)

lemmas auto_run_inv = auto_run.always [folded run_life_def]

lemma st_done_bounded:
  assumes "t \<le> m" "length reports \<ge> nat (m - t) + 1"
  shows "\<exists>n b r. st_done (Some m) t reports = Some (n, b, r) \<and> 1 \<le> n \<and> n \<le> nat (m - t) + 1 \<and>
    list_all (\<lambda>(s, stopped, _). \<not> s \<and> \<not> stopped) (take (n - 1) reports) \<and>
    (\<exists>stopped. reports ! (n - 1) = (b, stopped, r) \<and> (b \<or> stopped \<or> n = nat (m - t) + 1))"
  using assms
proof (induction reports arbitrary: t)
  case (Cons x reports)
  obtain s stopped r where x: "x = (s, stopped, r)" by (cases x) auto
  show ?case
  proof (cases "s \<or> shouldStop (Some m) t stopped")
    case True
    then show ?thesis using Cons.prems by (auto simp: x shouldStop_def)
  next
    case False
    then have t: "t < m" "\<not> s" "\<not> stopped" by (auto simp: shouldStop_def)
    then have d: "nat (m - t) = Suc (nat (m - (t + 1)))" by simp
    obtain n b r' stopped' where IH: "st_done (Some m) (t + 1) reports = Some (n, b, r')" "1 \<le> n" "n \<le> nat (m - (t + 1)) + 1"
      "list_all (\<lambda>(s, stopped, _). \<not> s \<and> \<not> stopped) (take (n - 1) reports)" "reports ! (n - 1) = (b, stopped', r')"
      "b \<or> stopped' \<or> n = nat (m - (t + 1)) + 1"
      using Cons.IH [of "t + 1"] Cons.prems t(1) d by auto
    then obtain k where k: "n = Suc k" by (cases n) auto
    show ?thesis using IH t False d by (auto simp: x k)
  qed
qed simp

section \<open>Properties\<close>

text \<open>
  C34: initialisations are answered once. However calls and answers interleave, every call of the
  initialisation ends at most once, the calls that have been answered are those whose phase has
  ended, and the worker counts as initialised exactly when one call, successful or not, has ended.
\<close>

theorem init_answered_once:
  "distinct (map fst (ndEnds (run_life hasEth sts))) \<and>
   set (map fst (ndEnds (run_life hasEth sts))) =
     {i. i < length (ndRuns (run_life hasEth sts)) \<and> ndRuns (run_life hasEth sts) ! i = Ended} \<and>
   (ndInitialized (run_life hasEth sts) \<longleftrightarrow> ndEnds (run_life hasEth sts) \<noteq> [])"
  using run_life_inv [of hasEth sts] by (simp add: init_inv_def)

text \<open>
  C33: a worker initialises itself once. When the initialisation is only started by new peers,
  however many connect and whatever is answered, it is started at most once and the worker
  registers at most once.
\<close>

theorem auto_init_once:
  assumes "InitCall \<notin> set sts"
  shows "length (ndRuns (run_life hasEth sts)) \<le> 1 \<and> count_list (ndEffects (run_life hasEth sts)) RegisterWorker \<le> 1"
  using auto_run_inv [OF assms, of hasEth]
  by (auto simp: auto_inv_def count_list_0_iff split: list.splits if_splits)

theorem auto_init_once_witness:
  "length (ndRuns (run_life True [NewPeer True, NewPeer True, SyncEnd 0 None, NewPeer True, AnnounceEnd 0 None,
     ParamsRead 0 (Inr (JObj [(''status'', JNum 0)])), RegisterEnd 0 (Inr JNull), NewPeer True])) \<le> 1"
  using auto_init_once [of "[NewPeer True, NewPeer True, SyncEnd 0 None, NewPeer True, AnnounceEnd 0 None,
     ParamsRead 0 (Inr (JObj [(''status'', JNum 0)])), RegisterEnd 0 (Inr JNull), NewPeer True]" True]
  by simp

text \<open>
  Direct calls are not excluded by a run in progress: two of them register twice and listen
  twice to new epochs.
\<close>

lemma two_calls_register_twice:
  "count_list (ndEffects (run_life True ([InitCall, InitCall] @ concat (map (\<lambda>i. [SyncEnd i None, AnnounceEnd i None,
     ParamsRead i (Inr (JObj [(''status'', JNum 0)]))]) [0, 1])))) RegisterWorker = 2"
  by code_simp

text \<open>
  A failed synchronisation ends the initialisation without the later steps, and a second call
  is answered as a success without doing anything.
\<close>

lemma failed_init_is_final:
  "ndEnds (run_life True [InitCall, SyncEnd 0 (Some e), InitCall]) = [(0, Some e), (1, None)] \<and>
   ndEffects (run_life True [InitCall, SyncEnd 0 (Some e), InitCall]) = [SyncReceiver]"
  by (simp add: run_life_def fresh_node_def life_defs in_phase_def)

text \<open>A registration that fails is answered as a success.\<close>

lemma registration_failure_hidden:
  "ndEnds (run_life True [InitCall, SyncEnd 0 None, AnnounceEnd 0 None, ParamsRead 0 (Inr (JObj [(''status'', JNum 0)])),
     RegisterEnd 0 (Inl e)]) = [(0, None)]"
  by (simp add: run_life_def fresh_node_def life_defs in_phase_def obj_get_def)

text \<open>
  The health endpoint. When core has answered with registration parameters, the endpoint
  answers with the report exactly when core has a signing key, the Ethereum node answers with its
  block number and a peer is connected, and with an error code otherwise; without an Ethereum part
  it always answers with an error code.
\<close>

lemma health_endpoint:
  assumes "get_prop (fld regParams ''result'') ''signingKey'' = Inr k"
  shows "(\<exists>report. performHealthCheck (healthCheck (Some (None, regParams)) (Some (Inr (eth_healthCheck block url addr))) peers) =
      Some (if k \<noteq> JNull \<and> k \<noteq> JUndef \<and> \<not> isl block \<and> peers \<ge> 1 then Sent report else ErrorCode)) \<and>
    performHealthCheck (healthCheck (Some (None, regParams)) None peers) = Some ErrorCode"
proof -
  have r: "bindE (get_prop regParams ''result'') (\<lambda>r. get_prop r ''signingKey'') = Inr k"
    using assms by (cases regParams) auto
  show ?thesis
    by (simp add: healthCheck_def r performHealthCheck_def eth_healthCheck_def js_and_def obj_get_def Let_def)
qed

text \<open>
  A stoppable task ends. With a positive maximum of retries m the job runs at most m + 2
  times; all its runs but the last failed before the timer fired, and the last one succeeded, or
  came after the timer, or was run m + 2; its report is the one that is passed on.
\<close>

lemma stoppable_bounded:
  assumes "0 < m" "length reports \<ge> nat m + 2"
  shows "\<exists>n b r. stoppable_start (Some m) reports = Some (n, b, r) \<and> n \<le> nat m + 2 \<and>
    list_all (\<lambda>(s, stopped, _). \<not> s \<and> \<not> stopped) (take (n - 1) reports) \<and>
    (\<exists>stopped. reports ! (n - 1) = (b, stopped, r) \<and> (b \<or> stopped \<or> n = nat m + 2))"
proof -
  have "nat (m - (- 1)) + 1 = nat m + 2" using assms(1) by simp
  then show ?thesis
    using st_done_bounded [of "- 1" m reports] assms by (simp add: stoppable_start_def st_option_def) blast
qed

text \<open>A maximum of zero retries is no maximum: the job runs on while it fails.\<close>

lemma zero_retries_unbounded: "stoppable_start (Some 0) (replicate n (False, False, r)) = None"
proof -
  have "st_done None t (replicate n (False, False, r)) = None" for t by (induction n arbitrary: t) (auto simp: shouldStop_def)
  then show ?thesis by (simp add: stoppable_start_def st_option_def)
qed

text \<open>Stopping the node drops the task database, unless its path contains \<open>/tmp/\<close>.\<close>

lemma stop_drops_database:
  "StopTasksAndDropDb \<in> set (node_stop hasEth (Some p) web) \<longleftrightarrow> p \<noteq> [] \<and> \<not> contains ''/tmp/'' p"
  by (simp add: node_stop_def)

end
