(* ===== verification/Scheme_Check.thy ===== *)
theory Scheme_Check
  imports Core_Channel
begin

text \<open>
  The JSON schemas of the program and the code that checks messages against them:
  \<open>_validateAndStrip\<close> of \<open>core/ipc.js\<close>, with \<open>core/core_messages_scheme.json\<close>, which decides what
  reaches the core process, and \<open>policy/p2p_messages/schemes/SchemeValidator.js\<close> with
  \<open>state_sync_scheme.json\<close>. The package \<open>jsonschema\<close> is a parameter.
\<close>

section \<open>The schemas\<close>

abbreviation a_type :: "string \<Rightarrow> json" where
  "a_type t \<equiv> JObj [(''type'', JStr t)]"

abbreviation an_item :: "string \<Rightarrow> json" where
  "an_item t \<equiv> JObj [(''type'', JStr t), (''minItems'', JNum 1)]"

abbreviation an_array :: "json \<Rightarrow> json" where
  "an_array items \<equiv> JObj [(''type'', JStr ''array''), (''items'', items)]"

abbreviation closed_fields :: "(string \<times> json) list \<Rightarrow> string list \<Rightarrow> (string \<times> json) list" where
  "closed_fields ps required \<equiv> [(''properties'', JObj ps), (''required'', JArr (map JStr required)), (''additionalProperties'', JBool False)]"

abbreviation closed_object :: "(string \<times> json) list \<Rightarrow> string list \<Rightarrow> json" where
  "closed_object ps required \<equiv> JObj ((''type'', JStr ''object'') # closed_fields ps required)"

abbreviation an_input :: "json \<Rightarrow> json" where
  "an_input t \<equiv> JObj (closed_fields [(''input'', t)] [''input''])"

definition range_scheme :: json where
  "range_scheme = closed_object [(''address'', a_type ''string''), (''from'', a_type ''number''), (''to'', a_type ''number'')]
     [''address'', ''from'', ''to'']"

definition core_messages_scheme :: "(string \<times> json) list" where
  "core_messages_scheme =
    [(''BASE_SCHEME'', closed_object [(''type'', a_type ''string''), (''id'', a_type ''string'')] [''type'', ''id'']),
     (''GetRegistrationParams'', JObj []),
     (''GetTip'', an_input (a_type ''string'')),
     (''GetTips'', an_input (an_array (an_item ''string''))),
     (''GetAllTips'', JObj []),
     (''GetAllAddrs'', JObj []),
     (''GetDelta'', an_input (closed_object [(''address'', a_type ''string''), (''key'', a_type ''number'')] [''address'', ''key''])),
     (''GetDeltas'', an_input (an_array range_scheme)),
     (''GetContract'', an_input (a_type ''string'')),
     (''UpdateNewContract'', JObj (closed_fields
        [(''address'', a_type ''string''), (''bytecode'', an_array (an_item ''number''))] [''address'', ''bytecode''])),
     (''UpdateNewContractOnDeployment'', JObj (closed_fields
        [(''address'', a_type ''string''), (''bytecode'', a_type ''string''),
         (''delta'', closed_object [(''key'', a_type ''number''), (''data'', an_array (an_item ''number''))] [''key'', ''data''])]
        [''address'', ''bytecode'', ''delta''])),
     (''RemoveContract'', JObj (closed_fields [(''address'', a_type ''string'')] [''address''])),
     (''UpdateDeltas'', JObj (closed_fields
        [(''deltas'', an_array (closed_object
           [(''address'', a_type ''string''), (''key'', a_type ''number''), (''data'', an_array (an_item ''number''))]
           [''address'', ''key'', ''data'']))] [''deltas''])),
     (''RemoveDeltas'', an_input (an_array range_scheme)),
     (''NewTaskEncryptionKey'', JObj (closed_fields [(''userPubKey'', a_type ''string'')] [''userPubKey''])),
     (''DeploySecretContract'', an_input (closed_object
        [(''encryptedArgs'', a_type ''string''), (''encryptedFn'', a_type ''string''), (''userDHKey'', a_type ''string''),
         (''gasLimit'', a_type ''number''), (''contractAddress'', a_type ''string''), (''preCode'', an_array (an_item ''number''))]
        [''preCode'', ''encryptedArgs'', ''encryptedFn'', ''userDHKey'', ''gasLimit'', ''contractAddress''])),
     (''ComputeTask'', an_input (closed_object
        [(''encryptedArgs'', a_type ''string''), (''encryptedFn'', a_type ''string''), (''userDHKey'', a_type ''string''),
         (''gasLimit'', a_type ''number''), (''contractAddress'', a_type ''string'')]
        [''encryptedArgs'', ''encryptedFn'', ''userDHKey'', ''gasLimit'', ''contractAddress''])),
     (''GetPTTRequest'', JObj []),
     (''PTTResponse'', an_input (closed_object [(''response'', a_type ''string''), (''sig'', a_type ''string'')] [''response'', ''sig'']))]"

definition state_sync_scheme :: json where
  "state_sync_scheme = JObj
    [(''SYNC_STATE_REQ'', JObj [(''id'', JStr ''/SYNC_STATE_REQ''), (''type'', JStr ''object''),
        (''properties'', JObj [(''msgType'', a_type ''string''), (''contractAddress'', a_type ''string''),
           (''fromIndex'', a_type ''number''), (''toIndex'', a_type ''number''), (''fromHash'', a_type ''string''),
           (''toHash'', a_type ''string'')]),
        (''required'', JArr (map JStr [''msgType'', ''contractAddress'', ''fromIndex'', ''toIndex'', ''fromHash'', ''toHash'']))]),
     (''SYNC_STATE_RES'', JObj [(''id'', JStr ''/SYNC_STATE_RES''), (''type'', JStr ''object''),
        (''properties'', JObj [(''msgType'', a_type ''string''), (''contractAddress'', a_type ''string''), (''states'', a_type ''list'')]),
        (''required'', JArr (map JStr [''msgType'', ''contractAddress'', ''states'']))]),
     (''SYNC_BCODE_REQ'', JObj [(''id'', JStr ''/SYNC_BCODE_REQ''), (''type'', JStr ''object''),
        (''properties'', JObj [(''msgType'', a_type ''string''), (''contractAddress'', a_type ''string'')]),
        (''required'', JArr (map JStr [''msgType'', ''contractAddress'']))]),
     (''SYNC_BCODE_RES'', JObj [(''id'', JStr ''/SYNC_BCODE_RES''), (''type'', JStr ''object''),
        (''properties'', JObj [(''msgType'', a_type ''string''), (''contractAddress'', a_type ''string''),
           (''deployedByteCode'', a_type ''list'')]),
        (''required'', JArr (map JStr [''msgType'', ''contractAddress'', ''deployedByteCode'']))])]"

section \<open>What reaches core\<close>

text \<open>
  The function given to the validator as \<open>rewrite\<close>: an object keeps the fields that its schema
  names, in the order of the schema. \<open>null\<close> is an object for \<open>typeof\<close>, and \<open>in\<close> throws for it; an
  array has none of the names.
\<close>

fun typeof_object :: "json \<Rightarrow> bool" where
  "typeof_object JNull = True"
| "typeof_object (JArr xs) = True"
| "typeof_object (JObj fs) = True"
| "typeof_object _ = False"

fun copy_fields :: "json \<Rightarrow> string list \<Rightarrow> (string \<times> json) list \<Rightarrow> (string \<times> json) list js" where
  "copy_fields inst [] obj = Inr obj"
| "copy_fields inst (n # ns) obj =
     bindE (has_prop n inst) (\<lambda>b. copy_fields inst ns (if b then obj_set obj n (fld inst n) else obj))"

definition strip_rewrite :: "json \<Rightarrow> json \<Rightarrow> json js" where
  "strip_rewrite inst scheme =
     (if \<not> typeof_object inst \<or> \<not> truthy (fld scheme ''properties'') then Inr inst
      else
        (case fld scheme ''properties'' of
           JObj ps \<Rightarrow> bindE (copy_fields inst (obj_keys ps) []) (\<lambda>obj. Inr (JObj obj))
         | _ \<Rightarrow> bindE (copy_fields inst [] []) (\<lambda>obj. Inr (JObj obj))))"

text \<open>
  \<open>validate(msg, scheme, {rewrite})\<close> of \<open>jsonschema\<close>: whether the message is valid and the instance
  as the rewriting left it; it can throw.
\<close>

type_synonym json_validate = "(json \<Rightarrow> json \<Rightarrow> json js) \<Rightarrow> json \<Rightarrow> json \<Rightarrow> (bool \<times> json) js"

definition final_scheme :: "(json \<Rightarrow> json \<Rightarrow> json) \<Rightarrow> json \<Rightarrow> json js" where
  "final_scheme defaultsDeep scheme =
     set_prop (applyDelta defaultsDeep (obj_get core_messages_scheme ''BASE_SCHEME'') scheme)
       ''additionalProperties'' (JBool True)"

text \<open>
  The first settlement of the promise counts: after the rejection for a missing schema nothing
  changes it, and an exception rejects.
\<close>

definition validateAndStrip :: "(json \<Rightarrow> json \<Rightarrow> json) \<Rightarrow> json_validate \<Rightarrow> validator" where
  "validateAndStrip defaultsDeep validate msg =
     bindE (get_prop msg ''type'') (\<lambda>t.
     let scheme = obj_get core_messages_scheme (js_key t) in
     if \<not> truthy scheme then Inl (ErrVal (JStr (''Missing type scheme: '' @ js_key t)))
     else
       bindE (final_scheme defaultsDeep scheme) (\<lambda>finalScheme.
       bindE (validate strip_rewrite msg finalScheme) (\<lambda>(valid, inst).
       if valid then Inr inst else Inl (ErrVal (JStr (''Validation Failed: '' @ JSON_stringify inst))))))"


text \<open>
  What \<open>jsonschema\<close> documents: the instance is what the rewriting makes of the root, whose fields
  may have been rewritten but are the same; and a valid instance of an object schema is an object.
\<close>

definition jsonschema_ok :: "json_validate \<Rightarrow> bool" where
  "jsonschema_ok v \<longleftrightarrow>
     (\<forall>rw m s b i. v rw m s = Inr (b, i) \<longrightarrow>
        (\<exists>m0. rw m0 s = Inr i \<and> is_obj m0 = is_obj m \<and> (\<forall>k. has_prop k m0 = has_prop k m)) \<and>
        (b \<and> fld s ''type'' = JStr ''object'' \<longrightarrow> is_obj m))"

definition field_names :: "json \<Rightarrow> string set" where
  "field_names v = (case v of JObj fs \<Rightarrow> fst ` set fs | _ \<Rightarrow> {})"

definition allowed :: "string \<Rightarrow> string set" where
  "allowed t = {''type'', ''id''} \<union> field_names (fld (obj_get core_messages_scheme t) ''properties'')"

lemma has_prop_names: "is_obj v \<Longrightarrow> has_prop k v = Inr (k \<in> field_names v)"
  by (cases v) (simp_all add: field_names_def map_of_eq_None_iff)

lemma copy_fields:
  "is_obj inst \<Longrightarrow> \<exists>obj'. copy_fields inst ns obj = Inr obj' \<and> fst ` set obj' = fst ` set obj \<union> (set ns \<inter> field_names inst)"
proof (induction ns arbitrary: obj)
  case (Cons n ns)
  let ?obj = "if n \<in> field_names inst then obj_set obj n (fld inst n) else obj"
  obtain obj' where "copy_fields inst ns ?obj = Inr obj' \<and> fst ` set obj' = fst ` set ?obj \<union> (set ns \<inter> field_names inst)"
    using Cons.IH [OF Cons.prems] by blast
  then show ?case using Cons.prems by (auto simp: has_prop_names)
qed simp

lemma strip_object:
  assumes "is_obj inst" "fld scheme ''properties'' = JObj ps"
  shows "\<exists>obj. strip_rewrite inst scheme = Inr (JObj obj) \<and> fst ` set obj = fst ` set ps \<inter> field_names inst"
proof -
  have "typeof_object inst" using assms(1) by (cases inst) auto
  then show ?thesis using copy_fields [OF assms(1), of "obj_keys ps" "[]"] assms(2) by (auto simp: strip_rewrite_def)
qed

text \<open>The schemas of messages are objects; those that have properties have an object of them.\<close>

lemma schemes_shape:
  assumes "truthy (obj_get core_messages_scheme t)"
  shows "\<exists>fs. obj_get core_messages_scheme t = JObj fs \<and>
    (map_of fs ''properties'' = None \<or> (\<exists>ps. map_of fs ''properties'' = Some (JObj ps))) \<and>
    (map_of fs ''type'' = None \<or> map_of fs ''type'' = Some (JStr ''object''))"
proof -
  have "list_all (\<lambda>(t, s). \<exists>fs. s = JObj fs \<and>
      (map_of fs ''properties'' = None \<or> (\<exists>ps. map_of fs ''properties'' = Some (JObj ps))) \<and>
      (map_of fs ''type'' = None \<or> map_of fs ''type'' = Some (JStr ''object''))) core_messages_scheme"
    by (simp add: core_messages_scheme_def)
  moreover obtain s where "(t, s) \<in> set core_messages_scheme" "obj_get core_messages_scheme t = s"
    using assms map_of_SomeD by (fastforce simp: obj_get_def split: option.splits)
  ultimately show ?thesis by (auto simp: list_all_iff)
qed

lemma final_scheme_shape:
  assumes dd: "defaults_ok dd" and t: "truthy (obj_get core_messages_scheme t)"
  shows "\<exists>s ps. final_scheme dd (obj_get core_messages_scheme t) = Inr s \<and> fld s ''type'' = JStr ''object'' \<and>
    fld s ''properties'' = JObj ps \<and> fst ` set ps = allowed t"
proof -
  obtain fs where fs: "obj_get core_messages_scheme t = JObj fs"
    and p: "map_of fs ''properties'' = None \<or> (\<exists>ps. map_of fs ''properties'' = Some (JObj ps))"
    and ty: "map_of fs ''type'' = None \<or> map_of fs ''type'' = Some (JStr ''object'')"
    using schemes_shape [OF t] by blast
  let ?base = "(''type'', JStr ''object'') # closed_fields [(''type'', a_type ''string''), (''id'', a_type ''string'')] [''type'', ''id'']"
  have base: "obj_get core_messages_scheme ''BASE_SCHEME'' = JObj ?base" by (simp add: core_messages_scheme_def obj_get_def)
  obtain hs where hs: "dd (JObj fs) (JObj ?base) = JObj hs"
    "\<And>k. map_of hs k = default_field dd (map_of fs k) (map_of ?base k)" using defaults_obj [OF dd] by blast
  have s: "final_scheme dd (JObj fs) = Inr (JObj (obj_set hs ''additionalProperties'' (JBool True)))"
    using hs(1) by (simp add: final_scheme_def applyDelta_def base)
  have ty': "map_of hs ''type'' = Some (JStr ''object'')" using hs(2) [of "''type''"] ty by (auto simp: default_field_def)
  have "\<exists>ps. map_of hs ''properties'' = Some (JObj ps) \<and> fst ` set ps = allowed t"
  proof (cases "map_of fs ''properties''")
    case None
    then have "fld (obj_get core_messages_scheme t) ''properties'' = JUndef" unfolding fs by (simp add: obj_get_def)
    then show ?thesis using hs(2) [of "''properties''"] None by (simp add: default_field_def allowed_def field_names_def)
  next
    case (Some v)
    then obtain ps where ps: "map_of fs ''properties'' = Some (JObj ps)" using p by auto
    obtain qs where qs: "dd (JObj ps) (JObj [(''type'', a_type ''string''), (''id'', a_type ''string'')]) = JObj qs"
      "\<And>k. map_of qs k = default_field dd (map_of ps k) (map_of [(''type'', a_type ''string''), (''id'', a_type ''string'')] k)"
      using defaults_obj [OF dd] by blast
    have "fst ` set qs = {''type'', ''id''} \<union> fst ` set ps"
      using defaults_keys [OF qs(2)] by auto
    moreover have "field_names (fld (obj_get core_messages_scheme t) ''properties'') = fst ` set ps"
      unfolding fs by (simp add: obj_get_def ps field_names_def)
    ultimately show ?thesis using hs(2) [of "''properties''"] ps qs(1) by (simp add: default_field_def allowed_def)
  qed
  then show ?thesis using ty' s unfolding fs by (auto simp: obj_get_def)
qed

lemma stripped:
  assumes "defaults_ok dd" "jsonschema_ok v" "validateAndStrip dd v msg = Inr m"
  shows "is_obj m \<and> is_obj msg \<and> field_names m = allowed (js_key (fld msg ''type'')) \<inter> field_names msg \<and>
    map_of core_messages_scheme (js_key (fld msg ''type'')) \<noteq> None"
proof -
  let ?t = "js_key (fld msg ''type'')"
  obtain ty where ty: "get_prop msg ''type'' = Inr ty" using assms(3) by (cases "get_prop msg ''type''") (auto simp: validateAndStrip_def)
  then have t: "truthy (obj_get core_messages_scheme ?t)" and tk: "js_key ty = ?t"
    using assms(3) get_prop_fld [OF ty] by (auto simp: validateAndStrip_def Let_def split: if_splits)
  obtain s ps where s: "final_scheme dd (obj_get core_messages_scheme ?t) = Inr s" "fld s ''type'' = JStr ''object''"
    "fld s ''properties'' = JObj ps" "fst ` set ps = allowed ?t" using final_scheme_shape [OF assms(1) t] by blast
  have v: "v strip_rewrite msg s = Inr (True, m)"
    using assms(3) t by (simp add: validateAndStrip_def ty tk Let_def s(1) bindE_eq_Inr split: if_splits prod.splits)
  then obtain m0 where m0: "strip_rewrite m0 s = Inr m" "is_obj m0 = is_obj msg" "\<forall>k. has_prop k m0 = has_prop k msg"
    using assms(2) unfolding jsonschema_ok_def by blast
  have obj: "is_obj msg" using assms(2) v s(2) unfolding jsonschema_ok_def by blast
  then have "field_names m0 = field_names msg" using m0(2,3) by (auto simp: has_prop_names)
  then have "is_obj m \<and> field_names m = allowed ?t \<inter> field_names msg"
    using strip_object [of m0 s ps] m0 obj s(3,4) by (auto simp: field_names_def)
  moreover have "map_of core_messages_scheme ?t \<noteq> None" using t by (cases "map_of core_messages_scheme ?t") (simp_all add: obj_get_def)
  ultimately show ?thesis using obj by simp
qed


text \<open>In whatever order requests and answers come: a message that was sent is a request, stripped.\<close>

definition carries :: "json \<Rightarrow> json \<Rightarrow> bool" where
  "carries raw m \<longleftrightarrow> is_obj m \<and> map_of core_messages_scheme (js_key (fld raw ''type'')) \<noteq> None \<and>
     field_names m = allowed (js_key (fld raw ''type'')) \<inter> field_names raw"

definition sent_ok :: "ipc_step list \<Rightarrow> ipc \<Rightarrow> bool" where
  "sent_ok sts s \<longleftrightarrow>
     (\<forall>m\<in>set (ipSent s). \<exists>p\<in>set (sends sts). \<exists>raw. parse_if_string (snd p) = Inr raw \<and> carries raw m)"

lemma ipSent_send:
  "ipSent (sendJsonAndReceive validate m cb s) =
     (case bindE (parse_if_string m) validate of Inl e \<Rightarrow> ipSent s | Inr m' \<Rightarrow> ipSent s @ [m'])"
  by (auto simp: sendJsonAndReceive_def Let_def sendJson_def ip_call_def split: sum.split)

lemma ipSent_message: "ipSent (ipc_message m s) = ipSent s"
  by (auto simp: ipc_message_def ip_call_def split: option.split)

lemma sent_ok_step:
  assumes "defaults_ok dd" "jsonschema_ok v" "sent_ok sts s"
  shows "sent_ok (sts @ [st]) (do_ipc (validateAndStrip dd v) st s)"
proof (cases st)
  case (Send m cb)
  have old: "\<exists>p\<in>set (sends (sts @ [st])). \<exists>raw. parse_if_string (snd p) = Inr raw \<and> carries raw x" if "x \<in> set (ipSent s)" for x
    using assms(3) that unfolding sent_ok_def sends_append set_append by blast
  show ?thesis
  proof (cases "bindE (parse_if_string m) (validateAndStrip dd v)")
    case (Inr m')
    then obtain raw where raw: "parse_if_string m = Inr raw" "validateAndStrip dd v raw = Inr m'" by (auto simp: bindE_eq_Inr)
    then have "carries raw m'" using stripped [OF assms(1,2) raw(2)] by (simp add: carries_def)
    moreover have "ipSent (do_ipc (validateAndStrip dd v) st s) = ipSent s @ [m']"
      unfolding Send do_ipc.simps ipSent_send Inr by simp
    ultimately show ?thesis using old raw(1) by (auto simp: sent_ok_def Send sends_append)
  qed (use old in \<open>auto simp: sent_ok_def Send ipSent_send\<close>)
next
  case (Message m)
  then show ?thesis using assms(3) by (simp add: sent_ok_def ipSent_message sends_append)
qed

section \<open>Schemas of synchronisation messages\<close>

text \<open>
  \<open>loadScheme\<close>: the file is read by a package (\<open>load-json-file\<close>), whose result is a parameter. An
  exception of the callback ends in the \<open>catch\<close> of the same chain, which invokes the callback once
  more. What a callback does is the list of the invocations of the caller's callback and the
  exception that escapes.
\<close>

definition loadScheme :: "json js \<Rightarrow> (json js \<Rightarrow> 'a list \<times> js_error option) \<Rightarrow> 'a list" where
  "loadScheme loaded callback =
     (case loaded of
        Inl e \<Rightarrow> fst (callback (Inl e))
      | Inr json \<Rightarrow>
          (case callback (Inr json) of
             (calls, None) \<Rightarrow> calls
           | (calls, Some e) \<Rightarrow> calls @ fst (callback (Inl e))))"

text \<open>The loop over a batch of requests stops at the first invalid one.\<close>

fun batch_valid :: "(json \<Rightarrow> bool js) \<Rightarrow> json list \<Rightarrow> bool js" where
  "batch_valid check [] = Inr True"
| "batch_valid check (x # xs) = bindE (check x) (\<lambda>b. if b then batch_valid check xs else Inr False)"

definition check_state_req :: "(json \<Rightarrow> json \<Rightarrow> bool js) \<Rightarrow> json \<Rightarrow> json \<Rightarrow> bool js" where
  "check_state_req validate testObj scheme =
     (case testObj of JArr xs \<Rightarrow> batch_valid (\<lambda>x. validate x scheme) xs | _ \<Rightarrow> validate testObj scheme)"

text \<open>
  \<open>schemeMap\<close>. \<open>user\<close> is the callback of the caller: the exception that it throws when it is
  invoked with a verdict or an error.
\<close>

definition scheme_callback :: "string \<Rightarrow> (json \<Rightarrow> bool js) \<Rightarrow> (bool js \<Rightarrow> js_error option) \<Rightarrow> json js \<Rightarrow> bool js list \<times> js_error option" where
  "scheme_callback msgName check user preScheme =
     (case preScheme of
        Inl err \<Rightarrow> ([Inl err], user (Inl err))
      | Inr pre \<Rightarrow>
          (case bindE (get_prop pre msgName) check of
             Inl e \<Rightarrow> ([], Some e)
           | Inr isValid \<Rightarrow> ([Inr isValid], user (Inr isValid))))"

definition schemeMap :: "(string \<times> ((json \<Rightarrow> json \<Rightarrow> bool js) \<Rightarrow> json \<Rightarrow> json \<Rightarrow> bool js)) list" where
  "schemeMap =
     [(''SYNC_STATE_REQ'', check_state_req),
      (''SYNC_STATE_RES'', \<lambda>validate testObj scheme. validate testObj scheme),
      (''SYNC_BCODE_REQ'', \<lambda>validate testObj scheme. validate testObj scheme),
      (''SYNC_BCODE_RES'', \<lambda>validate testObj scheme. validate testObj scheme)]"

definition validateScheme ::
    "(json \<Rightarrow> json \<Rightarrow> bool js) \<Rightarrow> json js \<Rightarrow> json \<Rightarrow> string \<Rightarrow> (bool js \<Rightarrow> js_error option) \<Rightarrow> bool js list" where
  "validateScheme validate loaded testedObj msgName user =
     (case map_of schemeMap msgName of
        None \<Rightarrow> [Inl (ErrVal (JStr ''no such scheme''))]
      | Some s \<Rightarrow> loadScheme loaded (scheme_callback msgName (s validate testedObj) user))"

lemma batch_valid_total:
  assumes "\<And>x. x \<in> set xs \<Longrightarrow> check x = Inr (ok x)"
  shows "batch_valid check xs = Inr (list_all ok xs)"
  using assms by (induction xs) auto

text \<open>A callback that throws is invoked a second time, with its own exception as the error.\<close>

lemma thrown_back:
  assumes "map_of schemeMap msgName = Some s" "loaded = Inr pre" "bindE (get_prop pre msgName) (s validate v) = Inr b" "user (Inr b) = Some e"
  shows "validateScheme validate loaded v msgName user = [Inr b, Inl e]"
  using assms by (simp add: validateScheme_def loadScheme_def scheme_callback_def)

lemma not_loaded: "map_of schemeMap msgName = Some s \<Longrightarrow> validateScheme validate (Inl e) v msgName user = [Inl e]"
  by (simp add: validateScheme_def loadScheme_def scheme_callback_def)

text \<open>
  A batch of requests for states is valid exactly when each of them is, and the callback is
  invoked once with the verdict, when it does not throw.
\<close>

lemma batch_verdict:
  assumes "\<And>x s. validate x s = Inr (ok x s)" "\<And>b. user (Inr b) = None"
  shows "validateScheme validate (Inr state_sync_scheme) (JArr xs) ''SYNC_STATE_REQ'' user =
    [Inr (list_all (\<lambda>x. ok x (fld state_sync_scheme ''SYNC_STATE_REQ'')) xs)]"
  using batch_valid_total [of xs "\<lambda>x. validate x (fld state_sync_scheme ''SYNC_STATE_REQ'')"] assms
  by (simp add: validateScheme_def loadScheme_def scheme_callback_def schemeMap_def check_state_req_def state_sync_scheme_def)

section \<open>Properties\<close>

interpretation ipc_stripped: machine IpcClient "do_ipc (validateAndStrip dd v)"
    "\<lambda>_. defaults_ok dd \<and> jsonschema_ok v" sent_ok for dd v
  by unfold_locales (use sent_ok_step in \<open>auto simp: sent_ok_def IpcClient_def\<close>)

text \<open>
  C38: only known fields reach core. Whatever is asked for, in whatever order requests and answers
  come, a message that is sent to core is an object made from a request of a known type, with
  exactly those fields of the request that the schema of its type or the common schema names.
\<close>

theorem only_known_fields_sent:
  assumes "defaults_ok dd" "jsonschema_ok v" "m \<in> set (ipSent (run_ipc (validateAndStrip dd v) sts))"
  shows "\<exists>cb req raw. (cb, req) \<in> set (sends sts) \<and> parse_if_string req = Inr raw \<and> is_obj m \<and>
    map_of core_messages_scheme (js_key (fld raw ''type'')) \<noteq> None \<and>
    field_names m = allowed (js_key (fld raw ''type'')) \<inter> field_names raw"
  using ipc_stripped.always [of dd v sts] assms by (fastforce simp: run_ipc_def sent_ok_def carries_def)

definition ex_schema :: json_validate where
  "ex_schema rw m s = bindE (rw m s) (\<lambda>i. Inr (is_obj m, i))"

definition ex_tips :: json where
  "ex_tips = JObj [(''id'', JStr ''7''), (''type'', JStr ''GetTips''), (''input'', JArr []), (''address'', JStr ''0xab'')]"

theorem only_known_fields_sent_witness:
  "\<exists>cb req raw. (cb, req) \<in> set (sends [Send ex_tips 0]) \<and> parse_if_string req = Inr raw \<and>
     is_obj (JObj [(''input'', JArr []), (''type'', JStr ''GetTips''), (''id'', JStr ''7'')]) \<and>
     map_of core_messages_scheme (js_key (fld raw ''type'')) \<noteq> None \<and>
     field_names (JObj [(''input'', JArr []), (''type'', JStr ''GetTips''), (''id'', JStr ''7'')]) =
       allowed (js_key (fld raw ''type'')) \<inter> field_names raw"
proof -
  have v: "jsonschema_ok ex_schema" by (fastforce simp: jsonschema_ok_def ex_schema_def bindE_eq_Inr)
  have "JObj [(''input'', JArr []), (''type'', JStr ''GetTips''), (''id'', JStr ''7'')]
      \<in> set (ipSent (run_ipc (validateAndStrip deep_defaults ex_schema) [Send ex_tips 0]))"
    by code_simp
  from only_known_fields_sent [OF deep_defaults_ok v this] show ?thesis .
qed

end
