(* ===== verification/Node_Startup.thy ===== *)
theory Node_Startup
  imports Launch
begin

text \<open>
  How the peer-to-peer node comes up, \<open>worker/EnigmaNode.js\<close>, and the way of an event of libp2p
  through \<open>worker/handlers/ProtocolHandler.js\<close> to an action of \<open>worker/controller/NodeController.js\<close>.
  libp2p, which creates peer ids and starts, and the file of the peer id are parameters.
\<close>

section \<open>The node before it starts\<close>

text \<open>
  \<open>nbBundle\<close> is the libp2p node, with what it is created with; \<open>nbOn\<close> the events and protocols that
  have a handler, in order; \<open>nbNode\<close> the flag \<open>started\<close> and the subscriptions.
\<close>

record node_bundle =
  bdPeer :: string
  bdAddrs :: "string list"
  bdDiscover :: json
  bdDnsNodes :: json

record node_boot =
  nbOptions :: node_options
  nbPath :: json
  nbBundle :: "node_bundle option"
  nbOn :: "string list"
  nbNode :: eng_node

definition EnigmaNode :: "node_options \<Rightarrow> node_boot" where
  "EnigmaNode config =
     \<lparr>nbOptions = config,
      nbPath = (if noPathPeerId config = JNull \<or> noPathPeerId config = JUndef then JNull else noPathPeerId config),
      nbBundle = None, nbOn = [], nbNode = \<lparr>enStarted = False, enHandlers = [], enSubs = []\<rparr>\<rparr>"

text \<open>
  The parameters: reading a file, \<open>PeerId.createFromJSON\<close>, \<open>PeerInfo.create\<close>, what the constructor
  of \<open>PeerInfo\<close> throws without an id, the texts of a set of addresses made by adding them in turn,
  and starting libp2p: its error and the addresses of the peer information afterwards, with the ports
  it was bound to and the id of the peer.
\<close>

record boot_env =
  beReadFile :: "json \<Rightarrow> string js"
  beIdFromJson :: "json \<Rightarrow> string js"
  beCreate :: "string js"
  beNoId :: js_error
  beAddrs :: "json list \<Rightarrow> string list"
  beStart :: "string list \<Rightarrow> js_error option \<times> string list"

definition new_bundle :: "boot_env \<Rightarrow> string \<Rightarrow> node_boot \<Rightarrow> node_boot" where
  "new_bundle env peerId s =
     s\<lparr>nbBundle := Some \<lparr>bdPeer = peerId, bdAddrs = beAddrs env (noMultiAddrs (nbOptions s)), bdDiscover = noDiscover (nbOptions s),
        bdDnsNodes = noDnsNodes (nbOptions s)\<rparr>\<rparr>"

text \<open>
  \<open>worker/libp2p-bundle.js\<close>: the configuration that libp2p gets, defaults under the options. The
  modules are written by their names.
\<close>

definition bundle_defaults :: json where
  "bundle_defaults = JObj
     [(''modules'', JObj [(''transport'', JArr (map JStr [''TCP'', ''WS''])), (''streamMuxer'', JArr (map JStr [''Mplex'', ''SPDY''])),
        (''connEncryption'', JArr [JStr ''SECIO'']), (''peerDiscovery'', JArr [JStr ''Bootstrap'']), (''dht'', JStr ''KadDHT'')]),
      (''config'', JObj [(''dht'', JObj [(''kBucketSize'', JNum 20)]),
        (''EXPERIMENTAL'', JObj [(''dht'', JBool True), (''pubsub'', JBool True)]),
        (''peerDiscovery'', JObj [(''bootstrap'', JObj [(''interval'', JNum 2000), (''enabled'', JBool False),
           (''list'', JArr [])])])])]"

definition bundle_options :: "node_bundle \<Rightarrow> json" where
  "bundle_options b = JObj [(''config'', JObj [(''peerDiscovery'', JObj [(''bootstrap'',
     JObj [(''enabled'', bdDiscover b), (''list'', bdDnsNodes b)])])])]"

definition PeerBundle :: "(json \<Rightarrow> json \<Rightarrow> json) \<Rightarrow> json \<Rightarrow> json" where
  "PeerBundle defaultsDeep options = defaultsDeep options bundle_defaults"

text \<open>
  \<open>loadNode\<close> and \<open>createNode\<close>: the errors that the callback gets, one per invocation, the exception
  that nobody catches, and the state. \<open>loadNode\<close> goes on after it has reported an error: without
  data the parser fails, without an id the constructor.
\<close>

definition loadNode :: "boot_env \<Rightarrow> json \<Rightarrow> node_boot \<Rightarrow> js_error option list \<times> js_error option \<times> node_boot" where
  "loadNode env path s =
     (case beReadFile env path of
        Inl err \<Rightarrow> ([Some err], Some JsSyntaxError, s)
      | Inr data \<Rightarrow>
          (case JSON_parse data of
             Inl e \<Rightarrow> ([], Some e, s)
           | Inr json \<Rightarrow>
               (case beIdFromJson env json of
                  Inl err \<Rightarrow> ([Some err], Some (beNoId env), s)
                | Inr peerId \<Rightarrow> ([None], None, new_bundle env peerId s))))"

definition createNode :: "boot_env \<Rightarrow> node_boot \<Rightarrow> js_error option list \<times> js_error option \<times> node_boot" where
  "createNode env s =
     (case beCreate env of
        Inl err \<Rightarrow> ([Some err], None, s)
      | Inr peerId \<Rightarrow> ([None], None, new_bundle env peerId s))"

text \<open>
  The promises: \<open>syncLoadNode\<close> resolves with whatever the callback gets, \<open>syncCreateNode\<close> rejects
  with an error. \<open>None\<close> when the promise does not settle.
\<close>

definition syncLoadNode :: "boot_env \<Rightarrow> json \<Rightarrow> node_boot \<Rightarrow> unit js option \<times> js_error option \<times> node_boot" where
  "syncLoadNode env path s =
     (case loadNode env path s of (calls, uncaught, s) \<Rightarrow> (if calls = [] then None else Some (Inr ()), uncaught, s))"

definition syncCreateNode :: "boot_env \<Rightarrow> node_boot \<Rightarrow> unit js option \<times> js_error option \<times> node_boot" where
  "syncCreateNode env s =
     (case createNode env s of
        (calls, uncaught, s) \<Rightarrow>
          (case calls of [] \<Rightarrow> None | None # _ \<Rightarrow> Some (Inr ()) | Some err # _ \<Rightarrow> Some (Inl err), uncaught, s))"

definition syncInit :: "boot_env \<Rightarrow> json \<Rightarrow> node_boot \<Rightarrow> unit js option \<times> js_error option \<times> node_boot" where
  "syncInit env path s = (if truthy path then syncLoadNode env path s else syncCreateNode env s)"

section \<open>Start\<close>

text \<open>\<open>start\<close> calls a method of the libp2p node, which throws when there is none.\<close>

definition syncStart :: "boot_env \<Rightarrow> node_boot \<Rightarrow> node_boot js" where
  "syncStart env s =
     (case nbBundle s of
        None \<Rightarrow> Inl JsTypeError
      | Some b \<Rightarrow>
          (let (err, addrs) = beStart env (bdAddrs b) in
           Inr (s\<lparr>nbBundle := Some (b\<lparr>bdAddrs := addrs\<rparr>), nbNode := eng_start err (nbNode s)\<rparr>)))"

definition not_satisfied :: js_error where
  "not_satisfied = Err PlainError ''not all protocols are satisfied, check constants.js for more info.''"

definition addHandlers :: "node_boot \<Rightarrow> node_boot js" where
  "addHandlers s =
     (if \<not> enStarted (nbNode s) then Inl not_satisfied
      else Inr (s\<lparr>nbOn := nbOn s @ [''peer:discovery'', ''peer:connect'', ''peer:disconnect''] @ protocols_list\<rparr>))"

text \<open>
  \<open>syncRun\<close>: the executor of its promise is asynchronous, so that an exception or rejection in it
  leaves the promise pending, with an unhandled rejection. The first component is an exception that
  nobody catches.
\<close>

datatype run_result = Resolved | Pending "js_error option"

definition syncRun :: "boot_env \<Rightarrow> nat \<Rightarrow> node_boot \<Rightarrow> js_error option \<times> run_result \<times> node_boot" where
  "syncRun env h s =
     (case syncInit env (nbPath s) s of
        (None, uncaught, s) \<Rightarrow> (uncaught, Pending None, s)
      | (Some (Inl e), uncaught, s) \<Rightarrow> (uncaught, Pending (Some e), s)
      | (Some (Inr _), uncaught, s) \<Rightarrow>
          (case bindE (syncStart env s) addHandlers of
             Inl e \<Rightarrow> (uncaught, Pending (Some e), s)
           | Inr s \<Rightarrow>
               (case defaultSubscribe h (nbNode s) of
                  (Some e, n) \<Rightarrow> (uncaught, Pending (Some e), s\<lparr>nbNode := n\<rparr>)
                | (None, n) \<Rightarrow> (uncaught, Resolved, s\<lparr>nbNode := n\<rparr>))))"

text \<open>\<open>syncStop\<close> with the error of stopping libp2p; without a node it throws, which rejects.\<close>

definition syncStop :: "js_error option \<Rightarrow> node_boot \<Rightarrow> unit js" where
  "syncStop err s =
     (case nbBundle s of
        None \<Rightarrow> Inl JsTypeError
      | Some b \<Rightarrow> (case err of Some e \<Rightarrow> Inl e | None \<Rightarrow> Inr ()))"

section \<open>What the node tells\<close>

definition getListeningAddrs :: "node_boot \<Rightarrow> string list js" where
  "getListeningAddrs s =
     (case nbBundle s of None \<Rightarrow> Inl JsTypeError | Some b \<Rightarrow> Inr (bdAddrs b))"

definition getSelfIdB58Str :: "node_boot \<Rightarrow> string js" where
  "getSelfIdB58Str s = (case nbBundle s of None \<Rightarrow> Inl JsTypeError | Some b \<Rightarrow> Inr (bdPeer b))"

text \<open>\<open>getAllPeersInfo\<close>: a peer that the peer book throws for is left out.\<close>

definition getAllPeersInfo :: "(string \<Rightarrow> 'p js) \<Rightarrow> string list \<Rightarrow> 'p list" where
  "getAllPeersInfo peerBook ids = concat (map (\<lambda>i. case peerBook i of Inl e \<Rightarrow> [] | Inr p \<Rightarrow> [p]) ids)"

text \<open>\<open>getTopics\<close>: the promise over the callback of libp2p.\<close>

definition getTopics :: "(js_error option \<times> string list) option \<Rightarrow> string list js option" where
  "getTopics r = settle_callback r"

text \<open>\<open>dial\<close> and \<open>startStateSyncRequest\<close>: no callback for the node itself.\<close>

definition eng_dial :: "'w p2p \<Rightarrow> string \<Rightarrow> 'w \<Rightarrow> js_error option option \<times> 'w" where
  "eng_dial p peer w =
     (if peer = p2Self p then (None, w) else case p2Dial p peer w of (err, w) \<Rightarrow> (Some err, w))"

definition eng_startStateSyncRequest :: "'w p2p \<Rightarrow> string \<Rightarrow> string \<Rightarrow> 'w \<Rightarrow> dialled \<times> 'w" where
  "eng_startStateSyncRequest p peer data w = dialProtocol p peer ''/sync/0.1'' data w"

section \<open>Events\<close>

text \<open>The notifications of \<open>constants.js\<close> that the handlers send.\<close>

fun notification_name :: "notification \<Rightarrow> string" where
  "notification_name (DISCOVERED peer) = ''discovered''"
| "notification_name (NEW_PEER_CONNECTED peer) = ''connected''"
| "notification_name STATE_SYNC_REQ = ''ssyncreq''"
| "notification_name GET_ALL_TIPS = ''getat''"
| "notification_name (RECEIVED_NEW_RESULT m) = ''rnresult''"

text \<open>A peer that leaves and a broadcast are only logged; the logged text of a broadcast.\<close>

definition onPeerDisconnect :: "string \<Rightarrow> notification list" where
  "onPeerDisconnect peer = []"

definition onPubsubBroadcast :: "string \<Rightarrow> string \<Rightarrow> string \<Rightarrow> json option" where
  "onPubsubBroadcast self from data =
     (if from = self then None else Some (JObj [(''from'', JStr from), (''data'', JStr data)]))"

text \<open>What handling an event of a peer notifies the controller of.\<close>

definition handle_peer_event :: "string \<Rightarrow> string \<Rightarrow> string \<Rightarrow> notification list js" where
  "handle_peer_event self event peer =
     bindE (handle_protocol event) (\<lambda>h. Inr
       (case h of
          None \<Rightarrow> []
        | Some h \<Rightarrow>
            if h = ''peer:discovery'' then onPeerDiscovery self peer
            else if h = ''peer:connect'' then onPeerConnect peer
            else if h = ''peer:disconnect'' then onPeerDisconnect peer
            else if h = ''/sync/0.1'' then onStateSync
            else if h = ''/localstateexchange/0.1'' then [GET_ALL_TIPS]
            else []))"

definition handle_message :: "string \<Rightarrow> string list \<Rightarrow> string \<Rightarrow> json \<Rightarrow> notification list" where
  "handle_message self topicIDs from message =
     (case handleTopic topicIDs of
        None \<Rightarrow> []
      | Some t \<Rightarrow> if t = ''/taskresults/0.1'' then onTaskResultPublish self from message else [])"

text \<open>
  An event that libp2p emits on the node: without a handler nothing happens; otherwise the actions
  that the controller executes for the notifications. A message arrives once per subscription of
  its topic; \<open>h\<close> is the handler of the default subscriptions.
\<close>

definition on_peer_event :: "(string \<times> action_entry) list \<Rightarrow> node_boot \<Rightarrow> string \<Rightarrow> string \<Rightarrow> string option list js" where
  "on_peer_event actions s event peer =
     (if event \<notin> set (nbOn s) then Inr []
      else
        bindE (getSelfIdB58Str s) (\<lambda>self.
        bindE (handle_peer_event self event peer) (\<lambda>ns.
        mapE (\<lambda>n. on_notify actions (notification_name n)) ns)))"

definition on_message ::
    "(string \<times> action_entry) list \<Rightarrow> nat \<Rightarrow> node_boot \<Rightarrow> string list \<Rightarrow> string \<Rightarrow> json \<Rightarrow> string option list js" where
  "on_message actions h s topicIDs from message =
     bindE (getSelfIdB58Str s) (\<lambda>self.
     mapE (\<lambda>n. on_notify actions (notification_name n))
       (concat (map (\<lambda>_. handle_message self topicIDs from message)
          (filter (\<lambda>x. fst x \<in> set topicIDs \<and> snd x = h) (enSubs (nbNode s))))))"


section \<open>Lemmas\<close>

text \<open>The id of the node: created, or read from a file.\<close>

definition peer_id_of :: "boot_env \<Rightarrow> json \<Rightarrow> string js" where
  "peer_id_of env path =
     (if truthy path then bindE (beReadFile env path) (\<lambda>data. bindE (JSON_parse data) (beIdFromJson env)) else beCreate env)"

definition running :: "string \<Rightarrow> string list \<Rightarrow> nat \<Rightarrow> node_options \<Rightarrow> node_boot" where
  "running peerId addrs h config =
     (EnigmaNode config)
       \<lparr>nbBundle := Some \<lparr>bdPeer = peerId, bdAddrs = addrs, bdDiscover = noDiscover config, bdDnsNodes = noDnsNodes config\<rparr>,
        nbOn := [''peer:discovery'', ''peer:connect'', ''peer:disconnect''] @ protocols_list,
        nbNode := \<lparr>enStarted = True, enHandlers = [], enSubs = map (\<lambda>t. (t, h)) subscriptions_list\<rparr>\<rparr>"

lemma syncInit_ok:
  assumes "peer_id_of env (nbPath s) = Inr peerId"
  shows "syncInit env (nbPath s) s = (Some (Inr ()), None, new_bundle env peerId s)"
  using assms
  by (auto simp: peer_id_of_def syncInit_def syncLoadNode_def loadNode_def syncCreateNode_def createNode_def bindE_eq_Inr
      split: if_splits)

lemma node_runs:
  assumes "peer_id_of env (nbPath (EnigmaNode config)) = Inr peerId"
    and "beStart env (beAddrs env (noMultiAddrs config)) = (None, addrs)"
  shows "syncRun env h (EnigmaNode config) = (None, Resolved, running peerId addrs h config)"
  using syncInit_ok [OF assms(1)] assms(2)
  by (simp add: syncRun_def syncStart_def new_bundle_def addHandlers_def eng_start_def defaultSubscribe_def running_def EnigmaNode_def)

text \<open>A node whose libp2p could not start counts as started, and its handlers are added.\<close>

lemma failed_start_ignored:
  assumes "nbBundle s = Some b" "beStart env (bdAddrs b) = (Some e, addrs)"
  shows "\<exists>s'. syncStart env s = Inr s' \<and> enStarted (nbNode s') \<and> addHandlers s' \<noteq> Inl not_satisfied"
  using assms by (simp add: syncStart_def eng_start_def addHandlers_def)

text \<open>
  Without an id the promise never settles. When the file of the id does not help, the exception
  that is left over ends the process.
\<close>

lemma node_without_id:
  assumes "peer_id_of env (nbPath (EnigmaNode config)) = Inl e"
  shows "\<exists>r. fst (snd (syncRun env h (EnigmaNode config))) = Pending r"
    and "truthy (nbPath (EnigmaNode config)) \<Longrightarrow> fst (syncRun env h (EnigmaNode config)) \<noteq> None"
  using assms
  by (auto simp: peer_id_of_def syncRun_def syncInit_def syncLoadNode_def loadNode_def syncCreateNode_def createNode_def
      syncStart_def EnigmaNode_def bindE_def split: if_splits sum.splits)

lemma getAllPeersInfo_known: "set (getAllPeersInfo peerBook ids) = {p. \<exists>i\<in>set ids. peerBook i = Inr p}"
  by (force simp: getAllPeersInfo_def split: sum.splits)

text \<open>
  Discovery is as the node is configured, off when it is not, and publish and subscribe is always on.
\<close>

lemma bundle_config:
  assumes "defaults_ok dd"
  shows "fld (fld (fld (fld (PeerBundle dd (bundle_options b)) ''config'') ''peerDiscovery'') ''bootstrap'') ''enabled'' =
      (if bdDiscover b = JUndef then JBool False else bdDiscover b)"
    and "fld (fld (fld (PeerBundle dd (bundle_options b)) ''config'') ''EXPERIMENTAL'') ''pubsub'' = JBool True"
  using assms
  by (simp_all add: PeerBundle_def bundle_options_def bundle_defaults_def defaults_fld [OF assms] default_field_def obj_get_def
      split: json.split)

text \<open>A handler is dispatched to for every event that is registered, and every notification has an action.\<close>

lemma registered_handled:
  "list_all (\<lambda>p. handle_protocol p = Inr (Some p)) ([''peer:discovery'', ''peer:connect'', ''peer:disconnect''] @ protocols_list)"
  by code_simp

lemma notify_actions:
  "on_notify node_actions (notification_name n) = Inr (Some
     (case n of DISCOVERED p \<Rightarrow> ''BootstrapDiscoveredAction'' | NEW_PEER_CONNECTED p \<Rightarrow> ''NewPeerAction''
      | STATE_SYNC_REQ \<Rightarrow> ''ProvideSyncStateAction'' | GET_ALL_TIPS \<Rightarrow> ''GetAllTipsAction''
      | RECEIVED_NEW_RESULT m \<Rightarrow> ''VerifyAndStoreResultAction''))"
proof -
  have "on_notify node_actions ''discovered'' = Inr (Some ''BootstrapDiscoveredAction'')"
    "on_notify node_actions ''connected'' = Inr (Some ''NewPeerAction'')"
    "on_notify node_actions ''ssyncreq'' = Inr (Some ''ProvideSyncStateAction'')"
    "on_notify node_actions ''getat'' = Inr (Some ''GetAllTipsAction'')"
    "on_notify node_actions ''rnresult'' = Inr (Some ''VerifyAndStoreResultAction'')"
    by code_simp+
  then show ?thesis by (cases n) simp_all
qed

section \<open>Properties\<close>

text \<open>
  C39: a node that has an id serves. Whatever file or libp2p gives the id, when libp2p starts without
  an error the node comes up, and tells the addresses that libp2p listens on (with the bound ports);
  then a new peer and a discovered one, but not the node
  itself, reach their action, a request for states and for tips too, and a published result that
  another worker sent is received exactly once, while its own is ignored.
\<close>

theorem started_node_dispatches:
  assumes "peer_id_of env (nbPath (EnigmaNode config)) = Inr self"
    and "beStart env (beAddrs env (noMultiAddrs config)) = (None, addrs)"
    and "syncRun env h (EnigmaNode config) = (crash, r, s)"
  shows "crash = None \<and> r = Resolved \<and> getSelfIdB58Str s = Inr self \<and> getListeningAddrs s = Inr addrs \<and>
    on_peer_event node_actions s ''peer:connect'' peer = Inr [Some ''NewPeerAction''] \<and>
    on_peer_event node_actions s ''peer:discovery'' peer = Inr (if peer = self then [] else [Some ''BootstrapDiscoveredAction'']) \<and>
    on_peer_event node_actions s ''peer:disconnect'' peer = Inr [] \<and>
    on_peer_event node_actions s ''/sync/0.1'' peer = Inr [Some ''ProvideSyncStateAction''] \<and>
    on_peer_event node_actions s ''/localstateexchange/0.1'' peer = Inr [Some ''GetAllTipsAction''] \<and>
    on_message node_actions h s [''/taskresults/0.1''] peer m =
      Inr (if peer = self then [] else [Some ''VerifyAndStoreResultAction'']) \<and>
    on_message node_actions h s [''/broadcast/0.1''] peer m = Inr []"
proof -
  have s: "crash = None" "r = Resolved" "s = running self addrs h config"
    using assms(3) node_runs [OF assms(1,2), of h] by simp_all
  have self: "getSelfIdB58Str s = Inr self" "getListeningAddrs s = Inr addrs"
    by (simp_all add: s(3) running_def getSelfIdB58Str_def getListeningAddrs_def EnigmaNode_def)
  have on: "nbOn s = [''peer:discovery'', ''peer:connect'', ''peer:disconnect''] @ protocols_list"
    by (simp add: s(3) running_def)
  have h: "handle_protocol p = Inr (Some p)" if "p \<in> set (nbOn s)" for p
    using registered_handled that by (auto simp: on list_all_iff)
  have ev: "on_peer_event node_actions s p peer = bindE (handle_peer_event self p peer) (\<lambda>ns.
      mapE (\<lambda>n. on_notify node_actions (notification_name n)) ns)" if "p \<in> set (nbOn s)" for p
    using that by (simp add: on_peer_event_def self)
  have subs: "enSubs (nbNode s) = [(''/broadcast/0.1'', h), (''/taskresults/0.1'', h)]"
    by (simp add: s(3) running_def subscriptions_list_def)
  show ?thesis
    using s(1,2) self
    by (simp add: ev h on protocols_list_def handle_peer_event_def onPeerConnect_def onPeerDiscovery_def onPeerDisconnect_def
        onStateSync_def notify_actions on_message_def self(1) subs handle_message_def handleTopic_def isValidTopic_def
        PUBSUB_TOPICS_def onTaskResultPublish_def)
qed


definition ex_options :: node_options where
  "ex_options = \<lparr>noDiscover = JBool True, noMultiAddrs = [JStr ''/ip4/0.0.0.0/tcp/0''], noDnsNodes = JArr [],
     noNamespace = JStr ''ipfs'', noPort = JNum 0, noNickname = JStr ''a'', noPathPeerId = JStr ''/id.json''\<rparr>"

definition ex_boot :: boot_env where
  "ex_boot = \<lparr>beReadFile = (\<lambda>_. Inr (JSON_stringify (JStr ''Qm1''))), beIdFromJson = (\<lambda>j. Inr (js_key j)),
     beCreate = Inl JsTypeError, beNoId = JsTypeError, beAddrs = (\<lambda>as. remdups (map js_key as)),
     beStart = (\<lambda>as. (None, map (\<lambda>a. if a = ''/ip4/0.0.0.0/tcp/0'' then ''/ip4/127.0.0.1/tcp/36601/ipfs/Qm1'' else a) as))\<rparr>"

theorem started_node_dispatches_witness:
  "getListeningAddrs (snd (snd (syncRun ex_boot 0 (EnigmaNode ex_options)))) = Inr [''/ip4/127.0.0.1/tcp/36601/ipfs/Qm1''] \<and>
   on_peer_event node_actions (snd (snd (syncRun ex_boot 0 (EnigmaNode ex_options)))) ''peer:connect'' ''Qm2'' =
     Inr [Some ''NewPeerAction'']"
proof -
  have "peer_id_of ex_boot (nbPath (EnigmaNode ex_options)) = Inr ''Qm1''" by code_simp
  then show ?thesis
    using started_node_dispatches [of ex_boot ex_options "''Qm1''" "[''/ip4/127.0.0.1/tcp/36601/ipfs/Qm1'']" 0 "fst (syncRun ex_boot 0 (EnigmaNode ex_options))"
        "fst (snd (syncRun ex_boot 0 (EnigmaNode ex_options)))" "snd (snd (syncRun ex_boot 0 (EnigmaNode ex_options)))" "''Qm2''"]
    by (simp add: ex_options_def ex_boot_def)
qed

end
