(* ===== verification/Cli.thy ===== *)
theory Cli
  imports Launch Eth_Reader
begin

text \<open>
  The command line: the parsers of \<open>cli/Parsers.js\<close>, and of \<open>cli/cli_app.js\<close> the handlers of the
  options, the configuration that is built from them and the commands of the prompt. Reading the
  arguments and the lines (commander, readline), the files and the temporary directory are
  parameters.
\<close>

section \<open>Parsers\<close>

text \<open>\<open>split\<close> on a character.\<close>

fun split_char :: "char \<Rightarrow> string \<Rightarrow> string list" where
  "split_char d [] = [[]]"
| "split_char d (c # cs) =
     (if c = d then [] # split_char d cs
      else (case split_char d cs of w # ws \<Rightarrow> (c # w) # ws | [] \<Rightarrow> [[c]]))"

record cli_params =
  cpB1Addr :: string
  cpB2Addr :: string
  cpB1Port :: string
  cpB2Port :: string
  cpB1Path :: string
  cpB2Path :: string
  cpConfig :: "(string \<times> json) list"
  cpChanged :: "string list"

definition cp_set :: "string \<Rightarrow> json \<Rightarrow> cli_params \<Rightarrow> cli_params" where
  "cp_set k v p = p\<lparr>cpConfig := obj_set (cpConfig p) k v, cpChanged := cpChanged p @ [k]\<rparr>"

definition indexOf :: "'a \<Rightarrow> 'a list \<Rightarrow> nat option" where
  "indexOf x xs = (let i = length (takeWhile (\<lambda>y. y \<noteq> x) xs) in if i < length xs then Some i else None)"

text \<open>
  One round of the loop of \<open>list\<close> on the element at \<open>i\<close>. The first occurrence of the name is
  replaced; for other elements the empty string is looked for, and without one a property \<open>-1\<close> is
  set, which is no element.
\<close>

definition list_round :: "cli_params \<Rightarrow> string list \<Rightarrow> nat \<Rightarrow> string list" where
  "list_round p xs i =
     (let ma = xs ! i;
          (val, toReplace) = (if ma = ''B2'' then (''B2'', cpB2Addr p) else if ma = ''B1'' then (''B1'', cpB1Addr p) else ([], []))
      in case indexOf val xs of Some idx \<Rightarrow> xs[idx := toReplace] | None \<Rightarrow> xs)"

definition parsers_list :: "string \<Rightarrow> cli_params \<Rightarrow> string list \<times> cli_params" where
  "parsers_list val p =
     (let xs = split_char (CHR '','') val;
          xs = foldl (list_round p) xs [0..<length xs] in
      (xs, cp_set ''bootstrapNodes'' (JArr (map JStr xs)) p))"

definition parsers_nickname :: "json \<Rightarrow> cli_params \<Rightarrow> string \<times> cli_params" where
  "parsers_nickname val p = (js_key val, cp_set ''nickname'' (JStr (js_key val)) p)"

definition replace_name :: "string \<Rightarrow> string \<Rightarrow> string \<Rightarrow> string" where
  "replace_name b1 b2 v =
     (let v = (if v = ''B1'' then b1 else v) in if v = ''B2'' then b2 else v)"

definition parsers_port :: "json \<Rightarrow> cli_params \<Rightarrow> string \<times> cli_params" where
  "parsers_port val p =
     (let v = replace_name (cpB1Port p) (cpB2Port p) (js_key val) in (v, cp_set ''port'' (JStr v) p))"

definition parsers_idPath :: "json \<Rightarrow> cli_params \<Rightarrow> string \<times> cli_params" where
  "parsers_idPath val p =
     (let v = replace_name (cpB1Path p) (cpB2Path p) (js_key val) in (v, cp_set ''idPath'' (JStr v) p))"

section \<open>Options\<close>

text \<open>
  The state of the command line; \<open>json\<close> for what an option may leave \<open>null\<close>. The confirmations are
  the number the option converts to, \<open>null\<close> when it is none.
\<close>

record cli =
  clMockCore :: bool
  clCore :: json
  clRandomDb :: json
  clInitEthereum :: bool
  clContract :: json
  clAbiPath :: json
  clProvider :: json
  clKeyPath :: json
  clKey :: json
  clAddress :: json
  clStaking :: json
  clAutoInit :: bool
  clLonely :: bool
  clMinConfirmations :: json
  clPrincipal :: json
  clLogLevel :: json
  clHealthPort :: json
  clHealthUrl :: json
  clStatusUrl :: json
  clMgmtPort :: json
  clMgmtDisable :: bool
  clRpcPort :: json
  clLogoutExit :: bool
  clParams :: cli_params

definition CLI :: "string \<Rightarrow> string \<Rightarrow> cli" where
  "CLI b1Path b2Path =
     \<lparr>clMockCore = False, clCore = JNull, clRandomDb = JNull, clInitEthereum = False, clContract = JNull, clAbiPath = JNull,
      clProvider = JNull, clKeyPath = JNull, clKey = JNull, clAddress = JNull, clStaking = JNull, clAutoInit = False,
      clLonely = False, clMinConfirmations = JNull, clPrincipal = JNull, clLogLevel = JStr ''info'', clHealthPort = JNull,
      clHealthUrl = JNull, clStatusUrl = JNull, clMgmtPort = JNull, clMgmtDisable = False, clRpcPort = JUndef,
      clLogoutExit = False,
      clParams = \<lparr>cpB1Addr = ''/ip4/0.0.0.0/tcp/10300/ipfs/QmcrQZ6RJdpYuGvZqD5QEHAv6qX4BrQLJLQPQUrTrzdcgm'',
        cpB2Addr = ''/ip4/0.0.0.0/tcp/10301/ipfs/Qma3GsJmB47xYuyahPZPSadh1avvxfyYQwk8R3UnFrQ6aP'',
        cpB1Port = ''10300'', cpB2Port = ''10301'', cpB1Path = b1Path, cpB2Path = b2Path,
        cpConfig = [(''bootstrapNodes'', JNull), (''port'', JNull), (''nickname'', JNull), (''idPath'', JNull)],
        cpChanged = []\<rparr>\<rparr>"

datatype cli_opt =
    BNodes string | Nickname json | ListenPort json | IdPath json | CoreAddr json | MockCore | RandomDb json
  | Proxy json | EthProvider json | EthContract json | EthAbiPath json | InitEth | EthAddress json | EthKeyPath json
  | EthKey json | Principal json | AutoInit | LonelyNode | Health json | NoManagement | ManagementPort json
  | HealthUrl json | StatusUrl json | LogoutAndExit | LogLevel json | MinConfirmations json | Staking json

fun cli_option :: "cli \<Rightarrow> cli_opt \<Rightarrow> cli" where
  "cli_option c (BNodes v) = c\<lparr>clParams := snd (parsers_list v (clParams c))\<rparr>"
| "cli_option c (Nickname v) = c\<lparr>clParams := snd (parsers_nickname v (clParams c))\<rparr>"
| "cli_option c (ListenPort v) = c\<lparr>clParams := snd (parsers_port v (clParams c))\<rparr>"
| "cli_option c (IdPath v) = c\<lparr>clParams := snd (parsers_idPath v (clParams c))\<rparr>"
| "cli_option c (CoreAddr v) = c\<lparr>clCore := v\<rparr>"
| "cli_option c MockCore = c\<lparr>clMockCore := True\<rparr>"
| "cli_option c (RandomDb v) = c\<lparr>clRandomDb := (if truthy v then v else JBool True)\<rparr>"
| "cli_option c (Proxy v) = c\<lparr>clRpcPort := v\<rparr>"
| "cli_option c (EthProvider v) = c\<lparr>clInitEthereum := True, clProvider := v\<rparr>"
| "cli_option c (EthContract v) = c\<lparr>clInitEthereum := True, clContract := v\<rparr>"
| "cli_option c (EthAbiPath v) = c\<lparr>clInitEthereum := True, clAbiPath := v\<rparr>"
| "cli_option c InitEth = c\<lparr>clInitEthereum := True\<rparr>"
| "cli_option c (EthAddress v) = c\<lparr>clInitEthereum := True, clAddress := v\<rparr>"
| "cli_option c (EthKeyPath v) = c\<lparr>clInitEthereum := True, clKeyPath := v\<rparr>"
| "cli_option c (EthKey v) = c\<lparr>clInitEthereum := True, clKey := v\<rparr>"
| "cli_option c (Principal v) = c\<lparr>clPrincipal := v\<rparr>"
| "cli_option c AutoInit = c\<lparr>clAutoInit := True\<rparr>"
| "cli_option c LonelyNode = c\<lparr>clLonely := True\<rparr>"
| "cli_option c (Health v) = c\<lparr>clHealthPort := v\<rparr>"
| "cli_option c NoManagement = c\<lparr>clMgmtDisable := True\<rparr>"
| "cli_option c (ManagementPort v) = c\<lparr>clMgmtPort := v\<rparr>"
| "cli_option c (HealthUrl v) = c\<lparr>clHealthUrl := v\<rparr>"
| "cli_option c (StatusUrl v) = c\<lparr>clStatusUrl := v\<rparr>"
| "cli_option c LogoutAndExit = c\<lparr>clLogoutExit := True\<rparr>"
| "cli_option c (LogLevel v) = c\<lparr>clLogLevel := v\<rparr>"
| "cli_option c (MinConfirmations v) = c\<lparr>clMinConfirmations := v\<rparr>"
| "cli_option c (Staking v) = c\<lparr>clInitEthereum := True, clStaking := v\<rparr>"

section \<open>The environment\<close>

definition getFinalConfig :: "cli_params \<Rightarrow> (string \<times> json) list" where
  "getFinalConfig p = foldl (\<lambda>m k. obj_set m k (obj_get (cpConfig p) k)) [] (cpChanged p)"

text \<open>\<open>extraConfig\<close>: the path of the task database is always a new temporary directory.\<close>

definition extra_config :: "json \<Rightarrow> cli \<Rightarrow> (string \<times> json) list" where
  "extra_config tempdir c =
     (let withTm = truthy (clRandomDb c) \<or> truthy (clPrincipal c) in
      (if truthy (clPrincipal c) then [(''principal'', JObj [(''uri'', clPrincipal c)])] else []) @
      (if withTm then [(''tm'', JObj [(''dbPath'', tempdir)])] else []) @
      (if clAutoInit c then [(''init'', JObj [(''autoInit'', JBool True)])] else []) @
      (if truthy (clHealthPort c) \<or> truthy (clHealthUrl c) \<or> truthy (clStatusUrl c)
       then [(''webserver'', JObj [(''port'', clHealthPort c), (''healthCheck'', JObj [(''url'', clHealthUrl c)]),
               (''status'', JObj [(''url'', clStatusUrl c)])])]
       else []) @
      (if \<not> clMgmtDisable c
       then [(''mgmt'', JObj [(''mgmtBase'', JObj (if truthy (clMgmtPort c) then [(''port'', clMgmtPort c)] else []))])]
       else []))"

text \<open>
  The Ethereum configuration: \<open>None\<close> when a file cannot be read, after which the program does not
  build anything.
\<close>

definition ethereum_config :: "(json \<Rightarrow> json js) \<Rightarrow> (json \<Rightarrow> json js) \<Rightarrow> cli \<Rightarrow> json option" where
  "ethereum_config readAbi readKey c =
     (case (if truthy (clAbiPath c) then bindE (readAbi (clAbiPath c)) (\<lambda>raw. get_prop raw ''abi'') else Inr JNull) of
        Inl e \<Rightarrow> None
      | Inr abi \<Rightarrow>
          (case (if truthy (clKeyPath c) then readKey (clKeyPath c) else Inr (clKey c)) of
             Inl e \<Rightarrow> None
           | Inr key \<Rightarrow>
               Some (JObj [(''urlProvider'', clProvider c), (''enigmaContractAddress'', clContract c),
                 (''operationalAddress'', clAddress c), (''enigmaContractAbi'', abi), (''operationalKey'', key),
                 (''minConfirmations'', clMinConfirmations c), (''stakingAddress'', clStaking c)])))"

definition initEnvironment :: "(json \<Rightarrow> json js) \<Rightarrow> (json \<Rightarrow> json js) \<Rightarrow> json \<Rightarrow> cli \<Rightarrow> env_builder option" where
  "initEnvironment readAbi readKey tempdir c =
     (let b = EnvironmentBuilder;
          b = (if truthy (clCore c) then setIpcConfig (JObj [(''uri'', JStr (''tcp://'' @ js_key (clCore c)))]) b else b);
          b = (if truthy (clRpcPort c)
               then setJsonRpcConfig (JObj [(''port'', parseInt (clRpcPort c)), (''peerId'', JNull)]) b else b);
          b = setLoggerConfig (JObj [(''name'', JStr ''MainController''), (''level'', clLogLevel c)]) b;
          node = JObj (obj_set (getFinalConfig (clParams c)) ''extraConfig'' (JObj (extra_config tempdir c))) in
      if clInitEthereum c then
        (case ethereum_config readAbi readKey c of
           None \<Rightarrow> None
         | Some eth \<Rightarrow> Some (setNodeConfig node (setEthereumConfig eth b)))
      else Some (setNodeConfig node b))"

text \<open>
  The URI at which the stand-in for core is started, when it is.
\<close>

definition mock_core_uri :: "cli \<Rightarrow> json option" where
  "mock_core_uri c =
     (if truthy (clCore c) \<and> clMockCore c then Some (JStr (''tcp://'' @ js_key (clCore c))) else None)"

text \<open>\<open>_setup\<close>: a lonely node initialises itself.\<close>

definition cli_setup :: "cli \<Rightarrow> bool" where
  "cli_setup c \<longleftrightarrow> clAutoInit c \<and> clLonely c"

text \<open>
  What becomes of the process, after the environment: \<open>build\<close> is how the build settles and
  \<open>logout\<close> how the command settles, \<open>None\<close> when they do not. An error there is an unhandled rejection,
  as nobody awaits the constructor. A running system answers to signals and uncaught exceptions
  with exit code 1; \<open>Running b\<close> when it initialises its worker process itself.
\<close>

datatype cli_state = NotBuilt | Waiting | Rejected js_error | Running bool | Exited int

definition cli_main :: "(env_builder \<Rightarrow> unit js option) \<Rightarrow> unit js option \<Rightarrow> cli \<Rightarrow> env_builder option \<Rightarrow> cli_state" where
  "cli_main build logout c b =
     (case b of
        None \<Rightarrow> NotBuilt
      | Some b \<Rightarrow>
          (case build b of
             None \<Rightarrow> Waiting
           | Some (Inl e) \<Rightarrow> Rejected e
           | Some (Inr _) \<Rightarrow>
               if clLogoutExit c then
                 (case logout of None \<Rightarrow> Waiting | Some (Inl e) \<Rightarrow> Rejected e | Some (Inr _) \<Rightarrow> Exited 0)
               else Running (cli_setup c)))"

definition gracefullShutDown :: "cli_state \<Rightarrow> cli_state" where
  "gracefullShutDown s = (case s of Running _ \<Rightarrow> Exited 1 | _ \<Rightarrow> s)"

section \<open>Commands\<close>

datatype node_call =
    InitWorker json | AddPeer json | LookUp json | RemoteTips json | SelfAddrs | ConnectedPeers | Broadcast json
  | Announce | SyncNow | Monitor json | Publish json json | SelfSubscribe | GetRegistration | IsConnected json | Topics
  | LocalTips | Unsubscribe json | GetResult json | Register | Unregister | Login | Logout | Usage string | Help

definition arg :: "string list \<Rightarrow> nat \<Rightarrow> json" where
  "arg args i = (if i < length args then JStr (args ! i) else JUndef)"

definition cli_commands :: "(string \<times> (string list \<Rightarrow> node_call)) list" where
  "cli_commands =
     [(''init'', \<lambda>a. InitWorker (arg a 1)), (''addPeer'', \<lambda>a. AddPeer (arg a 1)), (''lookup'', \<lambda>a. LookUp (arg a 1)),
      (''remoteTips'', \<lambda>a. RemoteTips (arg a 1)), (''getAddr'', \<lambda>a. SelfAddrs), (''getConnectedPeers'', \<lambda>a. ConnectedPeers),
      (''broadcast'', \<lambda>a. Broadcast (arg a 1)), (''announce'', \<lambda>a. Announce), (''sync'', \<lambda>a. SyncNow),
      (''monitorSubscribe'', \<lambda>a. if length a < 2 then Usage ''error please use $monitorSubscribe <topic str name>''
         else Monitor (arg a 1)),
      (''publish'', \<lambda>a. if length a < 3 then Usage ''error please $publish <topic> <str msg>''
         else Publish (arg a 1) (JStr (JSON_stringify (arg a 2)))),
      (''selfSubscribe'', \<lambda>a. SelfSubscribe), (''getRegistration'', \<lambda>a. GetRegistration),
      (''isConnected'', \<lambda>a. IsConnected (arg a 1)), (''topics'', \<lambda>a. Topics), (''tips'', \<lambda>a. LocalTips),
      (''unsubscribe'', \<lambda>a. Unsubscribe (arg a 1)), (''getResult'', \<lambda>a. GetResult (arg a 1)), (''register'', \<lambda>a. Register),
      (''unregister'', \<lambda>a. Unregister), (''login'', \<lambda>a. Login), (''logout'', \<lambda>a. Logout), (''help'', \<lambda>a. Help)]"

text \<open>A line of the prompt; \<open>None\<close> for an unknown command.\<close>

definition cli_line :: "string \<Rightarrow> node_call option" where
  "cli_line line =
     (let args = split_char (CHR '' '') line in map_option (\<lambda>f. f args) (map_of cli_commands (hd args)))"

section \<open>Lemmas\<close>

lemma split_char_not_Nil [simp]: "split_char d s \<noteq> []"
  by (induction s) (auto split: list.splits)

text \<open>
  The loop of \<open>list\<close> replaces every name by its address and keeps the rest, when the addresses are
  no names themselves.
\<close>

definition named_addr :: "cli_params \<Rightarrow> string \<Rightarrow> string" where
  "named_addr p ma = (if ma = ''B1'' then cpB1Addr p else if ma = ''B2'' then cpB2Addr p else ma)"

lemma indexOf_first:
  assumes "i < length xs" "xs ! i = x" "x \<notin> set (take i xs)"
  shows "indexOf x xs = Some i"
proof -
  have "xs = take i xs @ x # drop (Suc i) xs" using id_take_nth_drop [OF assms(1)] assms(2) by simp
  moreover have "takeWhile (\<lambda>y. y \<noteq> x) (take i xs @ x # drop (Suc i) xs) = take i xs"
    using assms(3) by (subst takeWhile_append2) auto
  ultimately have "length (takeWhile (\<lambda>y. y \<noteq> x) xs) = i" using assms(1) by (metis length_take min.absorb4)
  then show ?thesis using assms(1) by (simp add: indexOf_def)
qed

lemma indexOf_Some: "indexOf x xs = Some i \<Longrightarrow> i < length xs \<and> xs ! i = x"
  by (auto simp: indexOf_def Let_def dest: nth_length_takeWhile split: if_splits)

lemma list_round_named:
  assumes "cpB1Addr p \<notin> {''B1'', ''B2''}" "cpB2Addr p \<notin> {''B1'', ''B2''}" "i < length xs"
  shows "list_round p (map (named_addr p) (take i xs) @ drop i xs) i =
    map (named_addr p) (take (Suc i) xs) @ drop (Suc i) xs"
proof -
  let ?ys = "map (named_addr p) (take i xs) @ drop i xs"
  have i: "?ys ! i = xs ! i" "i < length ?ys" "take i ?ys = map (named_addr p) (take i xs)"
    using assms(3) by (simp_all add: nth_append)
  have no: "v \<notin> set (take i ?ys)" if "v \<in> {''B1'', ''B2''}" for v
    unfolding i(3) using that assms(1,2) by (auto simp: named_addr_def split: if_splits)
  have upd: "?ys[i := named_addr p (xs ! i)] = map (named_addr p) (take (Suc i) xs) @ drop (Suc i) xs"
    using assms(3) by (simp add: take_Suc_conv_app_nth list_update_append Cons_nth_drop_Suc [symmetric])
  show ?thesis
  proof (cases "xs ! i \<in> {''B1'', ''B2''}")
    case True
    then have "indexOf (xs ! i) ?ys = Some i" using indexOf_first [OF i(2,1)] no by simp
    then show ?thesis using True upd i(1) by (auto simp: list_round_def Let_def named_addr_def)
  next
    case False
    then have "named_addr p (xs ! i) = ?ys ! i" using i(1) by (simp add: named_addr_def)
    then have "?ys = map (named_addr p) (take (Suc i) xs) @ drop (Suc i) xs" using upd by simp
    moreover have "list_round p ?ys i = ?ys"
    proof (cases "indexOf [] ?ys")
      case None
      then show ?thesis using False i(1) by (simp add: list_round_def)
    next
      case (Some j)
      then have "?ys[j := []] = ?ys" using indexOf_Some [OF Some] by (metis list_update_id)
      then show ?thesis using False i(1) Some by (simp add: list_round_def)
    qed
    ultimately show ?thesis by simp
  qed
qed

lemma parsers_list_names:
  assumes "cpB1Addr p \<notin> {''B1'', ''B2''}" "cpB2Addr p \<notin> {''B1'', ''B2''}"
  shows "fst (parsers_list val p) = map (named_addr p) (split_char (CHR '','') val)"
proof -
  let ?xs = "split_char (CHR '','') val"
  have "foldl (list_round p) ?xs [0..<k] = map (named_addr p) (take k ?xs) @ drop k ?xs" if "k \<le> length ?xs" for k
    using that by (induction k) (simp_all add: list_round_named [OF assms])
  from this [of "length ?xs"] show ?thesis by (simp add: parsers_list_def Let_def)
qed

text \<open>The path of the option for the task database is never used, only that it was given.\<close>

lemma extra_config_random_db:
  "truthy x = truthy y \<Longrightarrow> extra_config t (c\<lparr>clRandomDb := x\<rparr>) = extra_config t (c\<lparr>clRandomDb := y\<rparr>)"
  by (simp add: extra_config_def)

lemma ethereum_config_random_db: "ethereum_config f g (c\<lparr>clRandomDb := x\<rparr>) = ethereum_config f g c"
  by (simp add: ethereum_config_def cong: sum.case_cong)

lemma initEnvironment_random_db:
  assumes "truthy x" "truthy y"
  shows "initEnvironment f g t (c\<lparr>clRandomDb := x\<rparr>) = initEnvironment f g t (c\<lparr>clRandomDb := y\<rparr>)"
proof -
  have e: "extra_config t (c\<lparr>clRandomDb := x\<rparr>) = extra_config t (c\<lparr>clRandomDb := y\<rparr>)"
    by (rule extra_config_random_db) (use assms in simp)
  show ?thesis unfolding initEnvironment_def ethereum_config_random_db e by simp
qed

lemma random_db_path_ignored:
  assumes "truthy v"
  shows "initEnvironment f g t (cli_option c (RandomDb v)) = initEnvironment f g t (cli_option c (RandomDb JUndef))"
  using initEnvironment_random_db [of v "JBool True" f g t c] assms by simp

text \<open>Without that option and without a principal node there is no task manager.\<close>

lemma no_task_manager_by_default:
  "initTaskManager (JObj (extra_config tempdir (CLI b1 b2))) = None"
  by (simp add: initTaskManager_def extra_config_def CLI_def obj_get_def Let_def)

text \<open>The text of \<open>help\<close> names a command that does not exist.\<close>

lemma identify_unknown: "cli_line ''identify'' = None"
  by code_simp

end
