(* ===== verification/Node_Facade.thy ===== *)
theory Node_Facade
  imports Node_Startup Cli Sync_Pipeline
begin

text \<open>
  The methods of \<open>worker/controller/NodeController.js\<close> for the outside, as the command line and the
  servers use them: which action each of them runs, by the notifications of \<open>common/constants.js\<close>;
  the events of its components; the template it is built from; and publish and subscribe
  (\<open>PubsubPublishAction.js\<close>, \<open>PubsubSubscribeAction.js\<close>).
\<close>

section \<open>Notifications\<close>

definition NODE_NOTIFICATIONS :: "(string \<times> string) list" where
  "NODE_NOTIFICATIONS =
    [(''INIT_WORKER'', ''iw''), (''DISCOVERED'', ''discovered''), (''GET_PEERS'', ''get_peers''),
     (''NEW_PEER_CONNECTED'', ''connected''), (''PUBSUB_PUB'', ''publish''), (''PUBSUB_SUB'', ''subscribe''),
     (''PUBSUB_UNSUB'', ''pubunsub''), (''STATE_SYNC_REQ'', ''ssyncreq''),
     (''FIND_CONTENT_PROVIDER'', ''findcprovider''), (''IDENTIFY_MISSING_STATES_FROM_REMOTE'', ''identify''),
     (''TRY_RECEIVE_ALL'', ''trcva''), (''ANNOUNCE_ENG_CIDS'', ''aengcids''), (''ANNOUNCE_LOCAL_STATE'', ''alc''),
     (''DB_REQUEST'', ''dbreq''), (''GET_REMOTE_TIPS'', ''gremotetipslocal''), (''GET_ALL_TIPS'', ''getat''),
     (''GET_TIPS'', ''gett''), (''GET_ALL_ADDRS'', ''getaa''), (''GET_DELTAS'', ''getds''),
     (''GET_CONTRACT_BCODE'', ''getcbc''), (''SYNC_RECEIVER_PIPELINE'', ''srpl''), (''UPDATE_DB'', ''udb''),
     (''PROXY'', ''proxy''), (''REGISTRATION_PARAMS'', ''rparams''), (''NEW_TASK_INPUT_ENC_KEY'', ''ntek''),
     (''SELF_KEY_SUBSCRIBE'', ''sks_rpc''), (''START_TASK_EXEC'', ''stexec''), (''ROUTE_BLOCKING_RPC'', ''rbrpc''),
     (''ROUTE_NON_BLOCK_RPC'', ''rnbrpc''), (''DISPATCH_STATUS_REQ_RPC'', ''dissrrpc''),
     (''GET_TASK_RESULT'', ''gltresult''), (''VERIFY_NEW_TASK'', ''verifyreq''), (''TASK_VERIFIED'', ''tverified''),
     (''TASK_FINISHED'', ''tfinished''), (''EXEC_TASK'', ''etask''), (''DEPLOY_SECRET_CONTRACT'', ''dscontract''),
     (''RECEIVED_NEW_RESULT'', ''rnresult''), (''GET_TASK_STATUS'', ''gtstatus''),
     (''GET_STATE_KEYS'', ''getstatekeys''), (''COMMIT_RECEIPT'', ''creceipt''), (''REGISTER'', ''register''),
     (''UNREGISTER'', ''unregister''), (''LOGIN'', ''login''), (''LOGOUT'', ''logout''),
     (''GET_ETH_WORKER_PARAM'', ''getworkparams''), (''HEALTH_CHECK'', ''healthcheck''),
     (''GET_WORKER_STATUS'', ''getworkstatus'')]"

text \<open>A name without a notification reads as \<open>undefined\<close>, also as a key.\<close>

definition NOTIFICATION :: "string \<Rightarrow> string" where
  "NOTIFICATION name = (case map_of NODE_NOTIFICATIONS name of Some n \<Rightarrow> n | None \<Rightarrow> ''undefined'')"

section \<open>The template\<close>

text \<open>
  \<open>loadConfig\<close>: the file of the caller or the default one, copied; reading a configuration is a
  parameter. \<open>initDefaultTemplate\<close> gives the options of the node, over which the options of the
  caller win, and the extra configuration of the controller.
\<close>

definition loadConfig :: "(json option \<Rightarrow> json js) \<Rightarrow> json \<Rightarrow> json js" where
  "loadConfig read path =
     bindE (read (if truthy path then Some path else None)) (\<lambda>config. Inr (case config of JObj fs \<Rightarrow> JObj fs | _ \<Rightarrow> JObj []))"

definition initDefaultTemplate ::
    "(json \<Rightarrow> json \<Rightarrow> json) \<Rightarrow> (json option \<Rightarrow> json js) \<Rightarrow> json \<Rightarrow> (node_options \<times> json) js" where
  "initDefaultTemplate defaultsDeep read options =
     bindE (get_prop options ''configPath'') (\<lambda>configPath.
     bindE (loadConfig read (if truthy configPath then configPath else JNull)) (\<lambda>config.
     bindE (buildNode (applyDelta defaultsDeep config options)) (\<lambda>node.
     Inr (node, fld options ''extraConfig''))))"

section \<open>Events of the components\<close>

text \<open>
  The components that the controller listens to: some exist only when they are configured. The
  principal node and the node are only logged.
\<close>

datatype emitter =
    PrincipalEvents | NodeEvents | HandlerEvents | ProviderEvents | ReceiverEvents | TaskManagerEvents | WebEvents | ManagementEvents

definition emitters :: "components \<Rightarrow> emitter list" where
  "emitters co =
     [PrincipalEvents, NodeEvents, HandlerEvents, ProviderEvents, ReceiverEvents] @
     (if coTaskDb co = None then [] else [TaskManagerEvents]) @
     (if coWeb co = None then [] else [WebEvents]) @
     (if coMgmt co = None then [] else [ManagementEvents])"

definition principal_on :: "string \<Rightarrow> string option js" where
  [simp]: "principal_on notification = Inr None"

definition engNode_on :: "string \<Rightarrow> string option js" where
  [simp]: "engNode_on notification = Inr None"

definition protocolHandler_on :: "(string \<times> action_entry) list \<Rightarrow> string \<Rightarrow> string option js" where
  [simp]: "protocolHandler_on actions notification = on_notify actions notification"

definition contentProvider_on :: "(string \<times> action_entry) list \<Rightarrow> string \<Rightarrow> string option js" where
  [simp]: "contentProvider_on actions notification = on_notify actions notification"

definition contentReceiver_on :: "(string \<times> action_entry) list \<Rightarrow> string \<Rightarrow> string option js" where
  [simp]: "contentReceiver_on actions notification = on_notify actions notification"

definition taskManager_on :: "(string \<times> action_entry) list \<Rightarrow> components \<Rightarrow> string \<Rightarrow> string option js" where
  [simp]: "taskManager_on actions co notification =
     (case coTaskDb co of None \<Rightarrow> Inr None | Some dbPath \<Rightarrow> on_notify actions notification)"

definition webServer_on :: "(string \<times> action_entry) list \<Rightarrow> components \<Rightarrow> string \<Rightarrow> string option js" where
  [simp]: "webServer_on actions co notification =
     (case coWeb co of None \<Rightarrow> Inr None | Some conf \<Rightarrow> on_notify actions notification)"

definition managementServer_on :: "(string \<times> action_entry) list \<Rightarrow> components \<Rightarrow> string \<Rightarrow> string option js" where
  [simp]: "managementServer_on actions co notification =
     (case coMgmt co of None \<Rightarrow> Inr None | Some conf \<Rightarrow> on_notify actions notification)"

fun on_component_event :: "(string \<times> action_entry) list \<Rightarrow> components \<Rightarrow> emitter \<Rightarrow> string \<Rightarrow> string option js" where
  "on_component_event actions co PrincipalEvents n = principal_on n"
| "on_component_event actions co NodeEvents n = engNode_on n"
| "on_component_event actions co HandlerEvents n = protocolHandler_on actions n"
| "on_component_event actions co ProviderEvents n = contentProvider_on actions n"
| "on_component_event actions co ReceiverEvents n = contentReceiver_on actions n"
| "on_component_event actions co TaskManagerEvents n = taskManager_on actions co n"
| "on_component_event actions co WebEvents n = webServer_on actions co n"
| "on_component_event actions co ManagementEvents n = managementServer_on actions co n"

section \<open>Methods that only read the node\<close>

text \<open>
  \<open>start\<close> of the controller waits for the node, so it does not settle when the node does not come
  up.
\<close>

definition controller_start :: "boot_env \<Rightarrow> nat \<Rightarrow> node_boot \<Rightarrow> unit js option \<times> node_boot" where
  "controller_start env h s =
     (case syncRun env h s of (crash, Resolved, s) \<Rightarrow> (Some (Inr ()), s) | (crash, Pending e, s) \<Rightarrow> (None, s))"

definition controller_getTopics :: "(js_error option \<times> string list) option \<Rightarrow> string list js option" where
  "controller_getTopics r = getTopics r"

definition getSelfB58Id :: "node_boot \<Rightarrow> string js" where
  "getSelfB58Id s = getSelfIdB58Str s"

definition getSelfAddrs :: "node_boot \<Rightarrow> string list js" where
  "getSelfAddrs s = getListeningAddrs s"

definition unsubscribeTopic :: "string \<Rightarrow> nat \<Rightarrow> js_error option \<Rightarrow> eng_node \<Rightarrow> js_error option \<times> eng_node" where
  "unsubscribeTopic topic handler err s = eng_unsubscribe topic handler err s"

section \<open>Methods that run an action\<close>

text \<open>
  The methods, with their arguments; callbacks are left out, they are in the section on the methods
  of the controller in \<open>Launch\<close>.
\<close>

datatype facade =
    initializeWorkerProcess
  | asyncInitializeWorkerProcess json
  | getLocalStateOfRemote json
  | getLocalTips
  | monitorSubscribe json
  | publish json json
  | selfSubscribe
  | selfSubscriptionKey
  | getTaskResult json
  | getAllLocalTips
  | getRegistrationParams
  | syncReceiverPipeline
  | tryAnnounce
  | findProviders json
  | login
  | logout
  | register
  | unregister

definition PUBSUB_BROADCAST :: json where
  "PUBSUB_BROADCAST = JStr ''/broadcast/0.1''"

definition facade_broadcast :: "json \<Rightarrow> facade" where
  "facade_broadcast content = publish PUBSUB_BROADCAST content"

text \<open>How an action is run: with \<open>execute\<close>, with \<open>execCmd\<close>, with \<open>asyncExecCmd\<close> or with \<open>asyncExecute\<close>.\<close>

datatype run_mode = Execute | ExecCmd | AsyncExecCmd | AsyncExecute

type_synonym action_call = "string \<times> run_mode \<times> json"

definition initializeWorkerProcess_call :: "action_call" where
  [simp]: "initializeWorkerProcess_call = (NOTIFICATION ''INIT_WORKER'', Execute, JObj [])"

definition asyncInitializeWorkerProcess_call :: "json \<Rightarrow> action_call" where
  [simp]: "asyncInitializeWorkerProcess_call params = (NOTIFICATION ''INIT_WORKER'', AsyncExecCmd, params)"

definition getLocalStateOfRemote_call :: "json \<Rightarrow> action_call" where
  [simp]: "getLocalStateOfRemote_call b58Id = (NOTIFICATION ''GET_REMOTE_TIPS'', Execute, JObj [(''peerB58Id'', b58Id)])"

definition getLocalTips_call :: "action_call" where
  [simp]: "getLocalTips_call = (NOTIFICATION ''GET_ALL_TIPS'', AsyncExecCmd, JObj [])"

definition monitorSubscribe_call :: "json \<Rightarrow> action_call" where
  [simp]: "monitorSubscribe_call topic = (NOTIFICATION ''PUBSUB_SUB'', Execute, JObj [(''topic'', topic)])"

definition publish_call :: "json \<Rightarrow> json \<Rightarrow> action_call" where
  [simp]: "publish_call topic message =
     (NOTIFICATION ''PUBSUB_PUB'', Execute, JObj [(''topic'', topic), (''message'', message)])"

definition selfSubscribe_call :: "action_call" where
  [simp]: "selfSubscribe_call = (NOTIFICATION ''SELF_KEY_SUBSCRIBE'', Execute, JObj [])"

definition selfSubscriptionKey_call :: "action_call" where
  [simp]: "selfSubscriptionKey_call = (NOTIFICATION ''REGISTRATION_PARAMS'', ExecCmd, JObj [])"

definition getTaskResult_call :: "json \<Rightarrow> action_call" where
  [simp]: "getTaskResult_call taskId = (NOTIFICATION ''GET_TASK_RESULT'', AsyncExecCmd, JObj [(''taskId'', taskId)])"

definition getAllLocalTips_call :: "action_call" where
  [simp]: "getAllLocalTips_call = (NOTIFICATION ''GET_ALL_TIPS'', Execute, JObj [(''dbQueryType'', JStr ''GetAllTips'')])"

definition getRegistrationParams_call :: "action_call" where
  [simp]: "getRegistrationParams_call = (NOTIFICATION ''REGISTRATION_PARAMS'', Execute, JObj [])"

definition syncReceiverPipeline_call :: "action_call" where
  [simp]: "syncReceiverPipeline_call = (NOTIFICATION ''SYNC_RECEIVER_PIPELINE'', Execute, JObj [])"

definition tryAnnounce_call :: "action_call" where
  [simp]: "tryAnnounce_call = (NOTIFICATION ''ANNOUNCE_LOCAL_STATE'', Execute, JObj [])"

definition findProviders_call :: "json \<Rightarrow> action_call" where
  [simp]: "findProviders_call ecids =
     (NOTIFICATION ''FIND_CONTENT_PROVIDER'', Execute, JObj [(''descriptorsList'', ecids), (''isEngCid'', JBool True)])"

definition login_call :: "action_call" where
  [simp]: "login_call = (NOTIFICATION ''LOGIN'', AsyncExecute, JUndef)"

definition logout_call :: "action_call" where
  [simp]: "logout_call = (NOTIFICATION ''LOGOUT'', AsyncExecute, JUndef)"

definition register_call :: "action_call" where
  [simp]: "register_call = (NOTIFICATION ''REGISTER'', AsyncExecute, JUndef)"

definition unregister_call :: "action_call" where
  [simp]: "unregister_call = (NOTIFICATION ''UNREGISTER'', AsyncExecute, JUndef)"

fun facade_call :: "facade \<Rightarrow> action_call" where
  "facade_call initializeWorkerProcess = initializeWorkerProcess_call"
| "facade_call (asyncInitializeWorkerProcess params) = asyncInitializeWorkerProcess_call params"
| "facade_call (getLocalStateOfRemote b58Id) = getLocalStateOfRemote_call b58Id"
| "facade_call getLocalTips = getLocalTips_call"
| "facade_call (monitorSubscribe topic) = monitorSubscribe_call topic"
| "facade_call (publish topic message) = publish_call topic message"
| "facade_call selfSubscribe = selfSubscribe_call"
| "facade_call selfSubscriptionKey = selfSubscriptionKey_call"
| "facade_call (getTaskResult taskId) = getTaskResult_call taskId"
| "facade_call getAllLocalTips = getAllLocalTips_call"
| "facade_call getRegistrationParams = getRegistrationParams_call"
| "facade_call syncReceiverPipeline = syncReceiverPipeline_call"
| "facade_call tryAnnounce = tryAnnounce_call"
| "facade_call (findProviders ecids) = findProviders_call ecids"
| "facade_call login = login_call"
| "facade_call logout = logout_call"
| "facade_call register = register_call"
| "facade_call unregister = unregister_call"

text \<open>
  Running one: the class of the action with its parameters. A direct call on a missing action or
  method throws; \<open>execCmd\<close> ignores a missing action; \<open>asyncExecCmd\<close> rejects.
\<close>

definition async_of :: "action_entry \<Rightarrow> string js" where
  "async_of a = (case a of (c, e, x) \<Rightarrow> if x then Inr c else Inl JsTypeError)"

definition run_facade :: "(string \<times> action_entry) list \<Rightarrow> facade \<Rightarrow> (string \<times> json) option js" where
  "run_facade actions f =
     (case facade_call f of (cmd, mode, params) \<Rightarrow>
        (case map_of actions cmd of
           None \<Rightarrow>
             (case mode of
                ExecCmd \<Rightarrow> Inr None
              | AsyncExecCmd \<Rightarrow> Inl (Err ActionNameErr (''undefined asyncExecute for '' @ cmd))
              | _ \<Rightarrow> Inl JsTypeError)
         | Some a \<Rightarrow>
             bindE (if mode = Execute \<or> mode = ExecCmd then execute_of a else async_of a) (\<lambda>c. Inr (Some (c, params)))))"


section \<open>Publish and subscribe\<close>

text \<open>
  \<open>PubsubPublishAction\<close>: \<open>Buffer.from\<close> takes a string or an array and throws for the values that a
  command line gives otherwise. The message is published with \<open>broadcast\<close> of the node.
\<close>

definition pubsubPublish :: "json \<Rightarrow> (json \<times> json) js" where
  "pubsubPublish params =
     (case fld params ''message'' of
        JStr s \<Rightarrow> Inr (fld params ''topic'', JStr s)
      | JArr xs \<Rightarrow> Inr (fld params ''topic'', JArr xs)
      | _ \<Rightarrow> Inl JsTypeError)"

text \<open>\<open>PubsubSubscribeAction\<close>: one subscription, whose handler \<open>h\<close> passes the message on.\<close>

definition pubsubSubscribe :: "json \<Rightarrow> nat \<Rightarrow> eng_node \<Rightarrow> js_error option \<times> eng_node" where
  "pubsubSubscribe params h s = eng_subscribe [(js_key (fld params ''topic''), h)] s"

text \<open>
  The handler of \<open>monitorSubscribe\<close>: what it logs of a message; it parses the data and throws when
  they are not JSON.
\<close>

definition monitored :: "string \<Rightarrow> string \<Rightarrow> json \<Rightarrow> string js" where
  "monitored topic from data =
     bindE (JSON_parse (js_key data)) (\<lambda>v.
     Inr (''->MONITOR published on:'' @ topic @ [CHR 0x0A] @ ''->from: '' @ from @ [CHR 0x0A] @ ''->payload: '' @ JSON_stringify v))"

section \<open>The prompt\<close>

text \<open>The method of the controller that runs an action for a command; the others only read the node.\<close>

fun prompt_facade :: "node_call \<Rightarrow> facade option" where
  "prompt_facade (InitWorker amount) = Some (asyncInitializeWorkerProcess (JObj [(''amount'', amount)]))"
| "prompt_facade (RemoteTips b58) = Some (getLocalStateOfRemote b58)"
| "prompt_facade (Broadcast m) = Some (facade_broadcast m)"
| "prompt_facade Announce = Some tryAnnounce"
| "prompt_facade SyncNow = Some syncReceiverPipeline"
| "prompt_facade (Monitor topic) = Some (monitorSubscribe topic)"
| "prompt_facade (Publish topic m) = Some (publish topic m)"
| "prompt_facade SelfSubscribe = Some selfSubscribe"
| "prompt_facade GetRegistration = Some getRegistrationParams"
| "prompt_facade LocalTips = Some getLocalTips"
| "prompt_facade (GetResult taskId) = Some (getTaskResult taskId)"
| "prompt_facade Register = Some register"
| "prompt_facade Unregister = Some unregister"
| "prompt_facade Login = Some login"
| "prompt_facade Logout = Some logout"
| "prompt_facade _ = None"

text \<open>
  A line typed at the prompt, which is open before the node is up. A command that reaches for a
  missing node throws; a command that is an asynchronous function rejects instead, unless it
  catches.
\<close>

datatype prompt_result = NoSuchCommand | Printed | Called node_call | Threw js_error | RejectedWith js_error

fun async_command :: "node_call \<Rightarrow> bool" where
  "async_command (LookUp b) = True"
| "async_command (RemoteTips b) = True"
| "async_command Topics = True"
| "async_command (Unsubscribe t) = True"
| "async_command (GetResult t) = True"
| "async_command Register = True"
| "async_command Unregister = True"
| "async_command Login = True"
| "async_command Logout = True"
| "async_command _ = False"

definition prompt_line :: "bool \<Rightarrow> string \<Rightarrow> prompt_result" where
  "prompt_line hasNode line =
     (case cli_line line of
        None \<Rightarrow> NoSuchCommand
      | Some (Usage t) \<Rightarrow> Printed
      | Some Help \<Rightarrow> Printed
      | Some (InitWorker a) \<Rightarrow> if hasNode then Called (InitWorker a) else Printed
      | Some LocalTips \<Rightarrow> if hasNode then Called LocalTips else Printed
      | Some c \<Rightarrow> if hasNode then Called c else if async_command c then RejectedWith JsTypeError else Threw JsTypeError)"

section \<open>Providers\<close>

text \<open>
  \<open>FindContentProviderAction\<close>: the result of the receiver, never with an error; the promise of
  \<open>asyncExecute\<close>; and what \<open>findProviders\<close> of the controller gives its callback. \<open>None\<close> when the
  receiver does not answer.
\<close>

definition findContentProvider ::
    "'c cid_lib \<Rightarrow> ('c engcid \<Rightarrow> 'p routing_answer) \<Rightarrow> 'c engcid list \<Rightarrow> (js_error option \<times> ('c, 'p) find_result) option" where
  "findContentProvider L routing descriptorsList = map_option (Pair None) (findProvidersBatch L routing descriptorsList)"

definition findContentProvider_async ::
    "'c cid_lib \<Rightarrow> ('c engcid \<Rightarrow> 'p routing_answer) \<Rightarrow> 'c engcid list \<Rightarrow> ('c, 'p) find_result js option" where
  "findContentProvider_async L routing descriptorsList = settle_callback (findContentProvider L routing descriptorsList)"

definition controller_findProviders ::
    "'c cid_lib \<Rightarrow> ('c engcid \<Rightarrow> 'p routing_answer) \<Rightarrow> 'c engcid list \<Rightarrow> ('c, 'p) find_result option" where
  "controller_findProviders L routing ecids = map_option snd (findContentProvider L routing ecids)"

text \<open>\<open>ProvideSyncStateAction\<close>: the provider answers on the connection of the request.\<close>

definition provideSyncState ::
    "codec \<Rightarrow> (json \<Rightarrow> sync_msg \<Rightarrow> json js) \<Rightarrow> int list list \<Rightarrow> finish \<Rightarrow> int list option strm" where
  "provideSyncState c db connection fin = startStateSyncResponse c db connection fin"

section \<open>Lemmas\<close>

text \<open>
  Notifications are told apart; the table of actions is made from the notifications, all but three.
\<close>

lemma notifications_distinct: "distinct (map fst NODE_NOTIFICATIONS)" "distinct (map snd NODE_NOTIFICATIONS)"
  by code_simp+

lemma actions_of_notifications:
  "list_all (\<lambda>(n, v). v \<in> fst ` set node_actions \<longleftrightarrow> n \<notin> {''PUBSUB_UNSUB'', ''DEPLOY_SECRET_CONTRACT'', ''GET_TASK_STATUS''})
     NODE_NOTIFICATIONS"
  "list_all (\<lambda>(k, a). k \<in> snd ` set NODE_NOTIFICATIONS) node_actions"
  by code_simp+

lemma buildNode_obj:
  "buildNode (JObj hs) =
     (case obj_get hs ''multiAddrs'' of
        JArr xs \<Rightarrow> Inr \<lparr>noDiscover = obj_get hs ''isDiscover'',
          noMultiAddrs = map (\<lambda>ma. JStr (js_key ma @ js_key (obj_get hs ''port''))) xs,
          noDnsNodes = obj_get hs ''bootstrapNodes'', noNamespace = obj_get hs ''namespace'', noPort = obj_get hs ''port'',
          noNickname = obj_get hs ''nickname'', noPathPeerId = obj_get hs ''idPath''\<rparr>
      | _ \<Rightarrow> Inl JsTypeError)"
  by (simp add: buildNode_def split: json.split)

text \<open>An option of the caller wins over the file, and its port ends every address.\<close>

lemma template_options:
  assumes dd: "defaults_ok dd" and read: "read (if truthy (obj_get fs ''configPath'') then Some (obj_get fs ''configPath'') else None) = Inr (JObj gs)"
    and addrs: "map_of fs ''multiAddrs'' = None" "map_of gs ''multiAddrs'' = Some (JArr xs)"
    and port: "map_of fs ''port'' = Some p" "p \<noteq> JUndef" "\<not> is_obj p"
  shows "\<exists>no. initDefaultTemplate dd read (JObj fs) = Inr (no, obj_get fs ''extraConfig'') \<and> noPort no = p \<and>
    noMultiAddrs no = map (\<lambda>ma. JStr (js_key ma @ js_key p)) xs"
proof -
  obtain hs where hs: "dd (JObj fs) (JObj gs) = JObj hs" "\<And>k. map_of hs k = default_field dd (map_of fs k) (map_of gs k)"
    using defaults_obj [OF dd] by blast
  have "obj_get hs ''port'' = p" "obj_get hs ''multiAddrs'' = JArr xs"
    using hs(2) [of "''port''"] hs(2) [of "''multiAddrs''"] addrs port
    by (auto simp: obj_get_def default_field_def split: option.splits)
  then show ?thesis using read hs(1)
    by (auto simp: initDefaultTemplate_def loadConfig_def applyDelta_def buildNode_obj)
qed

text \<open>Every method runs an action that exists, with the method it calls.\<close>

lemma NOTIFICATION_simps:
  "NOTIFICATION ''INIT_WORKER'' = ''iw''" "NOTIFICATION ''GET_REMOTE_TIPS'' = ''gremotetipslocal''"
  "NOTIFICATION ''GET_ALL_TIPS'' = ''getat''" "NOTIFICATION ''PUBSUB_SUB'' = ''subscribe''"
  "NOTIFICATION ''PUBSUB_PUB'' = ''publish''" "NOTIFICATION ''SELF_KEY_SUBSCRIBE'' = ''sks_rpc''"
  "NOTIFICATION ''REGISTRATION_PARAMS'' = ''rparams''" "NOTIFICATION ''GET_TASK_RESULT'' = ''gltresult''"
  "NOTIFICATION ''SYNC_RECEIVER_PIPELINE'' = ''srpl''" "NOTIFICATION ''ANNOUNCE_LOCAL_STATE'' = ''alc''"
  "NOTIFICATION ''FIND_CONTENT_PROVIDER'' = ''findcprovider''" "NOTIFICATION ''LOGIN'' = ''login''"
  "NOTIFICATION ''LOGOUT'' = ''logout''" "NOTIFICATION ''REGISTER'' = ''register''" "NOTIFICATION ''UNREGISTER'' = ''unregister''"
  by code_simp+

lemma facade_actions:
  "map_of node_actions ''iw'' = Some (''InitWorkerAction'', True, True)"
  "map_of node_actions ''gremotetipslocal'' = Some (''GetLocalTipsOfRemote'', True, False)"
  "map_of node_actions ''getat'' = Some (''GetAllTipsAction'', True, True)"
  "map_of node_actions ''subscribe'' = Some (''PubsubSubscribeAction'', True, False)"
  "map_of node_actions ''publish'' = Some (''PubsubPublishAction'', True, False)"
  "map_of node_actions ''sks_rpc'' = Some (''SubscribeSelfSignKeyTopicPipelineAction'', True, False)"
  "map_of node_actions ''rparams'' = Some (''GetRegistrationParamsAction'', True, False)"
  "map_of node_actions ''gltresult'' = Some (''GetResultAction'', True, True)"
  "map_of node_actions ''srpl'' = Some (''ReceiveAllPipelineAction'', True, True)"
  "map_of node_actions ''alc'' = Some (''AnnounceLocalStateAction'', True, True)"
  "map_of node_actions ''findcprovider'' = Some (''FindContentProviderAction'', True, True)"
  "map_of node_actions ''login'' = Some (''LoginAction'', True, True)"
  "map_of node_actions ''logout'' = Some (''LogoutAction'', True, True)"
  "map_of node_actions ''register'' = Some (''RegisterAction'', True, True)"
  "map_of node_actions ''unregister'' = Some (''UnregisterAction'', True, True)"
  by code_simp+

lemma facade_runs: "\<exists>c. run_facade node_actions f = Inr (Some (c, snd (snd (facade_call f))))"
  by (cases f) (simp_all add: run_facade_def NOTIFICATION_simps facade_actions execute_of_def async_of_def)

lemma prompt_runs: "prompt_facade call = Some f \<Longrightarrow> \<exists>c ps. run_facade node_actions f = Inr (Some (c, ps))"
  using facade_runs [of f] by blast

text \<open>Events of a component that there is run an action, as the table of actions says.\<close>

lemma component_events:
  "on_component_event actions co emitter n =
     (if emitter \<in> set (emitters co) \<and> emitter \<noteq> PrincipalEvents \<and> emitter \<noteq> NodeEvents then on_notify actions n else Inr None)"
  by (cases emitter) (auto simp: emitters_def split: option.split)

text \<open>A node without an id leaves the start of the controller pending.\<close>

lemma start_pending:
  assumes "peer_id_of env (nbPath (EnigmaNode config)) = Inl e"
  shows "fst (controller_start env h (EnigmaNode config)) = None"
proof -
  obtain r where "fst (snd (syncRun env h (EnigmaNode config))) = Pending r" using node_without_id(1) [OF assms] by blast
  then show ?thesis by (auto simp: controller_start_def split: prod.splits run_result.splits)
qed

text \<open>The action, the promise and the controller agree on what the receiver found.\<close>

lemma providers_agree:
  "findContentProvider_async L routing es = map_option Inr (findProvidersBatch L routing es)"
  "controller_findProviders L routing es = findProvidersBatch L routing es"
  by (simp_all add: findContentProvider_async_def findContentProvider_def settle_callback_def controller_findProviders_def
      option.map_comp comp_def option.map_ident)

text \<open>A broadcast that is no JSON text ends the handler of a monitor with an exception.\<close>

lemma raw_broadcast_breaks_monitor: "\<exists>e. monitored ''/broadcast/0.1'' from (JStr ''hello'') = Inl e"
proof -
  have "JSON_parse ''hello'' = Inl JsSyntaxError" by code_simp
  then show ?thesis by (simp add: monitored_def)
qed

lemma split_char_none: "d \<notin> set s \<Longrightarrow> split_char d s = [s]"
  by (induction s) auto

lemma split_char_append: "d \<notin> set s \<Longrightarrow> split_char d (s @ d # t) = s # split_char d t"
  by (induction s) auto

section \<open>Properties\<close>

text \<open>
  C40: what \<open>publish\<close> at the prompt publishes, and what a monitor shows of it. The line is split at
  blanks: the topic is the first word, and of the message only the first word, whatever follows,
  reaches the action that publishes, as JSON text, and a monitor of the topic shows exactly this
  text; while the node is not up, the same line throws.
\<close>

theorem published_is_monitored:
  assumes "CHR '' '' \<notin> set topic" "CHR '' '' \<notin> set message" "rest = [] \<or> hd rest = CHR '' ''"
  defines "line \<equiv> ''publish '' @ topic @ '' '' @ message @ rest"
    and "data \<equiv> JStr (JSON_stringify (JStr message))"
    and "params \<equiv> JObj [(''topic'', JStr topic), (''message'', JStr (JSON_stringify (JStr message)))]"
  shows "prompt_line True line = Called (Publish (JStr topic) data) \<and> prompt_line False line = Threw JsTypeError \<and>
    prompt_facade (Publish (JStr topic) data) = Some (publish (JStr topic) data) \<and>
    run_facade node_actions (publish (JStr topic) data) = Inr (Some (''PubsubPublishAction'', params)) \<and>
    pubsubPublish params = Inr (JStr topic, data) \<and>
    monitored topic from data = Inr (''->MONITOR published on:'' @ topic @ [CHR 0x0A] @ ''->from: '' @ from @ [CHR 0x0A] @
      ''->payload: '' @ JSON_stringify (JStr message))"
proof -
  obtain ws where ws: "split_char (CHR '' '') (message @ rest) = message # ws"
    using split_char_append [OF assms(2)] split_char_none [OF assms(2)] assms(3) by (cases rest) auto
  have "split_char (CHR '' '') line = ''publish'' # topic # message # ws"
    using split_char_append [of "CHR '' ''" "''publish''"] split_char_append [OF assms(1)] ws
    by (simp add: line_def)
  moreover have "map_of cli_commands ''publish'' = Some (\<lambda>a. if length a < 3 then Usage ''error please $publish <topic> <str msg>''
      else Publish (arg a 1) (JStr (JSON_stringify (arg a 2))))"
    by (simp add: cli_commands_def)
  ultimately have "cli_line line = Some (Publish (JStr topic) data)"
    by (simp add: cli_line_def arg_def data_def)
  moreover have "JSON_parse (JSON_stringify (JStr message)) = Inr (JStr message)"
    by (simp add: JSON_parse_stringify)
  moreover have "run_facade node_actions (publish (JStr topic) data) = Inr (Some (''PubsubPublishAction'', params))"
    by (simp add: run_facade_def NOTIFICATION_simps facade_actions execute_of_def params_def data_def)
  ultimately show ?thesis
    by (simp add: prompt_line_def pubsubPublish_def params_def data_def obj_get_def monitored_def)
qed

theorem published_is_monitored_witness:
  "prompt_line True ''publish news hi everybody'' = Called (Publish (JStr ''news'') (JStr (JSON_stringify (JStr ''hi'')))) \<and>
   monitored ''news'' ''Qm1'' (JStr (JSON_stringify (JStr ''hi''))) =
     Inr (''->MONITOR published on:news'' @ [CHR 0x0A] @ ''->from: Qm1'' @ [CHR 0x0A] @ ''->payload: '' @ JSON_stringify (JStr ''hi''))"
  using published_is_monitored [of "''news''" "''hi''" "'' everybody''" "''Qm1''"] by simp

end
