(* ===== verification/Spec2Isabelle.thy ===== *)
theory Spec2Isabelle
  imports Db_Key Task_Interleaving Worker_Tasks Eth_Setup Core_Mock Rpc_Proxy Worker_Lifecycle Runtime_Bus Scheme_Check Node_Facade
begin

text \<open>
  A model of the peer-to-peer node of Enigma, the program under \<open>src/src\<close>. A node is a worker that
  computes tasks of users in a trusted enclave (core), a gateway for the requests of users, or both.
  It keeps the states of secret contracts in step with other peers and with the hashes on Ethereum.

  Conventions. \<open>Js_Prelude\<close> has the values of JavaScript as \<open>json\<close>, exceptions and rejections as
  \<open>js_error\<close>, fallible code as \<open>'a js\<close> (a sum), objects as association lists in insertion order,
  invocations of callbacks as lists of \<open>'a cb\<close>, and promises that may not settle as options.
  \<open>Json_Text\<close> has the printer and the parser of JSON text. Numbers are integers, as the code uses
  them; \<open>NaN\<close> is written \<open>null\<close> where a parser of numbers can give it. Code that is not part of the
  repository is a parameter: hashing and ABI encoding, msgpack, content identifiers, the key-value
  store, libp2p, web3 and the contract, \<open>jsonschema\<close>, \<open>defaultsDeep\<close>, the core process, random choices.
  What is assumed of such a parameter is a named predicate (\<open>level_ok\<close>, \<open>pick_ok\<close>, \<open>defaults_ok\<close> and
  the like) with an instance in the witnesses.

  The parts, from the bottom up, with the files they model.

  Helpers: \<open>Common_Utils\<close> (\<open>common/utils.js\<close>, \<open>DbUtils.js\<close>, \<open>cryptography.js\<close>, \<open>CIDUtil.js\<close>), \<open>Db_Key\<close>
  (\<open>db/DbKey.js\<close>), \<open>Eng_Cid\<close> (\<open>common/EngCID.js\<close>, \<open>EncoderUtil.js\<close>), \<open>P2p_Messages\<close> (\<open>policy\<close>).

  Tasks: \<open>Level_Db\<close> (\<open>db/LevelDbApi.js\<close>, with the interface \<open>kv_store\<close>), \<open>Task_Results\<close> and \<open>Tasks\<close>
  (\<open>worker/tasks\<close>, with the interface \<open>db_codec\<close> of classes that are stored as JSON), \<open>Task_Manager\<close>
  (\<open>TaskManager.js\<close>). The task manager is refined to the abstract pool and store \<open>task_spec\<close> by \<open>tm_rel\<close>,
  with \<open>coded_store\<close> as the interface between them: verification and the end of a task move it as the
  specification does, when the callbacks of the database run at once. \<open>Task_Interleaving\<close> has the parts
  of the same operations between two database operations as steps, with late answers in any order: no
  task is announced as verified more often than it was submitted, unless two verifications of one id
  overlap, which the lemma \<open>overlapping_verifications\<close> shows to hand a task to core twice.
  \<open>Task_Actions\<close> has the actions of \<open>worker/controller/actions\<close> from the request of a task to the
  committed receipt, and the results of other workers: nothing is executed or stored without a
  verdict, and core reverts exactly when the contract reports a failed callback. \<open>Worker_Tasks\<close> runs
  the manager, the transfer of state keys and these actions together, as \<open>NodeController.js\<close> wires
  them: in any order of steps only approved tasks of users are published, and a request that is
  approved and answered completes. Its steps are atomic, with the callbacks of the
  database at once; the results of other workers are not
  steps of it, and the ids of different requests are taken to differ.

  Ethereum: \<open>Worker_Selection\<close> and \<open>Eth_Verifier\<close> (\<open>ethereum/EthereumVerifier.js\<close>): the weighted choice
  of workers, the listeners and timeouts of tasks as steps, with \<open>listener_table\<close> and \<open>timed_table\<close>
  as the interfaces of both tables. Every verdict is justified, every pending verification keeps
  its listener or is resolved, as long as its handler does not throw and no other verification uses its
  id; \<open>throwing_listener_loses_promise\<close> and \<open>second_listener_replaces_first\<close> show what is lost otherwise. \<open>Eth_Reader\<close>, \<open>Eth_Writer\<close>, \<open>Eth_Services\<close> (the classes of the same
  names): reads at confirmed blocks, events that wait for confirmations, transactions. \<open>Eth_Setup\<close>
  (\<open>EnigmaContractAPIBuilder.js\<close>, \<open>EthereumAPI.js\<close>) builds all of it from the configuration, and its lemma
  \<open>ethereum_comes_up\<close> says that every event that is subscribed to is parsed and listened to.

  Synchronisation: \<open>State_Compare\<close> (\<open>ethereum/StateSync.js\<close>, \<open>LocalMissingStatesResult.js\<close>) computes the
  plan, \<open>Sync_Verify\<close> (\<open>worker/state_sync\<close>) runs it against a provider and verifies what comes back,
  \<open>Sync_Pipeline\<close> (\<open>actions/sync\<close>) composes them. The plan and the requests for it are exact, only
  verified data is written, the first provider that succeeds decides, and an honest provider leads to
  success.

  Core: \<open>Core_Channel\<close> (\<open>core\<close>, envelopes) matches responses with requests by id, \<open>Db_Actions\<close>
  (\<open>actions/db\<close>), \<open>Scheme_Check\<close> (the schemas of messages to core and of synchronisation, and the code
  that strips and checks messages with them): only known fields reach core. \<open>Core_Mock\<close> (the stand-in of the tests), \<open>Ptt\<close> (\<open>PrincipalNode.js\<close>, \<open>GetStateKeysAction.js\<close>
  and the tasks that wait for a transfer of state keys).

  The node: \<open>Rpc_Proxy\<close> follows a request of a user from \<open>client_api/JsonRpcServer.js\<close> through the
  gateway to the worker and back; \<open>Worker_Lifecycle\<close> has the initialisation, the Ethereum actions, the
  reports and \<open>StoppableTask.js\<close>; \<open>Eng_Node\<close> the peer-to-peer node and its protocol handlers;
  \<open>Runtime_Bus\<close> the main controller and its channels (\<open>main_controller\<close>) as steps of runtimes that
  ask and answer; \<open>Launch\<close> the builders, the components and the table of actions of
  \<open>NodeController.js\<close>; \<open>Node_Startup\<close> how the node of \<open>EnigmaNode.js\<close> comes up and how an event of
  libp2p reaches an action; \<open>Cli\<close> the command line; \<open>Node_Facade\<close> the methods of the controller, its
  listeners and template, the prompt, and publish and subscribe.

  State machines are functions on a record of the state with a list of steps (\<open>run_ipc\<close>, \<open>run_life\<close>,
  \<open>bus_run\<close> and the others); the properties hold for every list, proved over an invariant of the
  state (\<open>ipc_inv\<close>, \<open>init_inv\<close>, \<open>bus_inv\<close>). \<open>State_Machines\<close> has the interface of such machines: the locale
  \<open>machine\<close> for an invariant of the steps so far and \<open>lasting\<close> for a fact that stays while the steps are
  quiet, interpreted for the task manager, the IPC client, the subscriptions, the transfers of state keys, the
  initialisation, the runtimes and the worker. Loops are structural or have a measure. The loop that
  chooses a worker group may run forever for a hash that never selects enough workers, so
  \<open>select_loop\<close> is a partial function; the theorem about it says which rounds make it return. The retries
  of the principal node are bounded by the list of answers, and eleven answers are enough.

  Where the code does not do what it seems to mean, the model does what the code does, and a lemma
  shows the consequence: tasks of the pool whose status is never answered (\<open>asyncGetTask_spec\<close>),
  updates of core by any peer (\<open>peer_update_reaches_core\<close>), a pipeline that stays locked
  (\<open>provider_error_locks\<close>), a delta that survives the revert (\<open>revert_leaves_tip\<close>), an event that a
  throwing subscriber gets again (\<open>throwing_callback_called_again\<close>), a callback invoked with two errors
  (\<open>missing_id_called_twice\<close>) and others.

  Not modelled. The HTTP servers, sockets, files, child processes and the logger are input and
  output. Delays are not measured: a timer is a step or a flag. Getters of fields are fields of the
  records. The deprecated actions of core are not reachable, and the generator of test data and the
  fixed database of the stand-in for core belong to the tests.
\<close>

end
